(* ===== verification/Prelude.thy ===== *)
theory Prelude
  imports Main "HOL-Library.Word" "HOL-Library.Monad_Syntax"
begin

text \<open>
  Shared vocabulary of the development.

  \<^item> The C++ fixed-width integers are words: \<open>std::uint8_t\<close> is \<^typ>\<open>8 word\<close> and so on, so
    that \<open>+\<close>, \<open>-\<close> and \<open>*\<close> wrap the way unsigned arithmetic does. \<open>std::size_t\<close> values
    (array indices and sizes, all far below \<open>2 ^ 64\<close>) are \<^typ>\<open>nat\<close>.
  \<^item> \<open>std::array\<close> and \<open>std::vector\<close> are lists. An access outside the array is a
    \<open>std::out_of_range\<close> exception (\<open>.at\<close>) or undefined behaviour (\<open>operator[]\<close>); both are
    \<^const>\<open>None\<close> of the type \<open>'a throws\<close>, which is also what \<open>checked_timer\<close>,
    \<open>checked_channel\<close> and the wave RAM accessors return for a bad index. A \<open>std::optional\<close> result is an
    ordinary \<^typ>\<open>'a option\<close> inside.
  \<^item> \<open>vec_fill\<close> is \<open>std::fill\<close> on a whole array; it is kept folded so that the simplifier
    never expands a 256 KiB array into its elements.
\<close>

unbundle bit_operations_syntax

type_synonym u8 = "8 word"
type_synonym u16 = "16 word"
type_synonym u32 = "32 word"
type_synonym u64 = "64 word"
type_synonym 'a throws = "'a option"

named_theorems flag_bits \<open>tests of one-bit masks as bit tests\<close>
named_theorems wf_intros \<open>operations that preserve a component's well-formedness\<close>

section \<open>Arrays\<close>

definition vec_at :: "'a list \<Rightarrow> nat \<Rightarrow> 'a throws" where
  "vec_at xs i = (if i < length xs then Some (xs ! i) else None)"

definition vec_put :: "'a list \<Rightarrow> nat \<Rightarrow> 'a \<Rightarrow> 'a list throws" where
  "vec_put xs i v = (if i < length xs then Some (xs[i := v]) else None)"

definition vec_fill :: "nat \<Rightarrow> 'a \<Rightarrow> 'a list" where
  "vec_fill n v = replicate n v"

text \<open>\<open>std::fill_n(begin + start, n, v)\<close> and \<open>std::copy(src, begin + start)\<close> on a vector.\<close>

definition vec_fill_range :: "'a list \<Rightarrow> nat \<Rightarrow> nat \<Rightarrow> 'a \<Rightarrow> 'a list throws" where
  "vec_fill_range xs start n v =
     (if start + n \<le> length xs
      then Some (take start xs @ vec_fill n v @ drop (start + n) xs) else None)"

definition vec_blit :: "'a list \<Rightarrow> nat \<Rightarrow> 'a list \<Rightarrow> 'a list throws" where
  "vec_blit xs start ys =
     (if start + length ys \<le> length xs
      then Some (take start xs @ ys @ drop (start + length ys) xs) else None)"

definition vec_slice :: "'a list \<Rightarrow> nat \<Rightarrow> nat \<Rightarrow> 'a list throws" where
  "vec_slice xs start n =
     (if start + n \<le> length xs then Some (take n (drop start xs)) else None)"

text \<open>A \<open>for\<close> loop whose body may throw.\<close>

primrec foldM :: "('a \<Rightarrow> 's \<Rightarrow> 's throws) \<Rightarrow> 'a list \<Rightarrow> 's \<Rightarrow> 's throws" where
  "foldM f [] s = Some s"
| "foldM f (x # xs) s = do {s' \<leftarrow> f x s; foldM f xs s'}"

lemma foldM_append: "foldM f (xs @ ys) s = do {s' \<leftarrow> foldM f xs s; foldM f ys s'}"
  by (induction xs arbitrary: s) (simp_all add: bind_assoc)

lemma foldM_invariant:
  assumes "foldM f xs s = Some s'" and "P s"
    and "\<And>x s s'. x \<in> set xs \<Longrightarrow> P s \<Longrightarrow> f x s = Some s' \<Longrightarrow> P s'"
  shows "P s'"
  using assms
proof (induction xs arbitrary: s)
  case (Cons x xs)
  then obtain t where t: "f x s = Some t" "foldM f xs t = Some s'"
    by (auto split: bind_splits)
  have "P t"
    using Cons.prems(2) t(1) by (rule Cons.prems(3) [rotated]) simp
  with t(2) show ?case
    by (rule Cons.IH) (rule Cons.prems(3), simp_all)
qed simp

text \<open>\<open>yields P r\<close>: the computation does not throw, and its result satisfies \<open>P\<close>.\<close>

definition yields :: "('a \<Rightarrow> bool) \<Rightarrow> 'a throws \<Rightarrow> bool" where
  "yields P r \<longleftrightarrow> (case r of None \<Rightarrow> False | Some x \<Rightarrow> P x)"

lemma yields_simps [simp]: "yields P (Some x) = P x" "yields P None = False"
  by (simp_all add: yields_def)

lemma yields_bind: "yields Q r \<Longrightarrow> (\<And>x. r = Some x \<Longrightarrow> Q x \<Longrightarrow> yields P (f x)) \<Longrightarrow> yields P (r \<bind> f)"
  by (cases r) simp_all

lemma yields_if: "(b \<Longrightarrow> yields P r) \<Longrightarrow> (\<not> b \<Longrightarrow> yields P r') \<Longrightarrow> yields P (if b then r else r')"
  by simp

lemma yields_option: "(v = None \<Longrightarrow> yields P r) \<Longrightarrow> (\<And>x. v = Some x \<Longrightarrow> yields P (f x)) \<Longrightarrow> yields P (case v of None \<Rightarrow> r | Some x \<Rightarrow> f x)"
  by (cases v) simp_all

lemma yields_mono: "yields P r \<Longrightarrow> (\<And>x. P x \<Longrightarrow> Q x) \<Longrightarrow> yields Q r"
  by (cases r) simp_all

lemma yields_map_option: "yields P (map_option f r) = yields (\<lambda>x. P (f x)) r"
  by (cases r) simp_all

lemma yields_any_bind: "yields (\<lambda>_. True) r \<Longrightarrow> (\<And>x. yields P (f x)) \<Longrightarrow> yields P (r \<bind> f)"
  by (cases r) simp_all

lemma foldM_yields:
  assumes "P s" and "\<And>x s. x \<in> set xs \<Longrightarrow> P s \<Longrightarrow> yields P (f x s)"
  shows "yields P (foldM f xs s)"
  using assms
proof (induction xs arbitrary: s)
  case (Cons x xs)
  show ?case
    unfolding foldM.simps using Cons.prems by (intro yields_bind [of P] Cons.IH) simp_all
qed simp

lemma vec_at_in [simp]: "i < length xs \<Longrightarrow> vec_at xs i = Some (xs ! i)"
  by (simp add: vec_at_def)

lemma vec_at_None_iff: "vec_at xs i = None \<longleftrightarrow> length xs \<le> i"
  by (simp add: vec_at_def)

lemma vec_put_in [simp]: "i < length xs \<Longrightarrow> vec_put xs i v = Some (xs[i := v])"
  by (simp add: vec_put_def)

lemma vec_put_SomeD: "vec_put xs i v = Some ys \<Longrightarrow> i < length xs \<and> ys = xs[i := v]"
  by (simp add: vec_put_def split: if_splits)

lemma length_vec_fill [simp]: "length (vec_fill n v) = n"
  by (simp add: vec_fill_def)

lemma nth_vec_fill [simp]: "i < n \<Longrightarrow> vec_fill n v ! i = v"
  by (simp add: vec_fill_def)

lemma set_vec_fill: "set (vec_fill n v) \<subseteq> {v}"
  by (auto simp: vec_fill_def)

lemma vec_fill_range_nth:
  assumes "vec_fill_range xs start n v = Some ys"
  shows "length ys = length xs"
    and "i < length xs \<Longrightarrow> ys ! i = (if start \<le> i \<and> i < start + n then v else xs ! i)"
  using assms by (auto simp: vec_fill_range_def nth_append split: if_splits)

lemma vec_blit_nth:
  assumes "vec_blit xs start zs = Some ys"
  shows "length ys = length xs"
    and "i < length xs \<Longrightarrow>
      ys ! i = (if start \<le> i \<and> i < start + length zs then zs ! (i - start) else xs ! i)"
  using assms by (auto simp: vec_blit_def nth_append add.commute split: if_splits)

lemma vec_slice_blit:
  "vec_blit xs start zs = Some ys \<Longrightarrow> vec_slice ys start (length zs) = Some zs"
  by (auto simp: vec_blit_def vec_slice_def split: if_splits)

section \<open>One-bit flags\<close>

lemma word_eq_bits:
  fixes v w :: "'a::len word"
  shows "v = w \<longleftrightarrow> (\<forall>n < LENGTH('a). bit v n = bit w n)"
  by (auto intro: bit_word_eqI)

lemma word_eq_all_bits:
  fixes v w :: "'a::len word"
  shows "v = w \<longleftrightarrow> (\<forall>n. bit v n = bit w n)"
  by (auto intro: bit_word_eqI)

lemma and_exp_flag:
  fixes w :: "'a::len word"
  assumes "m = 2 ^ n" and "n < LENGTH('a)"
  shows "w AND m = 0 \<longleftrightarrow> \<not> bit w n"
  using assms by (simp add: and_exp_eq_0_iff_not_bit)

lemma flag_bit_u16 [flag_bits]:
  fixes w :: u16
  shows "w AND 1 = 0 \<longleftrightarrow> \<not> bit w 0" "w AND 2 = 0 \<longleftrightarrow> \<not> bit w 1"
    "w AND 4 = 0 \<longleftrightarrow> \<not> bit w 2" "w AND 8 = 0 \<longleftrightarrow> \<not> bit w 3"
    "w AND 0x10 = 0 \<longleftrightarrow> \<not> bit w 4" "w AND 0x20 = 0 \<longleftrightarrow> \<not> bit w 5"
    "w AND 0x40 = 0 \<longleftrightarrow> \<not> bit w 6" "w AND 0x80 = 0 \<longleftrightarrow> \<not> bit w 7"
    "w AND 0x100 = 0 \<longleftrightarrow> \<not> bit w 8" "w AND 0x200 = 0 \<longleftrightarrow> \<not> bit w 9"
    "w AND 0x400 = 0 \<longleftrightarrow> \<not> bit w 10" "w AND 0x800 = 0 \<longleftrightarrow> \<not> bit w 11"
    "w AND 0x1000 = 0 \<longleftrightarrow> \<not> bit w 12" "w AND 0x2000 = 0 \<longleftrightarrow> \<not> bit w 13"
    "w AND 0x4000 = 0 \<longleftrightarrow> \<not> bit w 14" "w AND 0x8000 = 0 \<longleftrightarrow> \<not> bit w 15"
  by (rule and_exp_flag; simp)+

lemma and_mask_absorb:
  fixes w :: "'a::len word"
  shows "(w AND m) AND NOT m = 0" "(w AND m) AND m = w AND m"
  by (simp_all add: and.assoc)

lemma subset_mask_iff:
  fixes w :: "'a::len word"
  shows "w AND NOT m = 0 \<longleftrightarrow> w AND m = w"
  by (auto simp: bit_eq_iff bit_simps)

lemma and_FF_u8 [simp]: "0xFF AND v = v" "v AND 0xFF = v" for v :: u8
proof -
  have "(0xFF :: u8) = - 1"
    by simp
  then show "0xFF AND v = v" "v AND 0xFF = v"
    by (simp_all only: and.left_neutral and.right_neutral)
qed

section \<open>Words as natural numbers\<close>

named_theorems word_nat \<open>low-bit masks and shifts of words, read as natural numbers\<close>

lemma unat_and_mask [word_nat]:
  fixes w :: "'a::len word"
  shows "unat (w AND mask n) = unat w mod 2 ^ n"
  unfolding take_bit_eq_mask [symmetric] unsigned_take_bit_eq by (rule take_bit_eq_mod)

lemma unat_drop_bit [word_nat]:
  fixes w :: "'a::len word"
  shows "unat (drop_bit n w) = unat w div 2 ^ n"
  unfolding unat_drop_bit_eq by (rule drop_bit_eq_div)

lemma unat_and_low_bits:
  fixes w m :: "'a::len word"
  assumes "m = mask n"
  shows "unat (w AND m) = unat w mod 2 ^ n"
  using assms by (simp only: unat_and_mask)

lemma mask_numeral_eq:
  "(1 :: 'a::len word) = mask 1" "(3 :: 'a word) = mask 2" "(7 :: 'a word) = mask 3"
  "(0xF :: 'a word) = mask 4" "(0xFF :: 'a word) = mask 8" "(0x1FF :: 'a word) = mask 9"
  "(0x3FF :: 'a word) = mask 10" "(0x3FFF :: 'a word) = mask 14" "(0x7FFF :: 'a word) = mask 15"
  "(0xFFFF :: 'a word) = mask 16" "(0x1FFFF :: 'a word) = mask 17" "(0x3FFFF :: 'a word) = mask 18"
  "(0xFFFFFF :: 'a word) = mask 24" "(0x1FFFFFF :: 'a word) = mask 25"
  "(0x7FFFFFF :: 'a word) = mask 27" "(0xFFFFFFF :: 'a word) = mask 28"
  by (simp_all add: mask_eq_exp_minus_1)

lemma unat_and_numeral [word_nat]:
  fixes w :: "'a::len word"
  shows "unat (w AND 1) = unat w mod 2" "unat (w AND 3) = unat w mod 4" "unat (w AND 7) = unat w mod 8"
    "unat (w AND 0xF) = unat w mod 16" "unat (w AND 0xFF) = unat w mod 256"
    "unat (w AND 0x1FF) = unat w mod 512" "unat (w AND 0x3FF) = unat w mod 1024"
    "unat (w AND 0x3FFF) = unat w mod 16384" "unat (w AND 0x7FFF) = unat w mod 32768"
    "unat (w AND 0xFFFF) = unat w mod 65536" "unat (w AND 0x1FFFF) = unat w mod 131072"
    "unat (w AND 0x3FFFF) = unat w mod 262144" "unat (w AND 0xFFFFFF) = unat w mod 16777216"
    "unat (w AND 0x1FFFFFF) = unat w mod 33554432" "unat (w AND 0x7FFFFFF) = unat w mod 134217728"
    "unat (w AND 0xFFFFFFF) = unat w mod 268435456"
  by (subst unat_and_low_bits, rule mask_numeral_eq, simp)+

lemma unat_and_not_mask: "unat (a AND NOT (mask n)) = unat a div 2 ^ n * 2 ^ n" for a :: "'a::len word"
proof -
  have eq: "a AND NOT (mask n) = push_bit n (drop_bit n a)"
    by (rule bit_word_eqI) (auto simp: bit_simps)
  have lt: "unat a div 2 ^ n * 2 ^ n < 2 ^ LENGTH('a)"
    using div_times_less_eq_dividend [of "unat a" "2 ^ n"] unsigned_less [of a, where 'a = nat]
    by (rule le_less_trans)
  have "unat (push_bit n (drop_bit n a)) = take_bit LENGTH('a) (push_bit n (unat a div 2 ^ n))"
    by (simp only: unsigned_push_bit_eq unat_drop_bit)
  also have "\<dots> = unat a div 2 ^ n * 2 ^ n"
    using lt by (simp only: push_bit_eq_mult take_bit_nat_eq_self)
  finally show ?thesis
    unfolding eq .
qed

lemma unat_u32_less [simp]: "unat (a :: u32) < 4294967296"
  using unsigned_less [of a, where 'a = nat] by simp

lemma unat_u16_less [simp]: "unat (a :: u16) < 65536"
  using unsigned_less [of a, where 'a = nat] by simp

lemma unat_u8_less [simp]: "unat (a :: u8) < 256"
  using unsigned_less [of a, where 'a = nat] by simp

lemma unat_u64_less [simp]: "unat (a :: u64) < 18446744073709551616"
  using unsigned_less [of a, where 'a = nat] by simp

text \<open>Widening casts keep the value; narrowing casts keep the low bits.\<close>

lemma unat_ucast_widen [simp, word_nat]:
  "unat (ucast (a :: u8) :: u16) = unat a" "unat (ucast (a :: u8) :: u32) = unat a"
  "unat (ucast (b :: u16) :: u32) = unat b" "unat (ucast (b :: u16) :: u64) = unat b"
  "unat (ucast (c :: u32) :: u64) = unat c" "unat (ucast (a :: u8) :: u64) = unat a"
  by (simp_all add: unsigned_ucast_eq take_bit_nat_eq_self less_trans [OF unat_u8_less]
      less_trans [OF unat_u16_less] less_trans [OF unat_u32_less])

lemma unat_ucast_narrow [word_nat]:
  "unat (ucast (b :: u16) :: u8) = unat b mod 256" "unat (ucast (c :: u32) :: u8) = unat c mod 256"
  "unat (ucast (c :: u32) :: u16) = unat c mod 65536" "unat (ucast (d :: u64) :: u16) = unat d mod 65536"
  "unat (ucast (d :: u64) :: u32) = unat d mod 4294967296"
  by (simp_all add: unsigned_ucast_eq take_bit_eq_mod)

lemma ucast_ucast_widen [simp]: "(ucast (ucast (b :: u16) :: u32) :: u64) = ucast b"
  by (simp add: word_unat_eq_iff)

lemma ucast_u16_u32_eq_iff [simp]: "(ucast (a :: u16) :: u32) = ucast b \<longleftrightarrow> a = b"
  by (simp add: word_unat_eq_iff)

section \<open>Aligned values and the lanes above them\<close>

lemma lane_less:
  assumes "n dvd y" "n dvd m" "y < m" "k < (n::nat)"
  shows "y + k < m"
proof -
  obtain q where q: "y = n * q"
    using assms(1) by (rule dvdE)
  obtain r where r: "m = n * r"
    using assms(2) by (rule dvdE)
  have "q + 1 \<le> r"
    using assms(3) unfolding q r by simp
  then have "n * (q + 1) \<le> m"
    unfolding r by (rule mult_le_mono2)
  then show ?thesis
    using assms(4) q by simp
qed

lemma lane_mod:
  assumes "n dvd x" "n dvd m" "k < (n::nat)" "0 < m"
  shows "(x + k) mod m = x mod m + k"
proof -
  have "x mod m + k < m"
    using assms by (intro lane_less [of n]) (simp_all add: dvd_mod)
  then show ?thesis
    using mod_add_left_eq [of x m k] by simp
qed

lemma lane_div:
  assumes "n dvd x" "n dvd m" "k < (n::nat)" "0 < m"
  shows "(x + k) div m = x div m"
proof -
  have "x mod m + k < m"
    using assms by (intro lane_less [of n]) (simp_all add: dvd_mod)
  moreover have "(q * m + r) div m = q" if "r < m" for q r :: nat
    using that by simp
  ultimately have "(x div m * m + (x mod m + k)) div m = x div m"
    by blast
  moreover have "x div m * m + (x mod m + k) = x + k"
    by (simp add: add.assoc [symmetric])
  ultimately show ?thesis
    by (simp only:)
qed

section \<open>Residues\<close>

lemma mod_eq_close:
  fixes x y m :: nat
  assumes "x \<le> y" and "y < x + m" and "y mod m = x mod m"
  shows "x = y"
proof -
  have "m dvd y - x"
    using assms(1,3) mod_eq_dvd_iff_nat by blast
  moreover have "y - x < m"
    using assms(1,2) by linarith
  ultimately have "y - x = 0"
    using nat_dvd_not_less by blast
  then show ?thesis
    using assms(1) by simp
qed

lemma inj_on_mod_window: "inj_on (\<lambda>t. t mod m) {a<..a + m}" for m a :: nat
proof (rule inj_onI)
  fix x y
  assume "x \<in> {a<..a + m}" "y \<in> {a<..a + m}" "x mod m = y mod m"
  then show "x = y"
    using mod_eq_close [of x y m] mod_eq_close [of y x m] by (cases "x \<le> y") auto
qed

lemma div_block_iff: "0 < n \<Longrightarrow> q * n \<le> i \<and> i < q * n + n \<longleftrightarrow> i div n = q" for n q i :: nat
  by (metis add.commute div_nat_eqI dividend_less_times_div div_times_less_eq_dividend mult.commute mult_Suc_right)

end
