(* ===== verification/State_Hash.thy ===== *)
theory State_Hash
  imports Prelude
begin

text \<open>
  The 64-bit FNV-1a accumulator of \<open>src/include/gba/core/state_hash.hpp\<close>. Every component's \<open>state_hash\<close>
  feeds its fields to a \<open>StateHasher\<close>; regression tests compare the resulting fingerprints. The state of a
  hasher is its one word \<open>hash_\<close>, and each \<open>add_*\<close> method is a function on it. The lemmas read every
  \<open>add_*\<close> as a fold of \<open>add_u8\<close> over the little-endian bytes of its argument and show that a step can
  be undone, so that no single-byte change of the hashed data is missed.
\<close>

definition kOffsetBasis :: u64 where "kOffsetBasis = 14695981039346656037"
definition kPrime :: u64 where "kPrime = 1099511628211"

definition add_u8 :: "u8 \<Rightarrow> u64 \<Rightarrow> u64" where
  "add_u8 v h = (h XOR ucast v) * kPrime"

definition add_u16 :: "u16 \<Rightarrow> u64 \<Rightarrow> u64" where
  "add_u16 v h =
     add_u8 (ucast (drop_bit 8 v AND 0xFF)) (add_u8 (ucast (v AND 0xFF)) h)"

definition add_u32 :: "u32 \<Rightarrow> u64 \<Rightarrow> u64" where
  "add_u32 v h =
     fold (\<lambda>byte. add_u8 (ucast (drop_bit (byte * 8) v AND 0xFF))) [0..<4] h"

definition add_u64 :: "u64 \<Rightarrow> u64 \<Rightarrow> u64" where
  "add_u64 v h =
     fold (\<lambda>byte. add_u8 (ucast (drop_bit (byte * 8) v AND 0xFF))) [0..<8] h"

definition add_bool :: "bool \<Rightarrow> u64 \<Rightarrow> u64" where
  "add_bool b = add_u8 (if b then 1 else 0)"

definition add_bytes :: "u8 list \<Rightarrow> u64 \<Rightarrow> u64" where
  "add_bytes bytes h = fold add_u8 bytes (add_u64 (of_nat (length bytes)) h)"

definition combine_state_hash :: "u64 \<Rightarrow> u64 \<Rightarrow> u64" where
  "combine_state_hash left right = add_u64 right (add_u64 left kOffsetBasis)"

section \<open>The byte stream behind a hash\<close>

definition le_bytes :: "nat \<Rightarrow> 'a::len word \<Rightarrow> u8 list" where
  "le_bytes n v = map (\<lambda>byte. ucast (drop_bit (byte * 8) v)) [0..<n]"

lemma length_le_bytes [simp]: "length (le_bytes n v) = n"
  by (simp add: le_bytes_def)

lemma ucast_and_FF: "(ucast (w AND 0xFF) :: u8) = ucast w" for w :: "'a::len word"
proof -
  have m: "w AND 0xFF = take_bit 8 w"
    by (simp add: take_bit_eq_mask mask_eq_exp_minus_1)
  show ?thesis
    unfolding m by (simp add: word_eq_bits bit_simps)
qed

lemma add_as_bytes:
  "add_u16 a = fold add_u8 (le_bytes 2 a)"
  "add_u32 b = fold add_u8 (le_bytes 4 b)"
  "add_u64 c = fold add_u8 (le_bytes 8 c)"
  by (simp_all add: fun_eq_iff add_u16_def add_u32_def add_u64_def le_bytes_def fold_map o_def ucast_and_FF
      numeral_2_eq_2)

section \<open>One step can be undone\<close>

definition kPrime_inverse :: u64 where "kPrime_inverse = 0xCE965057AFF6957B"

lemma kPrime_inverse: "kPrime * kPrime_inverse = 1"
  by (simp add: kPrime_def kPrime_inverse_def)

lemma add_u8_undo: "add_u8 v h * kPrime_inverse XOR ucast v = h"
  by (simp add: add_u8_def mult.assoc kPrime_inverse xor.assoc)

lemma add_u8_inject [simp]: "add_u8 v h = add_u8 v h' \<longleftrightarrow> h = h'"
  using add_u8_undo by metis

lemma add_u8_value_inject [simp]: "add_u8 v h = add_u8 w h \<longleftrightarrow> v = w"
proof
  assume "add_u8 v h = add_u8 w h"
  then have "(h XOR ucast v) * kPrime * kPrime_inverse = (h XOR ucast w) * kPrime * kPrime_inverse"
    by (simp add: add_u8_def)
  then have "h XOR (h XOR ucast v) = h XOR (h XOR (ucast w :: u64))"
    by (simp add: mult.assoc kPrime_inverse)
  then have "(ucast v :: u64) = ucast w"
    by (simp add: xor.assoc [symmetric])
  then show "v = w"
    by (simp add: word_unat_eq_iff)
qed simp

lemma fold_add_u8_inject [simp]: "fold add_u8 bs h = fold add_u8 bs h' \<longleftrightarrow> h = h'"
  by (induction bs arbitrary: h h') auto

lemma fold_add_u8_update:
  "i < length bs \<Longrightarrow> fold add_u8 (bs[i := b]) h = fold add_u8 bs h \<longleftrightarrow> b = bs ! i"
  by (induction bs arbitrary: i h) (auto simp: nth_Cons' split: nat.splits)

text \<open>Single-byte sensitivity of the state fingerprint. Hashing a byte container after changing any one of its
  bytes gives a different 64-bit value, from whatever hash state the container is added to and whatever is added
  after it.\<close>

lemma add_bytes_detects_change:
  assumes "i < length bytes" and "b \<noteq> bytes ! i"
  shows "fold add_u8 later (add_bytes (bytes[i := b]) h) \<noteq> fold add_u8 later (add_bytes bytes h)"
  using assms by (simp add: add_bytes_def fold_add_u8_update)

end
