(* ===== verification/Interrupts.thy ===== *)
theory Interrupts
  imports State_Hash
begin

text \<open>
  The interrupt controller (\<open>include/gba/core/interrupt_controller.hpp\<close>,
  \<open>src/core/interrupt_controller.cpp\<close>): the IE, IF and IME registers. The concrete state is the pair of
  16-bit masks and the master flag; the abstract one is the set of enabled and of pending sources. Devices
  only raise interrupts, so what they rely on is stated once as the locale \<open>irq_sink\<close>.
\<close>

section \<open>State and operations\<close>

datatype interrupt_source =
    Irq_vblank | Irq_hblank | Irq_vcount
  | Irq_timer0 | Irq_timer1 | Irq_timer2 | Irq_timer3
  | Irq_serial
  | Irq_dma0 | Irq_dma1 | Irq_dma2 | Irq_dma3
  | Irq_keypad | Irq_game_pak

primrec interrupt_source_code :: "interrupt_source \<Rightarrow> nat" where
  "interrupt_source_code Irq_vblank = 0"
| "interrupt_source_code Irq_hblank = 1"
| "interrupt_source_code Irq_vcount = 2"
| "interrupt_source_code Irq_timer0 = 3"
| "interrupt_source_code Irq_timer1 = 4"
| "interrupt_source_code Irq_timer2 = 5"
| "interrupt_source_code Irq_timer3 = 6"
| "interrupt_source_code Irq_serial = 7"
| "interrupt_source_code Irq_dma0 = 8"
| "interrupt_source_code Irq_dma1 = 9"
| "interrupt_source_code Irq_dma2 = 10"
| "interrupt_source_code Irq_dma3 = 11"
| "interrupt_source_code Irq_keypad = 12"
| "interrupt_source_code Irq_game_pak = 13"

definition kSupportedMask :: u16 where
  "kSupportedMask = 0x3FFF"

record interrupt_controller =
  interrupt_enable :: u16
  interrupt_flags :: u16
  ic_master_enabled :: bool

definition interrupt_bit :: "interrupt_source \<Rightarrow> u16" where
  "interrupt_bit source = push_bit (interrupt_source_code source) 1"

definition ic_reset :: interrupt_controller where
  "ic_reset = \<lparr>interrupt_enable = 0, interrupt_flags = 0, ic_master_enabled = False\<rparr>"

definition ic_ime :: "interrupt_controller \<Rightarrow> u16" where
  "ic_ime ic = (if ic_master_enabled ic then 1 else 0)"

definition ic_write_interrupt_enable :: "u16 \<Rightarrow> interrupt_controller \<Rightarrow> interrupt_controller" where
  "ic_write_interrupt_enable value ic = ic\<lparr>interrupt_enable := value AND kSupportedMask\<rparr>"

definition ic_write_interrupt_flags :: "u16 \<Rightarrow> interrupt_controller \<Rightarrow> interrupt_controller" where
  "ic_write_interrupt_flags acknowledge_mask ic =
     ic\<lparr>interrupt_flags := interrupt_flags ic AND NOT (acknowledge_mask AND kSupportedMask)\<rparr>"

definition ic_write_ime :: "u16 \<Rightarrow> interrupt_controller \<Rightarrow> interrupt_controller" where
  "ic_write_ime value ic = ic\<lparr>ic_master_enabled := value AND 1 \<noteq> 0\<rparr>"

definition ic_set_master_enabled :: "bool \<Rightarrow> interrupt_controller \<Rightarrow> interrupt_controller" where
  "ic_set_master_enabled on ic = ic\<lparr>ic_master_enabled := on\<rparr>"

definition ic_request :: "interrupt_source \<Rightarrow> interrupt_controller \<Rightarrow> interrupt_controller" where
  "ic_request source ic =
     ic\<lparr>interrupt_flags := interrupt_flags ic OR (interrupt_bit source AND kSupportedMask)\<rparr>"

definition ic_requested :: "interrupt_source \<Rightarrow> interrupt_controller \<Rightarrow> bool" where
  "ic_requested source ic \<longleftrightarrow> interrupt_flags ic AND interrupt_bit source \<noteq> 0"

definition ic_enabled :: "interrupt_source \<Rightarrow> interrupt_controller \<Rightarrow> bool" where
  "ic_enabled source ic \<longleftrightarrow> interrupt_enable ic AND interrupt_bit source \<noteq> 0"

definition ic_pending_mask :: "interrupt_controller \<Rightarrow> u16" where
  "ic_pending_mask ic = interrupt_enable ic AND interrupt_flags ic AND kSupportedMask"

definition ic_irq_line_active :: "interrupt_controller \<Rightarrow> bool" where
  "ic_irq_line_active ic \<longleftrightarrow>
     ic_master_enabled ic \<and> interrupt_enable ic AND interrupt_flags ic AND kSupportedMask \<noteq> 0"

definition ic_irq_line :: "interrupt_controller \<Rightarrow> bool" where
  "ic_irq_line ic = ic_irq_line_active ic"

definition ic_state_hash :: "interrupt_controller \<Rightarrow> u64" where
  "ic_state_hash ic =
     add_bool (ic_master_enabled ic) (add_u16 (interrupt_flags ic) (add_u16 (interrupt_enable ic) kOffsetBasis))"

text \<open>The writes a program or a device can make, as one type, and their effect.\<close>

datatype ic_op =
    Ic_write_ie u16 | Ic_write_if u16 | Ic_write_ime u16 | Ic_set_master bool
  | Ic_request interrupt_source

primrec ic_apply :: "ic_op \<Rightarrow> interrupt_controller \<Rightarrow> interrupt_controller" where
  "ic_apply (Ic_write_ie v) ic = ic_write_interrupt_enable v ic"
| "ic_apply (Ic_write_if v) ic = ic_write_interrupt_flags v ic"
| "ic_apply (Ic_write_ime v) ic = ic_write_ime v ic"
| "ic_apply (Ic_set_master b) ic = ic_set_master_enabled b ic"
| "ic_apply (Ic_request s) ic = ic_request s ic"

section \<open>The sources as a finite type\<close>

instantiation interrupt_source :: enum
begin

definition enum_interrupt_source :: "interrupt_source list" where
  "enum_interrupt_source =
     [Irq_vblank, Irq_hblank, Irq_vcount, Irq_timer0, Irq_timer1, Irq_timer2, Irq_timer3,
      Irq_serial, Irq_dma0, Irq_dma1, Irq_dma2, Irq_dma3, Irq_keypad, Irq_game_pak]"

definition enum_all_interrupt_source :: "(interrupt_source \<Rightarrow> bool) \<Rightarrow> bool" where
  "enum_all_interrupt_source P \<longleftrightarrow> list_all P enum_class.enum"

definition enum_ex_interrupt_source :: "(interrupt_source \<Rightarrow> bool) \<Rightarrow> bool" where
  "enum_ex_interrupt_source P \<longleftrightarrow> list_ex P enum_class.enum"

instance
proof
  show univ: "UNIV = set (enum_class.enum :: interrupt_source list)"
    by (auto simp: enum_interrupt_source_def intro: interrupt_source.exhaust)
  show "distinct (enum_class.enum :: interrupt_source list)"
    by (simp add: enum_interrupt_source_def)
  show "\<And>P. enum_class.enum_all P \<longleftrightarrow> Ball (UNIV :: interrupt_source set) P"
    by (simp add: enum_all_interrupt_source_def list_all_iff univ)
  show "\<And>P. enum_class.enum_ex P \<longleftrightarrow> Bex (UNIV :: interrupt_source set) P"
    by (simp add: enum_ex_interrupt_source_def list_ex_iff univ)
qed

end

lemma interrupt_source_code_less [simp]: "interrupt_source_code s < 14"
  by (cases s) simp_all

lemma interrupt_source_code_inj [simp]:
  "interrupt_source_code s = interrupt_source_code t \<longleftrightarrow> s = t"
  by (cases s; cases t) simp_all

lemma interrupt_source_code_surj: "n < 14 \<Longrightarrow> \<exists>s. interrupt_source_code s = n"
proof -
  assume "n < 14"
  then have "n \<in> {13, 12, 11, 10, 9, 8, 7, 6, 5, 4, 3, 2, 1, 0}"
    by (simp, presburger)
  then show ?thesis
    by (elim insertE emptyE) (metis interrupt_source_code.simps)+
qed

section \<open>Bits\<close>

lemma kSupportedMask_bit [simp]: "bit kSupportedMask n \<longleftrightarrow> n < 14"
proof -
  have "kSupportedMask = mask 14"
    by (simp add: kSupportedMask_def mask_eq_exp_minus_1)
  then have "bit kSupportedMask n \<longleftrightarrow> bit (mask 14 :: u16) n"
    by simp
  then show ?thesis
    by (auto simp: bit_simps)
qed

lemma interrupt_bit_bit [simp]: "bit (interrupt_bit s) n \<longleftrightarrow> n = interrupt_source_code s"
proof -
  have "interrupt_source_code s < 16"
    using interrupt_source_code_less [of s] by linarith
  then show ?thesis
    by (auto simp: interrupt_bit_def bit_simps bit_1_iff)
qed

lemma and_interrupt_bit [simp]: "w AND interrupt_bit s = 0 \<longleftrightarrow> \<not> bit w (interrupt_source_code s)"
  using less_trans [OF interrupt_source_code_less [of s], of 16]
  by (auto simp: word_eq_bits bit_simps)

lemma supported_and_nonzero:
  "w AND kSupportedMask \<noteq> 0 \<longleftrightarrow> (\<exists>s. bit w (interrupt_source_code s))"
proof
  assume "w AND kSupportedMask \<noteq> 0"
  then obtain n where "bit w n" "n < 14"
    by (auto simp: word_eq_bits bit_simps)
  then show "\<exists>s. bit w (interrupt_source_code s)"
    using interrupt_source_code_surj by blast
next
  assume "\<exists>s. bit w (interrupt_source_code s)"
  then obtain s where "bit w (interrupt_source_code s)" ..
  then have "bit (w AND kSupportedMask) (interrupt_source_code s)"
    by (simp add: bit_simps)
  then show "w AND kSupportedMask \<noteq> 0"
    by auto
qed

section \<open>Abstract specification: sets of sources\<close>

record irq_spec =
  spec_enabled :: "interrupt_source set"
  spec_pending :: "interrupt_source set"
  spec_master :: bool

definition sources_of :: "u16 \<Rightarrow> interrupt_source set" where
  "sources_of w = {s. bit w (interrupt_source_code s)}"

definition ic_abs :: "interrupt_controller \<Rightarrow> irq_spec" where
  "ic_abs ic = \<lparr>spec_enabled = sources_of (interrupt_enable ic),
                spec_pending = sources_of (interrupt_flags ic),
                spec_master = ic_master_enabled ic\<rparr>"

primrec irq_spec_apply :: "ic_op \<Rightarrow> irq_spec \<Rightarrow> irq_spec" where
  "irq_spec_apply (Ic_write_ie v) i = i\<lparr>spec_enabled := sources_of v\<rparr>"
| "irq_spec_apply (Ic_write_if v) i = i\<lparr>spec_pending := spec_pending i - sources_of v\<rparr>"
| "irq_spec_apply (Ic_write_ime v) i = i\<lparr>spec_master := bit v 0\<rparr>"
| "irq_spec_apply (Ic_set_master b) i = i\<lparr>spec_master := b\<rparr>"
| "irq_spec_apply (Ic_request s) i = i\<lparr>spec_pending := insert s (spec_pending i)\<rparr>"

definition irq_spec_line :: "irq_spec \<Rightarrow> bool" where
  "irq_spec_line i \<longleftrightarrow> spec_master i \<and> spec_enabled i \<inter> spec_pending i \<noteq> {}"

lemma sources_of_simps [simp]:
  "sources_of 0 = {}"
  "sources_of kSupportedMask = UNIV"
  "sources_of (NOT w) = - sources_of w"
  "sources_of (v AND w) = sources_of v \<inter> sources_of w"
  "sources_of (v OR w) = sources_of v \<union> sources_of w"
  "sources_of (interrupt_bit s) = {s}"
  using interrupt_source_code_less
  by (auto simp: sources_of_def bit_simps less_trans [OF interrupt_source_code_less])

text \<open>C40. Refinement of the interrupt controller. On the abstraction to sets of interrupt sources, every
  register write and every request of the 16-bit implementation does what the specification says (IE is
  replaced, an IF write acknowledges exactly the written sources, IME is its bit 0, a request adds its source),
  and the IRQ line is high exactly when the master enable is set and some source is both enabled and pending.\<close>

theorem ic_refines_spec:
  "ic_abs (ic_apply oper ic) = irq_spec_apply oper (ic_abs ic)
   \<and> ic_irq_line ic = irq_spec_line (ic_abs ic)"
proof
  show "ic_abs (ic_apply oper ic) = irq_spec_apply oper (ic_abs ic)"
    by (cases oper)
      (simp_all add: ic_abs_def ic_write_interrupt_enable_def ic_write_interrupt_flags_def
        ic_write_ime_def ic_set_master_enabled_def ic_request_def flag_bits Diff_eq)
  show "ic_irq_line ic = irq_spec_line (ic_abs ic)"
    using supported_and_nonzero [of "interrupt_enable ic AND interrupt_flags ic"]
    by (auto simp: ic_irq_line_def ic_irq_line_active_def irq_spec_line_def ic_abs_def sources_of_def
        bit_simps and.assoc)
qed

section \<open>Invariant\<close>

definition ic_wf :: "interrupt_controller \<Rightarrow> bool" where
  "ic_wf ic \<longleftrightarrow> interrupt_enable ic AND NOT kSupportedMask = 0
              \<and> interrupt_flags ic AND NOT kSupportedMask = 0"

lemma ic_wf_reset [wf_intros]: "ic_wf ic_reset"
  by (simp add: ic_wf_def ic_reset_def)

lemma ic_wf_apply [wf_intros]: "ic_wf ic \<Longrightarrow> ic_wf (ic_apply oper ic)"
  by (cases oper)
    (auto simp: ic_wf_def ic_write_interrupt_enable_def ic_write_interrupt_flags_def ic_write_ime_def
      ic_set_master_enabled_def ic_request_def word_eq_bits bit_simps)

lemma ic_wf_request [wf_intros]: "ic_wf ic \<Longrightarrow> ic_wf (ic_request s ic)"
  using ic_wf_apply [of ic "Ic_request s"] by simp

section \<open>The interface devices use\<close>

text \<open>A sink absorbs events whose order and multiplicity do not matter; an interrupt sink also shows which
  sources are pending.\<close>

locale event_sink =
  fixes request :: "'e \<Rightarrow> 's \<Rightarrow> 's"
  assumes request_commute: "request a (request b i) = request b (request a i)"
    and request_idem: "request a (request a i) = request a i"
begin

lemma fold_request_set:
  assumes "set as = set bs"
  shows "fold request as i = fold request bs i"
proof -
  have idem: "comp_fun_idem_on UNIV request"
    by unfold_locales (auto simp: fun_eq_iff request_commute request_idem)
  have "fold request as i = Finite_Set.fold request i (set as)"
    by (rule comp_fun_idem_on.fold_set_fold [OF idem, symmetric]) simp
  also have "\<dots> = fold request bs i"
    unfolding assms by (rule comp_fun_idem_on.fold_set_fold [OF idem]) simp
  finally show ?thesis .
qed

lemma fold_request_append_set:
  assumes "set es = set as \<union> set bs"
  shows "fold request es i = fold request bs (fold request as i)"
  using fold_request_set [of es "as @ bs" i] assms by simp

end

locale irq_sink = event_sink request
  for request :: "interrupt_source \<Rightarrow> 's \<Rightarrow> 's" +
  fixes pending :: "'s \<Rightarrow> interrupt_source set"
  assumes pending_request: "pending (request a i) = insert a (pending i)"
begin

lemma pending_fold: "pending (fold request as i) = set as \<union> pending i"
  by (induction as arbitrary: i) (auto simp: pending_request)

end

interpretation ic_sink: irq_sink ic_request "\<lambda>ic. sources_of (interrupt_flags ic)"
proof
  show "ic_request a (ic_request b i) = ic_request b (ic_request a i)" for a b i
    by (simp add: ic_request_def ac_simps)
  show "ic_request a (ic_request a i) = ic_request a i" for a i
    by (simp add: ic_request_def ac_simps)
  show "sources_of (interrupt_flags (ic_request a i)) = insert a (sources_of (interrupt_flags i))" for a i
    by (simp add: ic_request_def)
qed

lemma ic_request_frame [simp]:
  "interrupt_enable (ic_request s ic) = interrupt_enable ic"
  "ic_master_enabled (ic_request s ic) = ic_master_enabled ic"
  by (simp_all add: ic_request_def)

lemma ic_requested_request [simp]:
  "ic_requested s (ic_request t ic) \<longleftrightarrow> s = t \<or> ic_requested s ic"
  by (auto simp: ic_requested_def ic_request_def bit_simps less_trans [OF interrupt_source_code_less])

end
