(* ===== verification/Keypad.thy ===== *)
theory Keypad
  imports Interrupts
begin

text \<open>
  The keypad (\<open>include/gba/core/keypad.hpp\<close>, \<open>src/core/keypad.cpp\<close>): the mask of pressed buttons
  and KEYCNT. KEYINPUT is active low; the key interrupt is raised when some (OR mode) or all (AND mode) of the
  selected buttons are down.
\<close>

section \<open>State and operations\<close>

datatype keypad_button =
  Button_a | Button_b | Button_select | Button_start | Button_right | Button_left
| Button_up | Button_down | Button_r | Button_l

primrec keypad_button_mask :: "keypad_button \<Rightarrow> u16" where
  "keypad_button_mask Button_a = 0x0001"
| "keypad_button_mask Button_b = 0x0002"
| "keypad_button_mask Button_select = 0x0004"
| "keypad_button_mask Button_start = 0x0008"
| "keypad_button_mask Button_right = 0x0010"
| "keypad_button_mask Button_left = 0x0020"
| "keypad_button_mask Button_up = 0x0040"
| "keypad_button_mask Button_down = 0x0080"
| "keypad_button_mask Button_r = 0x0100"
| "keypad_button_mask Button_l = 0x0200"

record keypad =
  pressed_mask :: u16
  keycnt :: u16

definition kButtonMask :: u16 where "kButtonMask = 0x03FF"
definition kKeypadIrqEnable :: u16 where "kKeypadIrqEnable = 0x4000"
definition kIrqConditionAnd :: u16 where "kIrqConditionAnd = 0x8000"

definition keypad_reset :: keypad where
  "keypad_reset = \<lparr>pressed_mask = 0, keycnt = 0\<rparr>"

definition keypad_set_pressed_mask :: "u16 \<Rightarrow> keypad \<Rightarrow> bool \<times> keypad" where
  "keypad_set_pressed_mask new_mask k =
     (if new_mask AND NOT kButtonMask \<noteq> 0 then (False, k)
      else (True, k\<lparr>pressed_mask := new_mask\<rparr>))"

definition keypad_press :: "keypad_button \<Rightarrow> keypad \<Rightarrow> keypad" where
  "keypad_press button k = k\<lparr>pressed_mask := pressed_mask k OR keypad_button_mask button\<rparr>"

definition keypad_release :: "keypad_button \<Rightarrow> keypad \<Rightarrow> keypad" where
  "keypad_release button k = k\<lparr>pressed_mask := pressed_mask k AND NOT (keypad_button_mask button)\<rparr>"

definition keypad_write_keycnt :: "u16 \<Rightarrow> keypad \<Rightarrow> keypad" where
  "keypad_write_keycnt value k =
     k\<lparr>keycnt := value AND (kButtonMask OR kKeypadIrqEnable OR kIrqConditionAnd)\<rparr>"

definition keypad_keyinput :: "keypad \<Rightarrow> u16" where
  "keypad_keyinput k = NOT (pressed_mask k) AND kButtonMask"

definition keypad_irq_enabled :: "keypad \<Rightarrow> bool" where
  "keypad_irq_enabled k \<longleftrightarrow> keycnt k AND kKeypadIrqEnable \<noteq> 0"

definition keypad_irq_condition_and :: "keypad \<Rightarrow> bool" where
  "keypad_irq_condition_and k \<longleftrightarrow> keycnt k AND kIrqConditionAnd \<noteq> 0"

definition keypad_irq_condition_met :: "keypad \<Rightarrow> bool" where
  "keypad_irq_condition_met k \<longleftrightarrow>
     (if \<not> keypad_irq_enabled k then False
      else let selected = keycnt k AND kButtonMask in
        if selected = 0 then False
        else let pressed_selected = pressed_mask k AND selected in
          if keypad_irq_condition_and k then pressed_selected = selected
          else pressed_selected \<noteq> 0)"

definition keypad_poll_interrupt :: "keypad \<Rightarrow> interrupt_controller \<Rightarrow> interrupt_controller" where
  "keypad_poll_interrupt k interrupts =
     (if keypad_irq_condition_met k then ic_request Irq_keypad interrupts else interrupts)"

definition keypad_state_hash :: "keypad \<Rightarrow> u64" where
  "keypad_state_hash k = add_u16 (keycnt k) (add_u16 (pressed_mask k) kOffsetBasis)"

section \<open>Invariant\<close>

definition keypad_wf :: "keypad \<Rightarrow> bool" where
  "keypad_wf k \<longleftrightarrow> pressed_mask k AND NOT kButtonMask = 0
     \<and> keycnt k AND NOT (kButtonMask OR kKeypadIrqEnable OR kIrqConditionAnd) = 0"

definition buttons_of :: "u16 \<Rightarrow> keypad_button set" where
  "buttons_of w = {b. w AND keypad_button_mask b \<noteq> 0}"

primrec button_index :: "keypad_button \<Rightarrow> nat" where
  "button_index Button_a = 0"
| "button_index Button_b = 1"
| "button_index Button_select = 2"
| "button_index Button_start = 3"
| "button_index Button_right = 4"
| "button_index Button_left = 5"
| "button_index Button_up = 6"
| "button_index Button_down = 7"
| "button_index Button_r = 8"
| "button_index Button_l = 9"

lemma kButtonMask_bit [simp]: "bit kButtonMask n \<longleftrightarrow> n < 10"
proof -
  have "kButtonMask = mask 10"
    by (simp add: kButtonMask_def mask_eq_exp_minus_1)
  then have "bit kButtonMask n \<longleftrightarrow> bit (mask 10 :: u16) n"
    by simp
  then show ?thesis
    by (auto simp: bit_simps)
qed

lemma button_index_less [simp]: "button_index b < 10"
  by (cases b) simp_all

lemma button_index_inj [simp]: "button_index b = button_index c \<longleftrightarrow> b = c"
  by (cases b; cases c) simp_all

lemma button_index_surj: "n < 10 \<Longrightarrow> \<exists>b. button_index b = n"
proof -
  assume "n < 10"
  then have "n \<in> {9, 8, 7, 6, 5, 4, 3, 2, 1, 0}"
    by (simp, presburger)
  then show ?thesis
    by (elim insertE emptyE) (metis button_index.simps)+
qed

lemma keypad_button_mask_bit [simp]: "bit (keypad_button_mask b) n \<longleftrightarrow> n = button_index b"
proof -
  have "keypad_button_mask b = push_bit (button_index b) 1"
    by (cases b) simp_all
  then show ?thesis
    using less_trans [OF button_index_less [of b], of 16] by (auto simp: bit_simps)
qed

lemma in_buttons_of [simp]: "b \<in> buttons_of w \<longleftrightarrow> bit w (button_index b)"
  using less_trans [OF button_index_less [of b], of 16]
  by (auto simp: buttons_of_def word_eq_bits bit_simps)

lemma buttons_of_simps [simp]:
  "buttons_of 0 = {}"
  "buttons_of kButtonMask = UNIV"
  "buttons_of (v AND w) = buttons_of v \<inter> buttons_of w"
  "buttons_of (v OR w) = buttons_of v \<union> buttons_of w"
  "buttons_of (NOT w) = - buttons_of w"
  "buttons_of (keypad_button_mask b) = {b}"
  by (auto simp: set_eq_iff bit_simps less_trans [OF button_index_less])

lemma button_masks_eq_iff:
  "v AND kButtonMask = w AND kButtonMask \<longleftrightarrow> buttons_of v = buttons_of w"
proof -
  have "v AND kButtonMask = w AND kButtonMask \<longleftrightarrow> (\<forall>n < 10. bit v n = bit w n)"
    by (auto simp: word_eq_all_bits bit_simps)
  also have "\<dots> \<longleftrightarrow> (\<forall>b. bit v (button_index b) = bit w (button_index b))"
    by (metis button_index_less button_index_surj)
  finally show ?thesis
    by (simp add: set_eq_iff)
qed

lemma keypad_wf_ops [wf_intros]:
  "keypad_wf keypad_reset"
  "keypad_wf k \<Longrightarrow> keypad_wf (snd (keypad_set_pressed_mask m k))"
  "keypad_wf k \<Longrightarrow> keypad_wf (keypad_press b k)"
  "keypad_wf k \<Longrightarrow> keypad_wf (keypad_release b k)"
  "keypad_wf k \<Longrightarrow> keypad_wf (keypad_write_keycnt v k)"
  by (auto simp: keypad_wf_def keypad_reset_def keypad_set_pressed_mask_def keypad_press_def
      keypad_release_def keypad_write_keycnt_def and_mask_absorb and.assoc)
    (auto simp: word_eq_bits bit_simps)

text \<open>The key interrupt. Polling the keypad raises the keypad interrupt and nothing else, and does so
  exactly when KEYCNT enables it, at least one button is selected, and the pressed buttons include all of the
  selected ones (AND mode) or meet them (OR mode); a zero selection never matches.\<close>

lemma keypad_poll_interrupt_spec:
  "keypad_poll_interrupt k ic =
     (if bit (keycnt k) 14 \<and> buttons_of (keycnt k) \<noteq> {}
         \<and> (if bit (keycnt k) 15 then buttons_of (keycnt k) \<subseteq> buttons_of (pressed_mask k)
            else buttons_of (keycnt k) \<inter> buttons_of (pressed_mask k) \<noteq> {})
      then ic_request Irq_keypad ic else ic)"
proof -
  have sel: "keycnt k AND kButtonMask = 0 \<longleftrightarrow> buttons_of (keycnt k) = {}"
    using button_masks_eq_iff [of "keycnt k" 0] by simp
  have all: "pressed_mask k AND keycnt k AND kButtonMask = keycnt k AND kButtonMask
      \<longleftrightarrow> buttons_of (keycnt k) \<subseteq> buttons_of (pressed_mask k)"
    using button_masks_eq_iff [of "pressed_mask k AND keycnt k" "keycnt k"]
    by (auto simp: and.assoc)
  have some: "pressed_mask k AND keycnt k AND kButtonMask = 0
      \<longleftrightarrow> buttons_of (keycnt k) \<inter> buttons_of (pressed_mask k) = {}"
    using button_masks_eq_iff [of "pressed_mask k AND keycnt k" 0]
    by (auto simp: and.assoc Int_commute)
  show ?thesis
    by (simp add: keypad_poll_interrupt_def keypad_irq_condition_met_def Let_def sel all some
        keypad_irq_enabled_def keypad_irq_condition_and_def kKeypadIrqEnable_def kIrqConditionAnd_def
        flag_bits)
qed

text \<open>Button state. Pressing and releasing act on the pressed set as insertion and removal, KEYINPUT
  reads back the complement of the pressed buttons (active low) and never sets a bit above bit 9, and a mask with a
  bit outside the ten buttons is rejected without changing the state.\<close>

lemma keypad_buttons_spec:
  "buttons_of (pressed_mask (keypad_press b k)) = insert b (buttons_of (pressed_mask k))
   \<and> buttons_of (pressed_mask (keypad_release b k)) = buttons_of (pressed_mask k) - {b}
   \<and> buttons_of (keypad_keyinput k) = - buttons_of (pressed_mask k)
   \<and> keypad_keyinput k AND NOT kButtonMask = 0
   \<and> keypad_set_pressed_mask m k =
        (if m AND kButtonMask = m then (True, k\<lparr>pressed_mask := m\<rparr>) else (False, k))"
  by (auto simp: keypad_press_def keypad_release_def keypad_keyinput_def keypad_set_pressed_mask_def
      and.assoc subset_mask_iff)

end
