(* ===== verification/Wait_States.thy ===== *)
theory Wait_States
  imports State_Hash
begin

text \<open>
  WAITCNT (\<open>include/gba/core/wait_state_control.hpp\<close>, \<open>src/core/wait_state_control.cpp\<close>): the
  game pak wait-state register and the wait states it selects for the three ROM windows and the save window.
\<close>

datatype cartridge_window =
  Window_none | Window_rom_wait0 | Window_rom_wait1 | Window_rom_wait2 | Window_save

datatype phi_terminal_output = Phi_disabled | Phi_four_mhz | Phi_eight_mhz | Phi_sixteen_mhz

record game_pak_wait_states =
  ws_nonsequential :: u8
  ws_sequential :: u8
  ws_prefetch_enabled :: bool

record wait_state_control =
  wsc_control :: u16

definition kWritableMask :: u16 where "kWritableMask = 0x7FFF"
definition kPrefetchBit :: u16 where "kPrefetchBit = 0x4000"
definition kFirstAccessWaitStates :: "u8 list" where "kFirstAccessWaitStates = [4, 3, 2, 8]"

definition wsc_bits :: "u16 \<Rightarrow> nat \<Rightarrow> u16 \<Rightarrow> u8" where
  "wsc_bits value shift m = ucast (drop_bit shift value AND m)"

definition first_wait_states :: "u16 \<Rightarrow> nat \<Rightarrow> u8" where
  "first_wait_states value shift = kFirstAccessWaitStates ! unat (wsc_bits value shift 3)"

definition second_wait_state :: "bool \<Rightarrow> u8 \<Rightarrow> u8" where
  "second_wait_state fast slow_value = (if fast then 1 else slow_value)"

definition wsc_reset :: wait_state_control where
  "wsc_reset = \<lparr>wsc_control = 0\<rparr>"

definition wsc_write_control :: "u16 \<Rightarrow> wait_state_control \<Rightarrow> wait_state_control" where
  "wsc_write_control value w = w\<lparr>wsc_control := value AND kWritableMask\<rparr>"

definition wsc_read_control :: "wait_state_control \<Rightarrow> u16" where
  "wsc_read_control w = wsc_control w"

definition wsc_save_wait_states :: "wait_state_control \<Rightarrow> u8" where
  "wsc_save_wait_states w = first_wait_states (wsc_control w) 0"

definition wsc_prefetch_enabled :: "wait_state_control \<Rightarrow> bool" where
  "wsc_prefetch_enabled w \<longleftrightarrow> wsc_control w AND kPrefetchBit \<noteq> 0"

primrec wsc_rom_wait_states :: "cartridge_window \<Rightarrow> wait_state_control \<Rightarrow> game_pak_wait_states" where
  "wsc_rom_wait_states Window_rom_wait0 w =
     \<lparr>ws_nonsequential = first_wait_states (wsc_control w) 2,
      ws_sequential = second_wait_state (wsc_control w AND 0x0010 \<noteq> 0) 2,
      ws_prefetch_enabled = wsc_prefetch_enabled w\<rparr>"
| "wsc_rom_wait_states Window_rom_wait1 w =
     \<lparr>ws_nonsequential = first_wait_states (wsc_control w) 5,
      ws_sequential = second_wait_state (wsc_control w AND 0x0080 \<noteq> 0) 4,
      ws_prefetch_enabled = wsc_prefetch_enabled w\<rparr>"
| "wsc_rom_wait_states Window_rom_wait2 w =
     \<lparr>ws_nonsequential = first_wait_states (wsc_control w) 8,
      ws_sequential = second_wait_state (wsc_control w AND 0x0400 \<noteq> 0) 8,
      ws_prefetch_enabled = wsc_prefetch_enabled w\<rparr>"
| "wsc_rom_wait_states Window_none w =
     \<lparr>ws_nonsequential = 0, ws_sequential = 0, ws_prefetch_enabled = wsc_prefetch_enabled w\<rparr>"
| "wsc_rom_wait_states Window_save w =
     \<lparr>ws_nonsequential = 0, ws_sequential = 0, ws_prefetch_enabled = wsc_prefetch_enabled w\<rparr>"

definition wsc_phi_terminal_output :: "wait_state_control \<Rightarrow> phi_terminal_output" where
  "wsc_phi_terminal_output w =
     [Phi_disabled, Phi_four_mhz, Phi_eight_mhz, Phi_sixteen_mhz] ! unat (wsc_bits (wsc_control w) 11 3)"

definition wsc_state_hash :: "wait_state_control \<Rightarrow> u64" where
  "wsc_state_hash w = add_u16 (wsc_control w) kOffsetBasis"

section \<open>Properties\<close>

lemma and_3_cases: "(w :: u16) AND 3 \<in> {0, 1, 2, 3}"
proof -
  have "unat (w AND 3) < 4"
    by (simp add: word_nat)
  then have "unat (w AND 3) = 0 \<or> unat (w AND 3) = 1 \<or> unat (w AND 3) = 2 \<or> unat (w AND 3) = 3"
    by presburger
  then show ?thesis
    by (auto simp: word_unat_eq_iff)
qed

lemma wsc_bits_3_less: "unat (wsc_bits v n 3) < 4"
  using and_3_cases [of "drop_bit n v"] by (auto simp: wsc_bits_def)

lemma first_wait_states_range: "first_wait_states v n \<in> {2, 3, 4, 8}"
  using and_3_cases [of "drop_bit n v"]
  by (auto simp: first_wait_states_def wsc_bits_def kFirstAccessWaitStates_def)

text \<open>The wait states GBATEK documents for a two-bit field value and a window.\<close>

definition documented_first :: "nat \<Rightarrow> nat" where
  "documented_first field = (if field = 0 then 4 else if field = 1 then 3 else if field = 2 then 2 else 8)"

definition documented_second :: "cartridge_window \<Rightarrow> nat" where
  "documented_second window =
     (case window of Window_rom_wait0 \<Rightarrow> 2 | Window_rom_wait1 \<Rightarrow> 4 | Window_rom_wait2 \<Rightarrow> 8 | _ \<Rightarrow> 0)"

lemma first_wait_states_documented:
  "unat (first_wait_states v n) = documented_first (unat v div 2 ^ n mod 4)"
proof -
  have "unat (drop_bit n v AND 3) = unat v div 2 ^ n mod 4"
    by (simp add: word_nat)
  then show ?thesis
    using and_3_cases [of "drop_bit n v"]
    by (auto simp: first_wait_states_def wsc_bits_def kFirstAccessWaitStates_def documented_first_def)
qed

lemma first_wait_states_masked:
  assumes "n \<le> 13"
  shows "first_wait_states (v AND 0x7FFF) n = first_wait_states v n"
proof -
  have "drop_bit n (v AND 0x7FFF) AND 3 = drop_bit n v AND 3"
    using assms unfolding mask_numeral_eq by (auto simp: word_eq_all_bits bit_simps)
  then show ?thesis
    by (simp add: first_wait_states_def wsc_bits_def)
qed

text \<open>Wait states. For every value written to WAITCNT and every ROM window, the non-sequential wait states
  are the documented 4/3/2/8 for the window's two-bit field, the sequential ones are 1 or the window's slow value
  2/4/8 according to its select bit, the save window uses the field in bits 0-1, and prefetch is bit 14; bit 15 is
  never stored.\<close>

lemma wsc_wait_states_documented:
  "unat (wsc_save_wait_states (wsc_write_control v w)) = documented_first (unat v mod 4)
   \<and> unat (ws_nonsequential (wsc_rom_wait_states Window_rom_wait0 (wsc_write_control v w)))
       = documented_first (unat v div 4 mod 4)
   \<and> unat (ws_nonsequential (wsc_rom_wait_states Window_rom_wait1 (wsc_write_control v w)))
       = documented_first (unat v div 32 mod 4)
   \<and> unat (ws_nonsequential (wsc_rom_wait_states Window_rom_wait2 (wsc_write_control v w)))
       = documented_first (unat v div 256 mod 4)
   \<and> unat (ws_sequential (wsc_rom_wait_states Window_rom_wait0 (wsc_write_control v w)))
       = (if bit v 4 then 1 else documented_second Window_rom_wait0)
   \<and> unat (ws_sequential (wsc_rom_wait_states Window_rom_wait1 (wsc_write_control v w)))
       = (if bit v 7 then 1 else documented_second Window_rom_wait1)
   \<and> unat (ws_sequential (wsc_rom_wait_states Window_rom_wait2 (wsc_write_control v w)))
       = (if bit v 10 then 1 else documented_second Window_rom_wait2)
   \<and> ws_prefetch_enabled (wsc_rom_wait_states window (wsc_write_control v w)) = bit v 14
   \<and> \<not> bit (wsc_read_control (wsc_write_control v w)) 15"
proof -
  have fld: "first_wait_states (wsc_control (wsc_write_control v w)) n = first_wait_states v n"
    if "n \<le> 13" for n
    using that by (simp add: wsc_write_control_def kWritableMask_def first_wait_states_masked)
  have bits: "bit (wsc_control (wsc_write_control v w)) n \<longleftrightarrow> bit v n \<and> n < 15" for n
    by (auto simp: wsc_write_control_def kWritableMask_def mask_numeral_eq(9) bit_simps)
  show ?thesis
    by (cases window)
      (simp_all add: wsc_save_wait_states_def fld first_wait_states_documented bits wsc_read_control_def
        second_wait_state_def documented_second_def wsc_prefetch_enabled_def kPrefetchBit_def flag_bits)
qed

end
