(* ===== verification/Address_Map.thy ===== *)
theory Address_Map
  imports Wait_States
begin

text \<open>
  The stateless part of the memory bus (\<open>include/gba/core/memory_bus.hpp\<close>,
  \<open>src/core/memory_bus.cpp\<close>): the classification of a 32-bit address into a region and an offset
  into the array that backs it, the read and video policies, the description of the cartridge windows and the
  access timing with and without WAITCNT. The lemmas show that every classified offset lies inside its array, and
  that the bytes of an aligned halfword or word are consecutive there.
\<close>

section \<open>Types\<close>

datatype region =
  Bios | Ewram | Iwram | Io | Palette | Vram | Oam | Game_pak_rom | Game_pak_save | Unknown

datatype access_width = Width_byte | Width_halfword | Width_word

datatype cartridge_save_kind = Save_kind_none | Sram_or_flash | Eeprom_serial

datatype memory_read_failure =
    Failure_none | Protected_bios_open_bus_unmodeled | Io_register_facade_required
  | External_data_required | Unmapped_open_bus_unmodeled

datatype video_access_window = Not_video_memory | Ppu_contention_unmodeled

record address_info =
  ai_region :: region
  ai_offset :: u32
  ai_writable :: bool
  ai_mirrored :: bool

record memory_read_policy =
  rp_region :: region
  rp_readable :: bool
  rp_failure :: memory_read_failure

record video_access_policy =
  vp_region :: region
  vp_window :: video_access_window
  vp_access_allowed :: bool
  vp_contention_timing_modeled :: bool

record cartridge_address_info =
  ca_window :: cartridge_window
  ca_save_kind :: cartridge_save_kind
  ca_offset :: u32
  ca_max_window_size :: u32
  ca_bus_width_bits :: u8
  ca_readable :: bool
  ca_writable :: bool
  ca_requires_external_data :: bool
  ca_serial_protocol :: bool
  ca_mirrored :: bool

record memory_access_timing =
  mt_nonsequential :: u8
  mt_sequential :: u8
  mt_readable :: bool
  mt_writable :: bool

section \<open>Sizes and address constants\<close>

definition kEwramSize :: nat where "kEwramSize = 256 * 1024"
definition kIwramSize :: nat where "kIwramSize = 32 * 1024"
definition kPaletteSize :: nat where "kPaletteSize = 1024"
definition kVramSize :: nat where "kVramSize = 96 * 1024"
definition kOamSize :: nat where "kOamSize = 1024"
definition kGamePakRomWindowSize :: nat where "kGamePakRomWindowSize = 32 * 1024 * 1024"
definition kGamePakSaveWindowSize :: nat where "kGamePakSaveWindowSize = 64 * 1024"
definition kBiosEnd :: u32 where "kBiosEnd = 0x00003FFF"
definition kBankOffsetMask :: u32 where "kBankOffsetMask = 0x00FFFFFF"
definition kGamePakRomWait0Start :: u32 where "kGamePakRomWait0Start = 0x08000000"
definition kGamePakRomWait0End :: u32 where "kGamePakRomWait0End = 0x09FFFFFF"
definition kGamePakRomWait1Start :: u32 where "kGamePakRomWait1Start = 0x0A000000"
definition kGamePakRomWait1End :: u32 where "kGamePakRomWait1End = 0x0BFFFFFF"
definition kGamePakRomWait2Start :: u32 where "kGamePakRomWait2Start = 0x0C000000"
definition kGamePakRomWait2End :: u32 where "kGamePakRomWait2End = 0x0DFFFFFF"
definition kGamePakEepromLargeRomStart :: u32 where "kGamePakEepromLargeRomStart = 0x0D000000"
definition kGamePakSaveStart :: u32 where "kGamePakSaveStart = 0x0E000000"
definition kGamePakSaveEnd :: u32 where "kGamePakSaveEnd = 0x0FFFFFFF"

lemmas region_size_defs =
  kEwramSize_def kIwramSize_def kPaletteSize_def kVramSize_def kOamSize_def
  kGamePakRomWindowSize_def kGamePakSaveWindowSize_def

lemmas cartridge_const_defs =
  kGamePakRomWait0Start_def kGamePakRomWait0End_def kGamePakRomWait1Start_def kGamePakRomWait1End_def
  kGamePakRomWait2Start_def kGamePakRomWait2End_def kGamePakEepromLargeRomStart_def
  kGamePakSaveStart_def kGamePakSaveEnd_def

section \<open>Classification and policies\<close>

definition classify :: "u32 \<Rightarrow> address_info" where
  "classify address =
     (let offset = address AND 0x00FFFFFF; bank = drop_bit 24 address in
      if bank = 0 \<or> bank = 1 then
        \<lparr>ai_region = Bios, ai_offset = address, ai_writable = False, ai_mirrored = 0x3FFF < address\<rparr>
      else if bank = 2 then
        \<lparr>ai_region = Ewram, ai_offset = offset AND of_nat (kEwramSize - 1),
         ai_writable = True, ai_mirrored = kEwramSize \<le> unat offset\<rparr>
      else if bank = 3 then
        \<lparr>ai_region = Iwram, ai_offset = offset AND of_nat (kIwramSize - 1),
         ai_writable = True, ai_mirrored = kIwramSize \<le> unat offset\<rparr>
      else if bank = 4 then
        (if offset \<le> 0x3FE
         then \<lparr>ai_region = Io, ai_offset = offset, ai_writable = False, ai_mirrored = False\<rparr>
         else \<lparr>ai_region = Unknown, ai_offset = 0, ai_writable = False, ai_mirrored = False\<rparr>)
      else if bank = 5 then
        \<lparr>ai_region = Palette, ai_offset = offset AND of_nat (kPaletteSize - 1),
         ai_writable = True, ai_mirrored = kPaletteSize \<le> unat offset\<rparr>
      else if bank = 6 then
        (let vbank = offset AND 0x1FFFF in
         \<lparr>ai_region = Vram, ai_offset = (if kVramSize \<le> unat vbank then vbank - 0x8000 else vbank),
          ai_writable = True, ai_mirrored = kVramSize \<le> unat offset\<rparr>)
      else if bank = 7 then
        \<lparr>ai_region = Oam, ai_offset = offset AND of_nat (kOamSize - 1),
         ai_writable = True, ai_mirrored = kOamSize \<le> unat offset\<rparr>
      else if bank = 8 \<or> bank = 9 \<or> bank = 10 \<or> bank = 11 \<or> bank = 12 \<or> bank = 13 then
        \<lparr>ai_region = Game_pak_rom, ai_offset = address AND of_nat (kGamePakRomWindowSize - 1),
         ai_writable = False, ai_mirrored = 0x0A000000 \<le> address\<rparr>
      else if bank = 14 \<or> bank = 15 then
        \<lparr>ai_region = Game_pak_save, ai_offset = offset AND of_nat (kGamePakSaveWindowSize - 1),
         ai_writable = False,
         ai_mirrored = 0x0F000000 \<le> address \<or> kGamePakSaveWindowSize \<le> unat offset\<rparr>
      else \<lparr>ai_region = Unknown, ai_offset = 0, ai_writable = False, ai_mirrored = False\<rparr>)"

definition mb_describe :: "u32 \<Rightarrow> address_info" where
  "mb_describe address = classify address"

definition in_range :: "u32 \<Rightarrow> u32 \<Rightarrow> u32 \<Rightarrow> bool" where
  "in_range value start stop \<longleftrightarrow> start \<le> value \<and> value \<le> stop"

definition is_word :: "access_width \<Rightarrow> bool" where
  "is_word width \<longleftrightarrow> width = Width_word"

definition bank_offset :: "u32 \<Rightarrow> u32" where
  "bank_offset address = address AND kBankOffsetMask"

definition mb_read_policy :: "u32 \<Rightarrow> memory_read_policy" where
  "mb_read_policy address =
     (let info = classify address in
      case ai_region info of
        Bios \<Rightarrow> \<lparr>rp_region = Bios, rp_readable = ai_offset info \<le> kBiosEnd,
                 rp_failure = (if ai_offset info \<le> kBiosEnd then Failure_none
                               else Protected_bios_open_bus_unmodeled)\<rparr>
      | Io \<Rightarrow> \<lparr>rp_region = Io, rp_readable = False, rp_failure = Io_register_facade_required\<rparr>
      | Game_pak_rom \<Rightarrow> \<lparr>rp_region = Game_pak_rom, rp_readable = False,
                         rp_failure = External_data_required\<rparr>
      | Game_pak_save \<Rightarrow> \<lparr>rp_region = Game_pak_save, rp_readable = False,
                          rp_failure = External_data_required\<rparr>
      | Unknown \<Rightarrow> \<lparr>rp_region = Unknown, rp_readable = False,
                    rp_failure = Unmapped_open_bus_unmodeled\<rparr>
      | r \<Rightarrow> \<lparr>rp_region = r, rp_readable = True, rp_failure = Failure_none\<rparr>)"

definition mb_video_access_policy :: "u32 \<Rightarrow> video_access_policy" where
  "mb_video_access_policy address =
     (let info = classify address in
      if ai_region info \<in> {Palette, Vram, Oam} then
        \<lparr>vp_region = ai_region info, vp_window = Ppu_contention_unmodeled, vp_access_allowed = True,
         vp_contention_timing_modeled = False\<rparr>
      else if ai_region info = Unknown then
        \<lparr>vp_region = Unknown, vp_window = Not_video_memory, vp_access_allowed = False,
         vp_contention_timing_modeled = False\<rparr>
      else
        \<lparr>vp_region = ai_region info, vp_window = Not_video_memory, vp_access_allowed = True,
         vp_contention_timing_modeled = False\<rparr>)"

definition cartridge_none :: cartridge_address_info where
  "cartridge_none =
     \<lparr>ca_window = Window_none, ca_save_kind = Save_kind_none, ca_offset = 0, ca_max_window_size = 0,
      ca_bus_width_bits = 0, ca_readable = False, ca_writable = False,
      ca_requires_external_data = False, ca_serial_protocol = False, ca_mirrored = False\<rparr>"

definition cartridge_rom_info ::
  "u32 \<Rightarrow> u32 \<Rightarrow> cartridge_window \<Rightarrow> bool \<Rightarrow> cartridge_address_info" where
  "cartridge_rom_info address window_start window mirrored =
     (let offset = address - window_start;
          eeprom_candidate = kGamePakEepromLargeRomStart \<le> address in
      \<lparr>ca_window = window,
       ca_save_kind = (if eeprom_candidate then Eeprom_serial else Save_kind_none),
       ca_offset = offset,
       ca_max_window_size = of_nat kGamePakRomWindowSize,
       ca_bus_width_bits = (if eeprom_candidate then 1 else 16),
       ca_readable = False, ca_writable = False,
       ca_requires_external_data = True, ca_serial_protocol = eeprom_candidate,
       ca_mirrored = mirrored\<rparr>)"

definition mb_describe_cartridge :: "u32 \<Rightarrow> cartridge_address_info" where
  "mb_describe_cartridge address =
     (if in_range address kGamePakRomWait0Start kGamePakRomWait0End then
        cartridge_rom_info address kGamePakRomWait0Start Window_rom_wait0 False
      else if in_range address kGamePakRomWait1Start kGamePakRomWait1End then
        cartridge_rom_info address kGamePakRomWait1Start Window_rom_wait1 True
      else if in_range address kGamePakRomWait2Start kGamePakRomWait2End then
        cartridge_rom_info address kGamePakRomWait2Start Window_rom_wait2 True
      else if in_range address kGamePakSaveStart kGamePakSaveEnd then
        \<lparr>ca_window = Window_save, ca_save_kind = Sram_or_flash,
         ca_offset = of_nat (unat (bank_offset address) mod kGamePakSaveWindowSize),
         ca_max_window_size = of_nat kGamePakSaveWindowSize, ca_bus_width_bits = 8,
         ca_readable = False, ca_writable = False,
         ca_requires_external_data = True, ca_serial_protocol = False,
         ca_mirrored = (0x0F000000 \<le> address
                        \<or> kGamePakSaveWindowSize \<le> unat (bank_offset address))\<rparr>
      else cartridge_none)"

definition mb_timing :: "u32 \<Rightarrow> access_width \<Rightarrow> memory_access_timing" where
  "mb_timing address width =
     (let info = classify address;
          same = (\<lambda>n r w. \<lparr>mt_nonsequential = n, mt_sequential = n, mt_readable = r, mt_writable = w\<rparr>) in
      case ai_region info of
        Bios \<Rightarrow> same 1 (ai_offset info \<le> kBiosEnd) False
      | Ewram \<Rightarrow> same (if is_word width then 6 else 3) True True
      | Iwram \<Rightarrow> same 1 True True
      | Palette \<Rightarrow> same (if is_word width then 2 else 1) True True
      | Vram \<Rightarrow> same (if is_word width then 2 else 1) True True
      | Oam \<Rightarrow> same (if is_word width then 2 else 1) True True
      | Io \<Rightarrow> same 1 False False
      | Game_pak_rom \<Rightarrow> same 1 False False
      | Game_pak_save \<Rightarrow> same 1 False False
      | Unknown \<Rightarrow> same 1 False False)"

definition mb_timing_waitcnt ::
  "u32 \<Rightarrow> access_width \<Rightarrow> wait_state_control \<Rightarrow> memory_access_timing" where
  "mb_timing_waitcnt address width waitcnt =
     (let info = classify address in
      if ai_region info = Game_pak_rom then
        (let wait_states = wsc_rom_wait_states (ca_window (mb_describe_cartridge address)) waitcnt in
         \<lparr>mt_nonsequential = ws_nonsequential wait_states,
          mt_sequential = ws_sequential wait_states, mt_readable = False, mt_writable = False\<rparr>)
      else if ai_region info = Game_pak_save then
        (let wait_states = wsc_save_wait_states waitcnt in
         \<lparr>mt_nonsequential = wait_states, mt_sequential = wait_states,
          mt_readable = False, mt_writable = False\<rparr>)
      else mb_timing address width)"

section \<open>The classification as arithmetic on the address\<close>

lemma bank_eq_iff: "drop_bit 24 (a :: u32) = w \<longleftrightarrow> unat a div 16777216 = unat w"
  by (simp add: word_unat_eq_iff unat_drop_bit)

lemma region_size_masks:
  "(of_nat (kEwramSize - 1) :: u32) = 0x3FFFF" "(of_nat (kIwramSize - 1) :: u32) = 0x7FFF"
  "(of_nat (kPaletteSize - 1) :: u32) = 0x3FF" "(of_nat (kOamSize - 1) :: u32) = 0x3FF"
  "(of_nat (kGamePakRomWindowSize - 1) :: u32) = 0x1FFFFFF"
  "(of_nat (kGamePakSaveWindowSize - 1) :: u32) = 0xFFFF"
  by (simp_all add: region_size_defs)

text \<open>The bank byte decides the region.\<close>

lemma classify_region:
  "ai_region (classify a) =
     (let b = unat a div 16777216 in
      if b = 0 \<or> b = 1 then Bios else if b = 2 then Ewram else if b = 3 then Iwram
      else if b = 4 then (if unat a mod 16777216 \<le> 0x3FE then Io else Unknown)
      else if b = 5 then Palette else if b = 6 then Vram else if b = 7 then Oam
      else if b = 8 \<or> b = 9 \<or> b = 10 \<or> b = 11 \<or> b = 12 \<or> b = 13 then Game_pak_rom
      else if b = 14 \<or> b = 15 then Game_pak_save else Unknown)"
proof -
  have "unat (a AND 0x00FFFFFF) = unat a mod 16777216"
    by (simp add: word_nat)
  then have "a AND 0x00FFFFFF \<le> 0x3FE \<longleftrightarrow> unat a mod 16777216 \<le> 0x3FE"
    by (simp add: word_le_nat_alt)
  then show ?thesis
    by (auto simp: classify_def Let_def bank_eq_iff)
qed

lemma mod_mod_dvd: "(n dvd m) \<Longrightarrow> (x :: nat) mod m mod n = x mod n"
  by (rule mod_mod_cancel)

lemma classify_offset:
  "unat (ai_offset (classify a)) =
     (case ai_region (classify a) of
        Bios \<Rightarrow> unat a
      | Ewram \<Rightarrow> unat a mod kEwramSize
      | Iwram \<Rightarrow> unat a mod kIwramSize
      | Palette \<Rightarrow> unat a mod kPaletteSize
      | Oam \<Rightarrow> unat a mod kOamSize
      | Vram \<Rightarrow> (let v = unat a mod 131072 in if kVramSize \<le> v then v - 32768 else v)
      | Io \<Rightarrow> unat a mod 16777216
      | Game_pak_rom \<Rightarrow> unat a mod kGamePakRomWindowSize
      | Game_pak_save \<Rightarrow> unat a mod kGamePakSaveWindowSize
      | Unknown \<Rightarrow> 0)"
proof -
  have v: "unat (w - 0x8000) = unat w - 32768" if "98304 \<le> unat w" for w :: u32
    using that by (subst unat_sub) (auto simp: word_le_nat_alt)
  show ?thesis
    unfolding classify_def Let_def
    by (simp add: region_size_masks) (simp add: region_size_defs word_nat mod_mod_dvd v)
qed

definition region_capacity :: "region \<Rightarrow> nat option" where
  "region_capacity r =
     (case r of Ewram \<Rightarrow> Some kEwramSize | Iwram \<Rightarrow> Some kIwramSize | Palette \<Rightarrow> Some kPaletteSize
      | Vram \<Rightarrow> Some kVramSize | Oam \<Rightarrow> Some kOamSize | Game_pak_rom \<Rightarrow> Some kGamePakRomWindowSize
      | Game_pak_save \<Rightarrow> Some kGamePakSaveWindowSize | Io \<Rightarrow> Some 0x3FF | _ \<Rightarrow> None)"

lemma classify_writable:
  "ai_writable (classify a) \<longleftrightarrow> ai_region (classify a) \<in> {Ewram, Iwram, Palette, Vram, Oam}"
  by (auto simp: classify_def Let_def)

lemma classify_capacity:
  assumes "region_capacity (ai_region (classify a)) = Some n"
  shows "unat (ai_offset (classify a)) < n"
proof -
  have io: "unat a mod 16777216 \<le> 0x3FE" if "ai_region (classify a) = Io"
    using that by (auto simp: classify_region Let_def split: if_splits)
  have v: "unat a mod 131072 - 32768 < 98304"
    using mod_less_divisor [of 131072 "unat a"] by linarith
  show ?thesis
    using assms io v
    by (cases "ai_region (classify a)")
      (simp_all add: region_capacity_def classify_offset region_size_defs Let_def split: if_splits)
qed

text \<open>Memory safety of the address map. Every one of the 2^32 addresses is classified, the offset of an
  address in a RAM, cartridge or IO region lies inside the array (or window) that backs the region, and only the
  five RAM regions are writable.\<close>

lemma classify_in_bounds:
  "(case region_capacity (ai_region (classify a)) of
      Some n \<Rightarrow> unat (ai_offset (classify a)) < n
    | None \<Rightarrow> ai_region (classify a) \<in> {Bios, Unknown})
   \<and> (ai_writable (classify a) \<longleftrightarrow> ai_region (classify a) \<in> {Ewram, Iwram, Palette, Vram, Oam})"
  using classify_capacity [of a] classify_writable [of a]
  by (cases "ai_region (classify a)") (simp_all add: region_capacity_def)

section \<open>Lanes of aligned accesses\<close>

lemma classify_mirrored:
  "ai_mirrored (classify a) \<longleftrightarrow>
     (case ai_region (classify a) of
        Bios \<Rightarrow> 0x3FFF < unat a
      | Ewram \<Rightarrow> kEwramSize \<le> unat a mod 16777216
      | Iwram \<Rightarrow> kIwramSize \<le> unat a mod 16777216
      | Palette \<Rightarrow> kPaletteSize \<le> unat a mod 16777216
      | Vram \<Rightarrow> kVramSize \<le> unat a mod 16777216
      | Oam \<Rightarrow> kOamSize \<le> unat a mod 16777216
      | Game_pak_rom \<Rightarrow> 0x0A000000 \<le> unat a
      | Game_pak_save \<Rightarrow> 0x0F000000 \<le> unat a \<or> kGamePakSaveWindowSize \<le> unat a mod 16777216
      | _ \<Rightarrow> False)"
  unfolding classify_def Let_def
  by (simp add: word_le_nat_alt word_less_nat_alt word_nat)

lemma unat_add_lane:
  fixes a :: u32
  assumes "n dvd unat a" "n \<in> {2, 4}" "k < n"
  shows "unat (a + of_nat k) = unat a + k"
proof -
  have "n dvd 2 ^ 32"
    using assms(2) by auto
  then have "unat a + k < 2 ^ 32"
    using lane_less [OF assms(1) _ _ assms(3), of "2 ^ 32"] unat_u32_less [of a] by simp
  moreover have "k < 2 ^ 32"
    using assms(2,3) by auto
  ultimately show ?thesis
    by (simp add: unat_word_ariths unat_of_nat)
qed

lemma classify_lane:
  assumes al: "n dvd unat a" "n \<in> {2, 4}" "k < n"
    and reg: "ai_region (classify a) \<notin> {Io, Unknown}"
  shows "classify (a + of_nat k) = (classify a)\<lparr>ai_offset := ai_offset (classify a) + of_nat k\<rparr>"
    and "unat (ai_offset (classify a) + of_nat k) = unat (ai_offset (classify a)) + k"
proof -
  note u = unat_add_lane [OF al]
  have dvds: "n dvd 16777216" "n dvd 262144" "n dvd 32768" "n dvd 1024" "n dvd 131072" "n dvd 98304"
    "n dvd 33554432" "n dvd 65536"
    using al(2) by auto
  note div = lane_div [OF al(1) dvds(1) al(3)]
  note mods = lane_mod [OF al(1) dvds(1) al(3)] lane_mod [OF al(1) dvds(2) al(3)]
    lane_mod [OF al(1) dvds(3) al(3)] lane_mod [OF al(1) dvds(4) al(3)]
    lane_mod [OF al(1) dvds(5) al(3)] lane_mod [OF al(1) dvds(7) al(3)]
    lane_mod [OF al(1) dvds(8) al(3)]
  have ge: "c \<le> y + k \<longleftrightarrow> c \<le> y" if "n dvd c" "n dvd y" for c y
    using lane_less [OF that(2,1) _ al(3)] by (meson le_add1 le_trans not_less)
  have b4: "unat a div 16777216 \<noteq> 4"
    using reg by (cases "unat a mod 16777216 \<le> 1022") (auto simp: classify_region Let_def)
  have r: "ai_region (classify (a + of_nat k)) = ai_region (classify a)"
    by (simp only: classify_region Let_def u div [OF zero_less_numeral] b4 if_False)
  have dm: "n dvd unat a mod 16777216" "n dvd unat a mod 131072"
    using al(1) dvds by (simp_all add: dvd_mod)
  have off: "unat (ai_offset (classify (a + of_nat k))) = unat (ai_offset (classify a)) + k"
    using reg dvds(6) dm(2)
    by (cases "ai_region (classify a)")
      (simp_all add: classify_offset r u mods region_size_defs Let_def ge)
  have lt: "unat (ai_offset (classify a)) + k < 2 ^ 32"
    unfolding off [symmetric] using unat_u32_less by simp
  have "k < 2 ^ 32"
    using al by auto
  then show sum: "unat (ai_offset (classify a) + of_nat k) = unat (ai_offset (classify a)) + k"
    using lt by (simp add: unat_word_ariths unat_of_nat)
  have d: "n dvd 16384" "n dvd 0x0A000000" "n dvd 0x0F000000"
    using al(2) by auto
  have b16384: "16383 < unat a + k \<longleftrightarrow> 16383 < unat a"
    using ge [OF d(1) al(1)] by auto
  have m: "ai_mirrored (classify (a + of_nat k)) = ai_mirrored (classify a)"
    using reg dvds dm(1) d al(1) b16384
    by (cases "ai_region (classify a)")
      (simp_all add: classify_mirrored r u mods region_size_defs ge)
  show "classify (a + of_nat k) = (classify a)\<lparr>ai_offset := ai_offset (classify a) + of_nat k\<rparr>"
    using r off sum m
    by (intro address_info.equality) (simp_all add: classify_writable word_unat_eq_iff)
qed

end
