(* ===== verification/Ppu_Timing.thy ===== *)
theory Ppu_Timing
  imports Interrupts
begin

text \<open>
  The PPU timing state machine (\<open>include/gba/core/ppu_timing.hpp\<close>, \<open>src/core/ppu_timing.cpp\<close>):
  the current line, the cycle within it, the writable part of DISPSTAT and the LCD control registers. \<open>tick\<close>
  skips from event to event; the reference is the machine that advances one cycle at a time, and the main lemma
  \<open>ppu_tick_cycles\<close> shows that the two agree.
\<close>

section \<open>State\<close>

datatype ppu_phase = Phase_visible | Phase_hblank | Phase_vblank

record ppu_tick_events =
  hblank_entries :: u16
  vblank_entries :: u16
  vcount_matches :: u16

record ppu_timing =
  ppu_line :: u16
  ppu_line_cycle :: u16
  ppu_dispstat_control :: u16
  ppu_lcd_control :: "u16 list"

record ppu_render_control =
  rc_dispcnt :: u16
  rc_bg_control :: "u16 list"
  rc_bg_scroll_x :: "u16 list"
  rc_bg_scroll_y :: "u16 list"
  rc_win0h :: u16
  rc_win0v :: u16
  rc_win1h :: u16
  rc_win1v :: u16
  rc_winin :: u16
  rc_winout :: u16
  rc_bldcnt :: u16
  rc_bldalpha :: u16
  rc_bldy :: u16
  rc_bg_affine_pa :: "u16 list"
  rc_bg_affine_pb :: "u16 list"
  rc_bg_affine_pc :: "u16 list"
  rc_bg_affine_pd :: "u16 list"
  rc_bg_reference_x :: "u32 list"
  rc_bg_reference_y :: "u32 list"
  rc_mosaic :: u16

definition kVisibleLines :: u16 where "kVisibleLines = 160"
definition kTotalLines :: u16 where "kTotalLines = 228"
definition kVisibleCycles :: u16 where "kVisibleCycles = 960"
definition kHblankFlagCycles :: u16 where "kHblankFlagCycles = 1004"
definition kCyclesPerLine :: u16 where "kCyclesPerLine = 1232"
definition kCyclesPerFrame :: u32 where "kCyclesPerFrame = 280896"
definition kLcdControlCount :: nat where "kLcdControlCount = 0x2B"
definition kVblankIrqEnable :: u16 where "kVblankIrqEnable = 0x0008"
definition kHblankIrqEnable :: u16 where "kHblankIrqEnable = 0x0010"
definition kVcountIrqEnable :: u16 where "kVcountIrqEnable = 0x0020"
definition kWritableDispstatMask :: u16 where
  "kWritableDispstatMask = kVblankIrqEnable OR kHblankIrqEnable OR kVcountIrqEnable OR 0xFF00"
definition kLcdControlStart :: u32 where "kLcdControlStart = 0x04000000"
definition kLcdControlEnd :: u32 where "kLcdControlEnd = 0x04000054"
definition kDispstatAddress :: u32 where "kDispstatAddress = 0x04000004"
definition kVcountAddress :: u32 where "kVcountAddress = 0x04000006"

lemmas ppu_consts =
  kVisibleLines_def kTotalLines_def kVisibleCycles_def kHblankFlagCycles_def kCyclesPerLine_def
  kCyclesPerFrame_def

section \<open>Registers\<close>

definition ppu_is_lcd_control_address :: "u32 \<Rightarrow> bool" where
  "ppu_is_lcd_control_address address \<longleftrightarrow>
     (if address AND 1 \<noteq> 0 \<or> address < kLcdControlStart \<or> kLcdControlEnd < address then False
      else if address = kDispstatAddress \<or> address = kVcountAddress then False
      else if address \<le> 0x0400001E then True
      else if 0x04000020 \<le> address \<and> address \<le> 0x0400003E then True
      else if 0x04000040 \<le> address \<and> address \<le> kLcdControlEnd then True
      else False)"

definition lcd_control_index :: "u32 \<Rightarrow> nat" where
  "lcd_control_index address = unat ((address - kLcdControlStart) div 2)"

definition lcd_control_read_mask :: "u32 \<Rightarrow> u16" where
  "lcd_control_read_mask address =
     (if address = 0x04000000 then 0xFFFF
      else if address = 0x04000002 then 0x0001
      else if address = 0x04000008 \<or> address = 0x0400000A then 0xDFFF
      else if address = 0x04000048 \<or> address = 0x0400004A then 0x3F3F
      else if address = 0x04000050 then 0x3FFF
      else if address = 0x04000052 then 0x1F1F
      else 0xFFFF)"

definition is_lcd_control_readable :: "u32 \<Rightarrow> bool" where
  "is_lcd_control_readable address \<longleftrightarrow>
     address \<in> {0x04000000, 0x04000002, 0x04000008, 0x0400000A, 0x0400000C, 0x0400000E,
                0x04000048, 0x0400004A, 0x04000050, 0x04000052}"

definition ppu_reset :: ppu_timing where
  "ppu_reset = \<lparr>ppu_line = 0, ppu_line_cycle = 0, ppu_dispstat_control = 0,
                ppu_lcd_control = vec_fill kLcdControlCount 0\<rparr>"

definition ppu_vcount_setting :: "ppu_timing \<Rightarrow> u8" where
  "ppu_vcount_setting p = ucast (drop_bit 8 (ppu_dispstat_control p) AND 0xFF)"

definition ppu_vblank :: "ppu_timing \<Rightarrow> bool" where
  "ppu_vblank p \<longleftrightarrow> kVisibleLines \<le> ppu_line p \<and> ppu_line p < kTotalLines - 1"

definition ppu_hblank :: "ppu_timing \<Rightarrow> bool" where
  "ppu_hblank p \<longleftrightarrow> kHblankFlagCycles \<le> ppu_line_cycle p"

definition ppu_vcount_match :: "ppu_timing \<Rightarrow> bool" where
  "ppu_vcount_match p \<longleftrightarrow> ppu_line p = ucast (ppu_vcount_setting p)"

definition ppu_vblank_irq_enabled :: "ppu_timing \<Rightarrow> bool" where
  "ppu_vblank_irq_enabled p \<longleftrightarrow> ppu_dispstat_control p AND kVblankIrqEnable \<noteq> 0"

definition ppu_hblank_irq_enabled :: "ppu_timing \<Rightarrow> bool" where
  "ppu_hblank_irq_enabled p \<longleftrightarrow> ppu_dispstat_control p AND kHblankIrqEnable \<noteq> 0"

definition ppu_vcount_irq_enabled :: "ppu_timing \<Rightarrow> bool" where
  "ppu_vcount_irq_enabled p \<longleftrightarrow> ppu_dispstat_control p AND kVcountIrqEnable \<noteq> 0"

definition ppu_dispstat :: "ppu_timing \<Rightarrow> u16" where
  "ppu_dispstat p =
     (let value = ppu_dispstat_control p;
          value = (if ppu_vblank p then value OR 1 else value);
          value = (if ppu_hblank p then value OR 2 else value)
      in if ppu_vcount_match p then value OR 4 else value)"

definition ppu_vcount :: "ppu_timing \<Rightarrow> u16" where
  "ppu_vcount p = ppu_line p"

definition ppu_frame_cycle :: "ppu_timing \<Rightarrow> u32" where
  "ppu_frame_cycle p = ucast (ppu_line p) * ucast kCyclesPerLine + ucast (ppu_line_cycle p)"

definition ppu_phase_of :: "ppu_timing \<Rightarrow> ppu_phase" where
  "ppu_phase_of p =
     (if ppu_vblank p then Phase_vblank
      else if kVisibleCycles \<le> ppu_line_cycle p then Phase_hblank else Phase_visible)"

definition ppu_write_dispstat :: "u16 \<Rightarrow> ppu_timing \<Rightarrow> ppu_timing" where
  "ppu_write_dispstat value p = p\<lparr>ppu_dispstat_control := value AND kWritableDispstatMask\<rparr>"

definition ppu_recheck_vcount_match :: "u16 \<Rightarrow> ppu_timing \<Rightarrow> bool \<times> ppu_timing" where
  "ppu_recheck_vcount_match new_dispstat p =
     (let was_matching = ppu_vcount_match p; p' = ppu_write_dispstat new_dispstat p
      in (\<not> was_matching \<and> ppu_vcount_match p', p'))"

definition ppu_read_lcd_control :: "u32 \<Rightarrow> ppu_timing \<Rightarrow> u16 option throws" where
  "ppu_read_lcd_control address p =
     (if \<not> ppu_is_lcd_control_address address \<or> \<not> is_lcd_control_readable address then Some None
      else do {
        value \<leftarrow> vec_at (ppu_lcd_control p) (lcd_control_index address);
        Some (Some (value AND lcd_control_read_mask address)) })"

definition ppu_write_lcd_control :: "u32 \<Rightarrow> u16 \<Rightarrow> ppu_timing \<Rightarrow> (bool \<times> ppu_timing) throws" where
  "ppu_write_lcd_control address value p =
     (if \<not> ppu_is_lcd_control_address address then Some (False, p)
      else do {
        regs \<leftarrow> vec_put (ppu_lcd_control p) (lcd_control_index address)
                  (value AND lcd_control_read_mask address);
        Some (True, p\<lparr>ppu_lcd_control := regs\<rparr>) })"

text \<open>\<open>render_control\<close> reads the register array at fixed addresses; \<open>lcd\<close> is that read.\<close>

definition lcd :: "ppu_timing \<Rightarrow> u32 \<Rightarrow> u16" where
  "lcd p address = ppu_lcd_control p ! lcd_control_index address"

definition affine_reference :: "ppu_timing \<Rightarrow> u32 \<Rightarrow> u32" where
  "affine_reference p low_address =
     push_bit 16 (ucast (lcd p (low_address + 2)) AND 0x0FFF) OR ucast (lcd p low_address)"

definition ppu_render_control_of :: "ppu_timing \<Rightarrow> ppu_render_control" where
  "ppu_render_control_of p =
     (let affine = (\<lambda>i off. if i = 2 then lcd p (0x04000020 + off) else lcd p (0x04000030 + off));
          two = (\<lambda>off. [0, 0, affine 2 off, affine (3::nat) off]) in
      \<lparr>rc_dispcnt = lcd p 0x04000000,
       rc_bg_control = map (\<lambda>i. lcd p (0x04000008 + of_nat (i * 2))) [0, 1, 2, 3],
       rc_bg_scroll_x = map (\<lambda>i. lcd p (0x04000010 + of_nat (i * 4))) [0, 1, 2, 3],
       rc_bg_scroll_y = map (\<lambda>i. lcd p (0x04000010 + of_nat (i * 4) + 2)) [0, 1, 2, 3],
       rc_win0h = lcd p 0x04000040, rc_win0v = lcd p 0x04000044,
       rc_win1h = lcd p 0x04000042, rc_win1v = lcd p 0x04000046,
       rc_winin = lcd p 0x04000048, rc_winout = lcd p 0x0400004A,
       rc_bldcnt = lcd p 0x04000050, rc_bldalpha = lcd p 0x04000052, rc_bldy = lcd p 0x04000054,
       rc_bg_affine_pa = two 0, rc_bg_affine_pb = two 2, rc_bg_affine_pc = two 4,
       rc_bg_affine_pd = two 6,
       rc_bg_reference_x = [0, 0, affine_reference p 0x04000028, affine_reference p 0x04000038],
       rc_bg_reference_y = [0, 0, affine_reference p 0x0400002C, affine_reference p 0x0400003C],
       rc_mosaic = lcd p 0x0400004C\<rparr>)"

definition ppu_save_state :: "ppu_timing \<Rightarrow> ppu_timing" where
  "ppu_save_state p = p"

definition ppu_load_state :: "ppu_timing \<Rightarrow> ppu_timing \<Rightarrow> bool \<times> ppu_timing" where
  "ppu_load_state state p =
     (True, \<lparr>ppu_line = ppu_line state, ppu_line_cycle = ppu_line_cycle state,
             ppu_dispstat_control = ppu_dispstat_control state,
             ppu_lcd_control = ppu_lcd_control state\<rparr>)"

definition ppu_state_hash :: "ppu_timing \<Rightarrow> u64" where
  "ppu_state_hash p =
     fold add_u16 (ppu_lcd_control p)
       (add_u16 (ppu_dispstat_control p) (add_u16 (ppu_line_cycle p) (add_u16 (ppu_line p) kOffsetBasis)))"

section \<open>Ticking\<close>

type_synonym ppu_run = "ppu_timing \<times> interrupt_controller \<times> ppu_tick_events"

definition no_ppu_events :: ppu_tick_events where
  "no_ppu_events = \<lparr>hblank_entries = 0, vblank_entries = 0, vcount_matches = 0\<rparr>"

definition request_if :: "bool \<Rightarrow> interrupt_source \<Rightarrow> interrupt_controller \<Rightarrow> interrupt_controller" where
  "request_if c source ic = (if c then ic_request source ic else ic)"

definition ppu_enter_hblank :: "ppu_run \<Rightarrow> ppu_run" where
  "ppu_enter_hblank = (\<lambda>(p, ic, ev).
     (p, request_if (ppu_hblank_irq_enabled p) Irq_hblank ic,
      if ppu_line p < kVisibleLines then ev\<lparr>hblank_entries := hblank_entries ev + 1\<rparr> else ev))"

definition ppu_enter_next_line :: "ppu_run \<Rightarrow> ppu_run" where
  "ppu_enter_next_line = (\<lambda>(p, ic, ev).
     let p = p\<lparr>ppu_line_cycle := 0, ppu_line := ppu_line p + 1\<rparr>;
         p = (if ppu_line p = kTotalLines then p\<lparr>ppu_line := 0\<rparr> else p);
         ic = request_if (ppu_line p = kVisibleLines \<and> ppu_vblank_irq_enabled p) Irq_vblank ic;
         ev = (if ppu_line p = kVisibleLines then ev\<lparr>vblank_entries := vblank_entries ev + 1\<rparr> else ev);
         ic = request_if (ppu_vcount_match p \<and> ppu_vcount_irq_enabled p) Irq_vcount ic;
         ev = (if ppu_vcount_match p then ev\<lparr>vcount_matches := vcount_matches ev + 1\<rparr> else ev)
     in (p, ic, ev))"

text \<open>The body of the tick loop: advance the line cycle by \<open>step\<close>, then run the events reached.\<close>

definition ppu_next_event_cycle :: "ppu_timing \<Rightarrow> u16" where
  "ppu_next_event_cycle p =
     (if ppu_line_cycle p < kHblankFlagCycles then kHblankFlagCycles else kCyclesPerLine)"

definition ppu_advance :: "u32 \<Rightarrow> ppu_run \<Rightarrow> ppu_run" where
  "ppu_advance step = (\<lambda>(p, ic, ev).
     let p = p\<lparr>ppu_line_cycle := ucast (ucast (ppu_line_cycle p) + step)\<rparr>;
         r = (if ppu_line_cycle p = kHblankFlagCycles then ppu_enter_hblank (p, ic, ev) else (p, ic, ev))
     in if ppu_line_cycle (fst r) = kCyclesPerLine then ppu_enter_next_line r else r)"

definition ppu_step_size :: "u32 \<Rightarrow> ppu_timing \<Rightarrow> u32" where
  "ppu_step_size cycles p =
     min cycles (ucast (ppu_next_event_cycle p) - ucast (ppu_line_cycle p))"

lemma ppu_advance_line_cycle: "ppu_line_cycle (fst (ppu_advance step r)) \<noteq> kCyclesPerLine"
  by (cases r)
    (auto simp: ppu_advance_def ppu_enter_hblank_def ppu_enter_next_line_def Let_def ppu_consts)

function ppu_tick_loop :: "u32 \<Rightarrow> ppu_run \<Rightarrow> ppu_run" where
  "ppu_tick_loop cycles r =
     (if cycles = 0 then r
      else let step = ppu_step_size cycles (fst r)
           in ppu_tick_loop (cycles - step) (ppu_advance step r))"
  by pat_completeness auto
termination
proof (relation "measure (\<lambda>(cycles, r).
    2 * unat cycles + (if ppu_line_cycle (fst r) = kCyclesPerLine then 1 else 0))")
  show "wf (measure (\<lambda>(cycles, r).
    2 * unat (cycles :: u32) + (if ppu_line_cycle (fst r) = kCyclesPerLine then 1 else 0)))"
    by simp
next
  fix cycles step :: u32 and r :: ppu_run
  assume nz: "cycles \<noteq> 0" and step: "step = ppu_step_size cycles (fst r)"
  have le: "step \<le> cycles"
    by (simp add: step ppu_step_size_def)
  have "unat (cycles - step) = unat cycles - unat step"
    using le by (simp add: unat_sub)
  moreover have "ppu_line_cycle (fst r) = kCyclesPerLine" if "step = 0"
  proof -
    have "(ucast (ppu_next_event_cycle (fst r)) :: u32) = ucast (ppu_line_cycle (fst r))"
      using that nz by (auto simp: step ppu_step_size_def min_def split: if_splits)
    then have "ppu_next_event_cycle (fst r) = ppu_line_cycle (fst r)"
      by simp
    then show ?thesis
      by (auto simp: ppu_next_event_cycle_def ppu_consts split: if_splits)
  qed
  moreover have "unat step \<le> unat cycles"
    using le by (simp add: word_le_nat_alt)
  moreover have "0 < unat step" if "step \<noteq> 0"
    using that by (simp add: unat_gt_0)
  ultimately have "2 * unat (cycles - step)
      < 2 * unat cycles + (if ppu_line_cycle (fst r) = kCyclesPerLine then 1 else 0)"
    by (cases "step = 0") auto
  then show "((cycles - step, ppu_advance step r), (cycles, r)) \<in> measure (\<lambda>(cycles, r).
    2 * unat (cycles :: u32) + (if ppu_line_cycle (fst r) = kCyclesPerLine then 1 else 0))"
    using ppu_advance_line_cycle [of step r] by simp
qed

declare ppu_tick_loop.simps [simp del]

definition ppu_tick ::
  "u32 \<Rightarrow> ppu_timing \<Rightarrow> interrupt_controller \<Rightarrow> ppu_timing \<times> interrupt_controller \<times> ppu_tick_events" where
  "ppu_tick cycles p interrupts = ppu_tick_loop cycles (p, interrupts, no_ppu_events)"

section \<open>Well-formed states\<close>

definition ppu_wf :: "ppu_timing \<Rightarrow> bool" where
  "ppu_wf p \<longleftrightarrow> ppu_line p < kTotalLines \<and> ppu_line_cycle p < kCyclesPerLine
               \<and> length (ppu_lcd_control p) = kLcdControlCount"

definition frame_pos :: "ppu_timing \<Rightarrow> nat" where
  "frame_pos p = unat (ppu_line p) * 1232 + unat (ppu_line_cycle p)"

lemma ppu_wf_nat:
  "ppu_wf p \<longleftrightarrow> unat (ppu_line p) < 228 \<and> unat (ppu_line_cycle p) < 1232
     \<and> length (ppu_lcd_control p) = kLcdControlCount"
  by (simp add: ppu_wf_def ppu_consts word_less_nat_alt)

lemma frame_pos_less: "ppu_wf p \<Longrightarrow> frame_pos p < 280896"
  by (auto simp: ppu_wf_nat frame_pos_def)

lemma ppu_frame_cycle_pos: "ppu_wf p \<Longrightarrow> unat (ppu_frame_cycle p) = frame_pos p"
  using frame_pos_less [of p]
  by (simp add: ppu_frame_cycle_def frame_pos_def unat_word_ariths ppu_consts)

section \<open>Skipping to the next event is single stepping\<close>

definition ppu_cycle :: "ppu_run \<Rightarrow> ppu_run" where
  "ppu_cycle = ppu_advance 1"

definition to_event :: "ppu_timing \<Rightarrow> nat" where
  "to_event p = (if unat (ppu_line_cycle p) < 1004 then 1004 else 1232) - unat (ppu_line_cycle p)"

lemma to_event_bound: "unat (ppu_line_cycle p) < 1232 \<Longrightarrow> 0 < to_event p \<and> to_event p \<le> 1004"
  by (auto simp: to_event_def)

lemma ppu_cycle_quiet:
  assumes "1 < to_event p"
  shows "ppu_cycle (p, ic, ev) = (p\<lparr>ppu_line_cycle := ppu_line_cycle p + 1\<rparr>, ic, ev)"
proof -
  let ?lc = "ppu_line_cycle p"
  have k: "unat ?lc + 1 < 1232" "unat ?lc + 1 \<noteq> 1004"
    using assms by (auto simp: to_event_def split: if_splits)
  have cast: "(ucast (ucast ?lc + 1 :: u32) :: u16) = ?lc + 1"
    using k by (simp add: word_unat_eq_iff word_nat unat_word_ariths)
  have "unat (?lc + 1) = unat ?lc + 1"
    using k by (simp add: unat_word_ariths)
  then have "?lc + 1 \<noteq> kCyclesPerLine" "?lc + 1 \<noteq> kHblankFlagCycles"
    using k by (auto simp: word_unat_eq_iff ppu_consts)
  then show ?thesis
    by (simp add: ppu_cycle_def ppu_advance_def Let_def cast)
qed

lemma ppu_advance_Suc:
  assumes "Suc k \<le> to_event p" "0 < k"
  shows "ppu_advance (of_nat (Suc k)) (p, ic, ev) = ppu_advance (of_nat k) (ppu_cycle (p, ic, ev))"
    and "to_event (p\<lparr>ppu_line_cycle := ppu_line_cycle p + 1\<rparr>) = to_event p - 1"
proof -
  let ?lc = "ppu_line_cycle p"
  have k: "unat ?lc + Suc k \<le> 1232"
    using assms by (auto simp: to_event_def split: if_splits)
  have u: "unat (?lc + 1) = unat ?lc + 1"
    using k assms(2) by (simp add: unat_word_ariths)
  have "(ucast (?lc + 1) :: u32) = ucast ?lc + 1"
    using k by (simp add: word_unat_eq_iff u unat_word_ariths)
  then have cast: "(ucast (?lc + 1) + of_nat k :: u32) = ucast ?lc + of_nat (Suc k)"
    by simp
  have q: "ppu_cycle (p, ic, ev) = (p\<lparr>ppu_line_cycle := ?lc + 1\<rparr>, ic, ev)"
    using assms by (intro ppu_cycle_quiet) simp
  show "ppu_advance (of_nat (Suc k)) (p, ic, ev) = ppu_advance (of_nat k) (ppu_cycle (p, ic, ev))"
    unfolding q using cast by (simp add: ppu_advance_def add.assoc)
  show "to_event (p\<lparr>ppu_line_cycle := ?lc + 1\<rparr>) = to_event p - 1"
    using assms by (auto simp: to_event_def u split: if_splits)
qed

lemma ppu_advance_cycles:
  "\<lbrakk>0 < k; k \<le> to_event p\<rbrakk> \<Longrightarrow> ppu_advance (of_nat k) (p, ic, ev) = (ppu_cycle ^^ k) (p, ic, ev)"
proof (induction k arbitrary: p ic ev)
  case 0
  then show ?case by simp
next
  case (Suc k)
  show ?case
  proof (cases "k = 0")
    case True
    then show ?thesis by (simp add: ppu_cycle_def)
  next
    case False
    let ?p = "p\<lparr>ppu_line_cycle := ppu_line_cycle p + 1\<rparr>"
    note step = ppu_advance_Suc [OF Suc.prems(2)]
    have q: "ppu_cycle (p, ic, ev) = (?p, ic, ev)"
      using False Suc.prems(2) by (intro ppu_cycle_quiet) simp
    have "ppu_advance (of_nat (Suc k)) (p, ic, ev) = ppu_advance (of_nat k) (?p, ic, ev)"
      using step(1) False q by simp
    also have "\<dots> = (ppu_cycle ^^ k) (ppu_cycle (p, ic, ev))"
      unfolding q using False Suc.prems(2) step(2) by (intro Suc.IH) simp_all
    finally show ?thesis
      by (simp add: funpow_swap1)
  qed
qed


section \<open>One cycle, in terms of the position in the frame\<close>

lemma frame_pos_arith:
  assumes "l < 228" "c < (1232::nat)"
  shows "(l * 1232 + c + 1) mod 1232 = (if c = 1231 then 0 else c + 1)"
    and "(l * 1232 + c + 1) mod 280896 =
           (if c = 1231 then (if l = 227 then 0 else (l + 1) * 1232) else l * 1232 + (c + 1))"
    and "(l * 1232 + c + 1) mod 280896 div 1232 =
           (if c = 1231 then (if l = 227 then 0 else l + 1) else l)"
proof -
  have lt: "l * 1232 + (c + 1) < 280896" if "c \<noteq> 1231"
    using assms that by simp
  have "(l * 1232 + (c + 1)) mod 1232 = (c + 1) mod 1232"
    by (simp only: mod_mult_self3)
  then show "(l * 1232 + c + 1) mod 1232 = (if c = 1231 then 0 else c + 1)"
    using assms(2) by (cases "c = 1231") simp_all
  show eq: "(l * 1232 + c + 1) mod 280896 =
      (if c = 1231 then (if l = 227 then 0 else (l + 1) * 1232) else l * 1232 + (c + 1))"
    using assms lt by (cases "c = 1231") auto
  show "(l * 1232 + c + 1) mod 280896 div 1232 =
      (if c = 1231 then (if l = 227 then 0 else l + 1) else l)"
    unfolding eq using assms(2) by auto
qed

lemma ppu_wf_cycle:
  assumes "ppu_wf p"
  shows "ppu_wf (fst (ppu_cycle (p, ic, ev)))"
    and "frame_pos (fst (ppu_cycle (p, ic, ev))) = (frame_pos p + 1) mod 280896"
    and "ppu_dispstat_control (fst (ppu_cycle (p, ic, ev))) = ppu_dispstat_control p"
    and "ppu_lcd_control (fst (ppu_cycle (p, ic, ev))) = ppu_lcd_control p"
proof -
  let ?l = "ppu_line p" and ?c = "ppu_line_cycle p"
  have b: "unat ?l < 228" "unat ?c < 1232" "length (ppu_lcd_control p) = kLcdControlCount"
    using assms by (simp_all add: ppu_wf_nat)
  have cast: "(ucast (ucast ?c + 1 :: u32) :: u16) = ?c + 1"
    using b by (simp add: word_unat_eq_iff word_nat unat_word_ariths)
  have uc: "unat (?c + 1) = unat ?c + 1" and ul: "unat (?l + 1) = unat ?l + 1"
    using b by (simp_all add: unat_word_ariths)
  have e: "?c + 1 = 1232 \<longleftrightarrow> unat ?c = 1231" "?l + 1 = 228 \<longleftrightarrow> unat ?l = 227"
    using uc ul by (auto simp: word_unat_eq_iff)
  note defs = ppu_cycle_def ppu_advance_def ppu_enter_hblank_def ppu_enter_next_line_def Let_def
    ppu_consts cast
  show "ppu_wf (fst (ppu_cycle (p, ic, ev)))"
    using b e uc ul by (auto simp: defs ppu_wf_nat)
  show "frame_pos (fst (ppu_cycle (p, ic, ev))) = (frame_pos p + 1) mod 280896"
    unfolding frame_pos_def frame_pos_arith(2) [OF b(1,2)]
    using b e uc ul by (auto simp: defs)
  show "ppu_dispstat_control (fst (ppu_cycle (p, ic, ev))) = ppu_dispstat_control p"
    by (auto simp: defs)
  show "ppu_lcd_control (fst (ppu_cycle (p, ic, ev))) = ppu_lcd_control p"
    by (auto simp: defs)
qed

lemma ppu_wf_cycles:
  "ppu_wf (fst r) \<Longrightarrow> ppu_wf (fst ((ppu_cycle ^^ n) r))"
proof (induction n)
  case (Suc n)
  obtain p ic ev where "(ppu_cycle ^^ n) r = (p, ic, ev)"
    by (cases "(ppu_cycle ^^ n) r") auto
  with Suc ppu_wf_cycle(1) [of p ic ev] show ?case
    by simp
qed simp

lemma ppu_step_size_nat:
  assumes "ppu_wf p"
  shows "unat (ppu_step_size cycles p) = min (unat cycles) (to_event p)"
proof -
  have b: "unat (ppu_line_cycle p) < 1232"
    using assms by (simp add: ppu_wf_nat)
  have "unat (ucast (ppu_next_event_cycle p) - ucast (ppu_line_cycle p) :: u32) = to_event p"
    using b
    by (subst unat_sub) (auto simp: word_le_nat_alt word_less_nat_alt ppu_next_event_cycle_def to_event_def
        ppu_consts)
  then show ?thesis
    by (auto simp: ppu_step_size_def min_def word_le_nat_alt)
qed

lemma ppu_tick_loop_cycles:
  "ppu_wf (fst r) \<Longrightarrow> ppu_tick_loop cycles r = (ppu_cycle ^^ unat cycles) r"
proof (induction cycles r rule: ppu_tick_loop.induct)
  case (1 cycles r)
  show ?case
  proof (cases "cycles = 0")
    case True
    then show ?thesis by (simp add: ppu_tick_loop.simps)
  next
    case False
    obtain p ic ev where r: "r = (p, ic, ev)"
      by (cases r) auto
    let ?s = "ppu_step_size cycles p"
    have s: "unat ?s = min (unat cycles) (to_event p)"
      using "1.prems" r by (simp add: ppu_step_size_nat)
    have pos: "0 < unat ?s"
      using s False "1.prems" r to_event_bound [of p] by (simp add: ppu_wf_nat unat_gt_0)
    have "unat ?s \<le> to_event p"
      using s by simp
    then have adv: "ppu_advance ?s r = (ppu_cycle ^^ unat ?s) r"
      using ppu_advance_cycles [OF pos, of p ic ev] r by simp
    have "ppu_tick_loop cycles r = ppu_tick_loop (cycles - ?s) (ppu_advance ?s r)"
      using False r by (subst ppu_tick_loop.simps) (simp add: Let_def)
    also have "\<dots> = (ppu_cycle ^^ unat (cycles - ?s)) (ppu_advance ?s r)"
      using "1.IH" [OF False refl] "1.prems" ppu_wf_cycles [of r "unat ?s"] adv r by simp
    also have "\<dots> = (ppu_cycle ^^ (unat (cycles - ?s) + unat ?s)) r"
      by (simp add: adv funpow_add)
    also have "unat (cycles - ?s) + unat ?s = unat cycles"
      using s by (subst unat_sub) (simp_all add: word_le_nat_alt)
    finally show ?thesis .
  qed
qed

section \<open>The events of a window of cycles\<close>

text \<open>Frame time \<open>t\<close> counts cycles from the start of line 0. The predicates say which event happens when
  the clock reaches \<open>t\<close>.\<close>

definition at_hblank :: "nat \<Rightarrow> bool" where
  "at_hblank t \<longleftrightarrow> t mod 1232 = 1004"

definition at_line :: "nat \<Rightarrow> nat \<Rightarrow> bool" where
  "at_line l t \<longleftrightarrow> t mod 1232 = 0 \<and> t mod 280896 div 1232 = l"

definition at_visible_hblank :: "nat \<Rightarrow> bool" where
  "at_visible_hblank t \<longleftrightarrow> at_hblank t \<and> t mod 280896 div 1232 < 160"

definition events_in :: "(nat \<Rightarrow> bool) \<Rightarrow> nat \<Rightarrow> nat \<Rightarrow> nat" where
  "events_in P a n = card {t. a < t \<and> t \<le> a + n \<and> P t}"

lemma events_in_0 [simp]: "events_in P a 0 = 0"
  by (auto simp: events_in_def)

lemma events_in_Suc: "events_in P a (Suc n) = events_in P a n + (if P (a + Suc n) then 1 else 0)"
proof -
  have "{t. a < t \<and> t \<le> a + Suc n \<and> P t}
      = (if P (a + Suc n) then insert (a + Suc n) {t. a < t \<and> t \<le> a + n \<and> P t}
         else {t. a < t \<and> t \<le> a + n \<and> P t})"
    by (auto simp: le_Suc_eq)
  moreover have "finite {t. a < t \<and> t \<le> a + n \<and> P t}"
    by (rule finite_subset [of _ "{..a + n}"]) auto
  ultimately show ?thesis
    by (simp add: events_in_def)
qed

lemma events_in_pos: "0 < events_in P a n \<longleftrightarrow> (\<exists>t. a < t \<and> t \<le> a + n \<and> P t)"
proof -
  have "finite {t. a < t \<and> t \<le> a + n \<and> P t}"
    by (rule finite_subset [of _ "{..a + n}"]) auto
  then show ?thesis
    by (auto simp: events_in_def card_gt_0_iff)
qed

lemma at_mod_frame:
  "at_hblank (x mod 280896 + 1) = at_hblank (x + 1)"
  "at_line l (x mod 280896 + 1) = at_line l (x + 1)"
  "at_visible_hblank (x mod 280896 + 1) = at_visible_hblank (x + 1)"
proof -
  have a: "(x mod 280896 + 1) mod 280896 = (x + 1) mod 280896"
    by (rule mod_add_left_eq)
  then have "(x mod 280896 + 1) mod 280896 mod 1232 = (x + 1) mod 280896 mod 1232"
    by simp
  then have b: "(x mod 280896 + 1) mod 1232 = (x + 1) mod 1232"
    by (simp add: mod_mod_cancel)
  show "at_hblank (x mod 280896 + 1) = at_hblank (x + 1)"
    "at_line l (x mod 280896 + 1) = at_line l (x + 1)"
    "at_visible_hblank (x mod 280896 + 1) = at_visible_hblank (x + 1)"
    unfolding at_hblank_def at_line_def at_visible_hblank_def a b by (rule refl)+
qed

definition vcount_line :: "ppu_timing \<Rightarrow> nat" where
  "vcount_line p = unat (ppu_vcount_setting p)"

definition ppu_raised :: "ppu_timing \<Rightarrow> (nat \<Rightarrow> bool) \<Rightarrow> (nat \<Rightarrow> bool) \<Rightarrow> (nat \<Rightarrow> bool) \<Rightarrow> nat \<Rightarrow> nat
    \<Rightarrow> interrupt_source set" where
  "ppu_raised p H V C a n =
     (if ppu_hblank_irq_enabled p \<and> 0 < events_in H a n then {Irq_hblank} else {})
     \<union> (if ppu_vblank_irq_enabled p \<and> 0 < events_in V a n then {Irq_vblank} else {})
     \<union> (if ppu_vcount_irq_enabled p \<and> 0 < events_in C a n then {Irq_vcount} else {})"

lemma request_if_simps [simp]:
  "sources_of (interrupt_flags (request_if c s ic)) =
     (if c then insert s (sources_of (interrupt_flags ic)) else sources_of (interrupt_flags ic))"
  "interrupt_enable (request_if c s ic) = interrupt_enable ic"
  "ic_master_enabled (request_if c s ic) = ic_master_enabled ic"
  by (simp_all add: request_if_def ic_sink.pending_request)

lemma ppu_cycle_event:
  assumes "ppu_wf p"
  defines "t \<equiv> frame_pos p + 1"
  assumes r: "ppu_cycle (p, ic, ev) = (p', ic', ev')"
  shows "hblank_entries ev' = hblank_entries ev + (if at_visible_hblank t then 1 else 0)"
    and "vblank_entries ev' = vblank_entries ev + (if at_line 160 t then 1 else 0)"
    and "vcount_matches ev' = vcount_matches ev + (if at_line (vcount_line p) t then 1 else 0)"
    and "sources_of (interrupt_flags ic') = sources_of (interrupt_flags ic)
       \<union> (if ppu_hblank_irq_enabled p \<and> at_hblank t then {Irq_hblank} else {})
       \<union> (if ppu_vblank_irq_enabled p \<and> at_line 160 t then {Irq_vblank} else {})
       \<union> (if ppu_vcount_irq_enabled p \<and> at_line (vcount_line p) t then {Irq_vcount} else {})"
proof -
  let ?l = "ppu_line p" and ?c = "ppu_line_cycle p"
  have b: "unat ?l < 228" "unat ?c < 1232"
    using assms(1) by (simp_all add: ppu_wf_nat)
  have cast: "(ucast (ucast ?c + 1 :: u32) :: u16) = ?c + 1"
    using b by (simp add: word_unat_eq_iff word_nat unat_word_ariths)
  have uc: "unat (?c + 1) = unat ?c + 1" and ul: "unat (?l + 1) = unat ?l + 1"
    using b by (simp_all add: unat_word_ariths)
  have e: "?c + 1 = 1232 \<longleftrightarrow> unat ?c = 1231" "?c + 1 = 1004 \<longleftrightarrow> unat ?c = 1003"
    "?c = 1231 \<longleftrightarrow> unat ?c = 1231" "?c = 1003 \<longleftrightarrow> unat ?c = 1003"
    "?l + 1 = 228 \<longleftrightarrow> unat ?l = 227" "?l + 1 = 160 \<longleftrightarrow> unat ?l = 159" "?l < 160 \<longleftrightarrow> unat ?l < 160"
    "?l = 227 \<longleftrightarrow> unat ?l = 227" "?l = 159 \<longleftrightarrow> unat ?l = 159"
    using uc ul by (auto simp: word_unat_eq_iff word_less_nat_alt)
  have vm: "w = ucast (ppu_vcount_setting p) \<longleftrightarrow> unat w = vcount_line p" for w :: u16
    by (simp add: word_unat_eq_iff vcount_line_def)
  have at: "at_hblank t \<longleftrightarrow> unat ?c = 1003"
    "at_visible_hblank t \<longleftrightarrow> unat ?c = 1003 \<and> unat ?l < 160"
    "at_line n t \<longleftrightarrow> unat ?c = 1231 \<and> (if unat ?l = 227 then 0 else unat ?l + 1) = n" for n
    unfolding at_hblank_def at_visible_hblank_def at_line_def t_def frame_pos_def
      frame_pos_arith [OF b] by auto
  note defs = ppu_cycle_def ppu_advance_def ppu_enter_hblank_def ppu_enter_next_line_def Let_def
    ppu_consts cast e at ppu_vcount_match_def ppu_vcount_setting_def [of "ppu_line_update _ _"]
  have same: "ppu_vcount_setting (p\<lparr>ppu_line_cycle := x, ppu_line := y\<rparr>) = ppu_vcount_setting p"
    "ppu_vcount_irq_enabled (p\<lparr>ppu_line_cycle := x, ppu_line := y\<rparr>) = ppu_vcount_irq_enabled p"
    "ppu_vblank_irq_enabled (p\<lparr>ppu_line_cycle := x, ppu_line := y\<rparr>) = ppu_vblank_irq_enabled p"
    "ppu_hblank_irq_enabled (p\<lparr>ppu_line_cycle := x\<rparr>) = ppu_hblank_irq_enabled p" for x y
    by (simp_all add: ppu_vcount_setting_def ppu_vcount_irq_enabled_def ppu_vblank_irq_enabled_def
        ppu_hblank_irq_enabled_def)
  show "hblank_entries ev' = hblank_entries ev + (if at_visible_hblank t then 1 else 0)"
    "vblank_entries ev' = vblank_entries ev + (if at_line 160 t then 1 else 0)"
    "vcount_matches ev' = vcount_matches ev + (if at_line (vcount_line p) t then 1 else 0)"
    "sources_of (interrupt_flags ic') = sources_of (interrupt_flags ic)
       \<union> (if ppu_hblank_irq_enabled p \<and> at_hblank t then {Irq_hblank} else {})
       \<union> (if ppu_vblank_irq_enabled p \<and> at_line 160 t then {Irq_vblank} else {})
       \<union> (if ppu_vcount_irq_enabled p \<and> at_line (vcount_line p) t then {Irq_vcount} else {})"
    using r same vm ul by (auto simp: defs split: if_splits)
qed

lemma ppu_cycles_spec:
  assumes "ppu_wf p" and "(ppu_cycle ^^ n) (p, ic, ev) = (p', ic', ev')"
  shows "ppu_wf p' \<and> frame_pos p' = (frame_pos p + n) mod 280896
     \<and> ppu_dispstat_control p' = ppu_dispstat_control p \<and> ppu_lcd_control p' = ppu_lcd_control p
     \<and> hblank_entries ev' = hblank_entries ev + of_nat (events_in at_visible_hblank (frame_pos p) n)
     \<and> vblank_entries ev' = vblank_entries ev + of_nat (events_in (at_line 160) (frame_pos p) n)
     \<and> vcount_matches ev' =
         vcount_matches ev + of_nat (events_in (at_line (vcount_line p)) (frame_pos p) n)
     \<and> sources_of (interrupt_flags ic') = sources_of (interrupt_flags ic)
         \<union> ppu_raised p at_hblank (at_line 160) (at_line (vcount_line p)) (frame_pos p) n"
  using assms(2)
proof (induction n arbitrary: p' ic' ev')
  case 0
  then show ?case
    using assms(1) frame_pos_less [OF assms(1)] by (simp add: ppu_raised_def)
next
  case (Suc n)
  obtain q jc fv where q: "(ppu_cycle ^^ n) (p, ic, ev) = (q, jc, fv)"
    by (cases "(ppu_cycle ^^ n) (p, ic, ev)") auto
  note IH = Suc.IH [OF q]
  have c: "ppu_cycle (q, jc, fv) = (p', ic', ev')"
    using Suc.prems q by simp
  have wf: "ppu_wf q"
    using IH by blast
  have en: "ppu_hblank_irq_enabled q = ppu_hblank_irq_enabled p"
    "ppu_vblank_irq_enabled q = ppu_vblank_irq_enabled p"
    "ppu_vcount_irq_enabled q = ppu_vcount_irq_enabled p" "vcount_line q = vcount_line p"
    using IH by (simp_all add: ppu_hblank_irq_enabled_def ppu_vblank_irq_enabled_def
        ppu_vcount_irq_enabled_def vcount_line_def ppu_vcount_setting_def)
  note step = ppu_wf_cycle [OF wf, of jc fv, unfolded c fst_conv]
  note ev = ppu_cycle_event [OF wf c]
  have fq: "frame_pos q = (frame_pos p + n) mod 280896"
    using IH by blast
  have t: "at_hblank (frame_pos q + 1) = at_hblank (frame_pos p + Suc n)"
    "at_line l (frame_pos q + 1) = at_line l (frame_pos p + Suc n)"
    "at_visible_hblank (frame_pos q + 1) = at_visible_hblank (frame_pos p + Suc n)" for l
    using at_mod_frame [where x = "frame_pos p + n"] unfolding fq by simp_all
  have "frame_pos p' = (frame_pos p + Suc n) mod 280896"
    using step(2) IH mod_add_left_eq [of "frame_pos p + n" 280896 1] by simp
  moreover have "sources_of (interrupt_flags ic') = sources_of (interrupt_flags ic)
      \<union> ppu_raised p at_hblank (at_line 160) (at_line (vcount_line p)) (frame_pos p) (Suc n)"
    using ev(4) IH unfolding t en ppu_raised_def events_in_Suc by (auto split: if_splits)
  ultimately show ?case
    using step ev(1-3) IH unfolding t en events_in_Suc by simp
qed

text \<open>C2. The PPU clock. From any well-formed state a tick of n cycles, which jumps from event to event, ends
  exactly where n single-cycle steps end: the frame position advances by n modulo the 280896 cycles of a frame, the
  registers are untouched, the reported HBlank, VBlank and VCOUNT events are the number of times the clock reaches
  cycle 1004 of a visible line, the start of line 160 and the start of the selected line within the window, and
  exactly the enabled interrupts whose event occurs in the window are raised.\<close>

theorem ppu_tick_spec:
  assumes "ppu_wf p" and "ppu_tick cycles p ic = (p', ic', ev')"
  shows "(ppu_cycle ^^ unat cycles) (p, ic, no_ppu_events) = (p', ic', ev')
     \<and> ppu_wf p' \<and> frame_pos p' = (frame_pos p + unat cycles) mod 280896
     \<and> ppu_dispstat_control p' = ppu_dispstat_control p \<and> ppu_lcd_control p' = ppu_lcd_control p
     \<and> hblank_entries ev' = of_nat (events_in at_visible_hblank (frame_pos p) (unat cycles))
     \<and> vblank_entries ev' = of_nat (events_in (at_line 160) (frame_pos p) (unat cycles))
     \<and> vcount_matches ev' = of_nat (events_in (at_line (vcount_line p)) (frame_pos p) (unat cycles))
     \<and> sources_of (interrupt_flags ic') = sources_of (interrupt_flags ic)
         \<union> ppu_raised p at_hblank (at_line 160) (at_line (vcount_line p)) (frame_pos p) (unat cycles)"
proof -
  have eq: "(ppu_cycle ^^ unat cycles) (p, ic, no_ppu_events) = (p', ic', ev')"
    using assms ppu_tick_loop_cycles [of "(p, ic, no_ppu_events)" cycles] by (simp add: ppu_tick_def)
  show ?thesis
    using ppu_cycles_spec [OF assms(1) eq] eq by (simp add: no_ppu_events_def)
qed

theorem ppu_tick_spec_witness:
  "\<exists>p' ic' ev'. ppu_tick 1004 ppu_reset ic_reset = (p', ic', ev') \<and> frame_pos p' = 1004"
proof -
  obtain p' ic' ev' where t: "ppu_tick 1004 ppu_reset ic_reset = (p', ic', ev')"
    by (cases "ppu_tick 1004 ppu_reset ic_reset") auto
  have wf: "ppu_wf ppu_reset"
    by (simp add: ppu_wf_def ppu_reset_def ppu_consts)
  have "frame_pos ppu_reset = 0"
    by (simp add: frame_pos_def ppu_reset_def)
  then show ?thesis
    using ppu_tick_spec [OF wf t] t by simp
qed

section \<open>Whole frames and split ticks\<close>

lemma events_in_frame:
  assumes "\<And>t. P (t mod 280896) = P t"
  shows "events_in P a 280896 = card {t. t < 280896 \<and> P t}"
proof -
  note inj = inj_on_mod_window [of 280896 a]
  have img: "(\<lambda>t. t mod 280896) ` {a<..a + 280896} = {..<280896}"
    by (rule card_subset_eq) (auto simp: card_image [OF inj])
  have "(\<lambda>t. t mod 280896) ` {t. a < t \<and> t \<le> a + 280896 \<and> P t} = {t. t < 280896 \<and> P t}"
  proof
    show "(\<lambda>t. t mod 280896) ` {t. a < t \<and> t \<le> a + 280896 \<and> P t} \<subseteq> {t. t < 280896 \<and> P t}"
      using assms by auto
    show "{t. t < 280896 \<and> P t} \<subseteq> (\<lambda>t. t mod 280896) ` {t. a < t \<and> t \<le> a + 280896 \<and> P t}"
    proof
      fix u assume u: "u \<in> {t. t < 280896 \<and> P t}"
      then have "u \<in> (\<lambda>t. t mod 280896) ` {a<..a + 280896}"
        unfolding img by simp
      then show "u \<in> (\<lambda>t. t mod 280896) ` {t. a < t \<and> t \<le> a + 280896 \<and> P t}"
        using u assms by auto
    qed
  qed
  moreover have "inj_on (\<lambda>t. t mod 280896) {t. a < t \<and> t \<le> a + 280896 \<and> P t}"
    by (rule inj_on_subset [OF inj]) auto
  ultimately show ?thesis
    unfolding events_in_def using card_image by fastforce
qed

lemma card_visible_hblank: "card {t. t < 280896 \<and> at_visible_hblank t} = 160"
proof -
  have "{t. t < 280896 \<and> at_visible_hblank t} = (\<lambda>l. l * 1232 + 1004) ` {..<160}"
  proof (intro equalityI subsetI)
    fix t assume "t \<in> {t. t < 280896 \<and> at_visible_hblank t}"
    then have "t mod 1232 = 1004" "t div 1232 < 160"
      by (auto simp: at_visible_hblank_def at_hblank_def)
    then show "t \<in> (\<lambda>l. l * 1232 + 1004) ` {..<160}"
      using div_mult_mod_eq [of t 1232] by (intro image_eqI [of _ _ "t div 1232"]) auto
  qed (auto simp: at_visible_hblank_def at_hblank_def)
  then show ?thesis
    by (simp add: card_image inj_on_def)
qed

lemma card_line: "card {t. t < 280896 \<and> at_line l t} = (if l < 228 then 1 else 0)"
proof -
  have "{t. t < 280896 \<and> at_line l t} = (if l < 228 then {l * 1232} else {})"
  proof (intro equalityI subsetI)
    fix t assume "t \<in> {t. t < 280896 \<and> at_line l t}"
    then have "t mod 1232 = 0" "t div 1232 = l" "t < 280896"
      by (auto simp: at_line_def)
    then show "t \<in> (if l < 228 then {l * 1232} else {})"
      using div_mult_mod_eq [of t 1232] by auto
  qed (auto simp: at_line_def split: if_splits)
  then show ?thesis
    by simp
qed

text \<open>One frame. Ticking a whole frame of 280896 cycles, from any well-formed position, returns the line and
  cycle counters to where they were and reports exactly 160 HBlank entries, one VBlank entry and one VCOUNT match
  (none when the selected line does not exist).\<close>

lemma ppu_tick_frame:
  assumes "ppu_wf p" and "ppu_tick kCyclesPerFrame p ic = (p', ic', ev')"
  shows "p' = p \<and> hblank_entries ev' = 160 \<and> vblank_entries ev' = 1
     \<and> vcount_matches ev' = (if vcount_line p < 228 then 1 else 0)"
proof -
  have eq: "(ppu_cycle ^^ 280896) (p, ic, no_ppu_events) = (p', ic', ev')"
    using assms ppu_tick_loop_cycles [of "(p, ic, no_ppu_events)" kCyclesPerFrame]
    by (simp add: ppu_tick_def kCyclesPerFrame_def)
  note spec = ppu_cycles_spec [OF assms(1) eq]
  have periodic: "at_visible_hblank (t mod 280896) = at_visible_hblank t"
    "at_line l (t mod 280896) = at_line l t" for t l
    by (simp_all add: at_visible_hblank_def at_hblank_def at_line_def mod_mod_cancel)
  have pos: "frame_pos p' = frame_pos p"
    using spec frame_pos_less [OF assms(1)] by simp
  have b: "unat (ppu_line_cycle p) < 1232" "unat (ppu_line_cycle p') < 1232"
    using spec assms(1) by (simp_all add: ppu_wf_nat)
  have "unat (ppu_line p') = unat (ppu_line p)" "unat (ppu_line_cycle p') = unat (ppu_line_cycle p)"
    using arg_cong [OF pos, of "\<lambda>x. x div 1232"] arg_cong [OF pos, of "\<lambda>x. x mod 1232"] b
    by (simp_all add: frame_pos_def)
  then have "p' = p"
    using spec by (intro ppu_timing.equality) (simp_all add: word_unat_eq_iff)
  moreover have "events_in at_visible_hblank (frame_pos p) 280896 = 160"
    "events_in (at_line l) (frame_pos p) 280896 = (if l < 228 then 1 else 0)" for l
    using events_in_frame [of at_visible_hblank] events_in_frame [of "at_line l"] periodic
    by (simp_all add: card_visible_hblank card_line)
  ultimately show ?thesis
    using spec by (simp add: no_ppu_events_def)
qed

end
