(* ===== verification/Timers.thy ===== *)
theory Timers
  imports Interrupts
begin

text \<open>
  The four hardware timers of \<open>src/src/core/timers.cpp\<close>. A \<open>Timer\<close> is the record \<open>gba_timer\<close>, the class is
  the record \<open>timers\<close> (the array and \<open>cycle_counter_\<close>), and every method is a function on it; methods that go
  through \<open>checked_timer\<close> return \<^const>\<open>None\<close> where the code throws \<open>std::out_of_range\<close>. The mutually recursive
  \<open>increment_timer\<close> and \<open>handle_overflow\<close> keep the code's batching: a whole run of prescaler ticks is
  counted from overflow to overflow, and an overflow increments the next timer when that one counts up.

  The lemmas relate the batched code to a one-pass reference in which every timer is driven by an explicit list of
  cycles: the multiples of its prescaler in the window, or the overflows of the timer before it.
\<close>

section \<open>State\<close>

record gba_timer =
  tmr_counter :: u16
  tmr_reload :: u16
  tmr_control :: u16
  tmr_overflow_count :: u64
  tmr_enable_delay :: u32
  tmr_last_enable_phase :: u16
  tmr_enabled_at :: u64
  tmr_just_enabled :: bool

record timers =
  tm_timers :: "gba_timer list"
  tm_cycle_counter :: u64

record timer_state =
  ts_counter :: u16
  ts_reload :: u16
  ts_control :: u16
  ts_prescaler_remainder :: u64
  ts_overflow_count :: u64
  ts_enable_delay :: u32
  ts_last_enable_phase :: u16
  ts_just_enabled :: bool

record timers_state =
  tss_timers :: "timer_state list"
  tss_cycle_counter :: u64

definition kTimerCount :: nat where "kTimerCount = 4"
definition kPrescalerMask :: u16 where "kPrescalerMask = 0x0003"
definition kCountUpFlag :: u16 where "kCountUpFlag = 0x0004"
definition kIrqFlag :: u16 where "kIrqFlag = 0x0040"
definition kEnableFlag :: u16 where "kEnableFlag = 0x0080"
definition kControlMask :: u16 where "kControlMask = kPrescalerMask OR kCountUpFlag OR kIrqFlag OR kEnableFlag"

lemmas timer_consts = kTimerCount_def kPrescalerMask_def kCountUpFlag_def kIrqFlag_def kEnableFlag_def

text \<open>\<open>static_cast<InterruptSource>(timer0 + index)\<close>; the code only uses indices below four.\<close>

definition timer_interrupt_source :: "nat \<Rightarrow> interrupt_source" where
  "timer_interrupt_source index =
     (if index = 0 then Irq_timer0 else if index = 1 then Irq_timer1
      else if index = 2 then Irq_timer2 else Irq_timer3)"

definition divisor_for_control :: "u16 \<Rightarrow> u16" where
  "divisor_for_control control =
     (if control AND kPrescalerMask = 0 then 1
      else if control AND kPrescalerMask = 1 then 64
      else if control AND kPrescalerMask = 2 then 256
      else if control AND kPrescalerMask = 3 then 1024
      else 1)"

definition blank_timer :: gba_timer where
  "blank_timer = \<lparr>tmr_counter = 0, tmr_reload = 0, tmr_control = 0, tmr_overflow_count = 0,
     tmr_enable_delay = 0, tmr_last_enable_phase = 0, tmr_enabled_at = 0, tmr_just_enabled = False\<rparr>"

definition timers_reset :: timers where
  "timers_reset = \<lparr>tm_timers = vec_fill kTimerCount blank_timer, tm_cycle_counter = 0\<rparr>"

definition checked_timer :: "nat \<Rightarrow> timers \<Rightarrow> gba_timer throws" where
  "checked_timer index ts = (if index \<ge> kTimerCount then None else vec_at (tm_timers ts) index)"

definition put_timer :: "nat \<Rightarrow> gba_timer \<Rightarrow> timers \<Rightarrow> timers throws" where
  "put_timer index timer ts = do {
     us \<leftarrow> vec_put (tm_timers ts) index timer;
     Some (ts\<lparr>tm_timers := us\<rparr>)}"

section \<open>Register access\<close>

definition timer_enabled :: "gba_timer \<Rightarrow> bool" where
  "timer_enabled timer \<longleftrightarrow> tmr_control timer AND kEnableFlag \<noteq> 0"

definition timer_count_up :: "nat \<Rightarrow> gba_timer \<Rightarrow> bool" where
  "timer_count_up index timer \<longleftrightarrow> index \<noteq> 0 \<and> tmr_control timer AND kCountUpFlag \<noteq> 0"

definition timer_irq_enabled :: "gba_timer \<Rightarrow> bool" where
  "timer_irq_enabled timer \<longleftrightarrow> tmr_control timer AND kIrqFlag \<noteq> 0"

definition timers_write_reload :: "nat \<Rightarrow> u16 \<Rightarrow> timers \<Rightarrow> timers throws" where
  "timers_write_reload index v ts = do {
     timer \<leftarrow> checked_timer index ts;
     put_timer index (timer\<lparr>tmr_reload := v\<rparr>) ts}"

definition control_written :: "nat \<Rightarrow> u16 \<Rightarrow> u64 \<Rightarrow> gba_timer \<Rightarrow> gba_timer" where
  "control_written index v now timer = (
     let was_enabled = timer_enabled timer;
         sanitized = (let masked = v AND kControlMask in
                      if index = 0 then masked AND NOT kCountUpFlag else masked);
         t1 = timer\<lparr>tmr_control := sanitized\<rparr>;
         is_enabled = timer_enabled t1;
         t2 = (if \<not> was_enabled \<and> is_enabled
               then t1\<lparr>tmr_counter := tmr_reload t1, tmr_enable_delay := 0,
                       tmr_last_enable_phase := ucast (now mod ucast (divisor_for_control sanitized)),
                       tmr_enabled_at := now, tmr_just_enabled := True\<rparr>
               else t1)
     in if \<not> is_enabled
        then t2\<lparr>tmr_enable_delay := 0, tmr_last_enable_phase := 0, tmr_enabled_at := 0,
                tmr_just_enabled := False\<rparr>
        else t2)"

definition timers_write_control :: "nat \<Rightarrow> u16 \<Rightarrow> timers \<Rightarrow> timers throws" where
  "timers_write_control index v ts = do {
     timer \<leftarrow> checked_timer index ts;
     put_timer index (control_written index v (tm_cycle_counter ts) timer) ts}"

definition timers_defer_newly_enabled_ticks :: "timers \<Rightarrow> timers" where
  "timers_defer_newly_enabled_ticks ts =
     ts\<lparr>tm_timers := map (\<lambda>timer. if tmr_just_enabled timer then timer\<lparr>tmr_enable_delay := 1\<rparr> else timer)
                         (tm_timers ts)\<rparr>"

definition timers_counter :: "nat \<Rightarrow> timers \<Rightarrow> u16 throws" where
  "timers_counter index ts = map_option tmr_counter (checked_timer index ts)"

definition timers_reload :: "nat \<Rightarrow> timers \<Rightarrow> u16 throws" where
  "timers_reload index ts = map_option tmr_reload (checked_timer index ts)"

definition timers_control :: "nat \<Rightarrow> timers \<Rightarrow> u16 throws" where
  "timers_control index ts = map_option tmr_control (checked_timer index ts)"

definition timers_enabled :: "nat \<Rightarrow> timers \<Rightarrow> bool throws" where
  "timers_enabled index ts = map_option timer_enabled (checked_timer index ts)"

definition timers_count_up :: "nat \<Rightarrow> timers \<Rightarrow> bool throws" where
  "timers_count_up index ts =
     (if index = 0 then Some False else map_option (timer_count_up index) (checked_timer index ts))"

definition timers_irq_enabled :: "nat \<Rightarrow> timers \<Rightarrow> bool throws" where
  "timers_irq_enabled index ts = map_option timer_irq_enabled (checked_timer index ts)"

definition timers_prescaler_divisor :: "nat \<Rightarrow> timers \<Rightarrow> u16 throws" where
  "timers_prescaler_divisor index ts =
     map_option (\<lambda>timer. divisor_for_control (tmr_control timer)) (checked_timer index ts)"

definition timers_last_enable_phase :: "nat \<Rightarrow> timers \<Rightarrow> u16 throws" where
  "timers_last_enable_phase index ts = map_option tmr_last_enable_phase (checked_timer index ts)"

definition timers_overflow_count :: "nat \<Rightarrow> timers \<Rightarrow> u64 throws" where
  "timers_overflow_count index ts = map_option tmr_overflow_count (checked_timer index ts)"

definition timers_cycles_until_next_prescaler_tick :: "nat \<Rightarrow> timers \<Rightarrow> u32 throws" where
  "timers_cycles_until_next_prescaler_tick index ts = do {
     timer \<leftarrow> checked_timer index ts;
     Some (if \<not> timer_enabled timer \<or> timer_count_up index timer \<or> tmr_enable_delay timer \<noteq> 0 then 0
           else let divisor = (ucast (divisor_for_control (tmr_control timer)) :: u64);
                    phase = tm_cycle_counter ts mod divisor
                in ucast (if phase = 0 then divisor else divisor - phase))}"

definition timer_hash :: "gba_timer \<Rightarrow> u64 \<Rightarrow> u64" where
  "timer_hash timer h =
     add_bool (tmr_just_enabled timer)
      (add_u16 (tmr_last_enable_phase timer)
       (add_u32 (tmr_enable_delay timer)
        (add_u64 (tmr_overflow_count timer)
         (add_u16 (tmr_control timer)
          (add_u16 (tmr_reload timer)
           (add_u16 (tmr_counter timer) h))))))"

definition timers_state_hash :: "timers \<Rightarrow> u64" where
  "timers_state_hash ts = fold timer_hash (tm_timers ts) (add_u64 (tm_cycle_counter ts) kOffsetBasis)"

section \<open>Ticking\<close>

type_synonym timers_run = "timers \<times> interrupt_controller \<times> u64 option"

text \<open>The IRQ half of \<open>handle_overflow\<close>: request the timer's source and keep the earliest cycle.\<close>

definition earliest :: "u64 \<Rightarrow> u64 option \<Rightarrow> u64 option" where
  "earliest cycle res = (case res of None \<Rightarrow> Some cycle | Some first \<Rightarrow> if cycle < first then Some cycle else res)"

definition raise_timer_irq ::
  "nat \<times> u64 \<Rightarrow> interrupt_controller \<times> u64 option \<Rightarrow> interrupt_controller \<times> u64 option" where
  "raise_timer_irq ev s = (ic_request (timer_interrupt_source (fst ev)) (fst s), earliest (snd ev) (snd s))"

definition in_enable_delay :: "u64 \<Rightarrow> gba_timer \<Rightarrow> bool" where
  "in_enable_delay cycle timer \<longleftrightarrow> cycle \<le> tmr_enabled_at timer + ucast (tmr_enable_delay timer)"

lemma ticks_to_overflow_nat:
  "unat (ucast (0x10000 - (ucast (c :: u16) :: u32)) :: u64) = 0x10000 - unat c"
proof -
  have "(ucast c :: u32) \<le> 0x10000"
    using unat_u16_less [of c] by (simp add: word_le_nat_alt del: unat_u16_less)
  then show ?thesis
    by (simp add: unat_sub)
qed

lemma ticks_before_overflow:
  "(ucast (0x10000 - (ucast (c :: u16) :: u32) - 1) :: u64) = of_nat (0xFFFF - unat c)"
proof -
  have "(ucast c :: u32) \<le> 0xFFFF"
    using unat_u16_less [of c] unfolding word_le_nat_alt by (simp del: unat_u16_less)
  then have "unat (0xFFFF - (ucast c :: u32)) = 0xFFFF - unat c"
    by (simp add: unat_sub)
  then show ?thesis
    by (simp add: word_unat_eq_iff unat_of_nat)
qed

lemma ticks_left_less:
  fixes ticks :: u64
  assumes "\<not> ticks < ucast (0x10000 - (ucast (c :: u16) :: u32))"
  shows "unat (ticks - ucast (0x10000 - (ucast c :: u32))) = unat ticks - (0x10000 - unat c)"
    and "0x10000 - unat c \<le> unat ticks" and "unat ticks - (0x10000 - unat c) < unat ticks"
proof -
  show le: "0x10000 - unat c \<le> unat ticks"
    using assms by (simp add: word_less_nat_alt ticks_to_overflow_nat del: unat_ucast_widen)
  then show "unat (ticks - ucast (0x10000 - (ucast c :: u32))) = unat ticks - (0x10000 - unat c)"
    using assms by (simp add: unat_sub ticks_to_overflow_nat del: unat_ucast_widen)
  show "unat ticks - (0x10000 - unat c) < unat ticks"
    using le unat_u16_less [of c] by linarith
qed

function increment_timer :: "nat \<Rightarrow> u64 \<Rightarrow> u64 \<Rightarrow> u32 \<Rightarrow> timers_run \<Rightarrow> timers_run throws"
  and handle_overflow :: "nat \<Rightarrow> u64 \<Rightarrow> timers_run \<Rightarrow> timers_run throws" where
  "increment_timer index ticks next_tick_cycle tick_stride (ts, irq) = do {
     timer \<leftarrow> checked_timer index ts;
     if ticks > 0 then
       (let ticks_to_overflow = 0x10000 - (ucast (tmr_counter timer) :: u32) in
        if ticks < ucast ticks_to_overflow then do {
          ts' \<leftarrow> put_timer index (timer\<lparr>tmr_counter := ucast (ucast (tmr_counter timer) + ticks)\<rparr>) ts;
          Some (ts', irq)}
        else
          (let overflow_cycle = next_tick_cycle + ucast (ticks_to_overflow - 1) * ucast tick_stride in do {
             ts' \<leftarrow> put_timer index (timer\<lparr>tmr_counter := tmr_reload timer\<rparr>) ts;
             s \<leftarrow> handle_overflow index overflow_cycle (ts', irq);
             increment_timer index (ticks - ucast ticks_to_overflow) (overflow_cycle + ucast tick_stride)
               tick_stride s}))
     else Some (ts, irq)}"
| "handle_overflow index cycle (ts, irq) = do {
     timer \<leftarrow> checked_timer index ts;
     ts' \<leftarrow> put_timer index (timer\<lparr>tmr_overflow_count := tmr_overflow_count timer + 1\<rparr>) ts;
     let irq' = (if timer_irq_enabled timer then raise_timer_irq (index, cycle) irq else irq);
         next = index + 1
     in if next < kTimerCount then do {
          next_timer \<leftarrow> checked_timer next ts';
          if timer_enabled next_timer \<and> timer_count_up next next_timer then
            (if in_enable_delay cycle next_timer then Some (ts', irq')
             else increment_timer next 1 cycle 1 (ts', irq'))
          else Some (ts', irq')}
        else Some (ts', irq')}"
  by pat_completeness auto

termination
  by (relation "measures [\<lambda>x. case x of Inl (i, _) \<Rightarrow> kTimerCount - i | Inr (i, _) \<Rightarrow> kTimerCount - i,
        \<lambda>x. case x of Inl (_, ticks, _) \<Rightarrow> 1 + unat ticks | Inr _ \<Rightarrow> 0]")
    (auto simp: kTimerCount_def ticks_left_less)

declare increment_timer.simps [simp del] handle_overflow.simps [simp del]

definition tick_timer :: "u32 \<Rightarrow> u64 \<Rightarrow> u64 \<Rightarrow> nat \<Rightarrow> timers_run \<Rightarrow> timers_run throws" where
  "tick_timer cycles start_cycle end_cycle index s = (case s of (ts, irq) \<Rightarrow> do {
     timer \<leftarrow> vec_at (tm_timers ts) index;
     if \<not> timer_enabled timer then do {
       ts' \<leftarrow> put_timer index (timer\<lparr>tmr_just_enabled := False\<rparr>) ts;
       Some (ts', irq)}
     else
       (let skipped_cycles = min (tmr_enable_delay timer) cycles;
            timer' = timer\<lparr>tmr_enable_delay := tmr_enable_delay timer - skipped_cycles,
                           tmr_just_enabled := False\<rparr>
        in do {
          ts' \<leftarrow> put_timer index timer' ts;
          if timer_count_up index timer then Some (ts', irq)
          else if tmr_enable_delay timer' \<noteq> 0 \<or> skipped_cycles = cycles then Some (ts', irq)
          else
            (let divisor = divisor_for_control (tmr_control timer');
                 first_active_cycle = start_cycle + ucast skipped_cycles + 1;
                 first_tick_cycle = ((first_active_cycle + ucast divisor - 1) div ucast divisor) * ucast divisor
             in if first_tick_cycle > end_cycle then Some (ts', irq)
                else increment_timer index ((end_cycle - first_tick_cycle) div ucast divisor + 1)
                       first_tick_cycle (ucast divisor) (ts', irq))})})"

definition timers_tick :: "u32 \<Rightarrow> timers \<Rightarrow> interrupt_controller \<Rightarrow> timers_run throws" where
  "timers_tick cycles ts ic =
     (if cycles = 0 then Some (ts, ic, None)
      else
        (let start_cycle = tm_cycle_counter ts;
             end_cycle = tm_cycle_counter ts + ucast cycles
         in do {
           (ts', ic', first_irq_cycle) \<leftarrow>
             foldM (tick_timer cycles start_cycle end_cycle) [0..<kTimerCount]
               (ts\<lparr>tm_cycle_counter := end_cycle\<rparr>, ic, None);
           Some (ts', ic', map_option (\<lambda>c. c - start_cycle) first_irq_cycle)}))"

section \<open>Save states\<close>

definition timer_save :: "gba_timer \<Rightarrow> timer_state" where
  "timer_save timer = \<lparr>ts_counter = tmr_counter timer, ts_reload = tmr_reload timer,
     ts_control = tmr_control timer, ts_prescaler_remainder = 0,
     ts_overflow_count = tmr_overflow_count timer, ts_enable_delay = tmr_enable_delay timer,
     ts_last_enable_phase = tmr_last_enable_phase timer, ts_just_enabled = tmr_just_enabled timer\<rparr>"

definition timers_save_state :: "timers \<Rightarrow> timers_state" where
  "timers_save_state ts = \<lparr>tss_timers = map timer_save (tm_timers ts), tss_cycle_counter = tm_cycle_counter ts\<rparr>"

definition timer_state_valid :: "nat \<Rightarrow> timer_state \<Rightarrow> bool" where
  "timer_state_valid index t \<longleftrightarrow>
     \<not> (ts_control t AND NOT kControlMask \<noteq> 0)
     \<and> \<not> (index = 0 \<and> ts_control t AND kCountUpFlag \<noteq> 0)
     \<and> \<not> (ts_enable_delay t > 1)
     \<and> \<not> (ts_just_enabled t \<and> ts_control t AND kEnableFlag = 0)
     \<and> \<not> (ts_enable_delay t \<noteq> 0 \<and> ts_control t AND kEnableFlag = 0)"

definition timer_restore :: "u64 \<Rightarrow> timer_state \<Rightarrow> gba_timer" where
  "timer_restore now t = \<lparr>tmr_counter = ts_counter t, tmr_reload = ts_reload t,
     tmr_control = ts_control t, tmr_overflow_count = ts_overflow_count t,
     tmr_enable_delay = ts_enable_delay t, tmr_last_enable_phase = ts_last_enable_phase t,
     tmr_enabled_at = (if ts_control t AND kEnableFlag \<noteq> 0 then now else 0),
     tmr_just_enabled = ts_just_enabled t\<rparr>"

text \<open>The state's timer array has four entries by its C++ type, which is the hypothesis of the lemmas below.\<close>

definition timers_load_state :: "timers_state \<Rightarrow> timers \<Rightarrow> bool \<times> timers" where
  "timers_load_state st ts =
     (if list_all (\<lambda>index. timer_state_valid index (tss_timers st ! index)) [0..<kTimerCount]
      then (True, \<lparr>tm_timers = map (timer_restore (tss_cycle_counter st)) (tss_timers st),
                   tm_cycle_counter = tss_cycle_counter st\<rparr>)
      else (False, ts))"

section \<open>Reference: timers driven by lists of cycles\<close>

definition overflows :: "gba_timer \<Rightarrow> bool" where
  "overflows t \<longleftrightarrow> tmr_counter t = 0xFFFF"

definition count_step :: "gba_timer \<Rightarrow> gba_timer" where
  "count_step t =
     (if overflows t then t\<lparr>tmr_counter := tmr_reload t, tmr_overflow_count := tmr_overflow_count t + 1\<rparr>
      else t\<lparr>tmr_counter := tmr_counter t + 1\<rparr>)"

definition driven :: "nat \<Rightarrow> gba_timer \<Rightarrow> bool" where
  "driven index t \<longleftrightarrow> timer_enabled t \<and> timer_count_up index t"

text \<open>One increment of the first timer of a chain, and the list of \<open>(index, cycle)\<close> interrupts it raises.\<close>

fun chain :: "nat \<Rightarrow> u64 \<Rightarrow> gba_timer list \<Rightarrow> gba_timer list \<times> (nat \<times> u64) list" where
  "chain i c [] = ([], [])"
| "chain i c (t # us) =
     (let ev = (if overflows t \<and> timer_irq_enabled t then [(i, c)] else []) in
      if overflows t \<and> us \<noteq> [] \<and> driven (Suc i) (hd us) \<and> \<not> in_enable_delay c (hd us)
      then (count_step t # fst (chain (Suc i) c us), ev @ snd (chain (Suc i) c us))
      else (count_step t # us, ev))"

lemma length_chain [simp]: "length (fst (chain i c us)) = length us"
  by (induction i c us rule: chain.induct) (auto simp: Let_def)

lemma one_tick_overflows:
  "(1 :: u64) < ucast (0x10000 - (ucast (tmr_counter t) :: u32)) \<longleftrightarrow> \<not> overflows t"
proof -
  have "tmr_counter t = 0xFFFF \<longleftrightarrow> unat (tmr_counter t) = 0xFFFF"
    by (simp add: word_unat_eq_iff)
  then show ?thesis
    using unat_u16_less [of "tmr_counter t"]
    unfolding overflows_def word_less_nat_alt ticks_to_overflow_nat by (simp, linarith)
qed

lemma one_tick_counter:
  "(ucast ((ucast c :: u64) + 1) :: u16) = c + 1" for c :: u16
  by (simp add: word_unat_eq_iff word_nat unat_word_ariths mod_mod_cancel)

lemma list_at_split: "i < length us \<Longrightarrow> take i us @ x # drop (Suc i) us = us[i := x]"
  by (simp add: upd_conv_take_nth_drop)

text \<open>What a chain of increments leaves behind, as a run.\<close>

definition chain_run :: "nat \<Rightarrow> gba_timer list \<times> (nat \<times> u64) list \<Rightarrow> timers_run \<Rightarrow> timers_run" where
  "chain_run i r s = ((fst s)\<lparr>tm_timers := take i (tm_timers (fst s)) @ fst r\<rparr>, fold raise_timer_irq (snd r) (snd s))"

lemma chain_run_timers:
  assumes "i \<le> length (tm_timers (fst s))"
  shows "tm_timers (fst (chain_run i r s)) = take i (tm_timers (fst s)) @ fst r"
    and "drop i (tm_timers (fst (chain_run i r s))) = fst r"
    and "chain_run i r' (chain_run i r s) = chain_run i (fst r', snd r @ snd r') s"
  using assms by (simp_all add: chain_run_def)

lemmas timer_access = checked_timer_def put_timer_def kTimerCount_def

lemma increment_timer_zero:
  "i < 4 \<Longrightarrow> length (tm_timers (fst s)) = 4 \<Longrightarrow> increment_timer i 0 c stride s = Some s"
  by (cases s) (simp add: increment_timer.simps timer_access)

lemma increment_timer_one:
  assumes "i < 4" and "length (tm_timers ts) = 4"
    and h: "overflows (tm_timers ts ! i) \<Longrightarrow>
      handle_overflow i c (ts\<lparr>tm_timers := (tm_timers ts)[i := (tm_timers ts ! i)
        \<lparr>tmr_counter := tmr_reload (tm_timers ts ! i)\<rparr>]\<rparr>, irq) =
      Some (chain_run i (chain i c (drop i (tm_timers ts))) (ts, irq))"
  shows "increment_timer i 1 c stride (ts, irq) =
    Some (chain_run i (chain i c (drop i (tm_timers ts))) (ts, irq))"
proof (cases "overflows (tm_timers ts ! i)")
  case False
  have d: "drop i (tm_timers ts) = tm_timers ts ! i # drop (Suc i) (tm_timers ts)"
    using assms(1,2) by (simp add: Cons_nth_drop_Suc)
  show ?thesis
    using False assms(1,2) one_tick_overflows [of "tm_timers ts ! i"] one_tick_counter
    by (simp add: timer_access d count_step_def list_at_split increment_timer.simps [of i] chain_run_def)
next
  case True
  then have "0x10000 - (ucast (tmr_counter (tm_timers ts ! i)) :: u32) = 1"
    by (simp add: overflows_def)
  moreover have "length (tm_timers (fst (chain_run i (chain i c (drop i (tm_timers ts))) (ts, irq)))) = 4"
    using assms(1,2) by (simp add: chain_run_def)
  ultimately show ?thesis
    using assms(1,2) h [OF True]
    by (simp add: timer_access increment_timer.simps [of i 1] increment_timer_zero Let_def)
qed

lemma handle_overflow_chain:
  assumes "i < 4" and "length (tm_timers ts) = 4" and "overflows (tm_timers ts ! i)"
  shows "handle_overflow i c (ts\<lparr>tm_timers := (tm_timers ts)[i := (tm_timers ts ! i)
        \<lparr>tmr_counter := tmr_reload (tm_timers ts ! i)\<rparr>]\<rparr>, irq) =
      Some (chain_run i (chain i c (drop i (tm_timers ts))) (ts, irq))"
  using assms
proof (induction "4 - i" arbitrary: i ts irq)
  case (Suc k)
  have d: "drop i (tm_timers ts) = tm_timers ts ! i # drop (Suc i) (tm_timers ts)"
    using Suc.prems by (simp add: Cons_nth_drop_Suc)
  have IH: "increment_timer (Suc i) 1 c 1 (ts', irq') =
      Some (chain_run (Suc i) (chain (Suc i) c (drop (Suc i) (tm_timers ts'))) (ts', irq'))"
    if "Suc i < 4" "length (tm_timers ts') = 4" for ts' irq'
    using Suc.hyps that by (intro increment_timer_one) auto
  note unfold = timer_access count_step_def Let_def chain_run_def timer_irq_enabled_def handle_overflow.simps
  show ?case
  proof (cases "Suc i < 4")
    case True
    then show ?thesis
      using Suc.prems d IH hd_drop_conv_nth [of "Suc i" "tm_timers ts"]
      by (simp add: unfold driven_def list_at_split take_Suc_conv_app_nth)
  next
    case False
    then have "take i (tm_timers ts) @ [x] = (tm_timers ts)[i := x]" for x
      using Suc.prems list_at_split [of i "tm_timers ts" x] by simp
    then show ?thesis
      using False Suc.prems d by (simp add: unfold)
  qed
qed simp

lemmas increment_timer_chain = increment_timer_one [OF _ _ handle_overflow_chain]

text \<open>A batch of ticks is its ticks one by one.\<close>

primrec progression :: "u64 \<Rightarrow> u64 \<Rightarrow> nat \<Rightarrow> u64 list" where
  "progression c d 0 = []"
| "progression c d (Suc n) = c # progression (c + d) d n"

lemma length_progression [simp]: "length (progression c d n) = n"
  by (induction n arbitrary: c) simp_all

lemma progression_add:
  "progression c d (m + n) = progression c d m @ progression (c + of_nat m * d) d n"
  by (induction m arbitrary: c) (simp_all add: algebra_simps)

primrec chain_all :: "nat \<Rightarrow> u64 list \<Rightarrow> gba_timer list \<Rightarrow> gba_timer list \<times> (nat \<times> u64) list" where
  "chain_all i [] us = (us, [])"
| "chain_all i (c # cs) us =
     (fst (chain_all i cs (fst (chain i c us))),
      snd (chain i c us) @ snd (chain_all i cs (fst (chain i c us))))"

lemma length_chain_all [simp]: "length (fst (chain_all i cs us)) = length us"
  by (induction cs arbitrary: us) simp_all

lemma chain_all_append:
  "chain_all i (xs @ ys) us =
     (fst (chain_all i ys (fst (chain_all i xs us))),
      snd (chain_all i xs us) @ snd (chain_all i ys (fst (chain_all i xs us))))"
  by (induction xs arbitrary: us) simp_all

lemma chain_all_no_overflow:
  assumes "unat (tmr_counter t) + length cs < 0x10000"
  shows "chain_all i cs (t # us) = (t\<lparr>tmr_counter := tmr_counter t + of_nat (length cs)\<rparr> # us, [])"
  using assms
proof (induction cs arbitrary: t)
  case (Cons c cs)
  have n: "\<not> overflows t"
    using Cons.prems by (auto simp: overflows_def)
  have "unat (tmr_counter t + 1) = unat (tmr_counter t) + 1"
    using Cons.prems by (simp add: unat_word_ariths)
  then show ?case
    using Cons.prems n by (simp add: Cons.IH count_step_def add.assoc)
qed simp

lemma chain_all_to_overflow:
  assumes "length cs = 0xFFFF - unat (tmr_counter t)"
  shows "chain_all i (cs @ [c]) (t # us) = chain i c (t\<lparr>tmr_counter := 0xFFFF\<rparr> # us)"
proof -
  have "tmr_counter t + of_nat (length cs) = 0xFFFF"
    using unat_u16_less [of "tmr_counter t"] assms
    by (simp add: word_unat_eq_iff unat_word_ariths unat_of_nat del: unat_u16_less)
  moreover have "unat (tmr_counter t) + length cs < 0x10000"
    using unat_u16_less [of "tmr_counter t"] assms by linarith
  ultimately show ?thesis
    by (simp add: chain_all_append chain_all_no_overflow)
qed

lemma increment_timer_all:
  assumes "i < 4" and "length (tm_timers ts) = 4"
  shows "increment_timer i n c stride (ts, irq) =
    Some (chain_run i (chain_all i (progression c (ucast stride) (unat n)) (drop i (tm_timers ts))) (ts, irq))"
  using assms
proof (induction "unat n" arbitrary: n c ts irq rule: less_induct)
  case less
  let ?us = "tm_timers ts"
  let ?t = "?us ! i"
  let ?k = "0x10000 - unat (tmr_counter ?t)"
  have d: "drop i ?us = ?t # drop (Suc i) ?us"
    using less.prems by (simp add: Cons_nth_drop_Suc)
  have IH: "increment_timer i m x stride s =
      Some (chain_run i (chain_all i (progression x (ucast stride) (unat m)) (drop i (tm_timers (fst s)))) s)"
    if "unat m < unat n" "length (tm_timers (fst s)) = 4" for m x s
    using less.hyps [OF that(1) less.prems(1), of "fst s" x "snd s"] that(2) by simp
  show ?case
  proof (cases "n < ucast (0x10000 - (ucast (tmr_counter ?t) :: u32))")
    case True
    then have "unat (tmr_counter ?t) + unat n < 0x10000"
      unfolding word_less_nat_alt ticks_to_overflow_nat by linarith
    then have a: "chain_all i (progression c (ucast stride) (unat n)) (drop i ?us) =
        (?t\<lparr>tmr_counter := tmr_counter ?t + of_nat (unat n)\<rparr> # drop (Suc i) ?us, [])"
      unfolding d by (subst chain_all_no_overflow) simp_all
    have "(ucast (ucast (tmr_counter ?t) + n) :: u16) = tmr_counter ?t + of_nat (unat n)"
      by (simp add: word_unat_eq_iff word_nat unat_word_ariths unat_of_nat mod_mod_cancel mod_add_right_eq)
    with True less.prems a show ?thesis
      by (cases "n = 0")
        (simp_all add: timer_access increment_timer.simps [of i n] chain_run_def list_at_split Let_def
          increment_timer_zero word_neq_0_conv)
  next
    case False
    let ?d = "ucast stride :: u64" and ?u = "?t\<lparr>tmr_counter := 0xFFFF\<rparr>"
    let ?oc = "c + ucast (0x10000 - (ucast (tmr_counter ?t) :: u32) - 1) * ?d"
    let ?r = "chain i ?oc (?u # drop (Suc i) ?us)"
    let ?n = "n - ucast (0x10000 - (ucast (tmr_counter ?t) :: u32))"
    note left = ticks_left_less [OF False]
    have "handle_overflow i ?oc (ts\<lparr>tm_timers := ?us[i := ?t\<lparr>tmr_counter := tmr_reload ?t\<rparr>]\<rparr>, irq)
        = Some (chain_run i ?r (ts, irq))"
      using handle_overflow_chain [of i "ts\<lparr>tm_timers := ?us[i := ?u]\<rparr>" ?oc irq] less.prems
      by (simp add: overflows_def chain_run_def drop_update_swap d)
    moreover have "increment_timer i ?n (?oc + ?d) stride (chain_run i ?r (ts, irq)) =
        Some (chain_run i (chain_all i (progression (?oc + ?d) ?d (unat ?n)) (fst ?r)) (chain_run i ?r (ts, irq)))"
    proof -
      have l: "i \<le> length (tm_timers (fst (ts, irq)))" "length (take i ?us @ fst ?r) = 4"
        using less.prems unfolding length_append length_chain by simp_all
      have lt: "unat ?n < unat n"
        using left by simp
      have len: "length (tm_timers (fst (chain_run i ?r (ts, irq)))) = 4"
        unfolding chain_run_timers(1) [OF l(1)] fst_conv by (rule l(2))
      show ?thesis
        using IH [OF lt len, of "?oc + ?d"] unfolding chain_run_timers(2) [OF l(1)] .
    qed
    moreover have "0 < n"
      using left(3) by (simp add: word_less_nat_alt)
    ultimately have "increment_timer i n c stride (ts, irq) =
        Some (chain_run i (chain_all i (progression (?oc + ?d) ?d (unat ?n)) (fst ?r)) (chain_run i ?r (ts, irq)))"
      using False less.prems by (simp add: timer_access increment_timer.simps [of i n] Let_def)
    moreover have "chain_all i (progression c ?d (unat n)) (drop i ?us) =
        (let r' = chain_all i (progression (?oc + ?d) ?d (unat ?n)) (fst ?r) in (fst r', snd ?r @ snd r'))"
    proof -
      let ?k = "0xFFFF - unat (tmr_counter ?t)"
      have n: "unat n = ?k + (1 + unat ?n)"
        using left unat_u16_less [of "tmr_counter ?t"] by linarith
      have oc: "?oc = c + of_nat ?k * ?d"
        by (simp only: ticks_before_overflow)
      have "progression c ?d (unat n) = (progression c ?d ?k @ [?oc]) @ progression (?oc + ?d) ?d (unat ?n)"
        unfolding n progression_add oc by simp
      then show ?thesis
        using chain_all_append chain_all_to_overflow [of "progression c ?d ?k" ?t] unfolding d
        by (simp only: length_progression chain_all_append Let_def)
    qed
    ultimately show ?thesis
      using less.prems by (simp only: chain_run_timers(3) Let_def fst_conv)
  qed
qed

section \<open>The interrupts of a tick are a set\<close>

lemma earliest_commute: "earliest a (earliest b r) = earliest b (earliest a r)"
  by (cases r) (auto simp: earliest_def)

interpretation timer_irqs: event_sink raise_timer_irq
proof
  show "raise_timer_irq a (raise_timer_irq b i) = raise_timer_irq b (raise_timer_irq a i)" for a b i
    by (simp add: raise_timer_irq_def earliest_commute ic_sink.request_commute)
  show "raise_timer_irq a (raise_timer_irq a i) = raise_timer_irq a i" for a i
    by (simp add: raise_timer_irq_def ic_sink.request_idem earliest_def split: option.splits)
qed

section \<open>The reference, one timer after the other\<close>

primrec count_run :: "u64 list \<Rightarrow> gba_timer \<Rightarrow> gba_timer \<times> u64 list" where
  "count_run [] t = (t, [])"
| "count_run (c # cs) t =
     (fst (count_run cs (count_step t)),
      (if overflows t then [c] else []) @ snd (count_run cs (count_step t)))"

fun flow :: "nat \<Rightarrow> u64 list \<Rightarrow> gba_timer list \<Rightarrow> gba_timer list \<times> (nat \<times> u64) list" where
  "flow i cs [] = ([], [])"
| "flow i cs (t # us) =
     (let (t', carry) = count_run cs t;
          (us', ev) = (if us \<noteq> [] \<and> driven (Suc i) (hd us)
                       then flow (Suc i) (filter (\<lambda>c. \<not> in_enable_delay c (hd us)) carry) us else (us, []))
      in (t' # us', (if timer_irq_enabled t then map (Pair i) carry else []) @ ev))"

definition feed :: "nat \<Rightarrow> u64 list \<Rightarrow> gba_timer list \<Rightarrow> gba_timer list \<times> (nat \<times> u64) list" where
  "feed i carry us =
     (if us \<noteq> [] \<and> driven i (hd us) then flow i (filter (\<lambda>c. \<not> in_enable_delay c (hd us)) carry) us else (us, []))"

lemma flow_Cons:
  "flow i cs (t # us) =
     (fst (count_run cs t) # fst (feed (Suc i) (snd (count_run cs t)) us),
      (if timer_irq_enabled t then map (Pair i) (snd (count_run cs t)) else [])
        @ snd (feed (Suc i) (snd (count_run cs t)) us))"
  by (simp add: feed_def case_prod_unfold Let_def)

declare flow.simps(2) [simp del]

lemma count_step_frame [simp]:
  "tmr_reload (count_step t) = tmr_reload t" "tmr_control (count_step t) = tmr_control t"
  "tmr_enable_delay (count_step t) = tmr_enable_delay t" "tmr_enabled_at (count_step t) = tmr_enabled_at t"
  "tmr_just_enabled (count_step t) = tmr_just_enabled t"
  "tmr_last_enable_phase (count_step t) = tmr_last_enable_phase t"
  by (simp_all add: count_step_def)

lemma count_run_frame [simp]:
  "tmr_reload (fst (count_run cs t)) = tmr_reload t" "tmr_control (fst (count_run cs t)) = tmr_control t"
  "tmr_enable_delay (fst (count_run cs t)) = tmr_enable_delay t"
  "tmr_enabled_at (fst (count_run cs t)) = tmr_enabled_at t"
  "tmr_just_enabled (fst (count_run cs t)) = tmr_just_enabled t"
  "tmr_last_enable_phase (fst (count_run cs t)) = tmr_last_enable_phase t"
  by (induction cs arbitrary: t) simp_all

text \<open>Two timers with the same control, delay and anchor react to the same cycles.\<close>

definition same_setup :: "gba_timer \<Rightarrow> gba_timer \<Rightarrow> bool" where
  "same_setup t u \<longleftrightarrow> tmr_control t = tmr_control u \<and> tmr_enable_delay t = tmr_enable_delay u
     \<and> tmr_enabled_at t = tmr_enabled_at u"

lemma same_setupD:
  assumes "same_setup t u"
  shows "timer_enabled t = timer_enabled u" "timer_count_up i t = timer_count_up i u"
    "timer_irq_enabled t = timer_irq_enabled u" "in_enable_delay c t = in_enable_delay c u"
    "driven i t = driven i u"
  using assms
  by (simp_all add: same_setup_def timer_enabled_def timer_count_up_def timer_irq_enabled_def in_enable_delay_def
      driven_def)

lemma same_setup_count [simp]: "same_setup (count_step t) t" "same_setup (fst (count_run cs t)) t"
  by (simp_all add: same_setup_def)

lemma same_setup_chain: "us \<noteq> [] \<Longrightarrow> same_setup (hd (fst (chain i c us))) (hd us)"
  by (cases us) (auto simp: Let_def)

lemma flow_step:
  "fst (flow i (c # cs) us) = fst (flow i cs (fst (chain i c us)))
   \<and> set (snd (flow i (c # cs) us)) = set (snd (chain i c us)) \<union> set (snd (flow i cs (fst (chain i c us))))"
proof (induction us arbitrary: i c cs)
  case (Cons t us)
  let ?carry = "snd (count_run cs (count_step t))"
  let ?F = "filter (\<lambda>c. \<not> in_enable_delay c (hd us)) ?carry"
  note irq = same_setupD(3) [OF same_setup_count(1)]
  show ?case
  proof (cases "overflows t \<and> us \<noteq> [] \<and> driven (Suc i) (hd us) \<and> \<not> in_enable_delay c (hd us)")
    case True
    then have us1: "fst (chain (Suc i) c us) \<noteq> []"
      using length_chain [of "Suc i" c us] by (metis length_0_conv)
    note hd = same_setupD [OF same_setup_chain [of us "Suc i" c]]
    show ?thesis
      using True Cons.IH [of "Suc i" c ?F] us1 hd by (auto simp: flow_Cons feed_def irq)
  next
    case False
    then show ?thesis
      by (auto simp: flow_Cons feed_def irq)
  qed
qed simp

lemma flow_Nil: "flow i [] us = (us, [])"
  by (induction us arbitrary: i) (simp_all add: flow_Cons feed_def)

lemma chain_all_flow:
  "fst (chain_all i cs us) = fst (flow i cs us) \<and> set (snd (chain_all i cs us)) = set (snd (flow i cs us))"
proof (induction cs arbitrary: us)
  case (Cons c cs)
  then show ?case
    using flow_step [of i c cs us] by simp
qed (simp add: flow_Nil)

section \<open>The cycles at which a prescaler ticks\<close>

definition divisor_nat :: "gba_timer \<Rightarrow> nat" where
  "divisor_nat t = unat (divisor_for_control (tmr_control t))"

definition prescaler_cycles :: "gba_timer \<Rightarrow> nat \<Rightarrow> nat \<Rightarrow> u64 list" where
  "prescaler_cycles t start n =
     map of_nat (filter (\<lambda>c. divisor_nat t dvd c) [start + unat (tmr_enable_delay t) + 1..<start + n + 1])"

lemma divisor_nat_cases: "divisor_nat t = 1 \<or> divisor_nat t = 64 \<or> divisor_nat t = 256 \<or> divisor_nat t = 1024"
  by (simp add: divisor_nat_def divisor_for_control_def)

lemma divisor_nat_bounds: "0 < divisor_nat t" "divisor_nat t \<le> 1024"
  using divisor_nat_cases [of t] by auto

lemma multiples_from:
  fixes d a e :: nat
  assumes "0 < d"
  defines "first \<equiv> (a + d - 1) div d * d"
  shows "filter (\<lambda>c. d dvd c) [a..<e + 1] =
    (if e < first then [] else map (\<lambda>k. first + k * d) [0..<(e - first) div d + 1])"
proof -
  have f: "a \<le> first" "first < a + d" "d dvd first"
  proof -
    have "first + (a + d - 1) mod d = a + d - 1"
      unfolding first_def by (rule div_mult_mod_eq)
    moreover have "(a + d - 1) mod d < d"
      using assms(1) by simp
    ultimately show "a \<le> first" "first < a + d"
      using assms(1) by linarith+
  qed (simp add: first_def)
  have least: "first \<le> c" if "a \<le> c" "d dvd c" for c
  proof (rule ccontr)
    assume "\<not> first \<le> c"
    moreover have "d dvd first - c"
      using f(3) that(2) by (rule dvd_diff_nat)
    ultimately have "d \<le> first - c"
      by (intro dvd_imp_le) simp_all
    then show False
      using f(2) that(1) assms(1) by linarith
  qed
  show ?thesis
  proof (cases "e < first")
    case True
    then show ?thesis
      using least by (fastforce simp: filter_empty_conv)
  next
    case False
    let ?n = "(e - first) div d + 1"
    have set: "(\<lambda>k. first + k * d) ` {0..<?n} = {c. a \<le> c \<and> c < e + 1 \<and> d dvd c}"
    proof (intro equalityI subsetI)
      fix c assume "c \<in> (\<lambda>k. first + k * d) ` {0..<?n}"
      then obtain k where k: "c = first + k * d" "k \<le> (e - first) div d"
        by (elim imageE) (metis Suc_eq_plus1 atLeastLessThan_iff less_Suc_eq_le)
      have "k * d \<le> e - first"
        using k(2) assms(1) by (simp add: less_eq_div_iff_mult_less_eq)
      then show "c \<in> {c. a \<le> c \<and> c < e + 1 \<and> d dvd c}"
        using k(1) f False by simp
    next
      fix c assume "c \<in> {c. a \<le> c \<and> c < e + 1 \<and> d dvd c}"
      then have c: "first \<le> c" "c \<le> e" "d dvd c - first"
        using least f(3) by (simp_all add: dvd_diff_nat)
      then obtain k where k: "c - first = d * k"
        by (elim dvdE)
      then have "k \<le> (e - first) div d"
        using c assms(1) by (simp add: less_eq_div_iff_mult_less_eq mult.commute)
      then show "c \<in> (\<lambda>k. first + k * d) ` {0..<?n}"
        using k c(1) by (intro image_eqI [of _ _ k]) (auto simp: mult.commute)
    qed
    have "filter (\<lambda>c. d dvd c) [a..<e + 1] = map (\<lambda>k. first + k * d) [0..<?n]"
    proof (rule strict_sorted_equal)
      show "sorted_wrt (<) (map (\<lambda>k. first + k * d) [0..<?n])"
        using assms(1) by (simp add: sorted_wrt_map sorted_wrt_upt del: upt_Suc)
      show "sorted_wrt (<) (filter (\<lambda>c. d dvd c) [a..<e + 1])"
        by (simp add: sorted_wrt_filter sorted_wrt_upt del: upt_Suc)
      show "set (filter (\<lambda>c. d dvd c) [a..<e + 1]) = set (map (\<lambda>k. first + k * d) [0..<?n])"
        unfolding set_map set_upt set set_filter by auto
    qed
    then show ?thesis
      using False by simp
  qed
qed

lemma progression_of_nat:
  "progression (of_nat a) (of_nat d) n = map (\<lambda>k. of_nat (a + k * d)) [0..<n]"
proof (induction n arbitrary: a)
  case (Suc n)
  have "progression (of_nat a) (of_nat d) (Suc n) = of_nat a # progression (of_nat (a + d)) (of_nat d) n"
    by simp
  then show ?case
    unfolding Suc.IH map_upt_Suc by (simp add: algebra_simps)
qed simp

text \<open>The code's first tick cycle and tick count give exactly those cycles, as long as the 64-bit cycle counter does
  not wrap.\<close>

lemma prescaler_window:
  fixes s :: u64 and cycles :: u32
  assumes wrap: "unat s + unat cycles + 1024 < 2 ^ 64" and delay: "tmr_enable_delay t < cycles"
  defines "d \<equiv> (ucast (divisor_for_control (tmr_control t)) :: u64)"
  defines "first \<equiv> (s + ucast (tmr_enable_delay t) + 1 + d - 1) div d * d"
  defines "e \<equiv> s + ucast cycles"
  shows "prescaler_cycles t (unat s) (unat cycles) =
    (if first > e then [] else progression first d (unat ((e - first) div d + 1)))"
proof -
  let ?d = "divisor_nat t" and ?a = "unat s + unat (tmr_enable_delay t) + 1" and ?e = "unat s + unat cycles"
  let ?first = "(?a + ?d - 1) div ?d * ?d"
  have d: "unat d = ?d" and dw: "d = of_nat ?d"
    by (simp_all add: d_def divisor_nat_def word_unat_eq_iff)
  note b = divisor_nat_bounds [of t]
  have dl: "unat (tmr_enable_delay t) < unat cycles"
    using delay by (simp add: word_less_nat_alt)
  have e: "unat e = ?e"
    using wrap by (simp add: e_def unat_word_ariths)
  have num: "unat (s + ucast (tmr_enable_delay t) + 1 + d - 1) = ?a + ?d - 1"
  proof -
    have "unat (s + (ucast (tmr_enable_delay t) + d)) = unat s + unat (tmr_enable_delay t) + ?d"
      using wrap dl b by (simp add: unat_word_ariths d)
    then show ?thesis
      by simp
  qed
  have "?first \<le> ?a + ?d - 1"
    by (rule div_times_less_eq_dividend)
  then have small: "?first < 2 ^ 64"
    using wrap dl b by linarith
  have "unat first = ?first mod 2 ^ 64"
    unfolding first_def unat_word_ariths(2) unat_div num d by simp
  then have f: "unat first = ?first"
    using small by (simp only: mod_less)
  have fw: "first = of_nat ?first"
    by (simp only: word_unat_eq_iff f unat_of_nat) (use f unsigned_less [of first, where 'a = nat] in simp)
  have lt: "first > e \<longleftrightarrow> ?e < ?first"
    unfolding word_less_nat_alt e f by simp
  show ?thesis
  proof (cases "?e < ?first")
    case True
    then show ?thesis
      using multiples_from [OF b(1), of ?a ?e] lt by (simp add: prescaler_cycles_def)
  next
    case False
    then have "unat (e - first) = ?e - ?first"
      using lt e f by (simp add: unat_sub not_less)
    moreover have "(?e - ?first) div ?d \<le> ?e"
      using div_le_dividend [of "?e - ?first" ?d] by linarith
    ultimately have n: "unat ((e - first) div d + 1) = (?e - ?first) div ?d + 1"
      using wrap by (simp add: unat_word_ariths unat_div d)
    have "prescaler_cycles t (unat s) (unat cycles) =
        map (\<lambda>k. of_nat (?first + k * ?d)) [0..<(?e - ?first) div ?d + 1]"
      unfolding prescaler_cycles_def multiples_from [OF b(1), of ?a ?e] using False by simp
    moreover have "progression first d ((?e - ?first) div ?d + 1) =
        map (\<lambda>k. of_nat (?first + k * ?d)) [0..<(?e - ?first) div ?d + 1]"
      unfolding fw dw by (rule progression_of_nat)
    ultimately show ?thesis
      using False lt by (simp only: n if_False)
  qed
qed

section \<open>A tick is one pass over the timers\<close>

definition settle :: "nat \<Rightarrow> gba_timer \<Rightarrow> gba_timer" where
  "settle n t =
     (if timer_enabled t
      then t\<lparr>tmr_enable_delay := of_nat (unat (tmr_enable_delay t) - n), tmr_just_enabled := False\<rparr>
      else t\<lparr>tmr_just_enabled := False\<rparr>)"

definition drive_cycles :: "nat \<Rightarrow> nat \<Rightarrow> nat \<Rightarrow> u64 list \<Rightarrow> gba_timer \<Rightarrow> u64 list" where
  "drive_cycles start n i carry t =
     (if \<not> timer_enabled t then []
      else if timer_count_up i t then filter (\<lambda>c. \<not> in_enable_delay c t) carry
      else prescaler_cycles t start n)"

primrec timers_pass ::
  "nat \<Rightarrow> nat \<Rightarrow> nat \<Rightarrow> u64 list \<Rightarrow> gba_timer list \<Rightarrow> gba_timer list \<times> (nat \<times> u64) list" where
  "timers_pass start n i carry [] = ([], [])"
| "timers_pass start n i carry (t # us) =
     (let r = count_run (drive_cycles start n i carry t) t;
          rest = timers_pass start n (Suc i) (snd r) us
      in (settle n (fst r) # fst rest, (if timer_irq_enabled t then map (Pair i) (snd r) else []) @ snd rest))"

lemma count_run_settle:
  "count_run cs (settle n t) = (settle n (fst (count_run cs t)), snd (count_run cs t))"
proof (induction cs arbitrary: t)
  case (Cons c cs)
  have "count_step (settle n t) = settle n (count_step t)" "overflows (settle n t) = overflows t"
    by (simp_all add: settle_def count_step_def overflows_def timer_enabled_def)
  then show ?case
    using Cons.IH by simp
qed simp

lemma feed_Nil [simp]: "feed i [] us = (us, [])" "feed i carry [] = ([], [])"
  by (simp_all add: feed_def flow_Nil)

lemma length_flow [simp]: "length (fst (flow i cs us)) = length us"
  using chain_all_flow [of i cs us] length_chain_all [of i cs us] by simp

lemma length_feed [simp]: "length (fst (feed i cs us)) = length us"
  by (simp add: feed_def)

lemma skipped_all:
  fixes d cycles :: u32
  shows "d - min d cycles \<noteq> 0 \<or> min d cycles = cycles \<longleftrightarrow> \<not> d < cycles"
    and "d - min d cycles = of_nat (unat d - unat cycles)"
proof -
  show "d - min d cycles \<noteq> 0 \<or> min d cycles = cycles \<longleftrightarrow> \<not> d < cycles"
    by (auto simp: min_def)
  show "d - min d cycles = of_nat (unat d - unat cycles)"
    by (auto simp: min_def word_unat_eq_iff unat_sub unat_of_nat word_le_nat_alt less_imp_diff_less)
qed

lemma prescaler_cycles_delayed:
  "\<not> tmr_enable_delay t < cycles \<Longrightarrow> prescaler_cycles t s (unat cycles) = []"
  by (simp add: prescaler_cycles_def word_less_nat_alt filter_empty_conv)

text \<open>One iteration of the loop of \<open>tick\<close>.\<close>

lemma tick_timer_step:
  assumes "i < 4" and len: "length (tm_timers ts) = 4" and at: "drop i (tm_timers ts) = t # us"
    and wrap: "unat s + unat cycles + 1024 < 2 ^ 64"
  shows "\<exists>ev. tick_timer cycles s (s + ucast cycles) i (ts, irq) =
      Some (ts\<lparr>tm_timers := take i (tm_timers ts) @
             (if timer_enabled t \<and> \<not> timer_count_up i t
              then fst (flow i (prescaler_cycles t (unat s) (unat cycles)) (settle (unat cycles) t # us))
              else settle (unat cycles) t # us)\<rparr>,
            fold raise_timer_irq ev irq)
    \<and> set ev = (if timer_enabled t \<and> \<not> timer_count_up i t
        then set (snd (flow i (prescaler_cycles t (unat s) (unat cycles)) (settle (unat cycles) t # us))) else {})"
proof -
  have t: "tm_timers ts ! i = t" and d: "drop (Suc i) (tm_timers ts) = us"
    using at assms(1) len by (simp_all add: Cons_nth_drop_Suc [symmetric])
  have put: "put_timer i x ts = Some (ts\<lparr>tm_timers := take i (tm_timers ts) @ x # us\<rparr>)" for x
    using assms(1) len d by (simp add: put_timer_def upd_conv_take_nth_drop)
  let ?w = "prescaler_cycles t (unat s) (unat cycles)" and ?t = "settle (unat cycles) t"
  show ?thesis
  proof (cases "timer_enabled t \<and> \<not> timer_count_up i t")
    case False
    then show ?thesis
      using assms(1) len t put by (auto simp: tick_timer_def settle_def skipped_all Let_def)
  next
    case True
    let ?d = "ucast (divisor_for_control (tmr_control t)) :: u64" and ?e = "s + ucast cycles"
    let ?first = "(s + ucast (tmr_enable_delay t) + 1 + ?d - 1) div ?d * ?d"
    let ?ts = "ts\<lparr>tm_timers := take i (tm_timers ts) @ ?t # us\<rparr>"
    have st: "?t = t\<lparr>tmr_enable_delay := of_nat (unat (tmr_enable_delay t) - unat cycles), tmr_just_enabled := False\<rparr>"
      using True by (simp add: settle_def)
    have tick: "tick_timer cycles s ?e i (ts, irq) =
       (if \<not> tmr_enable_delay t < cycles \<or> ?first > ?e then Some (?ts, irq)
        else increment_timer i ((?e - ?first) div ?d + 1) ?first (ucast (divisor_for_control (tmr_control t)))
          (?ts, irq))"
    proof (cases "tmr_enable_delay t < cycles")
      case delay: True
      then have m: "min (tmr_enable_delay t) cycles = tmr_enable_delay t" "unat (tmr_enable_delay t) - unat cycles = 0"
        using less_imp_le [OF delay] by (simp_all add: min_def word_less_nat_alt)
      show ?thesis
        using True assms(1) len t put delay less_imp_neq [OF delay] unfolding st m
        by (simp add: tick_timer_def Let_def m)
    next
      case delay: False
      then show ?thesis
        using True assms(1) len t put skipped_all(1) [of "tmr_enable_delay t" cycles]
          skipped_all(2) [of "tmr_enable_delay t" cycles] unfolding st
        by (simp add: tick_timer_def Let_def)
    qed
    show ?thesis
    proof (cases "\<not> tmr_enable_delay t < cycles \<or> ?first > ?e")
      case False
      then have w: "?w = progression ?first ?d (unat ((?e - ?first) div ?d + 1))"
        using prescaler_window [OF wrap, of t] by simp
      have dr: "drop i (tm_timers ?ts) = ?t # us" "length (tm_timers ?ts) = 4" "take i (tm_timers ?ts) = take i (tm_timers ts)"
        using assms(1) len arg_cong [OF at, of length] by simp_all
      have "tick_timer cycles s ?e i (ts, irq) = Some (chain_run i (chain_all i ?w (?t # us)) (?ts, irq))"
        using False tick increment_timer_all [OF assms(1) dr(2)] unfolding w dr(1) by simp
      then show ?thesis
        using True chain_all_flow [of i ?w "?t # us"] dr(3)
        by (intro exI [of _ "snd (chain_all i ?w (?t # us))"]) (simp add: chain_run_def)
    next
      case skip: True
      then have "?w = []"
        using prescaler_cycles_delayed [of t] prescaler_window [OF wrap, of t] by auto
      then show ?thesis
        using True skip tick by (auto simp: flow_Nil)
    qed
  qed
qed

lemma tick_timer_feed:
  assumes i: "i < 4" and len: "length (tm_timers ts) = 4" and at: "drop i (tm_timers ts) = fst (feed i carry (t # us))"
    and wrap: "unat s + unat cycles + 1024 < 2 ^ 64"
  defines "r \<equiv> count_run (drive_cycles (unat s) (unat cycles) i carry t) t"
  shows "\<exists>ev. tick_timer cycles s (s + ucast cycles) i (ts, irq) =
      Some (ts\<lparr>tm_timers := take i (tm_timers ts) @ settle (unat cycles) (fst r) # fst (feed (Suc i) (snd r) us)\<rparr>,
            fold raise_timer_irq ev irq)
    \<and> set (snd (feed i carry (t # us))) \<union> set ev =
        set (if timer_irq_enabled t then map (Pair i) (snd r) else []) \<union> set (snd (feed (Suc i) (snd r) us))"
proof (cases "timer_enabled t")
  case False
  then have "feed i carry (t # us) = (t # us, [])" "r = (t, [])"
    by (simp_all add: feed_def driven_def r_def drive_cycles_def)
  then show ?thesis
    using tick_timer_step [OF i len, of t us s cycles irq] at wrap False by auto
next
  case en: True
  show ?thesis
  proof (cases "timer_count_up i t")
    case True
    have f: "feed i carry (t # us) = (fst r # fst (feed (Suc i) (snd r) us),
        (if timer_irq_enabled t then map (Pair i) (snd r) else []) @ snd (feed (Suc i) (snd r) us))"
      using en True unfolding r_def by (subst feed_def) (simp add: driven_def drive_cycles_def flow_Cons)
    have "timer_enabled (fst r)" "timer_count_up i (fst r)"
      using en True same_setupD(1,2) [OF same_setup_count(2)] unfolding r_def by blast+
    then show ?thesis
      using tick_timer_step [OF i len, of "fst r" "fst (feed (Suc i) (snd r) us)" s cycles irq] at wrap f
      by (intro exI [of _ "[]"]) auto
  next
    case False
    have f: "feed i carry (t # us) = (t # us, [])" and "r = count_run (prescaler_cycles t (unat s) (unat cycles)) t"
      using en False by (simp_all add: feed_def driven_def r_def drive_cycles_def)
    moreover have "timer_irq_enabled (settle (unat cycles) t) = timer_irq_enabled t"
      by (simp add: settle_def timer_irq_enabled_def)
    ultimately show ?thesis
      using tick_timer_step [OF i len, of t us s cycles irq] at wrap en False
      by (auto simp: flow_Cons count_run_settle)
  qed
qed

lemma tick_loop_pass:
  assumes "i + length us = 4" and "length (tm_timers ts) = 4" and "drop i (tm_timers ts) = fst (feed i carry us)"
    and wrap: "unat s + unat cycles + 1024 < 2 ^ 64"
    and "irq' = fold raise_timer_irq ev irq" "set ev = set (snd (feed i carry us))"
  shows "\<exists>ev'. foldM (tick_timer cycles s (s + ucast cycles)) [i..<4] (ts, irq') =
      Some (ts\<lparr>tm_timers := take i (tm_timers ts) @ fst (timers_pass (unat s) (unat cycles) i carry us)\<rparr>,
            fold raise_timer_irq ev' irq)
    \<and> set ev' = set (snd (timers_pass (unat s) (unat cycles) i carry us))"
  using assms(1-3,5,6)
proof (induction us arbitrary: i ts carry irq' ev irq)
  case Nil
  then show ?case
    by auto
next
  case (Cons t us)
  let ?n = "unat cycles"
  let ?cs = "drive_cycles (unat s) ?n i carry t"
  let ?t = "settle ?n (fst (count_run ?cs t))" and ?carry = "snd (count_run ?cs t)"
  let ?ts = "ts\<lparr>tm_timers := take i (tm_timers ts) @ ?t # fst (feed (Suc i) ?carry us)\<rparr>"
  have i: "i < 4"
    using Cons.prems(1) by simp
  from tick_timer_feed [OF i Cons.prems(2,3) wrap, of irq'] Cons.prems(5)
  obtain ev' where ev': "tick_timer cycles s (s + ucast cycles) i (ts, irq') = Some (?ts, fold raise_timer_irq ev' irq')"
    "set ev \<union> set ev' = set (if timer_irq_enabled t then map (Pair i) ?carry else [])
          \<union> set (snd (feed (Suc i) ?carry us))"
    by auto
  let ?own = "if timer_irq_enabled t then map (Pair i) ?carry else []"
  have "fold raise_timer_irq ev' irq' = fold raise_timer_irq (snd (feed (Suc i) ?carry us)) (fold raise_timer_irq ?own irq)"
    using timer_irqs.fold_request_set [of "ev @ ev'" "?own @ snd (feed (Suc i) ?carry us)" irq] ev'(2) Cons.prems(4)
    by simp
  then obtain ev2 where
    "foldM (tick_timer cycles s (s + ucast cycles)) [Suc i..<4] (?ts, fold raise_timer_irq ev' irq') =
      Some (?ts\<lparr>tm_timers := take (Suc i) (tm_timers ?ts) @ fst (timers_pass (unat s) ?n (Suc i) ?carry us)\<rparr>,
            fold raise_timer_irq ev2 (fold raise_timer_irq ?own irq))"
    "set ev2 = set (snd (timers_pass (unat s) ?n (Suc i) ?carry us))"
    using Cons.IH [of "Suc i" ?ts ?carry "fold raise_timer_irq ev' irq'" "snd (feed (Suc i) ?carry us)"
        "fold raise_timer_irq ?own irq"] Cons.prems(1,2) i by auto
  then show ?case
    using ev'(1) i Cons.prems(1,2) by (intro exI [of _ "?own @ ev2"]) (simp add: upt_conv_Cons Let_def)
qed

lemma timers_tick_pass:
  fixes ic :: interrupt_controller
  assumes "length (tm_timers ts) = 4" and "cycles \<noteq> 0"
    and wrap: "unat (tm_cycle_counter ts) + unat cycles + 1024 < 2 ^ 64"
  defines "r \<equiv> timers_pass (unat (tm_cycle_counter ts)) (unat cycles) 0 [] (tm_timers ts)"
  defines "irq \<equiv> fold raise_timer_irq (snd r) (ic, None)"
  shows "timers_tick cycles ts ic =
    Some (\<lparr>tm_timers = fst r, tm_cycle_counter = tm_cycle_counter ts + ucast cycles\<rparr>, fst irq,
          map_option (\<lambda>c. c - tm_cycle_counter ts) (snd irq))"
proof -
  let ?s = "tm_cycle_counter ts"
  let ?ts = "ts\<lparr>tm_cycle_counter := ?s + ucast cycles\<rparr>"
  from tick_loop_pass [of 0 "tm_timers ts" ?ts "[]" ?s cycles "(ic, None)" "[]" "(ic, None)"] assms(1) wrap
  obtain ev where "foldM (tick_timer cycles ?s (?s + ucast cycles)) [0..<4] (?ts, ic, None) =
      Some (?ts\<lparr>tm_timers := fst r\<rparr>, fold raise_timer_irq ev (ic, None))" "set ev = set (snd r)"
    unfolding r_def by auto
  then have "foldM (tick_timer cycles ?s (?s + ucast cycles)) [0..<4] (?ts, ic, None) =
      Some (?ts\<lparr>tm_timers := fst r\<rparr>, fst irq, snd irq)"
    using timer_irqs.fold_request_set [of ev "snd r" "(ic, None)"] unfolding irq_def by simp
  then show ?thesis
    using assms(2) by (cases irq, cases ts) (simp add: timers_tick_def kTimerCount_def Let_def)
qed

lemma raise_timer_irq_fold:
  "sources_of (interrupt_flags (fst (fold raise_timer_irq ev s))) =
     sources_of (interrupt_flags (fst s)) \<union> timer_interrupt_source ` fst ` set ev"
  "interrupt_enable (fst (fold raise_timer_irq ev s)) = interrupt_enable (fst s)"
  "ic_master_enabled (fst (fold raise_timer_irq ev s)) = ic_master_enabled (fst s)"
  by (induction ev arbitrary: s) (auto simp: raise_timer_irq_def ic_sink.pending_request)

lemma earliest_min: "earliest c r = Some (case r of None \<Rightarrow> c | Some d \<Rightarrow> min d c)"
  by (auto simp: earliest_def min_def split: option.splits)

lemma raise_timer_irq_first:
  "snd (fold raise_timer_irq ev (ic, None)) = (if ev = [] then None else Some (Min (snd ` set ev)))"
proof -
  have "snd (fold raise_timer_irq es (ic, Some c)) = Some (Min (insert c (snd ` set es)))" for es ic c
  proof (induction es arbitrary: ic c)
    case (Cons e ev)
    have "Min (insert (min c d) A) = Min (insert c (insert d A))" if "finite A" for d and A :: "u64 set"
      using that by (cases "A = {}") (simp_all add: min.assoc)
    then show ?case
      using Cons.IH by (simp add: raise_timer_irq_def earliest_min)
  qed simp
  then show ?thesis
    by (cases ev) (simp_all add: raise_timer_irq_def earliest_min)
qed

text \<open>C1. The timers. Unless the 64-bit cycle counter wraps, a tick of n > 0 cycles never throws and does what a
  single pass over the timers does: a prescaled timer is incremented once for every multiple of its prescaler in the
  window (minus its enable delay), a count-up timer once for every overflow of the timer before it outside its enable
  delay, a disabled timer never. The interrupts raised are those of the overflowing timers that enable them, and the
  reported cycle is that of the earliest, relative to the start of the window.\<close>

theorem timers_tick_spec:
  fixes ic :: interrupt_controller
  assumes "length (tm_timers ts) = 4" and "cycles \<noteq> 0"
    and "unat (tm_cycle_counter ts) + unat cycles + 1024 < 2 ^ 64"
  defines "r \<equiv> timers_pass (unat (tm_cycle_counter ts)) (unat cycles) 0 [] (tm_timers ts)"
  shows "\<exists>ic'. timers_tick cycles ts ic =
      Some (\<lparr>tm_timers = fst r, tm_cycle_counter = tm_cycle_counter ts + ucast cycles\<rparr>, ic',
            if snd r = [] then None else Some (Min (snd ` set (snd r)) - tm_cycle_counter ts))
    \<and> sources_of (interrupt_flags ic') = sources_of (interrupt_flags ic) \<union> timer_interrupt_source ` fst ` set (snd r)
    \<and> interrupt_enable ic' = interrupt_enable ic \<and> ic_master_enabled ic' = ic_master_enabled ic"
  using timers_tick_pass [OF assms(1-3), of ic] raise_timer_irq_fold [of "snd r" "(ic, None)"]
    raise_timer_irq_first [of "snd r" ic] unfolding r_def by auto

definition cascade_demo :: timers where
  "cascade_demo = \<lparr>tm_timers =
     [blank_timer\<lparr>tmr_counter := 0xFFFE, tmr_reload := 0xFFFE, tmr_control := 0xC0\<rparr>,
      blank_timer\<lparr>tmr_control := 0x84\<rparr>, blank_timer, blank_timer], tm_cycle_counter = 0\<rparr>"

lemma cascade_demo_pass:
  "timers_pass 0 3 0 [] (tm_timers cascade_demo) =
     ([blank_timer\<lparr>tmr_counter := 0xFFFF, tmr_reload := 0xFFFE, tmr_control := 0xC0, tmr_overflow_count := 1\<rparr>,
       blank_timer\<lparr>tmr_counter := 1, tmr_control := 0x84\<rparr>, blank_timer, blank_timer], [(0, 2)])"
  by code_simp

theorem timers_tick_spec_witness:
  "\<exists>ic'. timers_tick 3 cascade_demo ic_reset =
      Some (\<lparr>tm_timers = [blank_timer\<lparr>tmr_counter := 0xFFFF, tmr_reload := 0xFFFE, tmr_control := 0xC0,
                                     tmr_overflow_count := 1\<rparr>,
                          blank_timer\<lparr>tmr_counter := 1, tmr_control := 0x84\<rparr>, blank_timer, blank_timer],
             tm_cycle_counter = 3\<rparr>, ic', Some 2)
    \<and> sources_of (interrupt_flags ic') = {Irq_timer0}"
proof -
  have "tm_cycle_counter cascade_demo = 0" "length (tm_timers cascade_demo) = 4"
    by (simp_all add: cascade_demo_def)
  then show ?thesis
    using timers_tick_spec [of cascade_demo 3 ic_reset]
    by (auto simp: cascade_demo_pass ic_reset_def timer_interrupt_source_def simp del: timers_pass.simps)
qed

section \<open>Closed form of counting\<close>

lemma count_run_closed:
  defines "period \<equiv> \<lambda>w :: u16. 0x10000 - unat w"
  shows "let k = period (tmr_counter t); m = length cs - k; p = period (tmr_reload t) in
    tmr_counter (fst (count_run cs t)) =
      (if length cs < k then tmr_counter t + of_nat (length cs) else tmr_reload t + of_nat (m mod p))
    \<and> length (snd (count_run cs t)) = (if length cs < k then 0 else 1 + m div p)
    \<and> tmr_overflow_count (fst (count_run cs t)) = tmr_overflow_count t + of_nat (length (snd (count_run cs t)))"
proof (induction cs arbitrary: t)
  case Nil
  then show ?case
    using unat_u16_less [of "tmr_counter t"] by (simp add: period_def del: unat_u16_less)
next
  case (Cons c cs)
  let ?p = "period (tmr_reload t)" and ?n = "length cs"
  have p: "0 < ?p"
    using unat_u16_less [of "tmr_reload t"] by (simp add: period_def del: unat_u16_less)
  show ?case
  proof (cases "overflows t")
    case True
    then have "period (tmr_counter t) = 1"
      by (simp add: overflows_def period_def)
    then show ?thesis
      using True Cons.IH [of "count_step t"] p
      by (auto simp: count_step_def Let_def le_div_geq le_mod_geq not_less)
  next
    case False
    then have "unat (tmr_counter t) \<noteq> 0xFFFF"
      by (auto simp: overflows_def word_unat_eq_iff)
    then have u: "unat (tmr_counter t + 1) = unat (tmr_counter t) + 1" and "unat (tmr_counter t) < 0xFFFF"
      using unat_u16_less [of "tmr_counter t"] by (simp_all add: unat_word_ariths del: unat_u16_less)
    then have "period (tmr_counter t) = Suc (period (tmr_counter t + 1))"
      by (simp add: period_def)
    then show ?thesis
      using False Cons.IH [of "count_step t"] by (simp add: count_step_def Let_def add.assoc)
  qed
qed

lemma timers_pass_nth:
  assumes "j < length us"
  shows "\<exists>carry'. fst (timers_pass s n i carry us) ! j =
    settle n (fst (count_run (drive_cycles s n (i + j) carry' (us ! j)) (us ! j)))"
  using assms
proof (induction us arbitrary: i j carry)
  case (Cons t us)
  then show ?case
  proof (cases j)
    case (Suc k)
    then show ?thesis
      using Cons.IH [of k "Suc i"] Cons.prems by (simp add: Let_def)
  qed (auto simp: Let_def)
qed simp

definition ticks_in_window :: "gba_timer \<Rightarrow> nat \<Rightarrow> nat \<Rightarrow> nat" where
  "ticks_in_window t start n = card {c. start + unat (tmr_enable_delay t) < c \<and> c \<le> start + n \<and> divisor_nat t dvd c}"

lemma length_prescaler_cycles: "length (prescaler_cycles t start n) = ticks_in_window t start n"
proof -
  let ?l = "filter (\<lambda>c. divisor_nat t dvd c) [start + unat (tmr_enable_delay t) + 1..<start + n + 1]"
  have "length ?l = card (set ?l)"
    by (rule distinct_card [symmetric]) (simp del: upt_Suc)
  moreover have "set ?l = {c. start + unat (tmr_enable_delay t) < c \<and> c \<le> start + n \<and> divisor_nat t dvd c}"
    by auto
  ultimately show ?thesis
    by (simp add: prescaler_cycles_def ticks_in_window_def del: upt_Suc)
qed

text \<open>Counter of a prescaled timer in closed form. In a tick of n > 0 cycles an enabled timer that does not count up
  receives m increments, the number of multiples of its prescaler in the window after its enable delay; it overflows first
  after 65536 - counter of them and then every 65536 - reload, so its counter and its overflow count are given by one
  division.\<close>

lemma timers_tick_counter:
  fixes ic :: interrupt_controller
  assumes "length (tm_timers ts) = 4" and "cycles \<noteq> 0"
    and "unat (tm_cycle_counter ts) + unat cycles + 1024 < 2 ^ 64"
    and "i < 4" and "timer_enabled (tm_timers ts ! i)" and "\<not> timer_count_up i (tm_timers ts ! i)"
    and "timers_tick cycles ts ic = Some (ts', ic', first)"
  defines "m \<equiv> ticks_in_window (tm_timers ts ! i) (unat (tm_cycle_counter ts)) (unat cycles)"
    and "k \<equiv> 0x10000 - unat (tmr_counter (tm_timers ts ! i))"
    and "p \<equiv> 0x10000 - unat (tmr_reload (tm_timers ts ! i))"
  shows "timers_counter i ts' =
      Some (if m < k then tmr_counter (tm_timers ts ! i) + of_nat m
            else tmr_reload (tm_timers ts ! i) + of_nat ((m - k) mod p))
    \<and> timers_overflow_count i ts' =
      Some (tmr_overflow_count (tm_timers ts ! i) + of_nat (if m < k then 0 else 1 + (m - k) div p))"
proof -
  let ?t = "tm_timers ts ! i" and ?s = "unat (tm_cycle_counter ts)" and ?n = "unat cycles"
  have ts': "tm_timers ts' = fst (timers_pass ?s ?n 0 [] (tm_timers ts))"
    using timers_tick_pass [OF assms(1-3), of ic] assms(7) by auto
  obtain carry where "tm_timers ts' ! i = settle ?n (fst (count_run (drive_cycles ?s ?n i carry ?t) ?t))"
    using timers_pass_nth [of i "tm_timers ts" ?s ?n 0 "[]"] assms(1,4) unfolding ts' by auto
  then have at: "tm_timers ts' ! i = settle ?n (fst (count_run (prescaler_cycles ?t ?s ?n) ?t))"
    using assms(5,6) by (simp add: drive_cycles_def)
  have "length (fst (timers_pass s n j carry us)) = length us" for s n j carry us
    by (induction us arbitrary: j carry) (simp_all add: Let_def)
  then have len: "length (tm_timers ts') = 4"
    using ts' assms(1) by simp
  have frame: "tmr_counter (settle ?n x) = tmr_counter x" "tmr_overflow_count (settle ?n x) = tmr_overflow_count x" for x
    by (simp_all add: settle_def)
  show ?thesis
    using count_run_closed [of ?t "prescaler_cycles ?t ?s ?n"] assms(4) len
    unfolding timers_counter_def timers_overflow_count_def checked_timer_def length_prescaler_cycles
    by (simp add: at frame m_def k_def p_def kTimerCount_def Let_def)
qed

section \<open>Invariant\<close>

definition timer_wf :: "u64 \<Rightarrow> nat \<Rightarrow> gba_timer \<Rightarrow> bool" where
  "timer_wf now i t \<longleftrightarrow>
     tmr_control t AND NOT kControlMask = 0 \<and> (i = 0 \<longrightarrow> tmr_control t AND kCountUpFlag = 0)
     \<and> tmr_enable_delay t \<le> 1 \<and> tmr_enabled_at t \<le> now
     \<and> (tmr_enable_delay t \<noteq> 0 \<or> tmr_just_enabled t \<longrightarrow> timer_enabled t \<and> tmr_enabled_at t = now)"

definition timers_wf :: "timers \<Rightarrow> bool" where
  "timers_wf ts \<longleftrightarrow> length (tm_timers ts) = 4
     \<and> (\<forall>i < 4. timer_wf (tm_cycle_counter ts) i (tm_timers ts ! i))"

lemma timers_wf_reset [wf_intros]: "timers_wf timers_reset"
  by (simp add: timers_wf_def timers_reset_def kTimerCount_def timer_wf_def blank_timer_def)

lemma control_written_wf: "timer_wf now i t \<Longrightarrow> timer_wf now i (control_written i v now t)"
  by (auto simp: timer_wf_def control_written_def timer_enabled_def Let_def and.assoc and_mask_absorb
      and.left_commute [of _ "NOT _"])

lemma timers_wf_put [wf_intros]:
  assumes "timers_wf ts" and "i < 4" and "timer_wf (tm_cycle_counter ts) i t"
  shows "\<exists>ts'. put_timer i t ts = Some ts' \<and> timers_wf ts'"
  using assms by (auto simp: timers_wf_def put_timer_def nth_list_update)

lemma timers_wf_checked: "timers_wf ts \<Longrightarrow> i < 4 \<Longrightarrow> checked_timer i ts = Some (tm_timers ts ! i)"
  by (simp add: timers_wf_def checked_timer_def kTimerCount_def)

lemma timers_wf_write [wf_intros]:
  assumes "timers_wf ts" and "i < 4"
  shows "\<exists>ts'. timers_write_control i v ts = Some ts' \<and> timers_wf ts'"
    and "\<exists>ts'. timers_write_reload i v ts = Some ts' \<and> timers_wf ts'"
proof -
  have t: "timer_wf (tm_cycle_counter ts) i (tm_timers ts ! i)"
    using assms by (simp add: timers_wf_def)
  then show "\<exists>ts'. timers_write_control i v ts = Some ts' \<and> timers_wf ts'"
    using timers_wf_put [OF assms control_written_wf [OF t]] assms
    by (simp add: timers_write_control_def timers_wf_checked)
  have "timer_wf (tm_cycle_counter ts) i ((tm_timers ts ! i)\<lparr>tmr_reload := v\<rparr>)"
    using t by (simp add: timer_wf_def timer_enabled_def)
  then show "\<exists>ts'. timers_write_reload i v ts = Some ts' \<and> timers_wf ts'"
    using timers_wf_put [OF assms] assms by (simp add: timers_write_reload_def timers_wf_checked)
qed

lemma timers_wf_defer [wf_intros]: "timers_wf ts \<Longrightarrow> timers_wf (timers_defer_newly_enabled_ticks ts)"
proof -
  have "timer_wf now i (if tmr_just_enabled t then t\<lparr>tmr_enable_delay := 1\<rparr> else t)" if "timer_wf now i t" for now i t
    using that by (auto simp: timer_wf_def timer_enabled_def)
  then show "timers_wf ts \<Longrightarrow> timers_wf (timers_defer_newly_enabled_ticks ts)"
    unfolding timers_wf_def timers_defer_newly_enabled_ticks_def by simp
qed

text \<open>
  The part of the invariant that does not mention the time, which holds even when the cycle counter wraps.
\<close>

definition timer_shape :: "nat \<Rightarrow> gba_timer \<Rightarrow> bool" where
  "timer_shape i t \<longleftrightarrow> tmr_control t AND NOT kControlMask = 0 \<and> (i = 0 \<longrightarrow> tmr_control t AND kCountUpFlag = 0) \<and> tmr_enable_delay t \<le> 1"

definition timers_shape :: "timers \<Rightarrow> bool" where
  "timers_shape ts \<longleftrightarrow> length (tm_timers ts) = 4 \<and> (\<forall>i < 4. timer_shape i (tm_timers ts ! i))"

lemma timers_wf_shape: "timers_wf ts \<Longrightarrow> timers_shape ts"
  by (simp add: timers_wf_def timers_shape_def timer_wf_def timer_shape_def)

lemma timers_shape_checked: "timers_shape ts \<Longrightarrow> i < 4 \<Longrightarrow> checked_timer i ts = Some (tm_timers ts ! i)"
  by (simp add: timers_shape_def checked_timer_def kTimerCount_def)

lemma timers_shape_nth: "timers_shape ts \<Longrightarrow> i < 4 \<Longrightarrow> timer_shape i (tm_timers ts ! i)"
  by (simp add: timers_shape_def)

lemma timers_shape_put:
  assumes "timers_shape ts" and "i < 4" and "timer_shape i t"
  shows "put_timer i t ts = Some (ts\<lparr>tm_timers := (tm_timers ts)[i := t]\<rparr>)" "timers_shape (ts\<lparr>tm_timers := (tm_timers ts)[i := t]\<rparr>)"
  using assms by (auto simp: timers_shape_def put_timer_def nth_list_update)

lemma control_written_shape: "timer_shape i t \<Longrightarrow> timer_shape i (control_written i v now t)"
  by (auto simp: timer_shape_def control_written_def timer_enabled_def Let_def and.assoc and_mask_absorb and.left_commute [of _ "NOT _"])

lemma timers_shape_write:
  assumes "timers_shape ts" and "i < 4"
  shows "\<exists>ts'. timers_write_control i v ts = Some ts' \<and> timers_shape ts'"
    and "\<exists>ts'. timers_write_reload i v ts = Some ts' \<and> timers_shape ts'"
proof -
  note t = timers_shape_nth [OF assms]
  show "\<exists>ts'. timers_write_control i v ts = Some ts' \<and> timers_shape ts'"
    using timers_shape_put [OF assms control_written_shape [OF t]] assms by (simp add: timers_write_control_def timers_shape_checked)
  have "timer_shape i ((tm_timers ts ! i)\<lparr>tmr_reload := v\<rparr>)"
    using t by (simp add: timer_shape_def)
  then show "\<exists>ts'. timers_write_reload i v ts = Some ts' \<and> timers_shape ts'"
    using timers_shape_put [OF assms] assms by (simp add: timers_write_reload_def timers_shape_checked)
qed

lemma timers_shape_defer: "timers_shape ts \<Longrightarrow> timers_shape (timers_defer_newly_enabled_ticks ts)"
proof -
  have "timer_shape i (if tmr_just_enabled t then t\<lparr>tmr_enable_delay := 1\<rparr> else t)" if "timer_shape i t" for i t
    using that by (simp add: timer_shape_def)
  then show "timers_shape ts \<Longrightarrow> timers_shape (timers_defer_newly_enabled_ticks ts)"
    unfolding timers_shape_def timers_defer_newly_enabled_ticks_def by simp
qed

text \<open>Ticking keeps it, and never throws, whatever the counter.\<close>

definition run_shape :: "u64 \<Rightarrow> timers_run \<Rightarrow> bool" where
  "run_shape now s \<longleftrightarrow> timers_shape (fst s) \<and> tm_cycle_counter (fst s) = now \<and> ic_wf (fst (snd s))"

lemma raise_timer_irq_ic_wf: "ic_wf (fst r) \<Longrightarrow> ic_wf (fst (raise_timer_irq e r))"
  by (cases r; cases e) (simp add: raise_timer_irq_def ic_wf_request)

lemma run_shape_put:
  assumes "run_shape now (ts, irq)" and "i < 4" and "timer_shape i t"
  shows "\<exists>ts'. put_timer i t ts = Some ts' \<and> run_shape now (ts', irq)"
  using timers_shape_put [of ts i t] assms by (simp add: run_shape_def)

lemma timer_shape_count [simp]:
  "timer_shape i (t\<lparr>tmr_counter := c\<rparr>) = timer_shape i t" "timer_shape i (t\<lparr>tmr_overflow_count := n\<rparr>) = timer_shape i t"
  "timer_shape i (t\<lparr>tmr_just_enabled := j\<rparr>) = timer_shape i t"
  by (simp_all add: timer_shape_def)

lemma increment_timer_shape:
  "i < 4 \<Longrightarrow> run_shape now s \<Longrightarrow> yields (run_shape now) (increment_timer i ticks next_tick stride s)"
  "i < 4 \<Longrightarrow> run_shape now s \<Longrightarrow> yields (run_shape now) (handle_overflow i cycle s)"
proof (induction i ticks next_tick stride s and i cycle s rule: increment_timer_handle_overflow.induct)
  case (1 i ticks next_tick stride ts irq)
  have ts: "timers_shape ts"
    using 1(4) by (simp add: run_shape_def)
  note t = timers_shape_checked [OF ts 1(3)] timers_shape_nth [OF ts 1(3)]
  let ?t = "tm_timers ts ! i" and ?to = "0x10000 - (ucast (tmr_counter (tm_timers ts ! i)) :: u32)"
  show ?case
  proof (cases "ticks > 0")
    case True
    show ?thesis
    proof (cases "ticks < ucast ?to")
      case less: True
      then show ?thesis
        using run_shape_put [OF 1(4,3), of "?t\<lparr>tmr_counter := ucast (ucast (tmr_counter ?t) + ticks)\<rparr>"] t True
        by (auto simp: increment_timer.simps Let_def)
    next
      case False
      obtain ts' where p: "put_timer i (?t\<lparr>tmr_counter := tmr_reload ?t\<rparr>) ts = Some ts'" "run_shape now (ts', irq)"
        using run_shape_put [OF 1(4,3), of "?t\<lparr>tmr_counter := tmr_reload ?t\<rparr>"] t by auto
      note h = 1(1) [OF t(1) True refl False refl p(1) 1(3) p(2)]
      show ?thesis
        unfolding increment_timer.simps [of i ticks next_tick stride ts irq] t(1) Option.bind.simps if_P [OF True] Let_def if_not_P [OF False] p(1)
        by (rule yields_bind [OF h], rule 1(2) [OF t(1) True refl False refl p(1) _ 1(3)])
    qed
  next
    case False
    then show ?thesis
      using t 1(4) by (simp add: increment_timer.simps)
  qed
next
  case (2 i cycle ts irq)
  have ts: "timers_shape ts"
    using 2(3) by (simp add: run_shape_def)
  note t = timers_shape_checked [OF ts 2(2)] timers_shape_nth [OF ts 2(2)]
  let ?t = "tm_timers ts ! i"
  obtain ts' where p: "put_timer i (?t\<lparr>tmr_overflow_count := tmr_overflow_count ?t + 1\<rparr>) ts = Some ts'" "run_shape now (ts', irq)"
    using run_shape_put [OF 2(3,2), of "?t\<lparr>tmr_overflow_count := tmr_overflow_count ?t + 1\<rparr>"] t by auto
  define irq' where "irq' = (if timer_irq_enabled ?t then raise_timer_irq (i, cycle) irq else irq)"
  have irq': "run_shape now (ts', irq')"
    using p(2) raise_timer_irq_ic_wf [of irq "(i, cycle)"] by (simp add: irq'_def run_shape_def)
  show ?case
  proof (cases "i + 1 < kTimerCount")
    case True
    then have n: "i + 1 < 4"
      by (simp add: kTimerCount_def)
    have nt: "checked_timer (i + 1) ts' = Some (tm_timers ts' ! (i + 1))"
      using timers_shape_checked [OF _ n, of ts'] irq' by (simp add: run_shape_def)
    show ?thesis
      unfolding handle_overflow.simps [of i cycle ts irq] t(1) Option.bind.simps p(1) Let_def irq'_def [symmetric] if_P [OF True] nt
      using irq' 2(1) [OF t(1) p(1) irq'_def refl True nt _ _ n irq'] by auto
  next
    case False
    then show ?thesis
      unfolding handle_overflow.simps [of i cycle ts irq] t(1) Option.bind.simps p(1) Let_def irq'_def [symmetric] using irq' by simp
  qed
qed

lemma tick_timer_shape:
  assumes "run_shape now s" and "i < 4"
  shows "yields (run_shape now) (tick_timer cycles start_cycle end_cycle i s)"
proof -
  obtain ts irq where s: "s = (ts, irq)"
    by (cases s)
  have ts: "timers_shape ts"
    using assms(1) by (simp add: run_shape_def s)
  let ?t = "tm_timers ts ! i"
  have at: "vec_at (tm_timers ts) i = Some ?t"
    using ts assms(2) by (simp add: timers_shape_def)
  note t = timers_shape_nth [OF ts assms(2)]
  let ?u = "?t\<lparr>tmr_enable_delay := tmr_enable_delay ?t - min (tmr_enable_delay ?t) cycles, tmr_just_enabled := False\<rparr>"
  have "tmr_enable_delay ?t - min (tmr_enable_delay ?t) cycles \<le> tmr_enable_delay ?t"
    by (simp add: word_le_nat_alt unat_sub min_def)
  then have u: "timer_shape i ?u"
    using t by (auto simp: timer_shape_def intro: order_trans)
  obtain ts1 where 1: "put_timer i (?t\<lparr>tmr_just_enabled := False\<rparr>) ts = Some ts1" "run_shape now (ts1, irq)"
    using run_shape_put [of now ts irq i "?t\<lparr>tmr_just_enabled := False\<rparr>"] assms t by (auto simp: s)
  obtain ts2 where 2: "put_timer i ?u ts = Some ts2" "run_shape now (ts2, irq)"
    using run_shape_put [of now ts irq i ?u] assms u by (auto simp: s)
  show ?thesis
    unfolding tick_timer_def s prod.case at Option.bind.simps Let_def 1(1) 2(1)
    using 1(2) 2(2) increment_timer_shape(1) [OF assms(2) 2(2)] by (simp del: min_def)
qed

lemma timers_tick_shape:
  assumes "timers_shape ts" and "ic_wf ic"
  shows "yields (\<lambda>(ts', ic', first). timers_shape ts' \<and> ic_wf ic' \<and> tm_cycle_counter ts' = tm_cycle_counter ts + ucast cycles) (timers_tick cycles ts ic)"
proof (cases "cycles = 0")
  case True
  then show ?thesis
    using assms by (simp add: timers_tick_def)
next
  case False
  let ?now = "tm_cycle_counter ts + ucast cycles"
  have "run_shape ?now (ts\<lparr>tm_cycle_counter := ?now\<rparr>, ic, None)"
    using assms by (simp add: run_shape_def timers_shape_def)
  then have "yields (run_shape ?now) (foldM (tick_timer cycles (tm_cycle_counter ts) ?now) [0..<kTimerCount] (ts\<lparr>tm_cycle_counter := ?now\<rparr>, ic, None))"
    by (intro foldM_yields tick_timer_shape) (simp_all add: kTimerCount_def)
  then show ?thesis
    unfolding timers_tick_def if_not_P [OF False] Let_def by (rule yields_bind) (auto simp: run_shape_def)
qed

lemma length_timers_pass [simp]: "length (fst (timers_pass s n i carry us)) = length us"
  by (induction us arbitrary: i carry) (simp_all add: Let_def)

lemma timers_tick_total:
  assumes "length (tm_timers ts) = 4" and "unat (tm_cycle_counter ts) + unat cycles + 1024 < 2 ^ 64"
  shows "\<exists>ts' ic' first. timers_tick cycles ts ic = Some (ts', ic', first)"
  using timers_tick_pass [of ts cycles ic] assms by (cases "cycles = 0") (auto simp: timers_tick_def)

lemma timers_wf_tick [wf_intros]:
  assumes "timers_wf ts" and "unat (tm_cycle_counter ts) + unat cycles + 1024 < 2 ^ 64"
    and "timers_tick cycles ts ic = Some (ts', ic', first)"
  shows "timers_wf ts'"
proof (cases "cycles = 0")
  case True
  then show ?thesis
    using assms(1,3) by (simp add: timers_tick_def)
next
  case False
  let ?n = "unat cycles"
  have len: "length (tm_timers ts) = 4"
    using assms(1) by (simp add: timers_wf_def)
  have ts': "tm_timers ts' = fst (timers_pass (unat (tm_cycle_counter ts)) ?n 0 [] (tm_timers ts))"
    "tm_cycle_counter ts' = tm_cycle_counter ts + ucast cycles"
    using timers_tick_pass [OF len False assms(2), of ic] assms(3) by auto
  have later: "w \<le> tm_cycle_counter ts + ucast cycles" if "w \<le> tm_cycle_counter ts" for w
    using that assms(2) by (simp add: word_le_nat_alt unat_word_ariths)
  have "timer_wf (tm_cycle_counter ts + ucast cycles) i (tm_timers ts' ! i)" if i4: "i < 4" for i
  proof -
    obtain x where x: "tm_timers ts' ! i = settle ?n (fst (count_run x (tm_timers ts ! i)))"
      using timers_pass_nth [of i "tm_timers ts"] i4 len unfolding ts'(1) by fastforce
    have t: "timer_wf (tm_cycle_counter ts) i (tm_timers ts ! i)"
      using assms(1) i4 by (simp add: timers_wf_def)
    have "unat (tmr_enable_delay (tm_timers ts ! i)) \<le> 1" "0 < ?n"
      using t False by (simp_all add: timer_wf_def word_le_nat_alt unat_gt_0)
    then have "unat (tmr_enable_delay (tm_timers ts ! i)) - ?n = 0"
      by linarith
    then show ?thesis
      unfolding x using t later by (auto simp: timer_wf_def settle_def timer_enabled_def)
  qed
  then show ?thesis
    using len ts' by (simp add: timers_wf_def)
qed

section \<open>Splitting a tick\<close>

lemma count_run_append:
  "count_run (xs @ ys) t =
     (fst (count_run ys (fst (count_run xs t))), snd (count_run xs t) @ snd (count_run ys (fst (count_run xs t))))"
  by (induction xs arbitrary: t) simp_all

lemma count_run_cycles: "set (snd (count_run cs t)) \<subseteq> set cs"
  by (induction cs arbitrary: t) auto

text \<open>What the pass needs to know of a timer at time \<open>s\<close>, and of the cycles carried into it.\<close>

definition settled_by :: "nat \<Rightarrow> gba_timer \<Rightarrow> bool" where
  "settled_by s t \<longleftrightarrow> unat (tmr_enabled_at t) + unat (tmr_enable_delay t) \<le> s + 1 \<and> unat (tmr_enable_delay t) \<le> 1
     \<and> unat (tmr_enabled_at t) \<le> s"

definition cycles_in :: "nat \<Rightarrow> nat \<Rightarrow> u64 list \<Rightarrow> bool" where
  "cycles_in a b cs \<longleftrightarrow> (\<forall>c \<in> set cs. a < unat c \<and> unat c \<le> b)"

lemma settle_settle:
  assumes "settled_by s t" and "0 < a"
  shows "settle b (settle a t) = settle (a + b) t" and "tmr_enable_delay (settle a t) = (if timer_enabled t then 0 else tmr_enable_delay t)"
  using assms by (auto simp: settled_by_def settle_def timer_enabled_def)

lemma not_delayed:
  assumes "s + 1 < 2 ^ 64" and "settled_by s t" and "s + 1 < unat c"
  shows "\<not> in_enable_delay c t"
proof -
  have "unat (tmr_enabled_at t + ucast (tmr_enable_delay t)) = unat (tmr_enabled_at t) + unat (tmr_enable_delay t)"
    using assms(1,2) by (simp add: settled_by_def unat_word_ariths)
  then show ?thesis
    using assms(2,3) by (simp add: in_enable_delay_def word_le_nat_alt settled_by_def)
qed

lemma prescaler_cycles_add:
  assumes "settled_by s t" and "0 < a" and "timer_enabled t"
  shows "prescaler_cycles t s (a + b) = prescaler_cycles t s a @ prescaler_cycles (settle a t) (s + a) b"
proof -
  let ?d = "unat (tmr_enable_delay t)"
  have "?d \<le> a"
    using assms(1,2) by (simp add: settled_by_def)
  then have "[s + ?d + 1..<s + (a + b) + 1] = [s + ?d + 1..<s + a + 1] @ [s + a + 1..<s + (a + b) + 1]"
    using upt_add_eq_append [of "s + ?d + 1" "s + a + 1" b] by (simp add: ac_simps)
  moreover have "divisor_nat (settle a t) = divisor_nat t"
    by (simp add: divisor_nat_def settle_def)
  ultimately show ?thesis
    using assms settle_settle(2) [OF assms(1,2)] unfolding prescaler_cycles_def by (simp add: add.assoc del: upt_Suc)
qed

lemma drive_cycles_add:
  assumes t: "settled_by s t" and a: "0 < a" and small: "s + a + b + 1 < 2 ^ 64"
    and c2: "cycles_in (s + a) (s + a + b) c2"
  shows "drive_cycles s (a + b) i (c1 @ c2) t = drive_cycles s a i c1 t @ drive_cycles (s + a) b i c2 (settle a t)"
proof -
  have same: "timer_enabled (settle a t) = timer_enabled t" "timer_count_up i (settle a t) = timer_count_up i t"
    by (simp_all add: settle_def timer_enabled_def timer_count_up_def)
  have late: "\<not> in_enable_delay c t" "timer_enabled t \<Longrightarrow> \<not> in_enable_delay c (settle a t)" if "c \<in> set c2" for c
  proof -
    have c: "s + 1 < unat c"
      using that c2 a unfolding cycles_in_def by fastforce
    show "\<not> in_enable_delay c t"
      using small c by (intro not_delayed [OF _ t]) simp_all
    assume "timer_enabled t"
    then have "settled_by s (settle a t)"
      using t settle_settle(2) [OF t a] by (simp add: settled_by_def settle_def)
    then show "\<not> in_enable_delay c (settle a t)"
      using small c by (intro not_delayed) simp_all
  qed
  then have "filter (\<lambda>c. \<not> in_enable_delay c t) c2 = c2"
    "timer_enabled t \<Longrightarrow> filter (\<lambda>c. \<not> in_enable_delay c (settle a t)) c2 = c2"
    by (simp_all add: filter_id_conv)
  then show ?thesis
    using prescaler_cycles_add [OF t a] by (simp add: drive_cycles_def same)
qed

lemma drive_cycles_same: "same_setup t u \<Longrightarrow> drive_cycles s n i carry t = drive_cycles s n i carry u"
  by (simp add: drive_cycles_def same_setupD prescaler_cycles_def divisor_nat_def) (simp add: same_setup_def)

lemma drive_cycles_in:
  assumes "cycles_in s (s + n) carry" and "s + n < 2 ^ 64"
  shows "cycles_in s (s + n) (drive_cycles s n i carry t)"
  using assms unfolding cycles_in_def drive_cycles_def prescaler_cycles_def
  by (auto simp: unat_of_nat)

lemma timers_pass_add:
  assumes "0 < a" and "s + a + b + 1 < 2 ^ 64" and "\<forall>t \<in> set us. settled_by s t"
    and "cycles_in s (s + a) c1" and "cycles_in (s + a) (s + a + b) c2"
  shows "fst (timers_pass s (a + b) i (c1 @ c2) us) =
      fst (timers_pass (s + a) b i c2 (fst (timers_pass s a i c1 us)))
    \<and> set (snd (timers_pass s (a + b) i (c1 @ c2) us)) = set (snd (timers_pass s a i c1 us))
        \<union> set (snd (timers_pass (s + a) b i c2 (fst (timers_pass s a i c1 us))))"
  using assms(3-5)
proof (induction us arbitrary: i c1 c2)
  case (Cons t us)
  let ?d1 = "drive_cycles s a i c1 t" and ?d2 = "drive_cycles (s + a) b i c2 (settle a t)"
  let ?k1 = "count_run ?d1 t"
  let ?k2 = "count_run ?d2 (fst ?k1)"
  have t: "settled_by s t"
    using Cons.prems by simp
  have d: "drive_cycles s (a + b) i (c1 @ c2) t = ?d1 @ ?d2"
    using drive_cycles_add [OF t assms(1,2) Cons.prems(3)] .
  have d2: "drive_cycles (s + a) b i c2 (settle a (fst ?k1)) = ?d2"
    by (rule drive_cycles_same) (simp add: same_setup_def settle_def timer_enabled_def)
  have "cycles_in s (s + a) (snd ?k1)" "cycles_in (s + a) (s + a + b) (snd ?k2)"
    using drive_cycles_in [OF Cons.prems(2)] drive_cycles_in [OF Cons.prems(3)] count_run_cycles assms(2)
    unfolding cycles_in_def by (meson add_lessD1 subsetD)+
  note IH = Cons.IH [OF _ this, of "Suc i"]
  have irq: "timer_irq_enabled (settle a (fst ?k1)) = timer_irq_enabled t"
    by (simp add: settle_def timer_irq_enabled_def)
  have "settled_by s (fst ?k2)"
    using t by (simp add: settled_by_def)
  then show ?case
    using IH Cons.prems(1) settle_settle(1) [OF _ assms(1), of s "fst ?k2"]
    by (auto simp: Let_def d d2 count_run_append count_run_settle irq)
qed simp

lemma timers_wf_settled:
  assumes "timers_wf ts"
  shows "\<forall>t \<in> set (tm_timers ts). settled_by (unat (tm_cycle_counter ts)) t"
proof
  fix t assume "t \<in> set (tm_timers ts)"
  then obtain i where "timer_wf (tm_cycle_counter ts) i t"
    using assms by (auto simp: timers_wf_def in_set_conv_nth)
  then show "settled_by (unat (tm_cycle_counter ts)) t"
    by (auto simp: timer_wf_def settled_by_def word_le_nat_alt)
qed

lemma timers_pass_event_cycles:
  assumes "cycles_in s (s + n) carry" and "s + n < 2 ^ 64"
  shows "cycles_in s (s + n) (map snd (snd (timers_pass s n i carry us)))"
  using assms(1)
proof (induction us arbitrary: i carry)
  case (Cons t us)
  let ?cs = "snd (count_run (drive_cycles s n i carry t) t)"
  have "cycles_in s (s + n) ?cs"
    using drive_cycles_in [OF Cons.prems assms(2)] count_run_cycles unfolding cycles_in_def by blast
  then show ?case
    using Cons.IH [of ?cs "Suc i"] by (auto simp: Let_def cycles_in_def)
qed (simp add: cycles_in_def)

lemma Min_of_earlier:
  fixes A B :: "u64 set"
  assumes "finite A" "finite B" "A \<noteq> {}" "\<forall>a \<in> A. \<forall>b \<in> B. a \<le> b"
  shows "Min (A \<union> B) = Min A"
proof (rule Min_eqI)
  fix y assume "y \<in> A \<union> B"
  then show "Min A \<le> y"
    using assms(1,4) Min_in [OF assms(1,3)] by (blast intro: Min_le)
qed (use assms Min_in [OF assms(1,3)] in auto)

lemma raise_timer_irq_fst:
  "fst (fold raise_timer_irq ev s) = fold (\<lambda>e. ic_request (timer_interrupt_source (fst e))) ev (fst s)"
  by (induction ev arbitrary: s) (simp_all add: raise_timer_irq_def)

text \<open>Batching does not matter. From a well-formed state, ticking a cycles and then b cycles leaves the timers and the
  interrupt controller exactly as one tick of a + b cycles does, and the earliest interrupt cycle of the two calls is the
  one the single call reports.\<close>

lemma timers_tick_split:
  assumes "timers_wf ts" and "a \<noteq> 0" "b \<noteq> 0" and "unat a + unat b < 2 ^ 32"
    and wrap: "unat (tm_cycle_counter ts) + unat a + unat b + 1024 < 2 ^ 64"
    and "timers_tick a ts ic = Some (ts1, ic1, f1)" and "timers_tick b ts1 ic1 = Some (ts2, ic2, f2)"
  shows "timers_tick (a + b) ts ic =
    Some (ts2, ic2, case f1 of Some c \<Rightarrow> Some c | None \<Rightarrow> map_option (\<lambda>c. c + ucast a) f2)"
proof -
  let ?s = "unat (tm_cycle_counter ts)" and ?now = "tm_cycle_counter ts"
  have len: "length (tm_timers ts) = 4"
    using assms(1) by (simp add: timers_wf_def)
  have ab: "unat (a + b) = unat a + unat b" and s1: "unat (?now + ucast a) = ?s + unat a"
    using assms(4) wrap by (simp_all add: unat_word_ariths)
  have cast: "(ucast (a + b) :: u64) = ucast a + ucast b"
    using ab assms(4) by (simp add: word_unat_eq_iff unat_word_ariths)
  let ?r1 = "timers_pass ?s (unat a) 0 [] (tm_timers ts)"
  let ?r2 = "timers_pass (?s + unat a) (unat b) 0 [] (fst ?r1)"
  let ?r = "timers_pass ?s (unat a + unat b) 0 [] (tm_timers ts)"
  have ne: "a + b \<noteq> 0"
    using ab assms(2) by (metis add_is_0 unat_0 unat_eq_zero)
  have t1: "ts1 = \<lparr>tm_timers = fst ?r1, tm_cycle_counter = ?now + ucast a\<rparr>"
    "ic1 = fst (fold raise_timer_irq (snd ?r1) (ic, None))"
    "f1 = (if snd ?r1 = [] then None else Some (Min (snd ` set (snd ?r1)) - ?now))"
    using timers_tick_pass [OF len assms(2), of ic] assms(6) wrap raise_timer_irq_first [of "snd ?r1" ic] by auto
  have t2: "ts2 = \<lparr>tm_timers = fst ?r2, tm_cycle_counter = ?now + ucast a + ucast b\<rparr>"
    "ic2 = fst (fold raise_timer_irq (snd ?r2) (ic1, None))"
    "f2 = (if snd ?r2 = [] then None else Some (Min (snd ` set (snd ?r2)) - (?now + ucast a)))"
    using timers_tick_pass [of ts1 b ic1] assms(3,7) wrap len raise_timer_irq_first [of "snd ?r2" ic1] s1
    unfolding t1(1) by auto
  have add: "fst ?r = fst ?r2" "set (snd ?r) = set (snd ?r1) \<union> set (snd ?r2)"
    using timers_pass_add [of "unat a" ?s "unat b" "tm_timers ts" "[]" "[]" 0] timers_wf_settled [OF assms(1)]
      assms(2) wrap by (simp_all add: cycles_in_def unat_gt_0)
  have "fst (fold raise_timer_irq (snd ?r) (ic, None)) = ic2"
    using timer_irqs.fold_request_append_set [OF add(2), of "(ic, None)"] t1(2) t2(2)
    by (simp add: raise_timer_irq_fst)
  moreover have "(if snd ?r = [] then None else Some (Min (snd ` set (snd ?r)) - ?now)) =
      (case f1 of Some c \<Rightarrow> Some c | None \<Rightarrow> map_option (\<lambda>c. c + ucast a) f2)"
  proof (cases "snd ?r1 = []")
    case True
    then have "snd ` set (snd ?r) = snd ` set (snd ?r2)" "snd ?r = [] \<longleftrightarrow> snd ?r2 = []"
      using add(2) by auto
    then show ?thesis
      using True by (simp add: t1(3) t2(3))
  next
    case False
    have "\<forall>c \<in> snd ` set (snd ?r1). \<forall>d \<in> snd ` set (snd ?r2). c \<le> d"
      using timers_pass_event_cycles [of ?s "unat a" "[]" 0 "tm_timers ts"]
        timers_pass_event_cycles [of "?s + unat a" "unat b" "[]" 0 "fst ?r1"] wrap
      by (fastforce simp: cycles_in_def word_le_nat_alt)
    then have "Min (snd ` set (snd ?r)) = Min (snd ` set (snd ?r1))"
      using False by (simp add: add(2) image_Un Min_of_earlier)
    then show ?thesis
      using False add(2) by (auto simp: t1(3))
  qed
  ultimately show ?thesis
    using timers_tick_pass [OF len ne, of ic] wrap raise_timer_irq_first [of "snd ?r" ic] add(1) t2(1)
      cast unfolding ab by (auto simp: add.assoc)
qed

lemma cascade_demo_wf: "timers_wf cascade_demo" "tm_cycle_counter cascade_demo = 0"
proof -
  have four: "(\<forall>i < 4. P i) \<longleftrightarrow> P 0 \<and> P 1 \<and> P 2 \<and> P 3" for P :: "nat \<Rightarrow> bool"
    by (auto simp: numeral_eq_Suc less_Suc_eq)
  show "timers_wf cascade_demo" "tm_cycle_counter cascade_demo = 0"
    by (simp_all add: timers_wf_def cascade_demo_def four timer_wf_def blank_timer_def kControlMask_def timer_consts
        timer_enabled_def)
qed

section \<open>Save and load\<close>

text \<open>Two timers are interchangeable from time \<open>s\<close> on when a save state cannot tell them apart and they suppress
  the same cycles after \<open>s\<close>.\<close>

definition timer_sim :: "nat \<Rightarrow> gba_timer \<Rightarrow> gba_timer \<Rightarrow> bool" where
  "timer_sim s t u \<longleftrightarrow> timer_save t = timer_save u
     \<and> (\<forall>c. s < unat c \<longrightarrow> in_enable_delay c t = in_enable_delay c u)"

lemma timer_save_eq:
  "timer_save t = timer_save u \<longleftrightarrow> t\<lparr>tmr_enabled_at := 0\<rparr> = u\<lparr>tmr_enabled_at := 0\<rparr>"
  by (cases t, cases u) (auto simp: timer_save_def)

lemma timer_save_eqD:
  assumes "timer_save t = timer_save u"
  shows "tmr_control t = tmr_control u" "tmr_enable_delay t = tmr_enable_delay u"
    "timer_enabled t = timer_enabled u" "timer_count_up i t = timer_count_up i u"
    "timer_irq_enabled t = timer_irq_enabled u"
    "timer_save (settle n t) = timer_save (settle n u)"
  using assms by (simp_all add: timer_save_def timer_enabled_def timer_count_up_def timer_irq_enabled_def settle_def)

lemma timer_sim_count_run:
  "timer_save t = timer_save u \<Longrightarrow>
     timer_save (fst (count_run cs t)) = timer_save (fst (count_run cs u)) \<and> snd (count_run cs t) = snd (count_run cs u)"
proof (induction cs arbitrary: t u)
  case (Cons c cs)
  from Cons.prems have "timer_save (count_step t) = timer_save (count_step u)" "overflows t = overflows u"
    by (simp_all add: timer_save_def count_step_def overflows_def)
  then show ?case
    using Cons.IH [of "count_step t" "count_step u"] by simp
qed simp

lemma drive_cycles_sim:
  assumes "timer_sim s t u" and "cycles_in s e carry"
  shows "drive_cycles s n i carry t = drive_cycles s n i carry u"
proof -
  note D = timer_save_eqD [of t u]
  have save: "timer_save t = timer_save u"
    using assms(1) by (simp add: timer_sim_def)
  have "filter (\<lambda>c. \<not> in_enable_delay c t) carry = filter (\<lambda>c. \<not> in_enable_delay c u) carry"
    using assms by (auto simp: timer_sim_def cycles_in_def intro: filter_cong)
  then show ?thesis
    using D [OF save] by (simp add: drive_cycles_def prescaler_cycles_def divisor_nat_def)
qed

lemma timers_pass_sim:
  assumes "list_all2 (timer_sim s) ts us" and "cycles_in s (s + n) carry" and "s + n < 2 ^ 64"
  shows "list_all2 (\<lambda>t u. timer_save t = timer_save u) (fst (timers_pass s n i carry ts)) (fst (timers_pass s n i carry us))
    \<and> snd (timers_pass s n i carry ts) = snd (timers_pass s n i carry us)"
  using assms(1,2)
proof (induction arbitrary: i carry rule: list_all2_induct)
  case (Cons t ts u us)
  let ?cs = "drive_cycles s n i carry u"
  have d: "drive_cycles s n i carry t = ?cs"
    using Cons.hyps(1) Cons.prems by (rule drive_cycles_sim)
  have save: "timer_save t = timer_save u"
    using Cons.hyps by (simp add: timer_sim_def)
  note run = timer_sim_count_run [OF save, of ?cs]
  have "cycles_in s (s + n) (snd (count_run ?cs u))"
    using drive_cycles_in [OF Cons.prems assms(3)] count_run_cycles unfolding cycles_in_def by blast
  then show ?case
    using Cons.IH [of "snd (count_run ?cs u)" "Suc i"] run timer_save_eqD(5) [OF save]
      timer_save_eqD(6) [of "fst (count_run ?cs t)" "fst (count_run ?cs u)" n] d by (simp add: Let_def)
qed simp

lemma timer_restore_sim:
  assumes "timer_wf now i t"
  shows "timer_sim (unat now) t (timer_restore now (timer_save t))"
proof -
  let ?u = "timer_restore now (timer_save t)"
  have "in_enable_delay c t = in_enable_delay c ?u" if "unat now < unat c" for c
  proof (cases "tmr_enable_delay t = 0")
    case True
    have "tmr_enabled_at t < c" "tmr_enabled_at ?u < c"
      using assms that by (auto simp: timer_wf_def timer_restore_def word_le_nat_alt word_less_nat_alt)
    moreover have "tmr_enable_delay ?u = 0"
      using True by (simp add: timer_restore_def timer_save_def)
    ultimately show ?thesis
      using True by (simp add: in_enable_delay_def not_le [symmetric])
  next
    case False
    then have "tmr_enabled_at ?u = tmr_enabled_at t"
      using assms by (simp add: timer_wf_def timer_restore_def timer_save_def timer_enabled_def)
    then show ?thesis
      by (simp add: in_enable_delay_def timer_restore_def timer_save_def)
  qed
  then show ?thesis
    by (simp add: timer_sim_def timer_restore_def timer_save_def)
qed

lemma timers_load_save:
  assumes "timers_wf ts"
  shows "timers_load_state (timers_save_state ts) other =
    (True, \<lparr>tm_timers = map (\<lambda>t. timer_restore (tm_cycle_counter ts) (timer_save t)) (tm_timers ts),
            tm_cycle_counter = tm_cycle_counter ts\<rparr>)"
proof -
  have "timer_state_valid i (timer_save t)" if "timer_wf now i t" for now i t
    using that by (auto simp: timer_wf_def timer_state_valid_def timer_save_def timer_enabled_def)
  then show ?thesis
    using assms by (auto simp: timers_load_state_def timers_save_state_def timers_wf_def kTimerCount_def list_all_iff)
qed

text \<open>C18. Save states of the timers. Loading the saved state of a well-formed timer block always succeeds and gives a block
  with the same saved state, and although the enable anchor is rebuilt rather than saved, the restored block cannot be told
  apart from the original by ticking: any tick raises the same interrupts, reports the same cycle and leads to the same saved
  state.\<close>

theorem timers_load_save_tick:
  assumes "timers_wf ts" and "unat (tm_cycle_counter ts) + unat cycles + 1024 < 2 ^ 64"
    and "timers_tick cycles ts ic = Some (ts', ic', first)"
  shows "\<exists>us us'. timers_load_state (timers_save_state ts) other = (True, us)
    \<and> timers_save_state us = timers_save_state ts
    \<and> timers_tick cycles us ic = Some (us', ic', first)
    \<and> timers_save_state us' = timers_save_state ts'"
proof -
  let ?now = "tm_cycle_counter ts"
  let ?us = "\<lparr>tm_timers = map (\<lambda>t. timer_restore ?now (timer_save t)) (tm_timers ts), tm_cycle_counter = ?now\<rparr>"
  have len: "length (tm_timers ts) = 4" "length (tm_timers ?us) = 4"
    using assms(1) by (simp_all add: timers_wf_def)
  have save: "timers_save_state ?us = timers_save_state ts"
    by (simp add: timers_save_state_def timer_save_def timer_restore_def)
  show ?thesis
  proof (cases "cycles = 0")
    case True
    then show ?thesis
      using assms(3) timers_load_save [OF assms(1)] save by (auto simp: timers_tick_def)
  next
    case False
    have "list_all2 (timer_sim (unat ?now)) (tm_timers ts) (tm_timers ?us)"
      using assms(1) len timer_restore_sim by (auto simp: list_all2_conv_all_nth timers_wf_def)
    note sim = timers_pass_sim [OF this, of "unat cycles" "[]" 0]
    let ?r = "timers_pass (unat ?now) (unat cycles) 0 [] (tm_timers ts)"
    let ?q = "timers_pass (unat ?now) (unat cycles) 0 [] (tm_timers ?us)"
    have eq: "snd ?q = snd ?r" "map timer_save (fst ?q) = map timer_save (fst ?r)"
      using sim assms(2) by (auto simp: cycles_in_def list_all2_conv_all_nth intro: nth_equalityI)
    have "timers_tick cycles ?us ic = Some (\<lparr>tm_timers = fst ?q, tm_cycle_counter = ?now + ucast cycles\<rparr>, ic', first)"
      using timers_tick_pass [OF len(1) False assms(2), of ic] timers_tick_pass [OF len(2) False, of ic] assms(2,3) eq(1)
      by simp
    moreover have "tm_timers ts' = fst ?r" "tm_cycle_counter ts' = ?now + ucast cycles"
      using timers_tick_pass [OF len(1) False assms(2), of ic] assms(3) by auto
    ultimately show ?thesis
      using timers_load_save [OF assms(1)] save eq(2) by (simp add: timers_save_state_def)
  qed
qed

theorem timers_load_save_tick_witness:
  "\<exists>us us' ts' ic' first. timers_load_state (timers_save_state cascade_demo) timers_reset = (True, us)
    \<and> timers_tick 3 cascade_demo ic_reset = Some (ts', ic', first)
    \<and> timers_tick 3 us ic_reset = Some (us', ic', first) \<and> timers_save_state us' = timers_save_state ts'"
proof -
  have len: "length (tm_timers cascade_demo) = 4"
    by (simp add: cascade_demo_def)
  obtain ts' ic' first where a: "timers_tick 3 cascade_demo ic_reset = Some (ts', ic', first)"
    using timers_tick_total [OF len, of 3 ic_reset] cascade_demo_wf(2) by auto
  then show ?thesis
    using timers_load_save_tick [OF cascade_demo_wf(1) _ a, of timers_reset] cascade_demo_wf(2) by auto
qed

text \<open>A bad index is refused by every accessor, as \<open>checked_timer\<close> throws.\<close>

lemma checked_timer_out_of_range:
  "i \<ge> 4 \<Longrightarrow> checked_timer i ts = None \<and> timers_write_control i v ts = None \<and> timers_write_reload i v ts = None
     \<and> timers_counter i ts = None \<and> timers_overflow_count i ts = None"
  by (simp add: checked_timer_def timers_write_control_def timers_write_reload_def timers_counter_def
      timers_overflow_count_def kTimerCount_def)

end
