(* ===== verification/Ring_Buffer.thy ===== *)
theory Ring_Buffer
  imports Prelude
begin

text \<open>
  The ring buffers of \<open>src/src/core/apu.cpp\<close>. \<open>Apu::Fifo\<close> (32 Direct Sound bytes) and \<open>Apu::AudioBuffer\<close> (2048 stereo
  samples) are the same structure at two element types: an array with the index of its oldest element and the number of elements. A push
  into a full buffer drops the oldest element; a pop returns the oldest.

  The locale \<open>bounded_queue\<close> is what a client may rely on: the buffer behaves as a list that keeps its last \<open>cap\<close> elements. Its
  lemmas on sequences of pushes and pops are proved once; the audio unit interprets it for both of its buffers.
\<close>

record 'a ring =
  rb_samples :: "'a list"
  rb_head :: nat
  rb_size :: nat

text \<open>\<open>push_fifo\<close> and \<open>push_audio_sample\<close>, \<open>pop_fifo\<close> and \<open>pop_audio_sample\<close>, for a buffer of capacity \<open>cap\<close>.\<close>

definition ring_make_room :: "nat \<Rightarrow> 'a ring \<Rightarrow> 'a ring" where
  "ring_make_room cap r =
     (if rb_size r = cap then r\<lparr>rb_head := (rb_head r + 1) mod cap, rb_size := rb_size r - 1\<rparr> else r)"

definition ring_push :: "nat \<Rightarrow> 'a \<Rightarrow> 'a ring \<Rightarrow> 'a ring throws" where
  "ring_push cap sample r0 =
     (let r = ring_make_room cap r0;
          tail = (rb_head r + rb_size r) mod cap
      in do {
        samples \<leftarrow> vec_put (rb_samples r) tail sample;
        Some (r\<lparr>rb_samples := samples, rb_size := rb_size r + 1\<rparr>)})"

definition ring_pop :: "nat \<Rightarrow> 'a ring \<Rightarrow> ('a \<times> 'a ring) option throws" where
  "ring_pop cap r =
     (if rb_size r = 0 then Some None
      else do {
        sample \<leftarrow> vec_at (rb_samples r) (rb_head r);
        Some (Some (sample, r\<lparr>rb_head := (rb_head r + 1) mod cap, rb_size := rb_size r - 1\<rparr>))})"

definition ring_clear :: "nat \<Rightarrow> 'a \<Rightarrow> 'a ring" where
  "ring_clear cap zero = \<lparr>rb_samples = vec_fill cap zero, rb_head = 0, rb_size = 0\<rparr>"

section \<open>The queue a buffer holds\<close>

definition ring_wf :: "nat \<Rightarrow> 'a ring \<Rightarrow> bool" where
  "ring_wf cap r \<longleftrightarrow> length (rb_samples r) = cap \<and> rb_head r < cap \<and> rb_size r \<le> cap"

definition ring_items :: "nat \<Rightarrow> 'a ring \<Rightarrow> 'a list" where
  "ring_items cap r = map (\<lambda>k. rb_samples r ! ((rb_head r + k) mod cap)) [0..<rb_size r]"

text \<open>The last \<open>n\<close> elements of a list.\<close>

definition keep_last :: "nat \<Rightarrow> 'a list \<Rightarrow> 'a list" where
  "keep_last n xs = drop (length xs - n) xs"

lemma keep_last_simps [simp]:
  "length xs \<le> n \<Longrightarrow> keep_last n xs = xs" "length (keep_last n xs) = min n (length xs)"
  by (auto simp: keep_last_def)

lemma keep_last_append: "keep_last n (keep_last n xs @ ys) = keep_last n (xs @ ys)"
  by (cases "length xs \<le> n") (auto simp: keep_last_def add.commute)

text \<open>Taking up to \<open>n\<close> elements off a queue.\<close>

primrec queue_pops :: "('q \<Rightarrow> ('a \<times> 'q) option throws) \<Rightarrow> nat \<Rightarrow> 'q \<Rightarrow> ('a list \<times> 'q) throws" where
  "queue_pops pop 0 q = Some ([], q)"
| "queue_pops pop (Suc n) q = do {
     r \<leftarrow> pop q;
     case r of None \<Rightarrow> Some ([], q) | Some (x, q') \<Rightarrow> map_option (\<lambda>(xs, q''). (x # xs, q'')) (queue_pops pop n q')}"

locale bounded_queue =
  fixes cap :: nat
    and wf :: "'q \<Rightarrow> bool"
    and items :: "'q \<Rightarrow> 'a list"
    and push :: "'a \<Rightarrow> 'q \<Rightarrow> 'q throws"
    and pop :: "'q \<Rightarrow> ('a \<times> 'q) option throws"
  assumes push_law: "wf q \<Longrightarrow> \<exists>q'. push x q = Some q' \<and> wf q' \<and> items q' = keep_last cap (items q @ [x])"
    and pop_empty: "wf q \<Longrightarrow> items q = [] \<Longrightarrow> pop q = Some None"
    and pop_law: "wf q \<Longrightarrow> items q = x # xs \<Longrightarrow> \<exists>q'. pop q = Some (Some (x, q')) \<and> wf q' \<and> items q' = xs"
    and bounded: "wf q \<Longrightarrow> length (items q) \<le> cap"
begin

lemma push_all:
  "wf q \<Longrightarrow> \<exists>q'. foldM push xs q = Some q' \<and> wf q' \<and> items q' = keep_last cap (items q @ xs)"
proof (induction xs arbitrary: q)
  case Nil
  then show ?case
    using bounded by simp
next
  case (Cons x xs)
  obtain q1 where q1: "push x q = Some q1" "wf q1" "items q1 = keep_last cap (items q @ [x])"
    using push_law [OF Cons.prems] by blast
  from Cons.IH [OF q1(2)] q1 keep_last_append [of cap "items q @ [x]" xs] show ?case
    by auto
qed

lemma pops_take:
  "wf q \<Longrightarrow> \<exists>q'. queue_pops pop n q = Some (take n (items q), q') \<and> wf q' \<and> items q' = drop n (items q)"
proof (induction n arbitrary: q)
  case (Suc n)
  show ?case
  proof (cases "items q")
    case Nil
    then show ?thesis
      using pop_empty Suc.prems by simp
  next
    case (Cons x xs)
    then obtain q1 where q1: "pop q = Some (Some (x, q1))" "wf q1" "items q1 = xs"
      using pop_law [OF Suc.prems] by blast
    from Suc.IH [OF q1(2)] q1 Cons show ?thesis
      by auto
  qed
qed simp

lemma push_all_pops:
  assumes "wf q" and "items q = []" and "length xs \<le> cap"
  shows "\<exists>q' q''. foldM push xs q = Some q' \<and> queue_pops pop (length xs) q' = Some (xs, q'') \<and> wf q'' \<and> items q'' = []"
proof -
  obtain q' where "foldM push xs q = Some q'" "wf q'" "items q' = xs"
    using push_all [OF assms(1), of xs] assms(2,3) by auto
  then show ?thesis
    using pops_take [of q' "length xs"] by auto
qed

end

section \<open>Ring buffers are bounded queues\<close>

lemma ring_index_inj:
  fixes h :: nat
  assumes "j < cap" "k < cap" and "(h + j) mod cap = (h + k) mod cap"
  shows "j = k"
  using mod_eq_close [of "h + j" "h + k" cap] mod_eq_close [of "h + k" "h + j" cap] assms
  by (cases "j \<le> k") auto

lemma ring_items_clear [simp]: "ring_items cap (ring_clear cap z) = []"
  by (simp add: ring_items_def ring_clear_def)

lemma ring_wf_clear [wf_intros]: "0 < cap \<Longrightarrow> ring_wf cap (ring_clear cap z)"
  by (simp add: ring_wf_def ring_clear_def)

lemma length_ring_items [simp]: "length (ring_items cap r) = rb_size r"
  by (simp add: ring_items_def)

lemma ring_items_tl:
  assumes "ring_wf cap r" and "0 < rb_size r"
  shows "ring_items cap r = rb_samples r ! rb_head r #
    ring_items cap (r\<lparr>rb_head := (rb_head r + 1) mod cap, rb_size := rb_size r - 1\<rparr>)"
proof (rule nth_equalityI)
  fix i assume i: "i < length (ring_items cap r)"
  have "rb_head r mod cap = rb_head r"
    using assms by (simp add: ring_wf_def)
  then show "ring_items cap r ! i = (rb_samples r ! rb_head r #
      ring_items cap (r\<lparr>rb_head := (rb_head r + 1) mod cap, rb_size := rb_size r - 1\<rparr>)) ! i"
    using i by (cases i) (auto simp: ring_items_def mod_simps less_diff_conv)
qed (use assms in simp)

lemma ring_pop_law:
  assumes wf: "ring_wf cap r" and items: "ring_items cap r = x # xs"
  shows "\<exists>r'. ring_pop cap r = Some (Some (x, r')) \<and> ring_wf cap r' \<and> ring_items cap r' = xs"
proof -
  have pos: "0 < rb_size r"
    using arg_cong [OF items, of length] by simp
  then show ?thesis
    using wf items ring_items_tl [OF wf pos]
    by (auto simp: ring_pop_def ring_wf_def)
qed

lemma ring_push_room:
  assumes wf: "ring_wf cap r" and room: "rb_size r < cap"
  shows "\<exists>r'. ring_push cap x r = Some r' \<and> ring_wf cap r' \<and> ring_items cap r' = ring_items cap r @ [x]"
proof -
  let ?t = "(rb_head r + rb_size r) mod cap"
  let ?r = "r\<lparr>rb_samples := (rb_samples r)[?t := x], rb_size := rb_size r + 1\<rparr>"
  have t: "?t < length (rb_samples r)"
    using wf room by (simp add: ring_wf_def)
  have "ring_items cap ?r = ring_items cap r @ [x]"
  proof (rule nth_equalityI)
    fix i assume i: "i < length (ring_items cap ?r)"
    have "i \<noteq> rb_size r \<Longrightarrow> (rb_head r + i) mod cap \<noteq> ?t"
      using ring_index_inj [of i cap "rb_size r" "rb_head r"] i room by auto
    then show "ring_items cap ?r ! i = (ring_items cap r @ [x]) ! i"
      using i t by (auto simp: ring_items_def nth_append less_Suc_eq nth_list_update)
  qed simp
  then show ?thesis
    using wf room t by (auto simp: ring_push_def ring_make_room_def ring_wf_def Let_def)
qed

lemma ring_push_law:
  assumes wf: "ring_wf cap r"
  shows "\<exists>r'. ring_push cap x r = Some r' \<and> ring_wf cap r' \<and> ring_items cap r' = keep_last cap (ring_items cap r @ [x])"
proof (cases "rb_size r = cap")
  case True
  define m' where "m' = ring_make_room cap r"
  have pos: "0 < cap" "0 < rb_size r"
    using wf True by (auto simp: ring_wf_def)
  have m: "m' = r\<lparr>rb_head := (rb_head r + 1) mod cap, rb_size := rb_size r - 1\<rparr>"
    using True by (simp add: m'_def ring_make_room_def)
  have "ring_wf cap m'" "rb_size m' < cap"
    unfolding m using wf True pos(1) by (simp_all add: ring_wf_def)
  note m_ok = this
  from ring_push_room [OF m_ok, of x]
  obtain r' where r': "ring_push cap x m' = Some r'" "ring_wf cap r'" "ring_items cap r' = ring_items cap m' @ [x]"
    by blast
  have "ring_make_room cap m' = m'"
    using m_ok(2) by (simp add: ring_make_room_def)
  then have "ring_push cap x r = Some r'"
    using r'(1) unfolding ring_push_def m'_def [symmetric] by simp
  moreover have "keep_last cap (ring_items cap r @ [x]) = ring_items cap m' @ [x]"
    using ring_items_tl [OF wf pos(2)] True pos by (simp add: m keep_last_def)
  ultimately show ?thesis
    using r' by simp
next
  case False
  then have "rb_size r < cap"
    using wf by (simp add: ring_wf_def)
  then show ?thesis
    using ring_push_room [OF wf] by simp
qed

lemma ring_bounded_queue: "bounded_queue cap (ring_wf cap) (ring_items cap) (ring_push cap) (ring_pop cap)"
proof
  fix q :: "'a ring"
  assume "ring_wf cap q" "ring_items cap q = []"
  then show "ring_pop cap q = Some None"
    using length_ring_items [of cap q] by (simp add: ring_pop_def)
next
  show "length (ring_items cap q) \<le> cap" if "ring_wf cap q" for q :: "'a ring"
    using that by (simp add: ring_wf_def)
qed (simp_all add: ring_push_law ring_pop_law)

end
