(* ===== verification/Apu.thy ===== *)
theory Apu
  imports State_Hash Ring_Buffer
begin

text \<open>
  The audio unit of \<open>src/src/core/apu.cpp\<close>: sound control registers, two-bank wave RAM, the two Direct Sound FIFOs, the four PSG
  generators, the mixer and the output buffer. Signed samples are words read with \<^const>\<open>sint\<close>. The mixer's \<open>std::int32_t\<close> sums are
  integers; \<open>mix_fits\<close> shows they stay inside 32 bits. A division by a zero period, a table index out of range and a shift of
  32 or more are \<^const>\<open>None\<close>.
\<close>

type_synonym i8 = "8 word"
type_synonym i16 = "16 word"

datatype direct_sound_channel = Channel_a | Channel_b

record apu_frame_step =
  fs_step :: u8
  fs_length_clock :: bool
  fs_sweep_clock :: bool
  fs_envelope_clock :: bool

record direct_sound_sample =
  ds_produced :: bool
  ds_sample :: i8
  ds_refill_request :: bool

record direct_sound_timer_result =
  dt_fifo_a :: direct_sound_sample
  dt_fifo_b :: direct_sound_sample

record apu_mixed_sample =
  ms_left :: i16
  ms_right :: i16

record square_channel =
  sq_enabled :: bool
  sq_duty :: u8
  sq_volume :: u8
  sq_period_samples :: u16
  sq_phase :: u16

record wave_channel =
  wv_enabled :: bool
  wv_volume_shift :: u8
  wv_period_samples :: u16
  wv_phase :: u16

record noise_channel =
  ns_enabled :: bool
  ns_volume :: u8
  ns_period_samples :: u16
  ns_phase :: u16
  ns_lfsr :: u16
  ns_narrow_lfsr :: bool

record apu =
  apu_soundcnt_l :: u16
  apu_soundcnt_h :: u16
  apu_soundcnt_x_status :: u16
  apu_soundbias :: u16
  apu_wave_ram_banks :: "u16 list list"
  apu_wave_bank_select :: bool
  apu_fifos :: "i8 ring list"
  apu_latched :: "i8 list"
  apu_squares :: "square_channel list"
  apu_wave :: wave_channel
  apu_noise :: noise_channel
  apu_audio_buffer :: "apu_mixed_sample ring"
  apu_frame_step_count :: u64
  apu_audio_sample_count :: u64
  apu_frame_cycle_remainder :: u32
  apu_audio_cycle_remainder :: u32
  apu_frame_step :: u8
  apu_last_mixed_sample :: apu_mixed_sample

definition kCpuCyclesPerAudioSample :: u32 where "kCpuCyclesPerAudioSample = 512"
definition kCpuCyclesPerFrameSequencerStep :: u32 where "kCpuCyclesPerFrameSequencerStep = 32768"
definition kFrameSequencerSteps :: u8 where "kFrameSequencerSteps = 8"
definition kWaveRamHalfwords :: nat where "kWaveRamHalfwords = 8"
definition kWaveRamBanks :: nat where "kWaveRamBanks = 2"
definition kFifoCapacity :: nat where "kFifoCapacity = 32"
definition kFifoRefillThreshold :: nat where "kFifoRefillThreshold = 16"
definition kAudioBufferCapacity :: nat where "kAudioBufferCapacity = 2048"

definition kSoundCntLMask :: u16 where "kSoundCntLMask = 0xFF77"
definition kSoundCntHMask :: u16 where "kSoundCntHMask = 0xFF0F"
definition kFifoAReset :: u16 where "kFifoAReset = 0x0800"
definition kFifoBReset :: u16 where "kFifoBReset = 0x8000"
definition kSoundCntHStoredMask :: u16 where
  "kSoundCntHStoredMask = kSoundCntHMask AND NOT kFifoAReset AND NOT kFifoBReset"
definition kMasterEnable :: u16 where "kMasterEnable = 0x0080"
definition kSoundBiasMask :: u16 where "kSoundBiasMask = 0x43FF"
definition kDirectSoundHalfScale :: int where "kDirectSoundHalfScale = 128"
definition kSquareDutyHighSamples :: "u8 list" where "kSquareDutyHighSamples = [1, 2, 4, 6]"
definition kPsgScale :: int where "kPsgScale = 128"

lemmas apu_const_defs = kCpuCyclesPerAudioSample_def kCpuCyclesPerFrameSequencerStep_def kFrameSequencerSteps_def
  kWaveRamHalfwords_def kWaveRamBanks_def kFifoCapacity_def kFifoRefillThreshold_def kAudioBufferCapacity_def
  kSoundCntLMask_def kSoundCntHMask_def kFifoAReset_def kFifoBReset_def kSoundCntHStoredMask_def kMasterEnable_def
  kSoundBiasMask_def kDirectSoundHalfScale_def kSquareDutyHighSamples_def kPsgScale_def

primrec fifo_index :: "direct_sound_channel \<Rightarrow> nat" where
  "fifo_index Channel_a = 0" | "fifo_index Channel_b = 1"

definition frame_length_clock :: "u8 \<Rightarrow> bool" where
  "frame_length_clock step \<longleftrightarrow> step = 0 \<or> step = 2 \<or> step = 4 \<or> step = 6"

definition frame_sweep_clock :: "u8 \<Rightarrow> bool" where
  "frame_sweep_clock step \<longleftrightarrow> step = 2 \<or> step = 6"

definition frame_envelope_clock :: "u8 \<Rightarrow> bool" where
  "frame_envelope_clock step \<longleftrightarrow> step = 7"

definition clamp_mixed_sample :: "int \<Rightarrow> i16" where
  "clamp_mixed_sample v = word_of_int (max (- 32768) (min v 32767))"

section \<open>Reset\<close>

definition silent_sample :: apu_mixed_sample where
  "silent_sample = \<lparr>ms_left = 0, ms_right = 0\<rparr>"

definition silent_square :: square_channel where
  "silent_square = \<lparr>sq_enabled = False, sq_duty = 0, sq_volume = 0, sq_period_samples = 1, sq_phase = 0\<rparr>"

definition silent_wave :: wave_channel where
  "silent_wave = \<lparr>wv_enabled = False, wv_volume_shift = 0, wv_period_samples = 1, wv_phase = 0\<rparr>"

definition silent_noise :: noise_channel where
  "silent_noise = \<lparr>ns_enabled = False, ns_volume = 0, ns_period_samples = 1, ns_phase = 0, ns_lfsr = 0x7FFF,
     ns_narrow_lfsr = False\<rparr>"

definition apu_reset :: apu where
  "apu_reset =
     \<lparr>apu_soundcnt_l = 0, apu_soundcnt_h = 0, apu_soundcnt_x_status = 0, apu_soundbias = 0x0200,
      apu_wave_ram_banks = vec_fill kWaveRamBanks (vec_fill kWaveRamHalfwords 0), apu_wave_bank_select = False,
      apu_fifos = [ring_clear kFifoCapacity 0, ring_clear kFifoCapacity 0], apu_latched = [0, 0],
      apu_squares = [silent_square, silent_square], apu_wave = silent_wave, apu_noise = silent_noise,
      apu_audio_buffer = ring_clear kAudioBufferCapacity silent_sample,
      apu_frame_step_count = 0, apu_audio_sample_count = 0, apu_frame_cycle_remainder = 0,
      apu_audio_cycle_remainder = 0, apu_frame_step = 0, apu_last_mixed_sample = silent_sample\<rparr>"

section \<open>Registers\<close>

definition master_enabled :: "apu \<Rightarrow> bool" where
  "master_enabled a \<longleftrightarrow> apu_soundcnt_x_status a AND kMasterEnable \<noteq> 0"

definition apu_fifo :: "direct_sound_channel \<Rightarrow> apu \<Rightarrow> i8 ring throws" where
  "apu_fifo channel a = vec_at (apu_fifos a) (fifo_index channel)"

definition put_fifo :: "direct_sound_channel \<Rightarrow> i8 ring \<Rightarrow> apu \<Rightarrow> apu throws" where
  "put_fifo channel r a = map_option (\<lambda>rs. a\<lparr>apu_fifos := rs\<rparr>) (vec_put (apu_fifos a) (fifo_index channel) r)"

definition clear_fifo :: "direct_sound_channel \<Rightarrow> apu \<Rightarrow> apu throws" where
  "clear_fifo channel a = put_fifo channel (ring_clear kFifoCapacity 0) a"

definition clear_audio_buffer :: "apu \<Rightarrow> apu" where
  "clear_audio_buffer a = a\<lparr>apu_audio_buffer := ring_clear kAudioBufferCapacity silent_sample\<rparr>"

definition clear_sound_circuit :: "apu \<Rightarrow> apu throws" where
  "clear_sound_circuit a = do {
     let a1 = a\<lparr>apu_soundcnt_l := 0, apu_soundcnt_h := 0, apu_soundcnt_x_status := 0, apu_frame_step_count := 0,
                apu_audio_sample_count := 0, apu_frame_cycle_remainder := 0, apu_audio_cycle_remainder := 0,
                apu_latched := vec_fill 2 0, apu_last_mixed_sample := silent_sample, apu_frame_step := 0,
                apu_wave_bank_select := False, apu_squares := vec_fill 2 silent_square, apu_wave := silent_wave,
                apu_noise := silent_noise\<rparr>;
     a2 \<leftarrow> clear_fifo Channel_a a1;
     a3 \<leftarrow> clear_fifo Channel_b a2;
     Some (clear_audio_buffer a3)}"

definition write_soundcnt_l :: "u16 \<Rightarrow> apu \<Rightarrow> apu" where
  "write_soundcnt_l v a = (if \<not> master_enabled a then a else a\<lparr>apu_soundcnt_l := v AND kSoundCntLMask\<rparr>)"

definition write_soundcnt_h :: "u16 \<Rightarrow> apu \<Rightarrow> apu throws" where
  "write_soundcnt_h v a =
     (if \<not> master_enabled a then Some a
      else do {
        a1 \<leftarrow> (if v AND kFifoAReset \<noteq> 0 then clear_fifo Channel_a a else Some a);
        a2 \<leftarrow> (if v AND kFifoBReset \<noteq> 0 then clear_fifo Channel_b a1 else Some a1);
        Some (a2\<lparr>apu_soundcnt_h := v AND kSoundCntHStoredMask\<rparr>)})"

definition write_soundcnt_x :: "u16 \<Rightarrow> apu \<Rightarrow> apu throws" where
  "write_soundcnt_x v a =
     (if v AND kMasterEnable = 0 then clear_sound_circuit a
      else Some (a\<lparr>apu_soundcnt_x_status := apu_soundcnt_x_status a OR kMasterEnable\<rparr>))"

definition write_soundbias :: "u16 \<Rightarrow> apu \<Rightarrow> apu" where
  "write_soundbias v a = (if \<not> master_enabled a then a else a\<lparr>apu_soundbias := v AND kSoundBiasMask\<rparr>)"

definition set_wave_bank_select :: "bool \<Rightarrow> apu \<Rightarrow> apu" where
  "set_wave_bank_select playing_bank a = a\<lparr>apu_wave_bank_select := playing_bank\<rparr>"

definition write_wave_ram :: "nat \<Rightarrow> u16 \<Rightarrow> apu \<Rightarrow> apu throws" where
  "write_wave_ram index v a =
     (let bank = (if apu_wave_bank_select a then 0 else 1) in do {
        first \<leftarrow> vec_at (apu_wave_ram_banks a) 0;
        if index \<ge> length first then None
        else do {
          words \<leftarrow> vec_at (apu_wave_ram_banks a) bank;
          words' \<leftarrow> vec_put words index v;
          banks \<leftarrow> vec_put (apu_wave_ram_banks a) bank words';
          Some (a\<lparr>apu_wave_ram_banks := banks\<rparr>)}})"

definition wave_ram :: "nat \<Rightarrow> apu \<Rightarrow> u16 throws" where
  "wave_ram index a = do {
     first \<leftarrow> vec_at (apu_wave_ram_banks a) 0;
     if index \<ge> length first then None
     else do {
       words \<leftarrow> vec_at (apu_wave_ram_banks a) (if apu_wave_bank_select a then 0 else 1);
       vec_at words index}}"

definition wave_ram_playing :: "nat \<Rightarrow> apu \<Rightarrow> u16 throws" where
  "wave_ram_playing index a = do {
     first \<leftarrow> vec_at (apu_wave_ram_banks a) 0;
     if index \<ge> length first then None
     else do {
       words \<leftarrow> vec_at (apu_wave_ram_banks a) (if apu_wave_bank_select a then 1 else 0);
       vec_at words index}}"

definition soundcnt_x :: "apu \<Rightarrow> u16 throws" where
  "soundcnt_x a = do {
     square0 \<leftarrow> vec_at (apu_squares a) 0;
     square1 \<leftarrow> vec_at (apu_squares a) 1;
     Some (apu_soundcnt_x_status a OR (if sq_enabled square0 then 0x0001 else 0)
           OR (if sq_enabled square1 then 0x0002 else 0) OR (if wv_enabled (apu_wave a) then 0x0004 else 0)
           OR (if ns_enabled (apu_noise a) then 0x0008 else 0))}"

section \<open>Direct Sound\<close>

definition push_fifo :: "direct_sound_channel \<Rightarrow> i8 \<Rightarrow> apu \<Rightarrow> apu throws" where
  "push_fifo channel sample a = do {
     r \<leftarrow> apu_fifo channel a;
     r' \<leftarrow> ring_push kFifoCapacity sample r;
     put_fifo channel r' a}"

definition write_fifo :: "direct_sound_channel \<Rightarrow> u32 \<Rightarrow> apu \<Rightarrow> apu throws" where
  "write_fifo channel v a =
     foldM (\<lambda>byte. push_fifo channel (ucast (drop_bit (byte * 8) v AND 0xFF))) [0..<4] a"

definition fifo_size :: "direct_sound_channel \<Rightarrow> apu \<Rightarrow> nat throws" where
  "fifo_size channel a = map_option rb_size (apu_fifo channel a)"

definition fifo_refill_needed :: "direct_sound_channel \<Rightarrow> apu \<Rightarrow> bool throws" where
  "fifo_refill_needed channel a = map_option (\<lambda>n. n \<le> kFifoRefillThreshold) (fifo_size channel a)"

definition no_sample :: direct_sound_sample where
  "no_sample = \<lparr>ds_produced = False, ds_sample = 0, ds_refill_request = False\<rparr>"

definition pop_fifo :: "direct_sound_channel \<Rightarrow> apu \<Rightarrow> (direct_sound_sample \<times> apu) throws" where
  "pop_fifo channel a = do {
     r \<leftarrow> apu_fifo channel a;
     popped \<leftarrow> ring_pop kFifoCapacity r;
     case popped of
       None \<Rightarrow> Some (\<lparr>ds_produced = False, ds_sample = 0, ds_refill_request = True\<rparr>, a)
     | Some (sample, r') \<Rightarrow> do {
         a' \<leftarrow> put_fifo channel r' a;
         refill \<leftarrow> fifo_refill_needed channel a';
         Some (\<lparr>ds_produced = True, ds_sample = sample, ds_refill_request = refill\<rparr>, a')}}"

definition direct_sound_enabled :: "direct_sound_channel \<Rightarrow> apu \<Rightarrow> bool" where
  "direct_sound_enabled channel a \<longleftrightarrow>
     apu_soundcnt_h a AND (if channel = Channel_a then 0x0300 else 0x3000) \<noteq> 0"

definition direct_sound_uses_timer :: "direct_sound_channel \<Rightarrow> u8 \<Rightarrow> apu \<Rightarrow> bool" where
  "direct_sound_uses_timer channel timer_index a =
     (if \<not> direct_sound_enabled channel a then False
      else
        (let selected_timer = (if channel = Channel_a then ucast (drop_bit 10 (apu_soundcnt_h a) AND 1)
                               else ucast (drop_bit 14 (apu_soundcnt_h a) AND 1))
         in timer_index \<le> 1 \<and> selected_timer = timer_index))"

definition clock_direct_sound ::
  "direct_sound_channel \<Rightarrow> u8 \<Rightarrow> apu \<Rightarrow> (direct_sound_sample \<times> apu) throws" where
  "clock_direct_sound channel timer_index a =
     (if direct_sound_uses_timer channel timer_index a then do {
        (result, a') \<leftarrow> pop_fifo channel a;
        latched \<leftarrow> vec_put (apu_latched a') (fifo_index channel) (if ds_produced result then ds_sample result else 0);
        Some (result, a'\<lparr>apu_latched := latched\<rparr>)}
      else Some (no_sample, a))"

definition timer_overflow :: "u8 \<Rightarrow> apu \<Rightarrow> (direct_sound_timer_result \<times> apu) throws" where
  "timer_overflow timer_index a =
     (if \<not> master_enabled a then Some (\<lparr>dt_fifo_a = no_sample, dt_fifo_b = no_sample\<rparr>, a)
      else do {
        (fifo_a, a1) \<leftarrow> clock_direct_sound Channel_a timer_index a;
        (fifo_b, a2) \<leftarrow> clock_direct_sound Channel_b timer_index a1;
        Some (\<lparr>dt_fifo_a = fifo_a, dt_fifo_b = fifo_b\<rparr>, a2)})"

section \<open>PSG channels\<close>

definition configure_square_channel :: "u8 \<Rightarrow> u8 \<Rightarrow> u8 \<Rightarrow> u16 \<Rightarrow> apu \<Rightarrow> apu throws" where
  "configure_square_channel channel duty volume period a =
     (if \<not> master_enabled a \<or> unat channel \<ge> length (apu_squares a) then Some a
      else map_option (\<lambda>squares. a\<lparr>apu_squares := squares\<rparr>)
        (vec_put (apu_squares a) (unat channel)
          \<lparr>sq_enabled = True, sq_duty = duty AND 3, sq_volume = min volume 15, sq_period_samples = max 1 period,
           sq_phase = 0\<rparr>))"

definition configure_wave_channel :: "u8 \<Rightarrow> u16 \<Rightarrow> apu \<Rightarrow> apu" where
  "configure_wave_channel volume_shift period a =
     (if \<not> master_enabled a then a
      else a\<lparr>apu_wave := \<lparr>wv_enabled = True, wv_volume_shift = min volume_shift 4, wv_period_samples = max 1 period,
                            wv_phase = 0\<rparr>\<rparr>)"

definition configure_noise_channel :: "u8 \<Rightarrow> u16 \<Rightarrow> bool \<Rightarrow> apu \<Rightarrow> apu" where
  "configure_noise_channel volume period narrow_lfsr a =
     (if \<not> master_enabled a then a
      else a\<lparr>apu_noise := \<lparr>ns_enabled = True, ns_volume = min volume 15, ns_period_samples = max 1 period,
                             ns_phase = 0, ns_lfsr = 0x7FFF, ns_narrow_lfsr = narrow_lfsr\<rparr>\<rparr>)"

definition disable_psg_channel :: "u8 \<Rightarrow> apu \<Rightarrow> apu throws" where
  "disable_psg_channel channel a =
     (if unat channel < length (apu_squares a) then do {
        square \<leftarrow> vec_at (apu_squares a) (unat channel);
        squares \<leftarrow> vec_put (apu_squares a) (unat channel) (square\<lparr>sq_enabled := False\<rparr>);
        Some (a\<lparr>apu_squares := squares\<rparr>)}
      else if channel = 2 then Some (a\<lparr>apu_wave := (apu_wave a)\<lparr>wv_enabled := False\<rparr>\<rparr>)
      else if channel = 3 then Some (a\<lparr>apu_noise := (apu_noise a)\<lparr>ns_enabled := False\<rparr>\<rparr>)
      else Some a)"

definition psg_channel_enabled :: "u8 \<Rightarrow> apu \<Rightarrow> bool throws" where
  "psg_channel_enabled channel a =
     (if unat channel < length (apu_squares a) then map_option sq_enabled (vec_at (apu_squares a) (unat channel))
      else if channel = 2 then Some (wv_enabled (apu_wave a))
      else if channel = 3 then Some (ns_enabled (apu_noise a))
      else Some False)"

text \<open>Unsigned division, undefined for a zero divisor.\<close>

definition checked_div :: "u32 \<Rightarrow> u32 \<Rightarrow> u32 throws" where
  "checked_div n d = (if d = 0 then None else Some (n div d))"

definition checked_mod :: "u32 \<Rightarrow> u32 \<Rightarrow> u32 throws" where
  "checked_mod n d = (if d = 0 then None else Some (n mod d))"

definition square_output :: "square_channel \<Rightarrow> int throws" where
  "square_output square =
     (if \<not> sq_enabled square \<or> sq_volume square = 0 then Some 0
      else do {
        quotient \<leftarrow> checked_div (ucast (sq_phase square) * 8) (ucast (sq_period_samples square));
        high_samples \<leftarrow> vec_at kSquareDutyHighSamples (unat (sq_duty square));
        let duty_step = (ucast quotient :: u8)
        in Some ((if duty_step < high_samples then 1 else - 1) * int (unat (sq_volume square)) * kPsgScale)})"

definition wave_output :: "apu \<Rightarrow> int throws" where
  "wave_output a =
     (let wave = apu_wave a in
      if \<not> wv_enabled wave \<or> wv_volume_shift wave = 0 then Some 0
      else do {
        quotient \<leftarrow> checked_div (ucast (wv_phase wave) * 32) (ucast (wv_period_samples wave));
        playing_bank \<leftarrow> vec_at (apu_wave_ram_banks a) (if apu_wave_bank_select a then 1 else 0);
        let sample_index = (ucast quotient :: u8);
            nibble_shift = (3 - unat sample_index mod 4) * 4
        in do {
          packed \<leftarrow> vec_at playing_bank (unat sample_index div 4);
          let sample = int (unat (drop_bit nibble_shift packed AND 0x0F)) - 8;
              shift = unat (wv_volume_shift wave) - 1
          in if shift \<ge> 32 then None else Some ((sample * kPsgScale) div 2 ^ shift)}})"

definition noise_output :: "noise_channel \<Rightarrow> int" where
  "noise_output noise =
     (if \<not> ns_enabled noise \<or> ns_volume noise = 0 then 0
      else (if ns_lfsr noise AND 1 = 0 then 1 else - 1) * int (unat (ns_volume noise)) * kPsgScale)"

definition psg_channel_outputs :: "apu \<Rightarrow> int list throws" where
  "psg_channel_outputs a = do {
     squares \<leftarrow> foldM (\<lambda>square outs. map_option (\<lambda>out. outs @ [out]) (square_output square)) (apu_squares a) [];
     wave \<leftarrow> wave_output a;
     Some (squares @ [wave, noise_output (apu_noise a)])}"

section \<open>Mixer\<close>

text \<open>The two sums \<open>left\<close> and \<open>right\<close> before clamping.\<close>

definition mix_psg :: "u16 \<Rightarrow> int list \<Rightarrow> int \<times> int" where
  "mix_psg soundcnt_l outputs =
     (let nr50 = soundcnt_l AND 0x00FF;
          nr51 = drop_bit 8 soundcnt_l AND 0x00FF;
          left_volume = int (unat (drop_bit 4 nr50 AND 7)) + 1;
          right_volume = int (unat (nr50 AND 7)) + 1
      in fold (\<lambda>index (left, right).
            (if nr51 AND push_bit (index + 4) 1 \<noteq> 0 then left + outputs ! index * left_volume else left,
             if nr51 AND push_bit index 1 \<noteq> 0 then right + outputs ! index * right_volume else right))
          [0..<length outputs] (0, 0))"

definition mix_direct_channel :: "direct_sound_channel \<Rightarrow> apu \<Rightarrow> int \<times> int \<Rightarrow> (int \<times> int) throws" where
  "mix_direct_channel channel a sums =
     (if \<not> direct_sound_enabled channel a then Some sums
      else do {
        sample \<leftarrow> vec_at (apu_latched a) (fifo_index channel);
        let is_a = (channel = Channel_a);
            full_volume = (apu_soundcnt_h a AND (if is_a then 0x0004 else 0x0008) \<noteq> 0);
            scaled = sint sample * kDirectSoundHalfScale * (if full_volume then 2 else 1);
            route_right = (apu_soundcnt_h a AND (if is_a then 0x0100 else 0x1000) \<noteq> 0);
            route_left = (apu_soundcnt_h a AND (if is_a then 0x0200 else 0x2000) \<noteq> 0)
        in Some (if route_left then fst sums + scaled else fst sums,
                 if route_right then snd sums + scaled else snd sums)})"

definition mix_sums :: "apu \<Rightarrow> (int \<times> int) throws" where
  "mix_sums a = do {
     psg_outputs \<leftarrow> psg_channel_outputs a;
     sums \<leftarrow> mix_direct_channel Channel_a a (mix_psg (apu_soundcnt_l a) psg_outputs);
     mix_direct_channel Channel_b a sums}"

definition mix_sample :: "apu \<Rightarrow> apu_mixed_sample throws" where
  "mix_sample a = map_option (\<lambda>(left, right). \<lparr>ms_left = clamp_mixed_sample left, ms_right = clamp_mixed_sample right\<rparr>)
     (mix_sums a)"

definition push_audio_sample :: "apu_mixed_sample \<Rightarrow> apu \<Rightarrow> apu throws" where
  "push_audio_sample sample a =
     map_option (\<lambda>r. a\<lparr>apu_audio_buffer := r\<rparr>) (ring_push kAudioBufferCapacity sample (apu_audio_buffer a))"

definition pop_audio_sample :: "apu \<Rightarrow> (apu_mixed_sample option \<times> apu) throws" where
  "pop_audio_sample a = do {
     popped \<leftarrow> ring_pop kAudioBufferCapacity (apu_audio_buffer a);
     Some (case popped of None \<Rightarrow> (None, a) | Some (sample, r) \<Rightarrow> (Some sample, a\<lparr>apu_audio_buffer := r\<rparr>))}"

definition advance_square :: "square_channel \<Rightarrow> square_channel throws" where
  "advance_square square =
     (if \<not> sq_enabled square then Some square
      else map_option (\<lambda>phase. square\<lparr>sq_phase := ucast phase\<rparr>)
        (checked_mod (ucast (sq_phase square) + 1) (ucast (sq_period_samples square))))"

definition advance_wave :: "wave_channel \<Rightarrow> wave_channel throws" where
  "advance_wave wave =
     (if \<not> wv_enabled wave then Some wave
      else map_option (\<lambda>phase. wave\<lparr>wv_phase := ucast phase\<rparr>)
        (checked_mod (ucast (wv_phase wave) + 1) (ucast (wv_period_samples wave))))"

definition next_lfsr :: "bool \<Rightarrow> u16 \<Rightarrow> u16" where
  "next_lfsr narrow lfsr =
     (let new_bit = (lfsr XOR drop_bit 1 lfsr) AND 1;
          wide = drop_bit 1 lfsr OR push_bit 14 new_bit
      in if narrow then (wide AND NOT (push_bit 6 1)) OR push_bit 6 new_bit else wide)"

definition advance_noise :: "noise_channel \<Rightarrow> noise_channel throws" where
  "advance_noise noise =
     (if \<not> ns_enabled noise then Some noise
      else do {
        phase \<leftarrow> checked_mod (ucast (ns_phase noise) + 1) (ucast (ns_period_samples noise));
        let noise' = noise\<lparr>ns_phase := ucast phase\<rparr>
        in Some (if ns_phase noise' = 0 then noise'\<lparr>ns_lfsr := next_lfsr (ns_narrow_lfsr noise) (ns_lfsr noise)\<rparr>
                 else noise')})"

definition advance_psg_generators :: "apu \<Rightarrow> apu throws" where
  "advance_psg_generators a = do {
     squares \<leftarrow> foldM (\<lambda>square done. map_option (\<lambda>s. done @ [s]) (advance_square square)) (apu_squares a) [];
     wave \<leftarrow> advance_wave (apu_wave a);
     noise \<leftarrow> advance_noise (apu_noise a);
     Some (a\<lparr>apu_squares := squares, apu_wave := wave, apu_noise := noise\<rparr>)}"

definition generate_audio_sample :: "apu \<Rightarrow> apu throws" where
  "generate_audio_sample a = do {
     mixed \<leftarrow> mix_sample a;
     a' \<leftarrow> push_audio_sample mixed (a\<lparr>apu_last_mixed_sample := mixed\<rparr>);
     advance_psg_generators (a'\<lparr>apu_audio_sample_count := apu_audio_sample_count a' + 1\<rparr>)}"

section \<open>The clock\<close>

lemma push_audio_sample_frame:
  "push_audio_sample m a = Some a' \<Longrightarrow> \<exists>r. ring_push kAudioBufferCapacity m (apu_audio_buffer a) = Some r
     \<and> a' = a\<lparr>apu_audio_buffer := r\<rparr>"
  by (auto simp: push_audio_sample_def)

lemma generate_audio_sample_frame:
  assumes "generate_audio_sample a = Some a'"
  shows "apu_audio_cycle_remainder a' = apu_audio_cycle_remainder a"
    "apu_frame_cycle_remainder a' = apu_frame_cycle_remainder a" "apu_frame_step a' = apu_frame_step a"
    "apu_frame_step_count a' = apu_frame_step_count a" "apu_audio_sample_count a' = apu_audio_sample_count a + 1"
    "apu_soundcnt_x_status a' = apu_soundcnt_x_status a"
  using assms
  by (auto simp: generate_audio_sample_def advance_psg_generators_def bind_eq_Some_conv dest!: push_audio_sample_frame)

text \<open>The two \<open>while\<close> loops of \<open>Apu::tick\<close>.\<close>

definition advance_frame_sequencer :: "apu \<Rightarrow> apu" where
  "advance_frame_sequencer a =
     a\<lparr>apu_frame_cycle_remainder := apu_frame_cycle_remainder a - kCpuCyclesPerFrameSequencerStep,
       apu_frame_step := (apu_frame_step a + 1) mod kFrameSequencerSteps,
       apu_frame_step_count := apu_frame_step_count a + 1\<rparr>"

definition frame_step_of :: "u8 \<Rightarrow> apu_frame_step" where
  "frame_step_of step = \<lparr>fs_step = step, fs_length_clock = frame_length_clock step, fs_sweep_clock = frame_sweep_clock step,
     fs_envelope_clock = frame_envelope_clock step\<rparr>"

function apu_frame_loop :: "apu \<Rightarrow> apu_frame_step option \<Rightarrow> apu \<times> apu_frame_step option" where
  "apu_frame_loop a last_step =
     (if apu_frame_cycle_remainder a \<ge> kCpuCyclesPerFrameSequencerStep then
        (let a' = advance_frame_sequencer a in apu_frame_loop a' (Some (frame_step_of (apu_frame_step a'))))
      else (a, last_step))"
  by pat_completeness auto
termination
  by (relation "measure (\<lambda>(a, _). unat (apu_frame_cycle_remainder a))")
    (auto simp: advance_frame_sequencer_def kCpuCyclesPerFrameSequencerStep_def unat_sub word_le_nat_alt)

function apu_audio_loop :: "apu \<Rightarrow> apu throws" where
  "apu_audio_loop a =
     (if apu_audio_cycle_remainder a \<ge> kCpuCyclesPerAudioSample then do {
        a' \<leftarrow> generate_audio_sample (a\<lparr>apu_audio_cycle_remainder := apu_audio_cycle_remainder a - kCpuCyclesPerAudioSample\<rparr>);
        apu_audio_loop a'}
      else Some a)"
  by pat_completeness auto
termination
  by (relation "measure (\<lambda>a. unat (apu_audio_cycle_remainder a))")
    (auto simp: generate_audio_sample_frame kCpuCyclesPerAudioSample_def unat_sub word_le_nat_alt)

declare apu_frame_loop.simps [simp del] apu_audio_loop.simps [simp del]

definition apu_tick :: "u32 \<Rightarrow> apu \<Rightarrow> (apu_frame_step option \<times> apu) throws" where
  "apu_tick cpu_cycles a =
     (if \<not> master_enabled a then Some (None, a)
      else
        (let a0 = a\<lparr>apu_frame_cycle_remainder := apu_frame_cycle_remainder a + cpu_cycles,
                    apu_audio_cycle_remainder := apu_audio_cycle_remainder a + cpu_cycles\<rparr>;
             (a1, last_step) = apu_frame_loop a0 None
         in do {
           a2 \<leftarrow> apu_audio_loop a1;
           Some (last_step, a2)}))"

section \<open>Save states and fingerprint\<close>

record apu_state =
  as_soundcnt_l :: u16
  as_soundcnt_h :: u16
  as_soundcnt_x_status :: u16
  as_soundbias :: u16
  as_wave_ram_banks :: "u16 list list"
  as_wave_bank_select :: bool
  as_fifos :: "i8 ring list"
  as_direct_sound_latched_samples :: "i8 list"
  as_square_channels :: "square_channel list"
  as_wave_channel :: wave_channel
  as_noise_channel :: noise_channel
  as_audio_buffer_samples :: "apu_mixed_sample list"
  as_audio_buffer_head :: nat
  as_audio_buffer_size :: nat
  as_frame_step_count :: u64
  as_audio_sample_count :: u64
  as_frame_cycle_remainder :: u32
  as_audio_cycle_remainder :: u32
  as_frame_step :: u8
  as_last_mixed_sample :: apu_mixed_sample

definition apu_save_state :: "apu \<Rightarrow> apu_state" where
  "apu_save_state a =
     \<lparr>as_soundcnt_l = apu_soundcnt_l a, as_soundcnt_h = apu_soundcnt_h a,
      as_soundcnt_x_status = apu_soundcnt_x_status a, as_soundbias = apu_soundbias a,
      as_wave_ram_banks = apu_wave_ram_banks a, as_wave_bank_select = apu_wave_bank_select a,
      as_fifos = apu_fifos a, as_direct_sound_latched_samples = apu_latched a,
      as_square_channels = apu_squares a, as_wave_channel = apu_wave a, as_noise_channel = apu_noise a,
      as_audio_buffer_samples = rb_samples (apu_audio_buffer a), as_audio_buffer_head = rb_head (apu_audio_buffer a),
      as_audio_buffer_size = rb_size (apu_audio_buffer a), as_frame_step_count = apu_frame_step_count a,
      as_audio_sample_count = apu_audio_sample_count a, as_frame_cycle_remainder = apu_frame_cycle_remainder a,
      as_audio_cycle_remainder = apu_audio_cycle_remainder a, as_frame_step = apu_frame_step a,
      as_last_mixed_sample = apu_last_mixed_sample a\<rparr>"

definition apu_load_state :: "apu_state \<Rightarrow> apu \<Rightarrow> bool \<times> apu" where
  "apu_load_state st a =
     (if list_ex (\<lambda>f. rb_head f \<ge> kFifoCapacity \<or> rb_size f > kFifoCapacity \<or> rb_size f > length (rb_samples f)) (as_fifos st)
      then (False, a)
      else if as_audio_buffer_head st \<ge> kAudioBufferCapacity \<or> as_audio_buffer_size st > kAudioBufferCapacity then (False, a)
      else (True,
        \<lparr>apu_soundcnt_l = as_soundcnt_l st, apu_soundcnt_h = as_soundcnt_h st,
         apu_soundcnt_x_status = as_soundcnt_x_status st, apu_soundbias = as_soundbias st,
         apu_wave_ram_banks = as_wave_ram_banks st, apu_wave_bank_select = as_wave_bank_select st,
         apu_fifos = as_fifos st, apu_latched = as_direct_sound_latched_samples st,
         apu_squares = as_square_channels st, apu_wave = as_wave_channel st, apu_noise = as_noise_channel st,
         apu_audio_buffer = \<lparr>rb_samples = as_audio_buffer_samples st, rb_head = as_audio_buffer_head st,
                             rb_size = as_audio_buffer_size st\<rparr>,
         apu_frame_step_count = as_frame_step_count st, apu_audio_sample_count = as_audio_sample_count st,
         apu_frame_cycle_remainder = as_frame_cycle_remainder st,
         apu_audio_cycle_remainder = as_audio_cycle_remainder st, apu_frame_step = as_frame_step st,
         apu_last_mixed_sample = as_last_mixed_sample st\<rparr>))"

definition hash_wave_bank :: "bool \<Rightarrow> u16 list \<Rightarrow> u64 \<Rightarrow> u64" where
  "hash_wave_bank legacy_wave_words bank h =
     (if legacy_wave_words then add_bytes (map ucast bank) h
      else fold add_u16 bank (add_u64 (of_nat (length bank)) h))"

definition hash_fifo :: "i8 ring \<Rightarrow> u64 \<Rightarrow> u64" where
  "hash_fifo f h = add_u64 (of_nat (rb_size f)) (add_u64 (of_nat (rb_head f)) (add_bytes (rb_samples f) h))"

definition hash_square :: "square_channel \<Rightarrow> u64 \<Rightarrow> u64" where
  "hash_square s h =
     add_u16 (sq_phase s) (add_u16 (sq_period_samples s) (add_u8 (sq_volume s) (add_u8 (sq_duty s) (add_bool (sq_enabled s) h))))"

definition hash_wave :: "wave_channel \<Rightarrow> u64 \<Rightarrow> u64" where
  "hash_wave w h =
     add_u16 (wv_phase w) (add_u16 (wv_period_samples w) (add_u8 (wv_volume_shift w) (add_bool (wv_enabled w) h)))"

definition hash_noise :: "noise_channel \<Rightarrow> u64 \<Rightarrow> u64" where
  "hash_noise n h =
     add_bool (ns_narrow_lfsr n) (add_u16 (ns_lfsr n) (add_u16 (ns_phase n) (add_u16 (ns_period_samples n)
       (add_u8 (ns_volume n) (add_bool (ns_enabled n) h)))))"

definition hash_mixed :: "apu_mixed_sample \<Rightarrow> u64 \<Rightarrow> u64" where
  "hash_mixed m h = add_u16 (ms_right m) (add_u16 (ms_left m) h)"

definition apu_state_hash_impl :: "bool \<Rightarrow> apu \<Rightarrow> u64" where
  "apu_state_hash_impl legacy_wave_words a =
     (let h1 = add_u16 (apu_soundbias a) (add_u16 (apu_soundcnt_x_status a) (add_u16 (apu_soundcnt_h a)
                 (add_u16 (apu_soundcnt_l a) kOffsetBasis)));
          h2 = add_bool (apu_wave_bank_select a) (fold (hash_wave_bank legacy_wave_words) (apu_wave_ram_banks a) h1);
          h3 = fold add_u8 (apu_latched a) (fold hash_fifo (apu_fifos a) h2);
          h4 = hash_noise (apu_noise a) (hash_wave (apu_wave a) (fold hash_square (apu_squares a) h3));
          h5 = fold hash_mixed (rb_samples (apu_audio_buffer a)) h4;
          h6 = add_u64 (of_nat (rb_size (apu_audio_buffer a))) (add_u64 (of_nat (rb_head (apu_audio_buffer a))) h5);
          h7 = add_u64 (apu_audio_sample_count a) (add_u64 (apu_frame_step_count a) h6);
          h8 = add_u32 (apu_audio_cycle_remainder a) (add_u32 (apu_frame_cycle_remainder a) h7)
      in hash_mixed (apu_last_mixed_sample a) (add_u8 (apu_frame_step a) h8))"

definition apu_state_hash :: "apu \<Rightarrow> u64" where
  "apu_state_hash a = apu_state_hash_impl False a"

definition legacy_wave_state_hash :: "apu \<Rightarrow> u64" where
  "legacy_wave_state_hash a = apu_state_hash_impl True a"

end
