(* ===== verification/Apu_Correct.thy ===== *)
theory Apu_Correct
  imports Apu
begin

text \<open>
  Correctness of the audio unit: its invariant, which rules out every exception and every division by zero; the bounds of the mixer; the
  Direct Sound FIFOs and the output buffer as bounded queues; the clock in closed form; save states.
\<close>

section \<open>Invariant\<close>

definition square_wf :: "square_channel \<Rightarrow> bool" where
  "square_wf s \<longleftrightarrow> sq_phase s < sq_period_samples s \<and> sq_duty s < 4 \<and> sq_volume s \<le> 15"

definition wave_wf :: "wave_channel \<Rightarrow> bool" where
  "wave_wf w \<longleftrightarrow> wv_phase w < wv_period_samples w \<and> wv_volume_shift w \<le> 4"

definition noise_wf :: "noise_channel \<Rightarrow> bool" where
  "noise_wf n \<longleftrightarrow> ns_phase n < ns_period_samples n \<and> ns_volume n \<le> 15 \<and> ns_lfsr n \<noteq> 0 \<and> \<not> bit (ns_lfsr n) 15
     \<and> (ns_narrow_lfsr n \<longrightarrow> take_bit 7 (ns_lfsr n) \<noteq> 0)"

definition apu_wf :: "apu \<Rightarrow> bool" where
  "apu_wf a \<longleftrightarrow> length (apu_wave_ram_banks a) = 2 \<and> list_all (\<lambda>bank. length bank = 8) (apu_wave_ram_banks a)
     \<and> length (apu_fifos a) = 2 \<and> list_all (ring_wf kFifoCapacity) (apu_fifos a) \<and> length (apu_latched a) = 2
     \<and> length (apu_squares a) = 2 \<and> list_all square_wf (apu_squares a) \<and> wave_wf (apu_wave a) \<and> noise_wf (apu_noise a)
     \<and> ring_wf kAudioBufferCapacity (apu_audio_buffer a) \<and> apu_frame_step a < 8"

lemma silent_wf [simp]: "square_wf silent_square" "wave_wf silent_wave" "noise_wf silent_noise"
  by (simp_all add: square_wf_def wave_wf_def noise_wf_def silent_square_def silent_wave_def silent_noise_def)

lemma capacity_pos [simp]: "0 < kFifoCapacity" "0 < kAudioBufferCapacity"
  by (simp_all add: apu_const_defs)

lemma two_elements: "length xs = 2 \<Longrightarrow> xs = [xs ! 0, xs ! 1]"
  by (rule nth_equalityI) (auto simp: less_2_cases_iff)

lemma apu_wf_reset [wf_intros]: "apu_wf apu_reset"
  by (simp add: apu_wf_def apu_reset_def ring_wf_clear list_all_iff vec_fill_def kWaveRamBanks_def kWaveRamHalfwords_def)

lemma apu_wf_control_registers [simp]: "apu_wf (a\<lparr>apu_soundcnt_x_status := x, apu_soundcnt_h := h\<rparr>) = apu_wf a"
  by (simp add: apu_wf_def)

lemma fifo_index_less [simp]: "fifo_index c < 2"
  by (cases c) simp_all

lemma apu_fifo_wf: "apu_wf a \<Longrightarrow> \<exists>r. apu_fifo c a = Some r \<and> r = apu_fifos a ! fifo_index c \<and> ring_wf kFifoCapacity r"
  by (auto simp: apu_fifo_def apu_wf_def list_all_length)

lemma put_fifo_wf:
  assumes "apu_wf a" and "ring_wf kFifoCapacity r"
  shows "put_fifo c r a = Some (a\<lparr>apu_fifos := (apu_fifos a)[fifo_index c := r]\<rparr>)"
    "apu_wf (a\<lparr>apu_fifos := (apu_fifos a)[fifo_index c := r]\<rparr>)"
  using assms by (auto simp: put_fifo_def apu_wf_def list_all_length nth_list_update)

lemma clear_fifo_wf:
  "apu_wf a \<Longrightarrow> clear_fifo c a = Some (a\<lparr>apu_fifos := (apu_fifos a)[fifo_index c := ring_clear kFifoCapacity 0]\<rparr>)"
  "apu_wf a \<Longrightarrow> apu_wf (a\<lparr>apu_fifos := (apu_fifos a)[fifo_index c := ring_clear kFifoCapacity 0]\<rparr>)"
  by (simp_all add: clear_fifo_def put_fifo_wf ring_wf_clear)

section \<open>Channels\<close>

lemma checked_div_less:
  fixes phase period :: u16
  assumes "phase < period" and "0 < k" "k \<le> 32"
  shows "\<exists>q. checked_div (ucast phase * of_nat k) (ucast period) = Some q \<and> unat q < k"
proof -
  have p: "unat phase < unat period"
    using assms(1) by (simp add: word_less_nat_alt)
  have "unat phase * k \<le> 65535 * 32"
    using unat_u16_less [of phase] assms(3) by (intro mult_le_mono) (simp_all del: unat_u16_less)
  then have "unat ((ucast phase :: u32) * of_nat k) = unat phase * k"
    using assms(3) by (simp add: unat_word_ariths unat_of_nat)
  then have q: "unat ((ucast phase * of_nat k) div (ucast period :: u32)) = unat phase * k div unat period"
    by (simp add: unat_div)
  moreover have "unat phase * k div unat period < k"
    using p assms(2) by (simp add: less_mult_imp_div_less mult.commute)
  moreover have "(ucast period :: u32) \<noteq> 0"
    using p by (auto simp: word_unat_eq_iff)
  ultimately show ?thesis
    by (simp add: checked_div_def)
qed

lemma square_output_bound:
  assumes "square_wf s"
  shows "\<exists>v. square_output s = Some v \<and> \<bar>v\<bar> \<le> 1920"
proof -
  obtain q where q: "checked_div (ucast (sq_phase s) * 8) (ucast (sq_period_samples s)) = Some q"
    using checked_div_less [of "sq_phase s" "sq_period_samples s" 8] assms by (auto simp: square_wf_def)
  have d: "unat (sq_duty s) < 4" and v: "uint (sq_volume s) \<le> 15"
    using assms by (simp_all add: square_wf_def word_less_nat_alt word_le_def)
  obtain h where h: "vec_at kSquareDutyHighSamples (unat (sq_duty s)) = Some h"
    using d by (simp add: kSquareDutyHighSamples_def)
  show ?thesis
    using v by (auto simp: square_output_def q h Let_def kPsgScale_def)
qed

lemma wave_output_bound:
  assumes "apu_wf a"
  shows "\<exists>v. wave_output a = Some v \<and> \<bar>v\<bar> \<le> 1024"
proof -
  let ?w = "apu_wave a"
  have wf: "wv_phase ?w < wv_period_samples ?w" "unat (wv_volume_shift ?w) \<le> 4"
    using assms by (simp_all add: apu_wf_def wave_wf_def word_le_nat_alt)
  obtain q where q: "checked_div (ucast (wv_phase ?w) * 32) (ucast (wv_period_samples ?w)) = Some q" "unat q < 32"
    using checked_div_less [OF wf(1), of 32] by auto
  let ?i = "unat (ucast q :: u8)"
  have i: "?i < 32"
    using q(2) by (simp add: unat_ucast_narrow)
  define bank where "bank = apu_wave_ram_banks a ! (if apu_wave_bank_select a then 1 else 0)"
  have bank: "vec_at (apu_wave_ram_banks a) (if apu_wave_bank_select a then 1 else 0) = Some bank" "length bank = 8"
    using assms by (simp_all add: apu_wf_def bank_def list_all_length)
  define sample where "sample = int (unat (drop_bit ((3 - ?i mod 4) * 4) (bank ! (?i div 4)) AND 0x0F)) - 8"
  have nibble: "unat (x AND 0x0F) < 16" for x :: u16
    by (simp add: word_nat)
  have s: "\<bar>sample\<bar> \<le> 8"
    using nibble [of "drop_bit ((3 - ?i mod 4) * 4) (bank ! (?i div 4))"] unfolding sample_def by linarith
  define sh where "sh = unat (wv_volume_shift ?w) - 1"
  have sh32: "unat (wv_volume_shift ?w) - Suc 0 < 32"
    using wf(2) by linarith
  have "\<bar>(sample * 128) div 2 ^ sh\<bar> \<le> 1024"
  proof -
    have "- 1024 \<le> sample * 128" "sample * 128 \<le> 1024"
      using s by simp_all
    then have "- 1024 div 2 ^ sh \<le> (sample * 128) div 2 ^ sh" "(sample * 128) div 2 ^ sh \<le> 1024 div 2 ^ sh"
      by (simp_all add: zdiv_mono1)
    moreover have "- 1024 \<le> - 1024 div (2 :: int) ^ sh" "1024 div (2 :: int) ^ sh \<le> 1024"
      using zdiv_mono2_neg [of "- 1024" 1 "2 ^ sh"] zdiv_mono2 [of 1024 1 "2 ^ sh"] by simp_all
    ultimately show ?thesis
      by linarith
  qed
  moreover have "wave_output a = Some (if \<not> wv_enabled ?w \<or> wv_volume_shift ?w = 0 then 0 else (sample * 128) div 2 ^ sh)"
    using q(1) bank i sh32 by (simp add: wave_output_def Let_def sample_def sh_def kPsgScale_def)
  ultimately show ?thesis
    by simp
qed

lemma noise_output_bound: "noise_wf n \<Longrightarrow> \<bar>noise_output n\<bar> \<le> 1920"
  by (auto simp: noise_output_def noise_wf_def word_le_def kPsgScale_def)

lemma apu_wf_squares: "apu_wf a \<Longrightarrow> \<exists>s0 s1. apu_squares a = [s0, s1] \<and> square_wf s0 \<and> square_wf s1"
  by (auto simp: apu_wf_def length_Suc_conv numeral_2_eq_2)

lemma psg_outputs_bound:
  assumes "apu_wf a"
  shows "\<exists>o0 o1 o2 o3. psg_channel_outputs a = Some [o0, o1, o2, o3] \<and> \<bar>o0\<bar> \<le> 1920 \<and> \<bar>o1\<bar> \<le> 1920 \<and> \<bar>o2\<bar> \<le> 1920 \<and> \<bar>o3\<bar> \<le> 1920"
proof -
  obtain s0 s1 where s: "apu_squares a = [s0, s1]" "square_wf s0" "square_wf s1"
    using apu_wf_squares [OF assms] by blast
  obtain o0 o1 o2 where "square_output s0 = Some o0" "square_output s1 = Some o1" "wave_output a = Some o2"
    "\<bar>o0\<bar> \<le> 1920" "\<bar>o1\<bar> \<le> 1920" "\<bar>o2\<bar> \<le> 1024"
    using square_output_bound s wave_output_bound [OF assms] by metis
  then show ?thesis
    using noise_output_bound [of "apu_noise a"] assms by (simp add: psg_channel_outputs_def s apu_wf_def)
qed

section \<open>Mixer\<close>

lemma mix_fold_bound:
  fixes lv rv :: int
  assumes "\<bar>o0\<bar> \<le> 1920" "\<bar>o1\<bar> \<le> 1920" "\<bar>o2\<bar> \<le> 1920" "\<bar>o3\<bar> \<le> 1920"
    and v: "1 \<le> lv" "lv \<le> 8" "1 \<le> rv" "rv \<le> 8"
  shows "\<bar>fst (fold (\<lambda>i (l, r). (if cl i then l + [o0, o1, o2, o3] ! i * lv else l,
      if cr i then r + [o0, o1, o2, o3] ! i * rv else r)) [0, 1, 2, 3] (0, 0))\<bar> \<le> 61440 \<and>
    \<bar>snd (fold (\<lambda>i (l, r). (if cl i then l + [o0, o1, o2, o3] ! i * lv else l,
      if cr i then r + [o0, o1, o2, o3] ! i * rv else r)) [0, 1, 2, 3] (0, 0))\<bar> \<le> 61440"
proof -
  have term_bound: "\<bar>x * y\<bar> \<le> 15360" if "\<bar>x\<bar> \<le> 1920" "1 \<le> y" "y \<le> 8" for x y :: int
  proof -
    have "\<bar>x * y\<bar> = \<bar>x\<bar> * y"
      using that by (simp add: abs_mult)
    also have "\<dots> \<le> 1920 * 8"
      using that by (intro mult_mono) simp_all
    finally show ?thesis
      by simp
  qed
  show ?thesis
    using term_bound [OF assms(1) v(1,2)] term_bound [OF assms(2) v(1,2)] term_bound [OF assms(3) v(1,2)]
      term_bound [OF assms(4) v(1,2)] term_bound [OF assms(1) v(3,4)] term_bound [OF assms(2) v(3,4)]
      term_bound [OF assms(3) v(3,4)] term_bound [OF assms(4) v(3,4)]
    by (simp add: abs_le_iff)
qed

lemma mix_psg_bound:
  fixes l :: u16
  assumes "\<bar>o0\<bar> \<le> 1920" "\<bar>o1\<bar> \<le> 1920" "\<bar>o2\<bar> \<le> 1920" "\<bar>o3\<bar> \<le> 1920"
  shows "\<bar>fst (mix_psg l [o0, o1, o2, o3])\<bar> \<le> 61440 \<and> \<bar>snd (mix_psg l [o0, o1, o2, o3])\<bar> \<le> 61440"
proof -
  have vol: "1 \<le> int (unat (v AND 7)) + 1" "int (unat (v AND 7)) + 1 \<le> 8" for v :: u16
  proof -
    have "unat (v AND 7) \<le> 7"
      by (simp add: word_nat)
    then show "1 \<le> int (unat (v AND 7)) + 1" "int (unat (v AND 7)) + 1 \<le> 8"
      by linarith+
  qed
  have idx: "[0..<length [o0, o1, o2, o3]] = [0, 1, 2, 3]"
    by (simp add: upt_rec)
  show ?thesis
    unfolding mix_psg_def Let_def idx by (intro mix_fold_bound assms vol)
qed

lemma mix_direct_bound:
  assumes "apu_wf a" and "\<bar>fst s\<bar> \<le> m" "\<bar>snd s\<bar> \<le> m"
  shows "\<exists>s'. mix_direct_channel c a s = Some s' \<and> \<bar>fst s'\<bar> \<le> m + 32768 \<and> \<bar>snd s'\<bar> \<le> m + 32768"
proof -
  obtain x where x: "vec_at (apu_latched a) (fifo_index c) = Some x"
    using assms(1) by (simp add: apu_wf_def)
  have "- 128 \<le> sint x" "sint x < 128"
    using sint_ge [of x] sint_lt [of x] by simp_all
  then have z: "\<bar>sint x * kDirectSoundHalfScale * (if full then 2 else 1)\<bar> \<le> 32768" for full
    by (simp add: kDirectSoundHalfScale_def abs_le_iff)
  have add: "\<bar>if route then y + w else y\<bar> \<le> m + 32768" if "\<bar>y\<bar> \<le> m" "\<bar>w\<bar> \<le> 32768" for route y w
    using that by (auto simp: abs_le_iff)
  show ?thesis
  proof (cases "direct_sound_enabled c a")
    case True
    show ?thesis
      unfolding mix_direct_channel_def x Let_def Option.bind_lunit if_not_P [OF not_not [THEN iffD2, OF True]]
      by (rule exI, rule conjI [OF refl], unfold fst_conv snd_conv) (intro conjI add assms z)
  qed (use assms in \<open>simp add: mix_direct_channel_def\<close>)
qed

lemma mix_sums_bound:
  assumes "apu_wf a"
  shows "\<exists>l r. mix_sums a = Some (l, r) \<and> \<bar>l\<bar> \<le> 126976 \<and> \<bar>r\<bar> \<le> 126976"
proof -
  obtain o0 o1 o2 o3 where o: "psg_channel_outputs a = Some [o0, o1, o2, o3]"
    "\<bar>o0\<bar> \<le> 1920" "\<bar>o1\<bar> \<le> 1920" "\<bar>o2\<bar> \<le> 1920" "\<bar>o3\<bar> \<le> 1920"
    using psg_outputs_bound [OF assms] by blast
  note p = mix_psg_bound [OF o(2-5), of "apu_soundcnt_l a"]
  obtain s1 where s1: "mix_direct_channel Channel_a a (mix_psg (apu_soundcnt_l a) [o0, o1, o2, o3]) = Some s1"
    "\<bar>fst s1\<bar> \<le> 94208" "\<bar>snd s1\<bar> \<le> 94208"
    using mix_direct_bound [OF assms conjunct1 [OF p] conjunct2 [OF p], of Channel_a] by auto
  obtain s2 where "mix_direct_channel Channel_b a s1 = Some s2" "\<bar>fst s2\<bar> \<le> 126976" "\<bar>snd s2\<bar> \<le> 126976"
    using mix_direct_bound [OF assms s1(2,3), of Channel_b] by auto
  then show ?thesis
    by (simp add: mix_sums_def o(1) s1(1) prod_eq_iff)
qed

text \<open>C23. The mixer. From a well-formed state mixing never throws: no period is zero, every table index is in range. The 32-bit sums
  of the four PSG channels and the two Direct Sound channels never exceed 126976 in magnitude, so they cannot overflow, and the emitted
  samples are those sums saturated to 16 bits.\<close>

theorem mix_fits:
  assumes "apu_wf a"
  shows "\<exists>l r m. mix_sums a = Some (l, r) \<and> \<bar>l\<bar> \<le> 126976 \<and> \<bar>r\<bar> \<le> 126976 \<and> mix_sample a = Some m
    \<and> sint (ms_left m) = max (- 32768) (min l 32767) \<and> sint (ms_right m) = max (- 32768) (min r 32767)"
proof -
  have clamp: "sint (clamp_mixed_sample v) = max (- 32768) (min v 32767)" for v
  proof -
    have "- 32768 \<le> max (- 32768) (min v 32767)" "max (- 32768) (min v 32767) < 32768"
      by simp_all
    then show ?thesis
      unfolding clamp_mixed_sample_def by (simp add: signed_take_bit_int_eq_self sint_sbintrunc')
  qed
  show ?thesis
    using mix_sums_bound [OF assms] by (auto simp: mix_sample_def clamp)
qed

theorem mix_fits_witness: "\<exists>l r m. mix_sums apu_reset = Some (l, r) \<and> \<bar>l\<bar> \<le> 126976 \<and> mix_sample apu_reset = Some m"
  using mix_fits [OF apu_wf_reset] by blast

section \<open>Generators\<close>

lemma checked_mod_phase:
  fixes phase period :: u16
  assumes "phase < period"
  shows "\<exists>q. checked_mod (ucast phase + 1) (ucast period) = Some q \<and> (ucast q :: u16) < period"
proof -
  have p: "unat phase < unat period" "unat period < 65536"
    using assms unat_u16_less [of period] by (simp_all add: word_less_nat_alt del: unat_u16_less)
  let ?q = "(ucast phase + 1) mod (ucast period :: u32)"
  have "Suc (unat phase) < 4294967296"
    using p by linarith
  then have "unat ?q = (unat phase + 1) mod unat period"
    by (simp add: unat_mod unat_word_ariths)
  then have "unat ?q < unat period"
    using p by (simp add: mod_less_divisor)
  then have "unat (ucast ?q :: u16) < unat period"
    using p by (simp add: unat_ucast_narrow)
  moreover have "(ucast period :: u32) \<noteq> 0"
    using p by (auto simp: word_unat_eq_iff)
  ultimately show ?thesis
    by (simp add: checked_mod_def word_less_nat_alt)
qed

lemma next_lfsr_bits:
  "bit (next_lfsr narrow l) n \<longleftrightarrow>
     (if narrow \<and> n = 6 then bit l 0 \<noteq> bit l 1 else bit l (Suc n) \<or> (n = 14 \<and> bit l 0 \<noteq> bit l 1))"
proof -
  have new_bit: "(l XOR drop_bit 1 l) AND 1 = of_bool (bit l 0 \<noteq> bit l 1)"
    by (simp add: and_one_eq mod_2_eq_odd bit_simps even_bit_succ_iff bit_0 flip: bit_0)
  have exp: "bit (push_bit k (of_bool b) :: u16) n \<longleftrightarrow> b \<and> n = k" if "k < 16" for k b
    using that by (auto simp: bit_simps bit_of_bool_iff)
  have bits: "bit ((d OR p14) AND NOT p6 OR q6) n = (if n = 6 then b else bit d n \<or> n = 14 \<and> b)"
    "bit (d OR p14) n = (bit d n \<or> n = 14 \<and> b)"
    if "n < 16" "p14 = push_bit 14 (of_bool b)" "p6 = push_bit 6 (of_bool True)" "q6 = push_bit 6 (of_bool b)"
    for d p14 p6 q6 :: u16 and b
  proof -
    have "bit p14 n \<longleftrightarrow> b \<and> n = 14" "bit p6 n \<longleftrightarrow> n = 6" "bit q6 n \<longleftrightarrow> b \<and> n = 6"
      using exp [of 14 b] exp [of 6 True] exp [of 6 b] that(2-4) by auto
    then show "bit ((d OR p14) AND NOT p6 OR q6) n = (if n = 6 then b else bit d n \<or> n = 14 \<and> b)"
      "bit (d OR p14) n = (bit d n \<or> n = 14 \<and> b)"
      using that(1) by (auto simp: bit_simps)
  qed
  show ?thesis
  proof (cases "n < 16")
    case True
    define b where "b \<longleftrightarrow> bit l 0 \<noteq> bit l 1"
    define d p14 q6 :: u16 where "d = drop_bit 1 l" and "p14 = push_bit 14 (of_bool b)" and "q6 = push_bit 6 (of_bool b)"
    define p6 :: u16 where "p6 = push_bit 6 1"
    have "p6 = push_bit 6 (of_bool True)"
      by (simp add: p6_def)
    note bits = bits [OF True p14_def this q6_def, of d]
    have "next_lfsr narrow l = (if narrow then (d OR p14) AND NOT p6 OR q6 else d OR p14)"
      unfolding next_lfsr_def Let_def new_bit d_def p14_def p6_def q6_def b_def ..
    moreover have "bit d n \<longleftrightarrow> bit l (Suc n)"
      by (simp add: d_def bit_simps)
    ultimately show ?thesis
      using bits unfolding b_def by (cases narrow; cases "n = 6"; simp)
  next
    case False
    then have "\<not> bit l (Suc n)"
      using bit_imp_le_length [of l "Suc n"] by auto
    then show ?thesis
      using False bit_imp_le_length [of "next_lfsr narrow l" n] by auto
  qed
qed

text \<open>The shift register never gets stuck at zero, in either width: in the narrow mode its low seven bits are a register of their own.\<close>

lemma next_lfsr_nonzero:
  assumes "l \<noteq> 0" and "\<not> bit l 15"
  shows "next_lfsr False l \<noteq> 0"
proof
  assume "next_lfsr False l = 0"
  then have z: "\<not> (bit l (Suc n) \<or> n = 14 \<and> bit l 0 \<noteq> bit l 1)" for n
    using next_lfsr_bits [of False l n] by simp
  have "\<not> bit l n" for n
    using z [of "n - 1"] z [of 14] z [of 0] by (cases n) auto
  then show False
    using assms(1) by (simp add: word_eq_all_bits)
qed

lemma next_lfsr_narrow_nonzero:
  assumes "take_bit 7 l \<noteq> 0"
  shows "take_bit 7 (next_lfsr True l) \<noteq> 0"
proof
  assume "take_bit 7 (next_lfsr True l) = 0"
  then have "\<not> bit (take_bit 7 (next_lfsr True l)) n" for n
    by simp
  then have z: "n < 7 \<Longrightarrow> \<not> bit (next_lfsr True l) n" for n
    by (simp add: bit_simps)
  have s: "\<not> bit l (Suc n)" if "n < 6" for n
    using z [of n] that by (simp add: next_lfsr_bits)
  moreover have "\<not> bit l 0"
    using z [of 6] s [of 0] by (simp add: next_lfsr_bits)
  ultimately have "\<not> bit l n" if "n < 7" for n
    using that by (cases n) auto
  then show False
    using assms by (auto simp: word_eq_all_bits bit_simps)
qed

lemma noise_wf_next:
  assumes "noise_wf n"
  shows "noise_wf (n\<lparr>ns_lfsr := next_lfsr (ns_narrow_lfsr n) (ns_lfsr n)\<rparr>)"
proof (cases "ns_narrow_lfsr n")
  case True
  then have "take_bit 7 (next_lfsr True (ns_lfsr n)) \<noteq> 0"
    using assms next_lfsr_narrow_nonzero by (simp add: noise_wf_def)
  then show ?thesis
    using assms True bit_imp_le_length [of "ns_lfsr n" 16] by (auto simp: noise_wf_def next_lfsr_bits)
next
  case False
  then show ?thesis
    using assms next_lfsr_nonzero [of "ns_lfsr n"] bit_imp_le_length [of "ns_lfsr n" 16]
    by (auto simp: noise_wf_def next_lfsr_bits)
qed

lemma advance_wf:
  shows "square_wf s \<Longrightarrow> \<exists>s'. advance_square s = Some s' \<and> square_wf s'"
    and "wave_wf w \<Longrightarrow> \<exists>w'. advance_wave w = Some w' \<and> wave_wf w'"
    and "noise_wf n \<Longrightarrow> \<exists>n'. advance_noise n = Some n' \<and> noise_wf n'"
proof -
  show "\<exists>s'. advance_square s = Some s' \<and> square_wf s'" if "square_wf s"
    using that checked_mod_phase [of "sq_phase s" "sq_period_samples s"]
    by (auto simp: advance_square_def square_wf_def)
  show "\<exists>w'. advance_wave w = Some w' \<and> wave_wf w'" if "wave_wf w"
    using that checked_mod_phase [of "wv_phase w" "wv_period_samples w"]
    by (auto simp: advance_wave_def wave_wf_def)
  show "\<exists>n'. advance_noise n = Some n' \<and> noise_wf n'" if wf: "noise_wf n"
  proof -
    obtain q where q: "checked_mod (ucast (ns_phase n) + 1) (ucast (ns_period_samples n)) = Some q"
      "(ucast q :: u16) < ns_period_samples n"
      using wf checked_mod_phase [of "ns_phase n" "ns_period_samples n"] by (auto simp: noise_wf_def)
    have "noise_wf (n\<lparr>ns_phase := ucast q\<rparr>)"
      using wf q(2) by (simp add: noise_wf_def)
    then show ?thesis
      using wf noise_wf_next [of "n\<lparr>ns_phase := ucast q\<rparr>"] by (auto simp: advance_noise_def q(1) Let_def)
  qed
qed

lemma generate_wf:
  assumes wf: "apu_wf a"
  shows "\<exists>m a'. mix_sample a = Some m \<and> generate_audio_sample a = Some a' \<and> apu_wf a'
    \<and> apu_last_mixed_sample a' = m
    \<and> ring_items kAudioBufferCapacity (apu_audio_buffer a')
        = keep_last kAudioBufferCapacity (ring_items kAudioBufferCapacity (apu_audio_buffer a) @ [m])"
proof -
  obtain m where m: "mix_sample a = Some m"
    using mix_sums_bound [OF wf] by (auto simp: mix_sample_def)
  obtain r where r: "ring_push kAudioBufferCapacity m (apu_audio_buffer a) = Some r" "ring_wf kAudioBufferCapacity r"
    "ring_items kAudioBufferCapacity r = keep_last kAudioBufferCapacity (ring_items kAudioBufferCapacity (apu_audio_buffer a) @ [m])"
    using ring_push_law [of kAudioBufferCapacity "apu_audio_buffer a" m] wf by (auto simp: apu_wf_def)
  obtain s0 s1 where s: "apu_squares a = [s0, s1]" "square_wf s0" "square_wf s1"
    using apu_wf_squares [OF wf] by blast
  obtain s0' s1' w' n' where adv: "advance_square s0 = Some s0'" "square_wf s0'" "advance_square s1 = Some s1'" "square_wf s1'"
    "advance_wave (apu_wave a) = Some w'" "wave_wf w'" "advance_noise (apu_noise a) = Some n'" "noise_wf n'"
    using advance_wf(1) [OF s(2)] advance_wf(1) [OF s(3)] advance_wf(2) [of "apu_wave a"] advance_wf(3) [of "apu_noise a"] wf
    by (auto simp: apu_wf_def)
  show ?thesis
    using wf r adv m
    by (simp add: generate_audio_sample_def push_audio_sample_def advance_psg_generators_def s apu_wf_def)
qed

section \<open>The FIFOs and the output buffer as queues\<close>

definition fifo_items :: "direct_sound_channel \<Rightarrow> apu \<Rightarrow> i8 list" where
  "fifo_items c a = ring_items kFifoCapacity (apu_fifos a ! fifo_index c)"

definition fifo_take :: "direct_sound_channel \<Rightarrow> apu \<Rightarrow> (i8 \<times> apu) option throws" where
  "fifo_take c a = map_option (\<lambda>(r, a'). if ds_produced r then Some (ds_sample r, a') else None) (pop_fifo c a)"

lemma push_fifo_frame: "push_fifo c x a = Some a' \<Longrightarrow> \<exists>r. a' = a\<lparr>apu_fifos := (apu_fifos a)[fifo_index c := r]\<rparr>"
  by (auto simp: push_fifo_def put_fifo_def bind_eq_Some_conv dest!: vec_put_SomeD)

lemma fifo_items_update [simp]:
  "apu_wf a \<Longrightarrow> fifo_items d (a\<lparr>apu_fifos := (apu_fifos a)[fifo_index c := r]\<rparr>)
     = (if d = c then ring_items kFifoCapacity r else fifo_items d a)"
  by (cases c; cases d) (simp_all add: fifo_items_def apu_wf_def)

lemma pop_fifo_empty:
  assumes "apu_wf a" and "fifo_items c a = []"
  shows "pop_fifo c a = Some (\<lparr>ds_produced = False, ds_sample = 0, ds_refill_request = True\<rparr>, a)"
proof -
  obtain r where r: "apu_fifo c a = Some r" "r = apu_fifos a ! fifo_index c" "ring_wf kFifoCapacity r"
    using apu_fifo_wf [OF assms(1)] by blast
  then have "ring_pop kFifoCapacity r = Some None"
    using assms(2) bounded_queue.pop_empty [OF ring_bounded_queue] by (simp add: fifo_items_def)
  then show ?thesis
    by (simp add: pop_fifo_def r(1))
qed

lemma pop_fifo_some:
  assumes wf: "apu_wf a" and items: "fifo_items c a = x # xs"
  shows "\<exists>r. pop_fifo c a = Some (\<lparr>ds_produced = True, ds_sample = x, ds_refill_request = length xs \<le> 16\<rparr>,
      a\<lparr>apu_fifos := (apu_fifos a)[fifo_index c := r]\<rparr>)
    \<and> ring_wf kFifoCapacity r \<and> ring_items kFifoCapacity r = xs"
proof -
  obtain r where r: "apu_fifo c a = Some r" "r = apu_fifos a ! fifo_index c" "ring_wf kFifoCapacity r"
    using apu_fifo_wf [OF wf] by blast
  then obtain r' where r': "ring_pop kFifoCapacity r = Some (Some (x, r'))" "ring_wf kFifoCapacity r'" "ring_items kFifoCapacity r' = xs"
    using ring_pop_law [of kFifoCapacity r x xs] items by (auto simp: fifo_items_def)
  have "rb_size r' = length xs"
    using arg_cong [OF r'(3), of length] by simp
  then have "fifo_refill_needed c (a\<lparr>apu_fifos := (apu_fifos a)[fifo_index c := r']\<rparr>) = Some (length xs \<le> 16)"
    using wf by (simp add: fifo_refill_needed_def fifo_size_def apu_fifo_def apu_wf_def kFifoRefillThreshold_def)
  then show ?thesis
    using put_fifo_wf(1) [OF wf r'(2), of c] r' by (auto simp: pop_fifo_def r(1))
qed

interpretation fifo: bounded_queue kFifoCapacity apu_wf "fifo_items c" "push_fifo c" "fifo_take c" for c
proof
  fix a :: apu and x :: i8
  assume wf: "apu_wf a"
  obtain r where r: "apu_fifo c a = Some r" "r = apu_fifos a ! fifo_index c" "ring_wf kFifoCapacity r"
    using apu_fifo_wf [OF wf] by blast
  obtain r' where r': "ring_push kFifoCapacity x r = Some r'" "ring_wf kFifoCapacity r'"
    "ring_items kFifoCapacity r' = keep_last kFifoCapacity (ring_items kFifoCapacity r @ [x])"
    using ring_push_law [OF r(3), of x] by blast
  show "\<exists>q'. push_fifo c x a = Some q' \<and> apu_wf q' \<and> fifo_items c q' = keep_last kFifoCapacity (fifo_items c a @ [x])"
    using put_fifo_wf [OF wf r'(2), of c] r r' wf by (simp add: push_fifo_def fifo_items_def [of c a])
  show "length (fifo_items c a) \<le> kFifoCapacity"
    using r by (simp add: fifo_items_def ring_wf_def)
  show "fifo_take c a = Some None" if "fifo_items c a = []"
    using pop_fifo_empty [OF wf that] by (simp add: fifo_take_def)
  show "\<exists>q'. fifo_take c a = Some (Some (x, q')) \<and> apu_wf q' \<and> fifo_items c q' = xs" if items: "fifo_items c a = x # xs" for xs
  proof -
    obtain refill r'' where "pop_fifo c a = Some (\<lparr>ds_produced = True, ds_sample = x, ds_refill_request = refill\<rparr>,
        a\<lparr>apu_fifos := (apu_fifos a)[fifo_index c := r'']\<rparr>)" "ring_wf kFifoCapacity r''" "ring_items kFifoCapacity r'' = xs"
      using pop_fifo_some [OF wf items] by blast
    then show ?thesis
      using put_fifo_wf(2) [OF wf, of r'' c] wf by (simp add: fifo_take_def)
  qed
qed

interpretation audio_queue: bounded_queue kAudioBufferCapacity "ring_wf kAudioBufferCapacity" "ring_items kAudioBufferCapacity"
    "ring_push kAudioBufferCapacity" "ring_pop kAudioBufferCapacity"
  by (rule ring_bounded_queue)

lemma write_fifo_as_pushes: "write_fifo c v a = foldM (push_fifo c) (le_bytes 4 v) a"
proof -
  have "foldM (\<lambda>i. push_fifo c (f i)) is a = foldM (push_fifo c) (map f is) a" for f :: "nat \<Rightarrow> i8" and "is" a
    by (induction "is" arbitrary: a) simp_all
  then show ?thesis
    by (simp add: write_fifo_def le_bytes_def ucast_and_FF)
qed

lemma write_fifo_queue:
  assumes wf: "apu_wf a"
  shows "\<exists>r. write_fifo c v a = Some (a\<lparr>apu_fifos := (apu_fifos a)[fifo_index c := r]\<rparr>)
    \<and> apu_wf (a\<lparr>apu_fifos := (apu_fifos a)[fifo_index c := r]\<rparr>)
    \<and> ring_items kFifoCapacity r = keep_last kFifoCapacity (fifo_items c a @ le_bytes 4 v)"
proof -
  obtain a' where a': "write_fifo c v a = Some a'" "apu_wf a'" "fifo_items c a' = keep_last kFifoCapacity (fifo_items c a @ le_bytes 4 v)"
    using fifo.push_all [OF wf, of c "le_bytes 4 v"] by (auto simp: write_fifo_as_pushes)
  have "\<exists>r. a' = a\<lparr>apu_fifos := (apu_fifos a)[fifo_index c := r]\<rparr>"
  proof (rule foldM_invariant [OF a'(1) [unfolded write_fifo_as_pushes], where P = "\<lambda>a'. \<exists>r. a' = a\<lparr>apu_fifos := (apu_fifos a)[fifo_index c := r]\<rparr>"])
    show "\<exists>r. a = a\<lparr>apu_fifos := (apu_fifos a)[fifo_index c := r]\<rparr>"
      by (rule exI [of _ "apu_fifos a ! fifo_index c"]) simp
  qed (auto dest!: push_fifo_frame)
  then show ?thesis
    using a' wf by auto
qed

text \<open>What one timer overflow does to a channel.\<close>

definition channel_clocked :: "direct_sound_channel \<Rightarrow> u8 \<Rightarrow> apu \<Rightarrow> direct_sound_sample \<Rightarrow> apu \<Rightarrow> bool" where
  "channel_clocked c t a r a' =
     (let xs = fifo_items c a in
      if direct_sound_uses_timer c t a
      then fifo_items c a' = tl xs \<and> ds_produced r = (xs \<noteq> []) \<and> ds_refill_request r = (length (tl xs) \<le> 16)
        \<and> apu_latched a' ! fifo_index c = (if xs = [] then 0 else hd xs)
      else fifo_items c a' = xs \<and> r = no_sample \<and> apu_latched a' ! fifo_index c = apu_latched a ! fifo_index c)"

lemma clock_direct_sound_spec:
  assumes wf: "apu_wf a"
  shows "\<exists>r a'. clock_direct_sound c t a = Some (r, a') \<and> apu_wf a' \<and> apu_soundcnt_h a' = apu_soundcnt_h a
    \<and> (\<forall>d. d \<noteq> c \<longrightarrow> fifo_items d a' = fifo_items d a \<and> apu_latched a' ! fifo_index d = apu_latched a ! fifo_index d)
    \<and> channel_clocked c t a r a'"
proof (cases "direct_sound_uses_timer c t a")
  case True
  have latched: "length (apu_latched a) = 2"
    using wf by (simp add: apu_wf_def)
  have wf_latch: "apu_wf (b\<lparr>apu_latched := (apu_latched a)[fifo_index c := x]\<rparr>)" if "apu_wf b" for b x
    using that latched by (simp add: apu_wf_def)
  have items_latch [simp]: "fifo_items d (b\<lparr>apu_latched := ys\<rparr>) = fifo_items d b" for d b ys
    by (simp add: fifo_items_def)
  have other [simp]: "d \<noteq> c \<Longrightarrow> ys[fifo_index c := x] ! fifo_index d = ys ! fifo_index d" for d ys and x :: i8
    by (cases c; cases d) simp_all
  show ?thesis
  proof (cases "fifo_items c a")
    case Nil
    then show ?thesis
      using pop_fifo_empty [OF wf Nil] True latched wf wf_latch [OF wf]
      by (simp add: clock_direct_sound_def channel_clocked_def Let_def)
  next
    case (Cons x xs)
    obtain r where r: "pop_fifo c a = Some (\<lparr>ds_produced = True, ds_sample = x, ds_refill_request = length xs \<le> 16\<rparr>,
        a\<lparr>apu_fifos := (apu_fifos a)[fifo_index c := r]\<rparr>)" "ring_wf kFifoCapacity r" "ring_items kFifoCapacity r = xs"
      using pop_fifo_some [OF wf Cons] by blast
    then show ?thesis
      using True Cons latched wf wf_latch [OF put_fifo_wf(2) [OF wf r(2), of c]]
      by (simp add: clock_direct_sound_def channel_clocked_def Let_def)
  qed
next
  case False
  then show ?thesis
    using wf by (simp add: clock_direct_sound_def channel_clocked_def Let_def)
qed

text \<open>C20. Direct Sound. A 32-bit FIFO write appends its four bytes, low byte first, to the channel's queue, which keeps the last 32
  samples; the other channel and the rest of the state are untouched. When the channel's timer overflows, the oldest sample leaves the
  queue and is latched (silence when the queue is empty), a refill is requested exactly when at most 16 samples remain, and a channel that
  does not use the timer keeps its queue and its latch.\<close>

theorem direct_sound_spec:
  assumes wf: "apu_wf a" and on: "master_enabled a"
  shows "(\<exists>a'. write_fifo c v a = Some a' \<and> apu_wf a' \<and> a'\<lparr>apu_fifos := apu_fifos a\<rparr> = a
      \<and> (\<forall>d. fifo_items d a' = (if d = c then keep_last 32 (fifo_items c a @ le_bytes 4 v) else fifo_items d a)))
    \<and> (\<exists>res a'. timer_overflow t a = Some (res, a') \<and> apu_wf a'
      \<and> (\<forall>d. channel_clocked d t a (if d = Channel_a then dt_fifo_a res else dt_fifo_b res) a'))"
proof -
  have written: "\<exists>a'. write_fifo c v a = Some a' \<and> apu_wf a' \<and> a'\<lparr>apu_fifos := apu_fifos a\<rparr> = a
      \<and> (\<forall>d. fifo_items d a' = (if d = c then keep_last 32 (fifo_items c a @ le_bytes 4 v) else fifo_items d a))"
    using write_fifo_queue [OF wf, of c v] wf by (auto simp: kFifoCapacity_def)
  obtain ra a1 where a1: "clock_direct_sound Channel_a t a = Some (ra, a1)" "apu_wf a1" "apu_soundcnt_h a1 = apu_soundcnt_h a"
      "channel_clocked Channel_a t a ra a1"
    and pa: "\<forall>d. d \<noteq> Channel_a \<longrightarrow> fifo_items d a1 = fifo_items d a \<and> apu_latched a1 ! fifo_index d = apu_latched a ! fifo_index d"
    using clock_direct_sound_spec [OF wf, of Channel_a t] by blast
  obtain rb a2 where a2: "clock_direct_sound Channel_b t a1 = Some (rb, a2)" "apu_wf a2" "channel_clocked Channel_b t a1 rb a2"
    and pb: "\<forall>d. d \<noteq> Channel_b \<longrightarrow> fifo_items d a2 = fifo_items d a1 \<and> apu_latched a2 ! fifo_index d = apu_latched a1 ! fifo_index d"
    using clock_direct_sound_spec [OF a1(2), of Channel_b t] by blast
  have uses: "direct_sound_uses_timer d t a1 = direct_sound_uses_timer d t a" for d
    using a1(3) by (simp add: direct_sound_uses_timer_def direct_sound_enabled_def)
  have "timer_overflow t a = Some (\<lparr>dt_fifo_a = ra, dt_fifo_b = rb\<rparr>, a2)"
    using on a1(1) a2(1) by (simp add: timer_overflow_def)
  moreover have "channel_clocked d t a (if d = Channel_a then ra else rb) a2" for d
    using a1(4) a2(3) pa [rule_format, of Channel_b] pb [rule_format, of Channel_a] uses
    by (cases d; cases "direct_sound_uses_timer d t a") (simp_all add: channel_clocked_def Let_def)
  ultimately have "\<exists>res a'. timer_overflow t a = Some (res, a') \<and> apu_wf a'
      \<and> (\<forall>d. channel_clocked d t a (if d = Channel_a then dt_fifo_a res else dt_fifo_b res) a')"
    using a2(2) by (intro exI [of _ "\<lparr>dt_fifo_a = ra, dt_fifo_b = rb\<rparr>"] exI [of _ a2])
      (simp only: direct_sound_timer_result.simps simp_thms)
  with written show ?thesis ..
qed

definition fifo_demo :: apu where
  "fifo_demo = apu_reset\<lparr>apu_soundcnt_x_status := 0x80, apu_soundcnt_h := 0x0300\<rparr>"

theorem direct_sound_spec_witness:
  "\<exists>a'. write_fifo Channel_a 0x04030201 fifo_demo = Some a' \<and> fifo_items Channel_a a' = [1, 2, 3, 4]"
proof -
  have "apu_wf fifo_demo"
    using apu_wf_reset by (simp add: fifo_demo_def)
  moreover have "master_enabled fifo_demo" "fifo_items Channel_a fifo_demo = []"
    by (simp_all add: fifo_demo_def master_enabled_def kMasterEnable_def fifo_items_def apu_reset_def)
  ultimately show ?thesis
    using direct_sound_spec [of fifo_demo Channel_a "0x04030201" 0] by (auto simp: le_bytes_def upt_rec)
qed

section \<open>Register writes\<close>

lemma apu_wf_registers [wf_intros]:
  assumes "apu_wf a"
  shows "apu_wf (write_soundcnt_l v a)" "apu_wf (write_soundbias v a)" "apu_wf (set_wave_bank_select b a)"
    "apu_wf (configure_wave_channel sh p a)" "apu_wf (configure_noise_channel vol p narrow a)" "apu_wf (clear_audio_buffer a)"
proof -
  have pos: "(0 :: u16) < max 1 p"
    by (metis less_max_iff_disj word_gt_0 zero_neq_one)
  show "apu_wf (write_soundcnt_l v a)" "apu_wf (write_soundbias v a)" "apu_wf (set_wave_bank_select b a)"
    "apu_wf (clear_audio_buffer a)"
    using assms by (simp_all add: apu_wf_def write_soundcnt_l_def write_soundbias_def set_wave_bank_select_def
        clear_audio_buffer_def ring_wf_clear)
  show "apu_wf (configure_wave_channel sh p a)" "apu_wf (configure_noise_channel vol p narrow a)"
    using assms pos by (simp_all add: apu_wf_def configure_wave_channel_def configure_noise_channel_def wave_wf_def noise_wf_def)
qed

lemma write_soundcnt_h_wf: "apu_wf a \<Longrightarrow> \<exists>a'. write_soundcnt_h v a = Some a' \<and> apu_wf a'"
proof -
  assume wf: "apu_wf a"
  obtain a1 where a1: "(if v AND kFifoAReset \<noteq> 0 then clear_fifo Channel_a a else Some a) = Some a1" "apu_wf a1"
    using clear_fifo_wf [OF wf, of Channel_a] wf by (cases "v AND kFifoAReset \<noteq> 0") auto
  obtain a2 where a2: "(if v AND kFifoBReset \<noteq> 0 then clear_fifo Channel_b a1 else Some a1) = Some a2" "apu_wf a2"
    using clear_fifo_wf [OF a1(2), of Channel_b] a1(2) by (cases "v AND kFifoBReset \<noteq> 0") auto
  then show ?thesis
    using wf a2(2) unfolding write_soundcnt_h_def a1(1) Option.bind_lunit a2(1) by (simp add: apu_wf_def)
qed

text \<open>The state a master disable leaves: everything but wave RAM and the bias is back at its reset value.\<close>

lemma clear_sound_circuit_reset:
  assumes "apu_wf a"
  shows "clear_sound_circuit a = Some (apu_reset\<lparr>apu_wave_ram_banks := apu_wave_ram_banks a, apu_soundbias := apu_soundbias a\<rparr>)"
proof -
  have "length (apu_fifos a) = 2"
    using assms by (simp add: apu_wf_def)
  then obtain f0 f1 where "apu_fifos a = [f0, f1]"
    using two_elements by blast
  then show ?thesis
    by (simp add: clear_sound_circuit_def clear_fifo_def put_fifo_def clear_audio_buffer_def apu_reset_def vec_fill_def
        numeral_2_eq_2)
qed

lemma apu_wf_clear_sound_circuit [wf_intros]:
  "apu_wf a \<Longrightarrow> apu_wf (apu_reset\<lparr>apu_wave_ram_banks := apu_wave_ram_banks a, apu_soundbias := apu_soundbias a\<rparr>)"
  using apu_wf_reset by (simp add: apu_wf_def)

text \<open>The master switch. Clearing bit 7 of SOUNDCNT_X returns the whole unit to its reset state except for wave RAM and SOUNDBIAS;
  while it is clear, SOUNDCNT_L, SOUNDCNT_H, SOUNDBIAS and channel writes, the clock and timer overflows change nothing, but FIFO and
  wave RAM writes still succeed.\<close>

lemma master_disable_spec:
  assumes "apu_wf a" and "\<not> bit off 7"
  defines "a0 \<equiv> apu_reset\<lparr>apu_wave_ram_banks := apu_wave_ram_banks a, apu_soundbias := apu_soundbias a\<rparr>"
  shows "write_soundcnt_x off a = Some a0
    \<and> write_soundcnt_l v a0 = a0 \<and> write_soundcnt_h v a0 = Some a0 \<and> write_soundbias v a0 = a0
    \<and> configure_square_channel ch duty vol p a0 = Some a0 \<and> configure_wave_channel vol p a0 = a0
    \<and> configure_noise_channel vol p narrow a0 = a0 \<and> apu_tick cycles a0 = Some (None, a0)
    \<and> timer_overflow t a0 = Some (\<lparr>dt_fifo_a = no_sample, dt_fifo_b = no_sample\<rparr>, a0)
    \<and> write_fifo c w a0 \<noteq> None \<and> (i < 8 \<longrightarrow> write_wave_ram i v a0 \<noteq> None)"
proof -
  have "off AND kMasterEnable = 0"
    using assms(2) and_exp_eq_0_iff_not_bit [of off 7] by (simp add: kMasterEnable_def)
  then have w: "write_soundcnt_x off a = Some a0"
    using clear_sound_circuit_reset [OF assms(1)] by (simp add: write_soundcnt_x_def a0_def)
  have off0: "\<not> master_enabled a0"
    by (simp add: master_enabled_def a0_def apu_reset_def)
  have banks: "length (apu_wave_ram_banks a0) = 2" "length (apu_wave_ram_banks a0 ! 0) = 8" "length (apu_wave_ram_banks a0 ! 1) = 8"
    using assms(1) by (simp_all add: a0_def apu_wf_def list_all_length)
  have fifo: "apu_wf a0"
    unfolding a0_def using assms(1) by (rule apu_wf_clear_sound_circuit)
  have "write_wave_ram i v a0 \<noteq> None" if "i < 8"
    using banks that by (simp add: write_wave_ram_def Let_def)
  moreover have "write_fifo c w a0 \<noteq> None"
    using write_fifo_queue [OF fifo, of c w] by auto
  ultimately show ?thesis
    using w off0 by (simp add: write_soundcnt_l_def write_soundcnt_h_def write_soundbias_def configure_square_channel_def
        configure_wave_channel_def configure_noise_channel_def apu_tick_def timer_overflow_def del: not_None_eq)
qed

section \<open>The clock in closed form\<close>

definition set_clock :: "u32 \<Rightarrow> u32 \<Rightarrow> u8 \<Rightarrow> u64 \<Rightarrow> apu \<Rightarrow> apu" where
  "set_clock frame_rem audio_rem step count a =
     a\<lparr>apu_frame_cycle_remainder := frame_rem, apu_audio_cycle_remainder := audio_rem, apu_frame_step := step,
       apu_frame_step_count := count\<rparr>"

primrec generate_samples :: "nat \<Rightarrow> apu \<Rightarrow> apu throws" where
  "generate_samples 0 a = Some a"
| "generate_samples (Suc n) a = do {a' \<leftarrow> generate_audio_sample a; generate_samples n a'}"

lemma generate_samples_add: "generate_samples (m + n) a = do {a' \<leftarrow> generate_samples m a; generate_samples n a'}"
  by (induction m arbitrary: a) (simp_all add: bind_assoc)

lemma set_clock_fields [simp]:
  "apu_soundcnt_l (set_clock f r s c a) = apu_soundcnt_l a" "apu_soundcnt_h (set_clock f r s c a) = apu_soundcnt_h a"
  "apu_soundcnt_x_status (set_clock f r s c a) = apu_soundcnt_x_status a"
  "apu_wave_ram_banks (set_clock f r s c a) = apu_wave_ram_banks a" "apu_wave_bank_select (set_clock f r s c a) = apu_wave_bank_select a"
  "apu_latched (set_clock f r s c a) = apu_latched a" "apu_squares (set_clock f r s c a) = apu_squares a"
  "apu_wave (set_clock f r s c a) = apu_wave a" "apu_noise (set_clock f r s c a) = apu_noise a"
  "apu_audio_buffer (set_clock f r s c a) = apu_audio_buffer a"
  "apu_audio_sample_count (set_clock f r s c a) = apu_audio_sample_count a"
  "apu_frame_cycle_remainder (set_clock f r s c a) = f" "apu_audio_cycle_remainder (set_clock f r s c a) = r"
  "apu_frame_step (set_clock f r s c a) = s" "apu_frame_step_count (set_clock f r s c a) = c"
  "set_clock f r s c (set_clock f' r' s' c' a) = set_clock f r s c a"
  "set_clock (apu_frame_cycle_remainder a) (apu_audio_cycle_remainder a) (apu_frame_step a) (apu_frame_step_count a) a = a"
  by (simp_all add: set_clock_def)

lemma apu_wf_set_clock [simp]: "step < 8 \<Longrightarrow> apu_wf a \<Longrightarrow> apu_wf (set_clock f r step c a)"
  by (simp add: apu_wf_def set_clock_def)

lemma mix_sample_clock: "mix_sample (set_clock f r s c a) = mix_sample a"
proof -
  have enabled: "direct_sound_enabled d (set_clock f r s c a) = direct_sound_enabled d a" for d
    by (simp add: direct_sound_enabled_def)
  have wave: "wave_output (set_clock f r s c a) = wave_output a"
    unfolding wave_output_def set_clock_fields ..
  have direct: "mix_direct_channel d (set_clock f r s c a) = mix_direct_channel d a" for d
    unfolding mix_direct_channel_def enabled set_clock_fields ..
  show ?thesis
    unfolding mix_sample_def mix_sums_def psg_channel_outputs_def wave direct set_clock_fields ..
qed

lemma generate_clock:
  "generate_audio_sample (set_clock f r s c a) = map_option (set_clock f r s c) (generate_audio_sample a)"
proof -
  have adv: "advance_psg_generators (set_clock f r s c b) = map_option (set_clock f r s c) (advance_psg_generators b)" for b
    unfolding advance_psg_generators_def set_clock_fields
    by (cases "foldM (\<lambda>square done. map_option (\<lambda>s. done @ [s]) (advance_square square)) (apu_squares b) []";
        cases "advance_wave (apu_wave b)"; cases "advance_noise (apu_noise b)") (simp_all add: set_clock_def)
  have push: "push_audio_sample m (set_clock f r s c b) = map_option (set_clock f r s c) (push_audio_sample m b)" for m b
    unfolding push_audio_sample_def set_clock_fields
    by (cases "ring_push kAudioBufferCapacity m (apu_audio_buffer b)") (simp_all add: set_clock_def)
  have upd: "(set_clock f r s c b)\<lparr>apu_last_mixed_sample := m\<rparr> = set_clock f r s c (b\<lparr>apu_last_mixed_sample := m\<rparr>)"
    "(set_clock f r s c b)\<lparr>apu_audio_sample_count := n\<rparr> = set_clock f r s c (b\<lparr>apu_audio_sample_count := n\<rparr>)"
    "apu_audio_sample_count (set_clock f r s c b) = apu_audio_sample_count b" for b m n
    by (simp_all add: set_clock_def)
  show ?thesis
    unfolding generate_audio_sample_def mix_sample_clock upd push
    by (cases "mix_sample a"; cases "push_audio_sample (the (mix_sample a)) (a\<lparr>apu_last_mixed_sample := the (mix_sample a)\<rparr>)")
      (simp_all add: upd adv)
qed

lemma generate_samples_clock:
  "generate_samples n (set_clock f r s c a) = map_option (set_clock f r s c) (generate_samples n a)"
proof (induction n arbitrary: a)
  case (Suc n)
  then show ?case
    by (cases "generate_audio_sample a") (simp_all add: generate_clock)
qed simp

lemma generate_samples_status:
  "generate_samples n a = Some b \<Longrightarrow> apu_soundcnt_x_status b = apu_soundcnt_x_status a"
  by (induction n arbitrary: a) (auto simp: bind_eq_Some_conv dest: generate_audio_sample_frame(6))

lemma generate_samples_wf:
  "apu_wf a \<Longrightarrow> \<exists>a'. generate_samples n a = Some a' \<and> apu_wf a'
     \<and> apu_audio_sample_count a' = apu_audio_sample_count a + of_nat n
     \<and> rb_size (apu_audio_buffer a') = min 2048 (rb_size (apu_audio_buffer a) + n)"
proof (induction n arbitrary: a)
  case 0
  then show ?case
    by (simp add: apu_wf_def ring_wf_def kAudioBufferCapacity_def)
next
  case (Suc n)
  obtain m a1 where a1: "generate_audio_sample a = Some a1" "apu_wf a1"
    "ring_items kAudioBufferCapacity (apu_audio_buffer a1)
       = keep_last kAudioBufferCapacity (ring_items kAudioBufferCapacity (apu_audio_buffer a) @ [m])"
    using generate_wf [OF Suc.prems] by blast
  have "rb_size (apu_audio_buffer a1) = min 2048 (rb_size (apu_audio_buffer a) + 1)"
    using arg_cong [OF a1(3), of length] by (simp add: kAudioBufferCapacity_def)
  then show ?case
    using Suc.IH [OF a1(2)] a1(1) generate_audio_sample_frame(5) [OF a1(1)] by auto
qed

text \<open>The two loops, by the value of the remainder.\<close>

lemma frame_loop_closed:
  assumes "apu_frame_step a < 8"
  defines "n \<equiv> unat (apu_frame_cycle_remainder a) div 32768"
  defines "step \<equiv> of_nat ((unat (apu_frame_step a) + n) mod 8)"
  shows "apu_frame_loop a prev =
    (set_clock (of_nat (unat (apu_frame_cycle_remainder a) mod 32768)) (apu_audio_cycle_remainder a) step
       (apu_frame_step_count a + of_nat n) a,
     if n = 0 then prev else Some (frame_step_of step))"
  using assms(1) unfolding step_def n_def
proof (induction a prev rule: apu_frame_loop.induct)
  case (1 a prev)
  let ?r = "unat (apu_frame_cycle_remainder a)" and ?s = "unat (apu_frame_step a)"
  have s8: "?s < 8"
    using "1.prems" by (simp add: word_less_nat_alt)
  show ?case
  proof (cases "apu_frame_cycle_remainder a \<ge> kCpuCyclesPerFrameSequencerStep")
    case True
    then have r: "32768 \<le> ?r"
      by (simp add: kCpuCyclesPerFrameSequencerStep_def word_le_nat_alt)
    let ?a = "advance_frame_sequencer a"
    have ur: "unat (apu_frame_cycle_remainder ?a) = ?r - 32768"
      using True by (simp add: advance_frame_sequencer_def kCpuCyclesPerFrameSequencerStep_def unat_sub)
    have us: "unat (apu_frame_step ?a) = (?s + 1) mod 8"
      using s8 by (simp add: advance_frame_sequencer_def kFrameSequencerSteps_def unat_mod unat_word_ariths)
    then have lt: "apu_frame_step ?a < 8"
      by (simp add: word_less_nat_alt)
    obtain k where k: "?r div 32768 = Suc k" "(?r - 32768) div 32768 = k" "(?r - 32768) mod 32768 = ?r mod 32768"
      using r le_div_geq [of 32768 ?r] le_mod_geq [of 32768 ?r] by simp
    have step: "(k + Suc ?s mod 8) mod 8 = Suc (k + ?s) mod 8"
      by (simp add: mod_simps)
    have "apu_frame_step ?a = of_nat ((?s + 1) mod 8)"
      using arg_cong [OF us, of "of_nat :: nat \<Rightarrow> u8"] by simp
    then have z: "k = 0 \<Longrightarrow> Some (frame_step_of (apu_frame_step ?a)) = Some (frame_step_of (of_nat ((?s + Suc k) mod 8)))"
      by simp
    have clk: "set_clock f (apu_audio_cycle_remainder ?a) st cnt ?a = set_clock f (apu_audio_cycle_remainder a) st cnt a"
      "apu_frame_step_count ?a = apu_frame_step_count a + 1" for f st cnt
      by (simp_all add: set_clock_def advance_frame_sequencer_def)
    have "apu_frame_loop a prev = apu_frame_loop ?a (Some (frame_step_of (apu_frame_step ?a)))"
      using True by (subst apu_frame_loop.simps) (simp add: Let_def)
    also have "\<dots> = (set_clock (of_nat (?r mod 32768)) (apu_audio_cycle_remainder a) (of_nat ((?s + Suc k) mod 8))
        (apu_frame_step_count a + of_nat (Suc k)) a, Some (frame_step_of (of_nat ((?s + Suc k) mod 8))))"
      using "1.IH" [OF True refl lt] z by (cases "k = 0") (simp_all add: ur us k step clk ac_simps)
    finally show ?thesis
      by (simp add: k(1))
  next
    case False
    then have "?r < 32768"
      by (simp add: kCpuCyclesPerFrameSequencerStep_def word_le_nat_alt not_le)
    then show ?thesis
      using False s8 by (subst apu_frame_loop.simps) (simp add: div_less)
  qed
qed

lemma audio_loop_closed:
  "apu_audio_loop a = generate_samples (unat (apu_audio_cycle_remainder a) div 512)
     (a\<lparr>apu_audio_cycle_remainder := of_nat (unat (apu_audio_cycle_remainder a) mod 512)\<rparr>)"
proof (induction a rule: apu_audio_loop.induct)
  case (1 a)
  let ?r = "unat (apu_audio_cycle_remainder a)"
  show ?case
  proof (cases "apu_audio_cycle_remainder a \<ge> kCpuCyclesPerAudioSample")
    case True
    let ?a = "a\<lparr>apu_audio_cycle_remainder := apu_audio_cycle_remainder a - kCpuCyclesPerAudioSample\<rparr>"
    let ?m = "of_nat (?r mod 512) :: u32"
    have r: "512 \<le> ?r" and ur: "unat (apu_audio_cycle_remainder ?a) = ?r - 512"
      using True by (simp_all add: kCpuCyclesPerAudioSample_def word_le_nat_alt unat_sub)
    have k: "?r div 512 = Suc ((?r - 512) div 512)" "(?r - 512) mod 512 = ?r mod 512"
      using r le_div_geq [of 512 ?r] le_mod_geq [of 512 ?r] by simp_all
    have clk: "b\<lparr>apu_audio_cycle_remainder := x\<rparr> =
        set_clock (apu_frame_cycle_remainder b) x (apu_frame_step b) (apu_frame_step_count b) b" for b x
      by (simp add: set_clock_def)
    have gen: "generate_audio_sample (a\<lparr>apu_audio_cycle_remainder := x\<rparr>) =
        map_option (\<lambda>b. b\<lparr>apu_audio_cycle_remainder := x\<rparr>) (generate_audio_sample a)" for x
    proof (cases "generate_audio_sample a")
      case (Some b)
      then show ?thesis
        unfolding clk generate_clock by (simp add: generate_audio_sample_frame [OF Some])
    qed (simp add: clk generate_clock)
    show ?thesis
    proof (cases "generate_audio_sample a")
      case (Some b)
      let ?b = "b\<lparr>apu_audio_cycle_remainder := apu_audio_cycle_remainder a - kCpuCyclesPerAudioSample\<rparr>"
      have "apu_audio_loop a = apu_audio_loop ?b"
        using True by (subst apu_audio_loop.simps) (simp add: gen Some)
      also have "\<dots> = generate_samples ((?r - 512) div 512) (b\<lparr>apu_audio_cycle_remainder := ?m\<rparr>)"
        using "1.IH" [OF True, of ?b] ur by (simp add: gen Some k)
      finally show ?thesis
        by (simp add: k(1) gen Some)
    next
      case None
      then show ?thesis
        using True by (subst apu_audio_loop.simps) (simp add: gen k(1))
    qed
  next
    case False
    then have "?r < 512"
      by (simp add: kCpuCyclesPerAudioSample_def word_le_nat_alt not_le)
    then show ?thesis
      using False by (subst apu_audio_loop.simps) simp
  qed
qed

text \<open>A tick as one update of the clock followed by the due samples.\<close>

definition due_frames :: "u32 \<Rightarrow> apu \<Rightarrow> nat" where
  "due_frames cycles a = (unat (apu_frame_cycle_remainder a) + unat cycles) div 32768"

definition due_samples :: "u32 \<Rightarrow> apu \<Rightarrow> nat" where
  "due_samples cycles a = (unat (apu_audio_cycle_remainder a) + unat cycles) div 512"

definition clock_after :: "u32 \<Rightarrow> apu \<Rightarrow> apu \<Rightarrow> apu" where
  "clock_after cycles a =
     set_clock (of_nat ((unat (apu_frame_cycle_remainder a) + unat cycles) mod 32768))
       (of_nat ((unat (apu_audio_cycle_remainder a) + unat cycles) mod 512))
       (of_nat ((unat (apu_frame_step a) + due_frames cycles a) mod 8))
       (apu_frame_step_count a + of_nat (due_frames cycles a))"

lemma apu_tick_closed:
  assumes "master_enabled a" and "apu_frame_step a < 8"
    and "unat (apu_frame_cycle_remainder a) + unat cycles < 2 ^ 32" "unat (apu_audio_cycle_remainder a) + unat cycles < 2 ^ 32"
  shows "apu_tick cycles a = map_option
    (\<lambda>a'. (if due_frames cycles a = 0 then None
            else Some (frame_step_of (of_nat ((unat (apu_frame_step a) + due_frames cycles a) mod 8))),
          clock_after cycles a a'))
    (generate_samples (due_samples cycles a) a)"
proof -
  let ?a = "a\<lparr>apu_frame_cycle_remainder := apu_frame_cycle_remainder a + cycles,
      apu_audio_cycle_remainder := apu_audio_cycle_remainder a + cycles\<rparr>"
  have u: "unat (apu_frame_cycle_remainder a + cycles) = unat (apu_frame_cycle_remainder a) + unat cycles"
    "unat (apu_audio_cycle_remainder a + cycles) = unat (apu_audio_cycle_remainder a) + unat cycles"
    using assms(3,4) by (simp_all add: unat_word_ariths)
  have s: "apu_frame_step ?a < 8"
    using assms(2) by simp
  have c: "(set_clock f (apu_audio_cycle_remainder a + cycles) st cnt ?a)\<lparr>apu_audio_cycle_remainder := r\<rparr> = set_clock f r st cnt a" for f st cnt r
    by (simp add: set_clock_def)
  have loop: "apu_frame_loop ?a None =
      (set_clock (of_nat ((unat (apu_frame_cycle_remainder a) + unat cycles) mod 32768)) (apu_audio_cycle_remainder a + cycles)
         (of_nat ((unat (apu_frame_step a) + due_frames cycles a) mod 8)) (apu_frame_step_count a + of_nat (due_frames cycles a)) ?a,
       if due_frames cycles a = 0 then None
       else Some (frame_step_of (of_nat ((unat (apu_frame_step a) + due_frames cycles a) mod 8))))"
    unfolding frame_loop_closed [OF s] by (simp add: u due_frames_def)
  show ?thesis
    unfolding apu_tick_def Let_def loop prod.case audio_loop_closed set_clock_fields u c generate_samples_clock
    using assms(1) by (cases "generate_samples (due_samples cycles a) a") (simp_all add: clock_after_def due_samples_def)
qed

lemma unat_small_mod:
  "unat (of_nat (k mod 32768) :: u32) = k mod 32768" "unat (of_nat (k mod 512) :: u32) = k mod 512"
  "unat (of_nat (k mod 8) :: u8) = k mod 8"
  by (simp_all add: unat_of_nat mod_mod_cancel del: of_nat_mod)

lemma apu_wf_clock_after: "apu_wf b \<Longrightarrow> apu_wf (clock_after cycles a b)"
  using unat_small_mod(3) [of "unat (apu_frame_step a) + due_frames cycles a"]
  by (simp add: clock_after_def word_less_nat_alt)

lemma apu_tick_wf:
  assumes "apu_wf a" and "master_enabled a"
    and "unat (apu_frame_cycle_remainder a) + unat cycles < 2 ^ 32" "unat (apu_audio_cycle_remainder a) + unat cycles < 2 ^ 32"
    and "apu_tick cycles a = Some (step, a')"
  shows "apu_wf a'"
proof -
  have s8: "apu_frame_step a < 8"
    using assms(1) by (simp add: apu_wf_def)
  show ?thesis
    using assms(5) generate_samples_wf [OF assms(1), of "due_samples cycles a"] apu_wf_clock_after
    unfolding apu_tick_closed [OF assms(2) s8 assms(3,4)] by auto
qed

lemma apu_tick_returns:
  assumes "apu_wf a" and on: "master_enabled a"
    and "unat (apu_frame_cycle_remainder a) + unat cycles < 2 ^ 32" "unat (apu_audio_cycle_remainder a) + unat cycles < 2 ^ 32"
  shows "\<exists>step b. apu_tick cycles a = Some (step, clock_after cycles a b) \<and> apu_wf (clock_after cycles a b)
    \<and> master_enabled (clock_after cycles a b)"
proof -
  have s8: "apu_frame_step a < 8"
    using assms(1) by (simp add: apu_wf_def)
  obtain b where b: "generate_samples (due_samples cycles a) a = Some b" "apu_wf b"
    using generate_samples_wf [OF assms(1), of "due_samples cycles a"] by blast
  have "master_enabled (clock_after cycles a b)"
    using on generate_samples_status [OF b(1)] by (simp add: master_enabled_def clock_after_def)
  then show ?thesis
    using apu_wf_clock_after [OF b(2)] unfolding apu_tick_closed [OF on s8 assms(3,4)] b(1) by auto
qed

text \<open>C22. The audio clock. From a well-formed, enabled state and unless a 32-bit remainder wraps, a tick of n cycles never throws and keeps
  the state well formed: the frame sequencer advances once for every full 32768 cycles and reports its last step, one stereo sample is
  produced for every full 512 cycles, the remainders carry over, and the output buffer keeps at most 2048 samples.\<close>

theorem apu_tick_spec:
  assumes wf: "apu_wf a" and on: "master_enabled a"
    and "unat (apu_frame_cycle_remainder a) + unat cycles < 2 ^ 32" "unat (apu_audio_cycle_remainder a) + unat cycles < 2 ^ 32"
  defines "f \<equiv> unat (apu_frame_cycle_remainder a) + unat cycles" and "r \<equiv> unat (apu_audio_cycle_remainder a) + unat cycles"
  shows "\<exists>step a'. apu_tick cycles a = Some (step, a') \<and> apu_wf a'
    \<and> unat (apu_frame_cycle_remainder a') = f mod 32768 \<and> unat (apu_audio_cycle_remainder a') = r mod 512
    \<and> apu_frame_step_count a' = apu_frame_step_count a + of_nat (f div 32768)
    \<and> unat (apu_frame_step a') = (unat (apu_frame_step a) + f div 32768) mod 8
    \<and> step = (if f < 32768 then None else Some (frame_step_of (apu_frame_step a')))
    \<and> apu_audio_sample_count a' = apu_audio_sample_count a + of_nat (r div 512)
    \<and> rb_size (apu_audio_buffer a') = min 2048 (rb_size (apu_audio_buffer a) + r div 512)"
proof -
  have s8: "apu_frame_step a < 8"
    using wf by (simp add: apu_wf_def)
  obtain b where b: "generate_samples (due_samples cycles a) a = Some b" "apu_wf b"
    "apu_audio_sample_count b = apu_audio_sample_count a + of_nat (r div 512)"
    "rb_size (apu_audio_buffer b) = min 2048 (rb_size (apu_audio_buffer a) + r div 512)"
    using generate_samples_wf [OF wf, of "due_samples cycles a"] by (auto simp: due_samples_def r_def)
  show ?thesis
    using apu_wf_clock_after [OF b(2), of cycles a] apu_tick_closed [OF on s8 assms(3,4)] b
    by (auto simp: clock_after_def due_frames_def unat_small_mod f_def [symmetric] r_def [symmetric] div_eq_0_iff)
qed

lemma carry_over:
  fixes m :: nat
  shows "(A mod m + y) mod m = (A + y) mod m" and "A div m + (A mod m + y) div m = (A + y) div m"
proof -
  show "(A mod m + y) mod m = (A + y) mod m"
    by (simp add: mod_simps)
  show "A div m + (A mod m + y) div m = (A + y) div m"
    using div_add1_eq [of A y m] div_add1_eq [of "A mod m" y m] by simp
qed

text \<open>C21. Batching does not matter. Ticking the audio unit x cycles and then y cycles gives exactly the state of one tick of x + y
  cycles, samples included, and the last frame step of the two calls is the one the single call reports.\<close>

theorem apu_tick_split:
  assumes wf: "apu_wf a" and on: "master_enabled a"
    and small: "unat (apu_frame_cycle_remainder a) + unat x + unat y < 2 ^ 32"
      "unat (apu_audio_cycle_remainder a) + unat x + unat y < 2 ^ 32"
    and t1: "apu_tick x a = Some (s1, a1)" and t2: "apu_tick y a1 = Some (s2, a2)"
  shows "apu_tick (x + y) a = Some (if s2 = None then s1 else s2, a2)"
proof -
  let ?F = "unat (apu_frame_cycle_remainder a)" and ?R = "unat (apu_audio_cycle_remainder a)" and ?s = "unat (apu_frame_step a)"
  have xy: "unat (x + y) = unat x + unat y"
    using small(1) by (simp add: unat_word_ariths)
  have s8: "apu_frame_step a < 8"
    using wf by (simp add: apu_wf_def)
  have small_x: "?F + unat x < 2 ^ 32" "?R + unat x < 2 ^ 32"
    using small by linarith+
  obtain b1 where b1: "generate_samples (due_samples x a) a = Some b1" "a1 = clock_after x a b1"
    "s1 = (if due_frames x a = 0 then None else Some (frame_step_of (of_nat ((?s + due_frames x a) mod 8))))"
    using t1 unfolding apu_tick_closed [OF on s8 small_x] by auto
  have a1: "apu_wf a1" "master_enabled a1" "unat (apu_frame_cycle_remainder a1) = (?F + unat x) mod 32768"
    "unat (apu_audio_cycle_remainder a1) = (?R + unat x) mod 512" "unat (apu_frame_step a1) = (?s + due_frames x a) mod 8"
    "apu_frame_step_count a1 = apu_frame_step_count a + of_nat (due_frames x a)"
    using apu_tick_wf [OF wf on small_x t1] generate_samples_status [OF b1(1)] on
    by (simp_all add: due_frames_def b1(2) clock_after_def master_enabled_def unat_small_mod)
  have s8': "apu_frame_step a1 < 8"
    using a1(1) by (simp add: apu_wf_def)
  have small': "unat (apu_frame_cycle_remainder a1) + unat y < 2 ^ 32" "unat (apu_audio_cycle_remainder a1) + unat y < 2 ^ 32"
    using small mod_less_eq_dividend [of "?F + unat x" 32768] mod_less_eq_dividend [of "?R + unat x" 512] unfolding a1(3,4)
    by linarith+
  obtain b2 where b2: "generate_samples (due_samples y a1) b1 = Some b2" "a2 = clock_after y a1 (clock_after x a b2)"
    "s2 = (if due_frames y a1 = 0 then None else Some (frame_step_of (of_nat ((unat (apu_frame_step a1) + due_frames y a1) mod 8))))"
    using t2 unfolding apu_tick_closed [OF a1(2) s8' small'] unfolding b1(2) clock_after_def [of x a] generate_samples_clock
    by auto
  have due: "due_frames x a + due_frames y a1 = due_frames (x + y) a" "due_samples x a + due_samples y a1 = due_samples (x + y) a"
    using carry_over(2) [of "?F + unat x" 32768 "unat y"] carry_over(2) [of "?R + unat x" 512 "unat y"]
    by (simp_all add: due_frames_def due_samples_def a1 xy add.assoc)
  have gen: "generate_samples (due_samples (x + y) a) a = Some b2"
    using b1(1) b2(1) by (simp add: due(2) [symmetric] generate_samples_add)
  have step: "((?s + due_frames x a) mod 8 + due_frames y a1) mod 8 = (?s + due_frames (x + y) a) mod 8"
    by (simp add: mod_simps due(1) [symmetric] add.assoc)
  have clock: "a2 = clock_after (x + y) a b2"
    unfolding b2(2) clock_after_def [of y] clock_after_def [of x a] clock_after_def [of "x + y"] set_clock_fields a1 step
    using carry_over(1) [of "?F + unat x" 32768 "unat y"] carry_over(1) [of "?R + unat x" 512 "unat y"]
    by (simp add: xy add.assoc due(1) [symmetric])
  have big: "?F + unat (x + y) < 2 ^ 32" "?R + unat (x + y) < 2 ^ 32"
    using small by (simp_all add: xy)
  show ?thesis
    unfolding apu_tick_closed [OF on s8 big] gen
    using due(1) b1(3) b2(3) step by (auto simp: clock a1(5))
qed

definition playing_demo :: apu where
  "playing_demo = fifo_demo\<lparr>apu_frame_cycle_remainder := 32000, apu_audio_cycle_remainder := 100\<rparr>"

lemma playing_demo [simp]:
  "apu_wf playing_demo" "master_enabled playing_demo" "apu_frame_cycle_remainder playing_demo = 32000"
  "apu_audio_cycle_remainder playing_demo = 100" "rb_size (apu_audio_buffer playing_demo) = 0"
  "apu_audio_sample_count playing_demo = 0"
proof -
  have "apu_wf (b\<lparr>apu_frame_cycle_remainder := f, apu_audio_cycle_remainder := r\<rparr>) = apu_wf b" for b f r
    by (simp add: apu_wf_def)
  then show "apu_wf playing_demo"
    using apu_wf_reset by (simp add: playing_demo_def fifo_demo_def)
qed (simp_all add: playing_demo_def fifo_demo_def master_enabled_def kMasterEnable_def apu_reset_def ring_clear_def)

theorem apu_tick_spec_witness:
  "\<exists>step a'. apu_tick 1000 playing_demo = Some (step, a') \<and> unat (apu_frame_cycle_remainder a') = 232
     \<and> rb_size (apu_audio_buffer a') = 2"
  using apu_tick_spec [of playing_demo 1000] by auto

theorem apu_tick_split_witness:
  "\<exists>s1 a1 s2 a2. apu_tick 1000 playing_demo = Some (s1, a1) \<and> apu_tick 24 a1 = Some (s2, a2)
     \<and> apu_tick 1024 playing_demo = Some (if s2 = None then s1 else s2, a2)"
proof -
  obtain s1 b1 where t1: "apu_tick 1000 playing_demo = Some (s1, clock_after 1000 playing_demo b1)"
      "apu_wf (clock_after 1000 playing_demo b1)" "master_enabled (clock_after 1000 playing_demo b1)"
    using apu_tick_returns [of playing_demo 1000] by auto
  obtain s2 a2 where t2: "apu_tick 24 (clock_after 1000 playing_demo b1) = Some (s2, a2)"
    using apu_tick_returns [OF t1(2,3), of 24] by (auto simp: clock_after_def [of 1000])
  have "apu_tick (1000 + 24) playing_demo = Some (if s2 = None then s1 else s2, a2)"
    by (rule apu_tick_split [OF _ _ _ _ t1(1) t2]) simp_all
  then show ?thesis
    using t1(1) t2 by auto
qed

section \<open>Save states\<close>

text \<open>Save states of the audio unit. Loading the saved state of a well-formed unit gives that unit back; a state whose ring buffer
  indices are out of range is refused and changes nothing.\<close>

lemma apu_save_load_state:
  "(apu_wf a \<longrightarrow> apu_load_state (apu_save_state a) b = (True, a))
   \<and> (\<not> fst (apu_load_state st b) \<longrightarrow> snd (apu_load_state st b) = b)
   \<and> (f \<in> set (as_fifos st) \<and> (kFifoCapacity \<le> rb_head f \<or> kFifoCapacity < rb_size f) \<longrightarrow> apu_load_state st b = (False, b))
   \<and> (kAudioBufferCapacity \<le> as_audio_buffer_head st \<or> kAudioBufferCapacity < as_audio_buffer_size st \<longrightarrow>
        apu_load_state st b = (False, b))"
proof (intro conjI impI)
  show "apu_load_state (apu_save_state a) b = (True, a)" if "apu_wf a"
    using that by (auto simp: apu_load_state_def apu_save_state_def apu_wf_def ring_wf_def list_all_iff list_ex_iff)
qed (auto simp: apu_load_state_def list_ex_iff)

definition zero_period_state :: apu_state where
  "zero_period_state = (apu_save_state playing_demo)\<lparr>as_square_channels :=
     [\<lparr>sq_enabled = True, sq_duty = 2, sq_volume = 15, sq_period_samples = 0, sq_phase = 0\<rparr>, silent_square]\<rparr>"

text \<open>C24. A gap in the validation. A state that differs from a sound one only in a square channel with period zero is accepted, and
  the next audio sample divides by zero.\<close>

theorem zero_period_state_accepted:
  "fst (apu_load_state zero_period_state apu_reset)
   \<and> apu_tick 512 (snd (apu_load_state zero_period_state apu_reset)) = None"
proof -
  let ?a = "playing_demo\<lparr>apu_squares :=
      [\<lparr>sq_enabled = True, sq_duty = 2, sq_volume = 15, sq_period_samples = 0, sq_phase = 0\<rparr>, silent_square]\<rparr>"
  have load: "apu_load_state zero_period_state apu_reset = (True, ?a)"
    using playing_demo(1)
    by (auto simp: zero_period_state_def apu_load_state_def apu_save_state_def apu_wf_def ring_wf_def list_all_iff list_ex_iff)
  have on: "master_enabled ?a" "apu_frame_step ?a < 8"
    using playing_demo(1,2) by (simp_all add: master_enabled_def apu_wf_def)
  have "generate_audio_sample ?a = None"
    by (simp add: generate_audio_sample_def mix_sample_def mix_sums_def psg_channel_outputs_def square_output_def checked_div_def)
  moreover have "due_samples 512 ?a = Suc 0"
    by (simp add: due_samples_def)
  ultimately have gen: "generate_samples (due_samples 512 ?a) ?a = None"
    by simp
  have "apu_tick 512 ?a = None"
    by (subst apu_tick_closed [OF on]) (simp_all only: gen, simp_all)
  then show ?thesis
    by (simp add: load)
qed

end
