(* ===== verification/Cartridge_Save.thy ===== *)
theory Cartridge_Save
  imports Address_Map
begin

text \<open>
  The game pak save memory of \<open>MemoryBus\<close> (\<open>src/src/core/memory_bus.cpp\<close>): the backing bytes, the save type and
  the flash command state machine. The fields are a record of their own, which the record of the whole bus
  extends, so that the functions below apply to the bus as they stand. Offsets into the backing store that the code
  reads with \<open>.at\<close> are \<^const>\<open>vec_at\<close>: \<^const>\<open>None\<close> is \<open>std::out_of_range\<close>.

  The lemmas show that no access leaves the backing store, that bytes change only at the end of a complete unlock
  sequence, and what programming, sector erase, chip erase and EEPROM blocks do.
\<close>

section \<open>State\<close>

datatype game_pak_save_type = Save_none | Sram32k | Flash64k | Flash128k | Eeprom512 | Eeprom8k

datatype flash_command_state =
  Flash_idle | Flash_unlock1 | Flash_unlock2 | Flash_program_data | Flash_erase_unlock1
| Flash_erase_unlock2 | Flash_erase_command | Flash_bank_select

record cartridge_save =
  game_pak_save :: "u8 list"
  game_pak_save_type :: game_pak_save_type
  flash_command_state :: flash_command_state
  flash_id_mode :: bool
  flash_bank :: u8

record flash_protocol_status =
  fps_id_mode :: bool
  fps_bank :: u8
  fps_command_state :: flash_command_state

definition kSram32kSize :: nat where "kSram32kSize = 32 * 1024"
definition kFlash64kSize :: nat where "kFlash64kSize = 64 * 1024"
definition kFlash128kSize :: nat where "kFlash128kSize = 128 * 1024"
definition kEeprom512Size :: nat where "kEeprom512Size = 512"
definition kEeprom8kSize :: nat where "kEeprom8kSize = 8 * 1024"
definition kFlashUnlockAddress1 :: u32 where "kFlashUnlockAddress1 = 0x5555"
definition kFlashUnlockAddress2 :: u32 where "kFlashUnlockAddress2 = 0x2AAA"
definition kFlashBankSelectAddress :: u32 where "kFlashBankSelectAddress = 0"
definition kFlashBankSize :: nat where "kFlashBankSize = 64 * 1024"
definition kFlashSectorSize :: nat where "kFlashSectorSize = 4 * 1024"
definition kFlashManufacturerId :: u8 where "kFlashManufacturerId = 0xC2"
definition kFlash64DeviceId :: u8 where "kFlash64DeviceId = 0x1C"
definition kFlash128DeviceId :: u8 where "kFlash128DeviceId = 0x09"

lemmas save_size_defs = kSram32kSize_def kFlash64kSize_def kFlash128kSize_def kEeprom512Size_def kEeprom8kSize_def
lemmas flash_const_defs = kFlashUnlockAddress1_def kFlashUnlockAddress2_def kFlashBankSelectAddress_def

primrec save_size_for_type :: "game_pak_save_type \<Rightarrow> nat" where
  "save_size_for_type Save_none = 0"
| "save_size_for_type Sram32k = kSram32kSize"
| "save_size_for_type Flash64k = kFlash64kSize"
| "save_size_for_type Flash128k = kFlash128kSize"
| "save_size_for_type Eeprom512 = kEeprom512Size"
| "save_size_for_type Eeprom8k = kEeprom8kSize"

section \<open>Backing store\<close>

definition reset_flash_protocol :: "'z cartridge_save_scheme \<Rightarrow> 'z cartridge_save_scheme" where
  "reset_flash_protocol c = c\<lparr>flash_command_state := Flash_idle, flash_id_mode := False\<rparr>"

definition clear_game_pak_save :: "'z cartridge_save_scheme \<Rightarrow> 'z cartridge_save_scheme" where
  "clear_game_pak_save c =
     reset_flash_protocol (c\<lparr>game_pak_save := [], game_pak_save_type := Save_none, flash_bank := 0\<rparr>)"

definition configure_game_pak_save ::
  "game_pak_save_type \<Rightarrow> 'z cartridge_save_scheme \<Rightarrow> bool \<times> 'z cartridge_save_scheme" where
  "configure_game_pak_save type c =
     (let size = save_size_for_type type in
      if size = 0 then (type = Save_none, clear_game_pak_save c)
      else (True, reset_flash_protocol
              (c\<lparr>game_pak_save_type := type, game_pak_save := vec_fill size 0xFF, flash_bank := 0\<rparr>)))"

definition has_game_pak_save :: "'z cartridge_save_scheme \<Rightarrow> bool" where
  "has_game_pak_save c \<longleftrightarrow> game_pak_save_type c \<noteq> Save_none \<and> game_pak_save c \<noteq> []"

definition game_pak_save_size :: "'z cartridge_save_scheme \<Rightarrow> nat" where
  "game_pak_save_size c = length (game_pak_save c)"

definition get_flash_protocol_status :: "'z cartridge_save_scheme \<Rightarrow> flash_protocol_status" where
  "get_flash_protocol_status c =
     \<lparr>fps_id_mode = flash_id_mode c, fps_bank = flash_bank c, fps_command_state = flash_command_state c\<rparr>"

definition import_game_pak_save ::
  "game_pak_save_type \<Rightarrow> u8 list \<Rightarrow> 'z cartridge_save_scheme \<Rightarrow> bool \<times> 'z cartridge_save_scheme" where
  "import_game_pak_save type data c =
     (let size = save_size_for_type type in
      if size = 0 \<or> length data \<noteq> size then (False, c)
      else (True, reset_flash_protocol
              (c\<lparr>game_pak_save_type := type, game_pak_save := data, flash_bank := 0\<rparr>)))"

definition export_game_pak_save :: "'z cartridge_save_scheme \<Rightarrow> u8 list" where
  "export_game_pak_save c = game_pak_save c"

section \<open>EEPROM blocks\<close>

definition eeprom_block_count :: "'z cartridge_save_scheme \<Rightarrow> u16" where
  "eeprom_block_count c =
     (if game_pak_save_type c \<noteq> Eeprom512 \<and> game_pak_save_type c \<noteq> Eeprom8k then 0
      else of_nat (length (game_pak_save c) div 8))"

text \<open>The data argument is a \<open>std::array\<close> of eight bytes.\<close>

definition eeprom_write_block ::
  "u16 \<Rightarrow> u8 list \<Rightarrow> 'z cartridge_save_scheme \<Rightarrow> (bool \<times> 'z cartridge_save_scheme) throws" where
  "eeprom_write_block block_index data c =
     (let block_count = eeprom_block_count c in
      if block_count = 0 \<or> block_index \<ge> block_count then Some (False, c)
      else do {
        save \<leftarrow> vec_blit (game_pak_save c) (unat block_index * 8) data;
        Some (True, c\<lparr>game_pak_save := save\<rparr>)})"

definition eeprom_read_block :: "u16 \<Rightarrow> 'z cartridge_save_scheme \<Rightarrow> u8 list option throws" where
  "eeprom_read_block block_index c =
     (let block_count = eeprom_block_count c in
      if block_count = 0 \<or> block_index \<ge> block_count then Some None
      else do {
        data \<leftarrow> vec_slice (game_pak_save c) (unat block_index * 8) 8;
        Some (Some data)})"

section \<open>The memory aperture\<close>

definition is_flash_save :: "'z cartridge_save_scheme \<Rightarrow> bool" where
  "is_flash_save c \<longleftrightarrow> game_pak_save_type c = Flash64k \<or> game_pak_save_type c = Flash128k"

definition game_pak_save_supports_memory_aperture :: "'z cartridge_save_scheme \<Rightarrow> bool" where
  "game_pak_save_supports_memory_aperture c \<longleftrightarrow>
     has_game_pak_save c
     \<and> (game_pak_save_type c = Sram32k \<or> game_pak_save_type c = Flash64k \<or> game_pak_save_type c = Flash128k)"

definition flash_effective_offset :: "u32 \<Rightarrow> 'z cartridge_save_scheme \<Rightarrow> nat" where
  "flash_effective_offset aperture_offset c =
     (let bank_base = (if game_pak_save_type c = Flash128k then unat (flash_bank c) * kFlashBankSize else 0)
      in bank_base + unat aperture_offset mod kFlashBankSize)"

definition read_flash_byte :: "u32 \<Rightarrow> 'z cartridge_save_scheme \<Rightarrow> u8 option throws" where
  "read_flash_byte aperture_offset c =
     (if \<not> has_game_pak_save c \<or> \<not> is_flash_save c then Some None
      else if flash_id_mode c then
        (let id_offset = unat aperture_offset mod kFlashBankSize in
         Some (Some (if id_offset = 0 then kFlashManufacturerId
                     else if id_offset = 1 then
                       (if game_pak_save_type c = Flash128k then kFlash128DeviceId else kFlash64DeviceId)
                     else 0xFF)))
      else do {
        byte \<leftarrow> vec_at (game_pak_save c) (flash_effective_offset aperture_offset c);
        Some (Some byte)})"

definition write_flash_byte ::
  "u32 \<Rightarrow> u8 \<Rightarrow> 'z cartridge_save_scheme \<Rightarrow> (bool \<times> 'z cartridge_save_scheme) throws" where
  "write_flash_byte aperture_offset v c =
     (if \<not> has_game_pak_save c \<or> \<not> is_flash_save c then Some (False, c)
      else
        (let command_offset = unat aperture_offset mod kFlashBankSize;
             enter = (\<lambda>state. Some (True, c\<lparr>flash_command_state := state\<rparr>));
             refuse = Some (False, reset_flash_protocol c)
         in if flash_command_state c = Flash_idle \<and> v = 0xF0 then Some (True, reset_flash_protocol c)
         else case flash_command_state c of
           Flash_idle \<Rightarrow>
             if command_offset = unat kFlashUnlockAddress1 \<and> v = 0xAA then enter Flash_unlock1 else Some (False, c)
         | Flash_unlock1 \<Rightarrow>
             if command_offset = unat kFlashUnlockAddress2 \<and> v = 0x55 then enter Flash_unlock2 else refuse
         | Flash_unlock2 \<Rightarrow>
             if command_offset \<noteq> unat kFlashUnlockAddress1 then refuse
             else if v = 0x90 then Some (True, c\<lparr>flash_id_mode := True, flash_command_state := Flash_idle\<rparr>)
             else if v = 0xA0 then enter Flash_program_data
             else if v = 0x80 then enter Flash_erase_unlock1
             else if v = 0xB0 then enter Flash_bank_select
             else if v = 0xF0 then Some (True, reset_flash_protocol c)
             else refuse
         | Flash_program_data \<Rightarrow>
             (let data_offset = flash_effective_offset aperture_offset c in do {
                old \<leftarrow> vec_at (game_pak_save c) data_offset;
                save \<leftarrow> vec_put (game_pak_save c) data_offset (old AND v);
                Some (True, c\<lparr>game_pak_save := save, flash_command_state := Flash_idle\<rparr>)})
         | Flash_erase_unlock1 \<Rightarrow>
             if command_offset = unat kFlashUnlockAddress1 \<and> v = 0xAA then enter Flash_erase_unlock2 else refuse
         | Flash_erase_unlock2 \<Rightarrow>
             if command_offset = unat kFlashUnlockAddress2 \<and> v = 0x55 then enter Flash_erase_command else refuse
         | Flash_erase_command \<Rightarrow>
             if command_offset = unat kFlashUnlockAddress1 \<and> v = 0x10 then
               Some (True, c\<lparr>game_pak_save := vec_fill (length (game_pak_save c)) 0xFF,
                             flash_command_state := Flash_idle\<rparr>)
             else if v = 0x30 then
               (let data_offset = flash_effective_offset aperture_offset c;
                    sector_start = (data_offset div kFlashSectorSize) * kFlashSectorSize in do {
                  save \<leftarrow> vec_fill_range (game_pak_save c) sector_start kFlashSectorSize 0xFF;
                  Some (True, c\<lparr>game_pak_save := save, flash_command_state := Flash_idle\<rparr>)})
             else refuse
         | Flash_bank_select \<Rightarrow>
             if command_offset = unat kFlashBankSelectAddress then
               Some (True, c\<lparr>flash_bank := (if game_pak_save_type c = Flash128k then v AND 0x01 else 0),
                             flash_command_state := Flash_idle\<rparr>)
             else refuse))"

definition read_game_pak_save_byte :: "u32 \<Rightarrow> 'z cartridge_save_scheme \<Rightarrow> u8 option throws" where
  "read_game_pak_save_byte aperture_offset c =
     (if \<not> game_pak_save_supports_memory_aperture c then Some None
      else if is_flash_save c then read_flash_byte aperture_offset c
      else do {
        byte \<leftarrow> vec_at (game_pak_save c) (unat aperture_offset mod length (game_pak_save c));
        Some (Some byte)})"

definition write_game_pak_save_byte ::
  "u32 \<Rightarrow> u8 \<Rightarrow> 'z cartridge_save_scheme \<Rightarrow> (bool \<times> 'z cartridge_save_scheme) throws" where
  "write_game_pak_save_byte aperture_offset v c =
     (if \<not> game_pak_save_supports_memory_aperture c then Some (False, c)
      else if is_flash_save c then write_flash_byte aperture_offset v c
      else do {
        save \<leftarrow> vec_put (game_pak_save c) (unat aperture_offset mod length (game_pak_save c)) v;
        Some (True, c\<lparr>game_pak_save := save\<rparr>)})"

section \<open>Invariant and safety\<close>

definition save_wf :: "'z cartridge_save_scheme \<Rightarrow> bool" where
  "save_wf c \<longleftrightarrow> length (game_pak_save c) = save_size_for_type (game_pak_save_type c)
     \<and> flash_bank c \<le> 1 \<and> (flash_bank c \<noteq> 0 \<longrightarrow> game_pak_save_type c = Flash128k)"

lemma save_wf_has: "save_wf c \<Longrightarrow> has_game_pak_save c \<longleftrightarrow> game_pak_save_type c \<noteq> Save_none"
  by (cases "game_pak_save_type c") (auto simp: save_wf_def has_game_pak_save_def save_size_defs)

lemma save_wf_clear [wf_intros]: "save_wf (clear_game_pak_save c)"
  by (simp add: save_wf_def clear_game_pak_save_def reset_flash_protocol_def)

lemma save_wf_reset [wf_intros]: "save_wf c \<Longrightarrow> save_wf (reset_flash_protocol c)"
  by (simp add: save_wf_def reset_flash_protocol_def)

lemma save_wf_configure [wf_intros]: "save_wf (snd (configure_game_pak_save type c))"
  by (simp add: configure_game_pak_save_def Let_def save_wf_clear)
    (simp add: save_wf_def reset_flash_protocol_def)

lemma save_wf_import [wf_intros]: "save_wf c \<Longrightarrow> save_wf (snd (import_game_pak_save type data c))"
  by (simp add: import_game_pak_save_def Let_def) (simp add: save_wf_def reset_flash_protocol_def)

lemma flash_effective_offset_less:
  assumes "save_wf c" and "is_flash_save c"
  shows "flash_effective_offset a c < length (game_pak_save c)"
proof -
  have "unat (flash_bank c) \<le> 1"
    using assms(1) by (simp add: save_wf_def word_le_nat_alt)
  moreover have "unat a mod 65536 < 65536"
    by simp
  ultimately show ?thesis
    using assms by (auto simp: save_wf_def is_flash_save_def flash_effective_offset_def kFlashBankSize_def save_size_defs)
qed

lemma sector_in_range:
  assumes "save_wf c" and "is_flash_save c"
  shows "flash_effective_offset a c div kFlashSectorSize * kFlashSectorSize + kFlashSectorSize \<le> length (game_pak_save c)"
proof -
  have "length (game_pak_save c) = 4096 * 16 \<or> length (game_pak_save c) = 4096 * 32"
    using assms by (auto simp: save_wf_def is_flash_save_def save_size_defs)
  moreover have "flash_effective_offset a c < length (game_pak_save c)"
    using assms by (rule flash_effective_offset_less)
  ultimately show ?thesis
    unfolding kFlashSectorSize_def by auto
qed

lemma write_flash_byte_safe:
  assumes "save_wf c"
  shows "\<exists>ok c'. write_flash_byte a v c = Some (ok, c') \<and> save_wf c'
     \<and> game_pak_save_type c' = game_pak_save_type c"
proof (cases "has_game_pak_save c \<and> is_flash_save c")
  case True
  then have l: "flash_effective_offset a c < length (game_pak_save c)"
    "flash_effective_offset a c div kFlashSectorSize * kFlashSectorSize + kFlashSectorSize \<le> length (game_pak_save c)"
    using assms flash_effective_offset_less sector_in_range by blast+
  obtain ys where ys: "vec_fill_range (game_pak_save c)
      (flash_effective_offset a c div kFlashSectorSize * kFlashSectorSize) kFlashSectorSize 0xFF = Some ys"
    "length ys = length (game_pak_save c)"
    using l(2) vec_fill_range_nth(1) by (fastforce simp: vec_fill_range_def)
  have "v AND 1 \<le> 1"
    by (simp add: word_le_nat_alt word_nat)
  then show ?thesis
    using assms True l(1) ys
    by (cases "flash_command_state c")
      (auto simp: write_flash_byte_def save_wf_def reset_flash_protocol_def Let_def)
qed (use assms in \<open>auto simp: write_flash_byte_def\<close>)

lemma write_game_pak_save_byte_safe:
  assumes "save_wf c"
  shows "\<exists>ok c'. write_game_pak_save_byte a v c = Some (ok, c') \<and> save_wf c'
     \<and> game_pak_save_type c' = game_pak_save_type c"
proof (cases "game_pak_save_supports_memory_aperture c \<and> \<not> is_flash_save c")
  case True
  then have "unat a mod length (game_pak_save c) < length (game_pak_save c)"
    by (simp add: game_pak_save_supports_memory_aperture_def has_game_pak_save_def)
  then show ?thesis
    using assms True by (auto simp: write_game_pak_save_byte_def save_wf_def)
qed (use assms write_flash_byte_safe in \<open>auto simp: write_game_pak_save_byte_def\<close>)

text \<open>The aperture touches nothing but the save record.\<close>

lemma write_flash_byte_more:
  "write_flash_byte a v c = Some (ok, c') \<Longrightarrow> cartridge_save.more c' = cartridge_save.more c"
  by (cases "flash_command_state c")
    (auto simp: write_flash_byte_def reset_flash_protocol_def Let_def split: if_splits bind_splits)

lemma write_game_pak_save_byte_more:
  "write_game_pak_save_byte a v c = Some (ok, c') \<Longrightarrow> cartridge_save.more c' = cartridge_save.more c"
  using write_flash_byte_more [of a v c ok c']
  by (auto simp: write_game_pak_save_byte_def split: if_splits bind_splits)

lemma read_game_pak_save_byte_safe:
  assumes "save_wf c"
  shows "\<exists>r. read_game_pak_save_byte a c = Some r"
  using assms flash_effective_offset_less [OF assms]
  by (auto simp: read_game_pak_save_byte_def read_flash_byte_def Let_def
      game_pak_save_supports_memory_aperture_def has_game_pak_save_def)

section \<open>Data changes only behind a complete unlock sequence\<close>

text \<open>The command history of a chip: one entry per byte written to the aperture, its offset reduced to the bank.\<close>

inductive flash_trace ::
  "'z cartridge_save_scheme \<Rightarrow> (nat \<times> u8) list \<Rightarrow> 'z cartridge_save_scheme \<Rightarrow> bool" for c0 where
  trace_start: "flash_trace c0 [] c0"
| trace_write: "flash_trace c0 h c \<Longrightarrow> write_flash_byte a v c = Some (ok, c') \<Longrightarrow>
    flash_trace c0 (h @ [(unat a mod kFlashBankSize, v)]) c'"

definition unlock_sequence :: "(nat \<times> u8) list" where
  "unlock_sequence = [(0x5555, 0xAA), (0x2AAA, 0x55)]"

primrec state_history :: "flash_command_state \<Rightarrow> (nat \<times> u8) list" where
  "state_history Flash_idle = []"
| "state_history Flash_unlock1 = [(0x5555, 0xAA)]"
| "state_history Flash_unlock2 = unlock_sequence"
| "state_history Flash_program_data = unlock_sequence @ [(0x5555, 0xA0)]"
| "state_history Flash_erase_unlock1 = unlock_sequence @ [(0x5555, 0x80)]"
| "state_history Flash_erase_unlock2 = unlock_sequence @ [(0x5555, 0x80)] @ [(0x5555, 0xAA)]"
| "state_history Flash_erase_command = unlock_sequence @ [(0x5555, 0x80)] @ unlock_sequence"
| "state_history Flash_bank_select = unlock_sequence @ [(0x5555, 0xB0)]"

text \<open>Every transition either falls back to a state that requires nothing or extends the required history.\<close>

lemma write_flash_byte_history:
  assumes "write_flash_byte a v c = Some (ok, c')" and "has_game_pak_save c" "is_flash_save c"
  shows "state_history (flash_command_state c') = []
     \<or> state_history (flash_command_state c') =
         state_history (flash_command_state c) @ [(unat a mod kFlashBankSize, v)]"
  using assms
  by (cases "flash_command_state c")
    (auto simp: write_flash_byte_def Let_def reset_flash_protocol_def unlock_sequence_def flash_const_defs
      split: if_splits bind_splits)

lemma write_flash_byte_data:
  assumes "write_flash_byte a v c = Some (ok, c')" and "game_pak_save c' \<noteq> game_pak_save c"
  shows "flash_command_state c = Flash_program_data
     \<or> flash_command_state c = Flash_erase_command
        \<and> (unat a mod kFlashBankSize = 0x5555 \<and> v = 0x10 \<or> v = 0x30)"
  using assms
  by (cases "flash_command_state c")
    (auto simp: write_flash_byte_def Let_def reset_flash_protocol_def flash_const_defs split: if_splits)

lemma flash_trace_history:
  assumes "flash_trace c0 h c" and "save_wf c0" "is_flash_save c0" "flash_command_state c0 = Flash_idle"
  shows "save_wf c \<and> is_flash_save c \<and> (\<exists>p. h = p @ state_history (flash_command_state c))"
  using assms
proof (induction rule: flash_trace.induct)
  case (trace_write h c a v ok c')
  then have c: "save_wf c" "is_flash_save c" and "\<exists>p. h = p @ state_history (flash_command_state c)"
    by simp_all
  then have "has_game_pak_save c"
    by (auto simp: save_wf_has is_flash_save_def)
  then have "\<exists>p. h @ [(unat a mod kFlashBankSize, v)] = p @ state_history (flash_command_state c')"
    using write_flash_byte_history [OF trace_write.hyps(2)] c(2) \<open>\<exists>p. h = _\<close> by fastforce
  then show ?case
    using write_flash_byte_safe [OF c(1), of a v] trace_write.hyps(2) c(2) by (auto simp: is_flash_save_def)
qed simp

text \<open>C4. Flash write protection. Whatever bytes a program stores to the aperture of an idle flash chip, a store changes
  the backing data only if it ends a complete command: the stores just before it were the two unlock cycles and the program
  command, or the two unlock cycles, the erase command and the two unlock cycles again with this store being the chip erase
  or a sector erase.\<close>

theorem flash_write_protection:
  assumes "save_wf c0" and "is_flash_save c0" and "flash_command_state c0 = Flash_idle"
    and "flash_trace c0 h c" and "write_flash_byte a v c = Some (ok, c')" and "game_pak_save c' \<noteq> game_pak_save c"
  shows "\<exists>p. h = p @ [(0x5555, 0xAA), (0x2AAA, 0x55), (0x5555, 0xA0)]
     \<or> h = p @ [(0x5555, 0xAA), (0x2AAA, 0x55), (0x5555, 0x80), (0x5555, 0xAA), (0x2AAA, 0x55)]
        \<and> (unat a mod kFlashBankSize = 0x5555 \<and> v = 0x10 \<or> v = 0x30)"
  using flash_trace_history [OF assms(4,1,2,3)] write_flash_byte_data [OF assms(5,6)]
  by (auto simp: unlock_sequence_def)

definition flash_demo :: cartridge_save where
  "flash_demo = snd (configure_game_pak_save Flash128k
     \<lparr>game_pak_save = [], game_pak_save_type = Save_none, flash_command_state = Flash_idle,
      flash_id_mode = False, flash_bank = 0\<rparr>)"

lemma flash_demo:
  "save_wf flash_demo" "is_flash_save flash_demo" "flash_command_state flash_demo = Flash_idle"
  "flash_id_mode flash_demo = False" "game_pak_save_type flash_demo = Flash128k" "flash_bank flash_demo = 0"
  "game_pak_save flash_demo = vec_fill 131072 0xFF"
proof -
  show "save_wf flash_demo"
    unfolding flash_demo_def by (rule save_wf_configure)
qed (simp_all add: flash_demo_def configure_game_pak_save_def reset_flash_protocol_def is_flash_save_def save_size_defs)

section \<open>Commands\<close>

definition flash_writes ::
  "(u32 \<times> u8) list \<Rightarrow> 'z cartridge_save_scheme \<Rightarrow> 'z cartridge_save_scheme throws" where
  "flash_writes ws c = foldM (\<lambda>(a, v) c. map_option snd (write_game_pak_save_byte a v c)) ws c"

definition flash_program_command :: "u32 \<Rightarrow> u8 \<Rightarrow> (u32 \<times> u8) list" where
  "flash_program_command a v = [(0x5555, 0xAA), (0x2AAA, 0x55), (0x5555, 0xA0), (a, v)]"

definition flash_sector_erase_command :: "u32 \<Rightarrow> (u32 \<times> u8) list" where
  "flash_sector_erase_command a =
     [(0x5555, 0xAA), (0x2AAA, 0x55), (0x5555, 0x80), (0x5555, 0xAA), (0x2AAA, 0x55), (a, 0x30)]"

definition flash_ready :: "'z cartridge_save_scheme \<Rightarrow> bool" where
  "flash_ready c \<longleftrightarrow> save_wf c \<and> is_flash_save c \<and> flash_command_state c = Flash_idle"

lemma flash_ready_aperture:
  assumes "save_wf c" and "is_flash_save c"
  shows "write_game_pak_save_byte a v c = write_flash_byte a v c" "has_game_pak_save c"
    "read_game_pak_save_byte a c = read_flash_byte a c"
  using assms save_wf_has [OF assms(1)]
  by (auto simp: write_game_pak_save_byte_def read_game_pak_save_byte_def game_pak_save_supports_memory_aperture_def
      is_flash_save_def)

text \<open>The aperture write on a flash chip in a given state, with everything but the state folded away.\<close>

lemma flash_step:
  assumes "save_wf c" and "is_flash_save c"
  shows "save_wf (c\<lparr>flash_command_state := s\<rparr>)" "is_flash_save (c\<lparr>flash_command_state := s\<rparr>)"
    "has_game_pak_save (c\<lparr>flash_command_state := s\<rparr>)"
    "flash_effective_offset a (c\<lparr>flash_command_state := s\<rparr>) = flash_effective_offset a c"
    "write_game_pak_save_byte a v (c\<lparr>flash_command_state := s\<rparr>) = write_flash_byte a v (c\<lparr>flash_command_state := s\<rparr>)"
proof -
  show wf: "save_wf (c\<lparr>flash_command_state := s\<rparr>)" "is_flash_save (c\<lparr>flash_command_state := s\<rparr>)"
    using assms by (simp_all add: save_wf_def is_flash_save_def)
  show "has_game_pak_save (c\<lparr>flash_command_state := s\<rparr>)"
    "write_game_pak_save_byte a v (c\<lparr>flash_command_state := s\<rparr>) = write_flash_byte a v (c\<lparr>flash_command_state := s\<rparr>)"
    using flash_ready_aperture [OF wf] by simp_all
  show "flash_effective_offset a (c\<lparr>flash_command_state := s\<rparr>) = flash_effective_offset a c"
    by (simp add: flash_effective_offset_def)
qed

lemma flash_program_effect:
  fixes a :: u32
  assumes "flash_ready c"
  defines "i \<equiv> flash_effective_offset a c"
  shows "flash_writes (flash_program_command a v) c =
    Some (c\<lparr>game_pak_save := (game_pak_save c)[i := game_pak_save c ! i AND v]\<rparr>)"
proof -
  have c: "save_wf c" "is_flash_save c" "flash_command_state c = Flash_idle"
    using assms(1) by (simp_all add: flash_ready_def)
  have "i < length (game_pak_save c)"
    unfolding i_def using c by (intro flash_effective_offset_less)
  moreover have "c\<lparr>game_pak_save := x, flash_command_state := Flash_idle\<rparr> = c\<lparr>game_pak_save := x\<rparr>" for x
    using c(3) by simp
  ultimately show ?thesis
    using c flash_ready_aperture [OF c(1,2)] flash_step [OF c(1,2)]
    by (simp add: flash_writes_def flash_program_command_def write_flash_byte_def kFlashBankSize_def flash_const_defs
        i_def Let_def)
qed

lemma flash_sector_erase_effect:
  fixes a :: u32
  assumes "flash_ready c"
  defines "start \<equiv> flash_effective_offset a c div kFlashSectorSize * kFlashSectorSize"
  shows "\<exists>save. flash_writes (flash_sector_erase_command a) c = Some (c\<lparr>game_pak_save := save\<rparr>)
     \<and> length save = length (game_pak_save c)
     \<and> (\<forall>i < length save. save ! i =
          (if start \<le> i \<and> i < start + kFlashSectorSize then 0xFF else game_pak_save c ! i))"
proof -
  have c: "save_wf c" "is_flash_save c" "flash_command_state c = Flash_idle"
    using assms(1) by (simp_all add: flash_ready_def)
  obtain save where save: "vec_fill_range (game_pak_save c) start kFlashSectorSize 0xFF = Some save"
    using sector_in_range [OF c(1,2), of a] unfolding start_def by (auto simp: vec_fill_range_def)
  moreover have "c\<lparr>game_pak_save := x, flash_command_state := Flash_idle\<rparr> = c\<lparr>game_pak_save := x\<rparr>" for x
    using c(3) by simp
  ultimately have "flash_writes (flash_sector_erase_command a) c = Some (c\<lparr>game_pak_save := save\<rparr>)"
    using c flash_ready_aperture [OF c(1,2)] flash_step [OF c(1,2)] unfolding start_def
    by (simp add: flash_writes_def flash_sector_erase_command_def write_flash_byte_def kFlashBankSize_def
        flash_const_defs Let_def)
  then show ?thesis
    using vec_fill_range_nth [OF save] by auto
qed

text \<open>C31. Erase, program, read. On an idle flash chip that is not in ID mode, erasing the sector of an address and then
  programming a byte there with the documented command sequences makes the aperture read that byte back; all other bytes
  of the sector read 0xFF and every byte outside the sector is unchanged.\<close>

theorem flash_erase_program_read:
  assumes "flash_ready c" and "\<not> flash_id_mode c"
  shows "\<exists>c'. flash_writes (flash_sector_erase_command a @ flash_program_command a v) c = Some c'
    \<and> flash_ready c' \<and> read_game_pak_save_byte a c' = Some (Some v)
    \<and> (\<forall>i < length (game_pak_save c). i \<noteq> flash_effective_offset a c \<longrightarrow> game_pak_save c' ! i =
         (if i div kFlashSectorSize = flash_effective_offset a c div kFlashSectorSize then 0xFF
          else game_pak_save c ! i))"
proof -
  let ?o = "flash_effective_offset a c"
  let ?s = "?o div kFlashSectorSize * kFlashSectorSize"
  obtain save where e: "flash_writes (flash_sector_erase_command a) c = Some (c\<lparr>game_pak_save := save\<rparr>)"
    and len: "length save = length (game_pak_save c)"
    and at: "\<And>i. i < length save \<Longrightarrow> save ! i =
          (if ?s \<le> i \<and> i < ?s + kFlashSectorSize then 0xFF else game_pak_save c ! i)"
    using flash_sector_erase_effect [OF assms(1), of a] by blast
  have in_sector: "?s \<le> i \<and> i < ?s + kFlashSectorSize \<longleftrightarrow> i div kFlashSectorSize = ?o div kFlashSectorSize" for i
    by (rule div_block_iff) (simp add: kFlashSectorSize_def)
  have o: "?o < length save"
    using flash_effective_offset_less [of c a] assms(1) len by (simp add: flash_ready_def)
  let ?c1 = "c\<lparr>game_pak_save := save\<rparr>" and ?c2 = "c\<lparr>game_pak_save := save[?o := v]\<rparr>"
  have r: "flash_ready ?c1" "flash_ready ?c2"
    using assms(1) len by (simp_all add: flash_ready_def save_wf_def is_flash_save_def)
  have same: "flash_effective_offset a ?c1 = ?o" "flash_effective_offset a ?c2 = ?o"
    by (simp_all add: flash_effective_offset_def)
  have "save ! ?o AND v = v"
    using at [OF o] in_sector [of ?o] by simp
  then have p: "flash_writes (flash_program_command a v) ?c1 = Some ?c2"
    using flash_program_effect [OF r(1), of a v] same by simp
  have "flash_writes (flash_sector_erase_command a @ flash_program_command a v) c = Some ?c2"
    using e p by (simp add: flash_writes_def foldM_append)
  moreover have "read_game_pak_save_byte a ?c2 = Some (Some v)"
    using flash_ready_aperture [of ?c2] r(2) assms(2) o same(2)
    by (simp add: flash_ready_def read_flash_byte_def)
  moreover have "game_pak_save ?c2 ! i =
         (if i div kFlashSectorSize = ?o div kFlashSectorSize then 0xFF else game_pak_save c ! i)"
    if "i < length (game_pak_save c)" "i \<noteq> ?o" for i
    using at [of i] in_sector [of i] that len by simp
  ultimately show ?thesis
    using r(2) by blast
qed

theorem flash_erase_program_read_witness:
  "\<exists>c'. flash_writes (flash_sector_erase_command 0x1234 @ flash_program_command 0x1234 0x42) flash_demo = Some c'
    \<and> read_game_pak_save_byte 0x1234 c' = Some (Some 0x42)"
  using flash_erase_program_read [of flash_demo "0x1234" "0x42"] flash_demo by (auto simp: flash_ready_def)

theorem flash_write_protection_witness:
  "\<exists>c c'. flash_trace flash_demo [(0x5555, 0xAA), (0x2AAA, 0x55), (0x5555, 0xA0)] c
    \<and> write_flash_byte 7 0x42 c = Some (True, c') \<and> game_pak_save c' \<noteq> game_pak_save c
    \<and> (\<exists>p :: (nat \<times> u8) list. [(0x5555, 0xAA), (0x2AAA, 0x55), (0x5555, 0xA0)] =
           p @ [(0x5555, 0xAA), (0x2AAA, 0x55), (0x5555, 0xA0)]
         \<or> [(0x5555, 0xAA), (0x2AAA, 0x55), (0x5555, 0xA0)] =
              p @ [(0x5555, 0xAA), (0x2AAA, 0x55), (0x5555, 0x80), (0x5555, 0xAA), (0x2AAA, 0x55)])"
proof -
  let ?c = "\<lambda>s. flash_demo\<lparr>flash_command_state := s\<rparr>"
  note step = flash_step [OF flash_demo(1,2)] flash_ready_aperture(2) [OF flash_demo(1,2)]
  note unfold = write_flash_byte_def flash_demo flash_const_defs kFlashBankSize_def Let_def
  have w: "write_flash_byte 0x5555 0xAA flash_demo = Some (True, ?c Flash_unlock1)"
    "write_flash_byte 0x2AAA 0x55 (?c Flash_unlock1) = Some (True, ?c Flash_unlock2)"
    "write_flash_byte 0x5555 0xA0 (?c Flash_unlock2) = Some (True, ?c Flash_program_data)"
    using step by (simp_all add: unfold)
  have t: "flash_trace flash_demo [(0x5555, 0xAA), (0x2AAA, 0x55), (0x5555, 0xA0)] (?c Flash_program_data)"
    using trace_write [OF trace_write [OF trace_write [OF trace_start w(1)] w(2)] w(3)]
    by (simp add: kFlashBankSize_def)
  have o: "flash_effective_offset 7 flash_demo = 7"
    by (simp add: flash_effective_offset_def flash_demo kFlashBankSize_def)
  have p: "write_flash_byte 7 0x42 (?c Flash_program_data) =
      Some (True, flash_demo\<lparr>game_pak_save := (vec_fill 131072 0xFF)[7 := 0x42], flash_command_state := Flash_idle\<rparr>)"
    using step by (simp add: unfold o)
  have d: "(vec_fill 131072 0xFF)[7 := 0x42] \<noteq> vec_fill 131072 (0xFF :: u8)"
    using nth_list_update_eq [of 7 "vec_fill 131072 (0xFF :: u8)" "0x42"] by fastforce
  have d': "game_pak_save (flash_demo\<lparr>game_pak_save := (vec_fill 131072 0xFF)[7 := 0x42], flash_command_state := Flash_idle\<rparr>)
      \<noteq> game_pak_save (?c Flash_program_data)"
    using d by (simp add: flash_demo(7))
  from flash_write_protection [OF flash_demo(1,2,3) t p d'] show ?thesis
    using t p d' by blast
qed

section \<open>EEPROM\<close>

lemma eeprom_block_bounds:
  assumes "save_wf c" and "block < eeprom_block_count c"
  shows "unat block * 8 + 8 \<le> length (game_pak_save c)"
proof -
  have "length (game_pak_save c) = 512 \<and> unat block < 64 \<or> length (game_pak_save c) = 8192 \<and> unat block < 1024"
    using assms
    by (auto simp: save_wf_def eeprom_block_count_def word_less_nat_alt save_size_defs split: if_splits)
  then show ?thesis
    by auto
qed

text \<open>EEPROM blocks. Writing an eight-byte block within the chip succeeds, reading the same block returns exactly those
  bytes and every other block is unchanged; a block outside the chip, or a cartridge without EEPROM, is refused and nothing
  changes.\<close>

lemma eeprom_roundtrip:
  assumes "save_wf c" and "length data = 8"
  shows "if block < eeprom_block_count c
    then \<exists>c'. eeprom_write_block block data c = Some (True, c') \<and> save_wf c'
       \<and> eeprom_read_block block c' = Some (Some data)
       \<and> (\<forall>other. other \<noteq> block \<longrightarrow> eeprom_read_block other c' = eeprom_read_block other c)
    else eeprom_write_block block data c = Some (False, c) \<and> eeprom_read_block block c = Some None"
proof (cases "block < eeprom_block_count c")
  case True
  let ?i = "unat block * 8"
  obtain save where save: "vec_blit (game_pak_save c) ?i data = Some save"
    using eeprom_block_bounds [OF assms(1) True] assms(2) by (auto simp: vec_blit_def)
  note at = vec_blit_nth [OF save]
  let ?c = "c\<lparr>game_pak_save := save\<rparr>"
  have n: "eeprom_block_count ?c = eeprom_block_count c"
    using at(1) by (simp add: eeprom_block_count_def)
  have pos: "eeprom_block_count c \<noteq> 0"
    using True by auto
  have "eeprom_read_block other ?c = eeprom_read_block other c" if "other \<noteq> block" for other
  proof (cases "other < eeprom_block_count c")
    case o: True
    have b: "unat other * 8 + 8 \<le> length (game_pak_save c)"
      by (rule eeprom_block_bounds [OF assms(1) o])
    have "take 8 (drop (unat other * 8) save) = take 8 (drop (unat other * 8) (game_pak_save c))"
    proof (rule nth_equalityI)
      fix i assume i: "i < length (take 8 (drop (unat other * 8) save))"
      have "unat other \<noteq> unat block"
        using that by (simp add: word_unat_eq_iff)
      then show "take 8 (drop (unat other * 8) save) ! i = take 8 (drop (unat other * 8) (game_pak_save c)) ! i"
        using i b at assms(2) by (simp, arith)
    qed (use at(1) in simp)
    then show ?thesis
      using at(1) by (simp add: eeprom_read_block_def n vec_slice_def Let_def)
  qed (simp add: eeprom_read_block_def n not_less)
  moreover have "save_wf ?c"
    using assms(1) at(1) by (simp add: save_wf_def)
  ultimately show ?thesis
    using True pos save n vec_slice_blit [OF save] assms(2)
    by (auto simp: eeprom_write_block_def eeprom_read_block_def not_le [symmetric])
qed (auto simp: eeprom_write_block_def eeprom_read_block_def not_less)

definition eeprom_demo :: cartridge_save where
  "eeprom_demo = snd (configure_game_pak_save Eeprom512 (clear_game_pak_save flash_demo))"

end
