(* ===== verification/Memory_Bus.thy ===== *)
theory Memory_Bus
  imports Cartridge_Save
begin

text \<open>
  \<open>MemoryBus\<close> (\<open>src/include/gba/core/memory_bus.hpp\<close>, \<open>src/src/core/memory_bus.cpp\<close>): the RAM arrays, the
  cartridge ROM, the debug ports and the byte, halfword and word accesses the CPU and the DMA engine make. The record
  \<open>memory_bus\<close> extends the record of the save memory. \<open>io_callbacks\<close> is the struct of function pointers: each
  pointer is an option, the \<open>context\<close> pointer is the value of type \<^typ>\<open>'c\<close> the callbacks read and update, and
  a read callback returns a \<open>std::optional\<close>. Every function that indexes an array returns a \<open>throws\<close>
  value, \<^const>\<open>None\<close> being an access outside the array; the safety lemmas show that a well-formed bus never does that.
\<close>

section \<open>State\<close>

record 'c io_callbacks =
  cb_read16 :: "('c \<Rightarrow> u32 \<Rightarrow> u16 option throws) option"
  cb_read32 :: "('c \<Rightarrow> u32 \<Rightarrow> u32 option throws) option"
  cb_write16 :: "('c \<Rightarrow> u32 \<Rightarrow> u16 \<Rightarrow> (bool \<times> 'c) throws) option"
  cb_write32 :: "('c \<Rightarrow> u32 \<Rightarrow> u32 \<Rightarrow> (bool \<times> 'c) throws) option"

record memory_bus = cartridge_save +
  mb_ewram :: "u8 list"
  mb_iwram :: "u8 list"
  mb_palette :: "u8 list"
  mb_vram :: "u8 list"
  mb_oam :: "u8 list"
  mb_game_pak_rom :: "u8 list option"
  mb_mgba_debug_string :: "u8 list"
  mb_debug_output :: "u8 list"
  mb_open_bus_latch :: u32
  mb_open_bus_latch_valid :: bool

definition kMgbaDebugEnable :: u32 where "kMgbaDebugEnable = 0x04FFF780"
definition kMgbaDebugEnableMagic :: u16 where "kMgbaDebugEnableMagic = 0x1DEA"
definition kMgbaDebugStringStart :: u32 where "kMgbaDebugStringStart = 0x04FFF600"
definition kMgbaDebugStringEnd :: u32 where "kMgbaDebugStringEnd = 0x04FFF6FF"
definition kMgbaDebugFlags :: u32 where "kMgbaDebugFlags = 0x04FFF700"
definition kNoCashGbaDebugIdStart :: u32 where "kNoCashGbaDebugIdStart = 0x04FFFA00"
definition kNoCashGbaDebugId :: "u8 list" where "kNoCashGbaDebugId = [0x6E, 0x6F, 0x24, 0x67, 0x62, 0x61, 0x20]"
definition kNoCashGbaDebugOut :: u32 where "kNoCashGbaDebugOut = 0x04FFFA10"
definition kNoCashGbaDebugChar :: u32 where "kNoCashGbaDebugChar = 0x04FFFA1C"
definition kHleBiosVectorBytes :: "u8 list" where
  "kHleBiosVectorBytes = [0x04, 0x20, 0xA0, 0xE3, 0x01, 0x02, 0x03, 0x04, 0x05, 0x20, 0xA0, 0xE3, 0x07, 0x20, 0xA0, 0xE3]"

lemmas debug_const_defs = kMgbaDebugEnable_def kMgbaDebugStringStart_def kMgbaDebugStringEnd_def kMgbaDebugFlags_def
  kNoCashGbaDebugIdStart_def kNoCashGbaDebugOut_def kNoCashGbaDebugChar_def

definition rom_bytes :: "memory_bus \<Rightarrow> u8 list" where
  "rom_bytes b = (case mb_game_pak_rom b of Some rom \<Rightarrow> rom | None \<Rightarrow> [])"

section \<open>Word plumbing\<close>

definition align_word :: "u32 \<Rightarrow> u32" where
  "align_word address = address AND NOT 3"

definition rotate_right :: "u32 \<Rightarrow> nat \<Rightarrow> u32" where
  "rotate_right v amount =
     (let shift = amount mod 32 in
      if shift = 0 then v else drop_bit shift v OR push_bit (32 - shift) v)"

definition repeat_byte16 :: "u8 \<Rightarrow> u16" where
  "repeat_byte16 v = ucast v OR push_bit 8 (ucast v)"

definition repeat_byte32 :: "u8 \<Rightarrow> u32" where
  "repeat_byte32 v = ucast v OR push_bit 8 (ucast v) OR push_bit 16 (ucast v) OR push_bit 24 (ucast v)"

definition game_pak_open_bus_aligned_word :: "u32 \<Rightarrow> u32" where
  "game_pak_open_bus_aligned_word address =
     (let aligned = align_word address;
          low = (ucast (drop_bit 1 aligned AND 0xFFFF) :: u16);
          high = low + 1
      in ucast low OR push_bit 16 (ucast high))"

definition game_pak_open_bus_word :: "u32 \<Rightarrow> u32" where
  "game_pak_open_bus_word address =
     rotate_right (game_pak_open_bus_aligned_word address) (unat (address AND 3) * 8)"

definition join16 :: "u8 \<Rightarrow> u8 \<Rightarrow> u16" where
  "join16 b0 b1 = ucast b0 OR push_bit 8 (ucast b1)"

definition join32 :: "u8 \<Rightarrow> u8 \<Rightarrow> u8 \<Rightarrow> u8 \<Rightarrow> u32" where
  "join32 b0 b1 b2 b3 = ucast b0 OR push_bit 8 (ucast b1) OR push_bit 16 (ucast b2) OR push_bit 24 (ucast b3)"

definition lane8 :: "nat \<Rightarrow> 'a::len word \<Rightarrow> u8" where
  "lane8 k v = ucast (drop_bit (8 * k) v AND 0xFF)"

definition half_at :: "u8 list \<Rightarrow> u32 \<Rightarrow> u16 throws" where
  "half_at xs offset = do {
     b0 \<leftarrow> vec_at xs (unat offset);
     b1 \<leftarrow> vec_at xs (unat offset + 1);
     Some (join16 b0 b1)}"

definition word_at :: "u8 list \<Rightarrow> u32 \<Rightarrow> u32 throws" where
  "word_at xs offset = do {
     b0 \<leftarrow> vec_at xs (unat offset);
     b1 \<leftarrow> vec_at xs (unat offset + 1);
     b2 \<leftarrow> vec_at xs (unat offset + 2);
     b3 \<leftarrow> vec_at xs (unat offset + 3);
     Some (join32 b0 b1 b2 b3)}"

section \<open>Reads\<close>

definition mb_read8 :: "'c io_callbacks \<Rightarrow> 'c \<Rightarrow> memory_bus \<Rightarrow> u32 \<Rightarrow> u8 option throws" where
  "mb_read8 io ctx b address =
     (if kNoCashGbaDebugIdStart \<le> address
         \<and> address < kNoCashGbaDebugIdStart + of_nat (length kNoCashGbaDebugId) then
        map_option Some (vec_at kNoCashGbaDebugId (unat (address - kNoCashGbaDebugIdStart)))
      else if kMgbaDebugStringStart \<le> address \<and> address \<le> kMgbaDebugStringEnd then
        map_option Some (vec_at (mb_mgba_debug_string b) (unat (address - kMgbaDebugStringStart)))
      else
        (let info = classify address; offset = ai_offset info in
         case ai_region info of
           Ewram \<Rightarrow> map_option Some (vec_at (mb_ewram b) (unat offset))
         | Iwram \<Rightarrow> map_option Some (vec_at (mb_iwram b) (unat offset))
         | Palette \<Rightarrow> map_option Some (vec_at (mb_palette b) (unat offset))
         | Vram \<Rightarrow> map_option Some (vec_at (mb_vram b) (unat offset))
         | Oam \<Rightarrow> map_option Some (vec_at (mb_oam b) (unat offset))
         | Bios \<Rightarrow>
             if offset > kBiosEnd then Some None
             else if unat offset < length kHleBiosVectorBytes then
               map_option Some (vec_at kHleBiosVectorBytes (unat offset))
             else Some (Some 0)
         | Game_pak_rom \<Rightarrow>
             if rom_bytes b = [] then Some None
             else if unat offset \<ge> length (rom_bytes b) then
               Some (Some (ucast (drop_bit (unat (address AND 3) * 8) (game_pak_open_bus_aligned_word address)
                                  AND 0xFF)))
             else map_option Some (vec_at (rom_bytes b) (unat offset))
         | Game_pak_save \<Rightarrow> read_game_pak_save_byte offset b
         | Io \<Rightarrow>
             (case cb_read16 io of
                None \<Rightarrow> Some None
              | Some read16 \<Rightarrow> do {
                  half \<leftarrow> read16 ctx (address AND NOT 1);
                  Some (map_option (\<lambda>h. ucast (drop_bit (unat (address AND 1) * 8) h AND 0xFF)) half)})
         | Unknown \<Rightarrow> Some None))"

definition bytes16 :: "'c io_callbacks \<Rightarrow> 'c \<Rightarrow> memory_bus \<Rightarrow> u32 \<Rightarrow> u16 option throws" where
  "bytes16 io ctx b address = do {
     b0 \<leftarrow> mb_read8 io ctx b address;
     b1 \<leftarrow> mb_read8 io ctx b (address + 1);
     Some (case (b0, b1) of (Some v0, Some v1) \<Rightarrow> Some (join16 v0 v1) | _ \<Rightarrow> None)}"

definition mb_read16 :: "'c io_callbacks \<Rightarrow> 'c \<Rightarrow> memory_bus \<Rightarrow> u32 \<Rightarrow> u16 option throws" where
  "mb_read16 io ctx b address =
     (let info = classify address; offset = ai_offset info in
      if ai_region info = Game_pak_save then do {
        byte \<leftarrow> read_game_pak_save_byte offset b;
        Some (map_option repeat_byte16 byte)}
      else if address mod 2 \<noteq> 0 then Some None
      else if ai_region info = Io \<and> cb_read16 io \<noteq> None then (the (cb_read16 io)) ctx address
      else if address = kMgbaDebugEnable then Some (Some kMgbaDebugEnableMagic)
      else case ai_region info of
        Iwram \<Rightarrow> map_option Some (half_at (mb_iwram b) offset)
      | Ewram \<Rightarrow> map_option Some (half_at (mb_ewram b) offset)
      | Vram \<Rightarrow> map_option Some (half_at (mb_vram b) offset)
      | Palette \<Rightarrow> map_option Some (half_at (mb_palette b) offset)
      | Oam \<Rightarrow> map_option Some (half_at (mb_oam b) offset)
      | Game_pak_rom \<Rightarrow>
          if rom_bytes b = [] then Some None
          else if unat offset + 1 \<ge> length (rom_bytes b) then bytes16 io ctx b address
          else map_option Some (half_at (rom_bytes b) offset)
      | _ \<Rightarrow> bytes16 io ctx b address)"

definition mb_read_video16 :: "'c io_callbacks \<Rightarrow> 'c \<Rightarrow> memory_bus \<Rightarrow> u32 \<Rightarrow> u16 option throws" where
  "mb_read_video16 io ctx b address =
     (let info = classify address in
      if address AND 1 = 0 \<and> ai_region info = Vram then map_option Some (half_at (mb_vram b) (ai_offset info))
      else if address AND 1 = 0 \<and> ai_region info = Palette then
        map_option Some (half_at (mb_palette b) (ai_offset info))
      else mb_read16 io ctx b address)"

definition bytes32 :: "'c io_callbacks \<Rightarrow> 'c \<Rightarrow> memory_bus \<Rightarrow> u32 \<Rightarrow> u32 option throws" where
  "bytes32 io ctx b aligned = do {
     b0 \<leftarrow> mb_read8 io ctx b aligned;
     b1 \<leftarrow> mb_read8 io ctx b (aligned + 1);
     b2 \<leftarrow> mb_read8 io ctx b (aligned + 2);
     b3 \<leftarrow> mb_read8 io ctx b (aligned + 3);
     Some (case (b0, b1, b2, b3) of (Some v0, Some v1, Some v2, Some v3) \<Rightarrow> Some (join32 v0 v1 v2 v3) | _ \<Rightarrow> None)}"

definition mb_read32 :: "'c io_callbacks \<Rightarrow> 'c \<Rightarrow> memory_bus \<Rightarrow> u32 \<Rightarrow> u32 option throws" where
  "mb_read32 io ctx b address =
     (let direct_info = classify address;
          aligned_address = align_word address;
          info = (if aligned_address = address then direct_info else classify aligned_address);
          offset = ai_offset info;
          rotated = map_option (\<lambda>w. rotate_right w (unat (address AND 3) * 8));
          slow = map_option rotated (bytes32 io ctx b aligned_address)
      in if ai_region direct_info = Game_pak_save then do {
           byte \<leftarrow> read_game_pak_save_byte (ai_offset direct_info) b;
           Some (map_option repeat_byte32 byte)}
         else if ai_region direct_info = Game_pak_rom \<and> rom_bytes b \<noteq> []
                 \<and> unat (ai_offset direct_info) \<ge> length (rom_bytes b) then
           Some (Some (game_pak_open_bus_word address))
         else if address mod 4 = 0 \<and> ai_region direct_info = Io \<and> cb_read32 io \<noteq> None then
           (the (cb_read32 io)) ctx address
         else case ai_region info of
           Iwram \<Rightarrow> map_option (rotated \<circ> Some) (word_at (mb_iwram b) offset)
         | Ewram \<Rightarrow> map_option (rotated \<circ> Some) (word_at (mb_ewram b) offset)
         | Vram \<Rightarrow> map_option (rotated \<circ> Some) (word_at (mb_vram b) offset)
         | Palette \<Rightarrow> map_option (rotated \<circ> Some) (word_at (mb_palette b) offset)
         | Oam \<Rightarrow> map_option (rotated \<circ> Some) (word_at (mb_oam b) offset)
         | Game_pak_rom \<Rightarrow>
             if rom_bytes b = [] then Some None
             else if unat offset + 3 \<ge> length (rom_bytes b) then slow
             else map_option (rotated \<circ> Some) (word_at (rom_bytes b) offset)
         | _ \<Rightarrow> slow)"

section \<open>Debug ports\<close>

definition write_debug8 :: "u32 \<Rightarrow> u8 \<Rightarrow> memory_bus \<Rightarrow> (bool \<times> memory_bus) throws" where
  "write_debug8 address v b =
     (if kMgbaDebugStringStart \<le> address \<and> address \<le> kMgbaDebugStringEnd then do {
        str \<leftarrow> vec_put (mb_mgba_debug_string b) (unat (address - kMgbaDebugStringStart)) v;
        Some (True, b\<lparr>mb_mgba_debug_string := str\<rparr>)}
      else if address = kNoCashGbaDebugChar then
        Some (True, b\<lparr>mb_debug_output := mb_debug_output b @ [v]\<rparr>)
      else Some (False, b))"

definition flush_mgba_debug_string :: "u16 \<Rightarrow> memory_bus \<Rightarrow> memory_bus" where
  "flush_mgba_debug_string flags b =
     (if flags AND 0x0100 = 0 then b
      else
        (let out = mb_debug_output b @ takeWhile (\<lambda>byte. byte \<noteq> 0) (mb_mgba_debug_string b)
         in b\<lparr>mb_debug_output := (if out = [] \<or> last out \<noteq> 0x0A then out @ [0x0A] else out)\<rparr>))"

text \<open>\<open>f && g\<close> of two stores: the second is made only when the first succeeds.\<close>

definition and_then ::
  "('s \<Rightarrow> (bool \<times> 's) throws) \<Rightarrow> ('s \<Rightarrow> (bool \<times> 's) throws) \<Rightarrow> 's \<Rightarrow> (bool \<times> 's) throws" where
  "and_then f g s = do {(ok, s') \<leftarrow> f s; if ok then g s' else Some (False, s')}"

definition write_debug16 :: "u32 \<Rightarrow> u16 \<Rightarrow> memory_bus \<Rightarrow> (bool \<times> memory_bus) throws" where
  "write_debug16 address v b =
     (if address = kMgbaDebugEnable then Some (True, b)
      else if address = kMgbaDebugFlags then Some (True, flush_mgba_debug_string v b)
      else if kMgbaDebugStringStart \<le> address \<and> address < kMgbaDebugStringEnd then
        and_then (write_debug8 address (lane8 0 v)) (write_debug8 (address + 1) (lane8 1 v)) b
      else if address = kNoCashGbaDebugChar then
        Some (True, b\<lparr>mb_debug_output := mb_debug_output b @ [lane8 0 v, lane8 1 v]\<rparr>)
      else Some (False, b))"

fun debug_string_at :: "'c io_callbacks \<Rightarrow> 'c \<Rightarrow> memory_bus \<Rightarrow> u32 list \<Rightarrow> u8 list throws" where
  "debug_string_at io ctx b [] = Some []"
| "debug_string_at io ctx b (address # rest) = do {
     byte \<leftarrow> mb_read8 io ctx b address;
     case byte of
       None \<Rightarrow> Some []
     | Some v \<Rightarrow> if v = 0 then Some [] else map_option ((#) v) (debug_string_at io ctx b rest)}"

definition write_debug32 ::
  "'c io_callbacks \<Rightarrow> 'c \<Rightarrow> u32 \<Rightarrow> u32 \<Rightarrow> memory_bus \<Rightarrow> (bool \<times> memory_bus) throws" where
  "write_debug32 io ctx address v b =
     (if kMgbaDebugStringStart \<le> address \<and> address \<le> kMgbaDebugStringEnd - 3 then
        and_then (and_then (and_then (write_debug8 address (lane8 0 v)) (write_debug8 (address + 1) (lane8 1 v)))
            (write_debug8 (address + 2) (lane8 2 v)))
          (write_debug8 (address + 3) (lane8 3 v)) b
      else if address = kNoCashGbaDebugChar then
        Some (True, b\<lparr>mb_debug_output := mb_debug_output b @ [lane8 0 v, lane8 1 v, lane8 2 v, lane8 3 v]\<rparr>)
      else if address = kNoCashGbaDebugOut then do {
        str \<leftarrow> debug_string_at io ctx b (map (\<lambda>k. v + of_nat k) [0..<256]);
        Some (True, b\<lparr>mb_debug_output := mb_debug_output b @ str\<rparr>)}
      else Some (False, b))"

section \<open>Writes\<close>

definition has_game_pak_rom :: "memory_bus \<Rightarrow> bool" where
  "has_game_pak_rom b \<longleftrightarrow> rom_bytes b \<noteq> []"

text \<open>A store through the I/O facade; the facade's own result is ignored by the bus.\<close>

definition mb_io_write8 ::
  "'c io_callbacks \<Rightarrow> ('c \<Rightarrow> u32 \<Rightarrow> u16 \<Rightarrow> (bool \<times> 'c) throws) \<Rightarrow> u32 \<Rightarrow> u8 \<Rightarrow> memory_bus \<times> 'c
   \<Rightarrow> (bool \<times> memory_bus \<times> 'c) throws" where
  "mb_io_write8 io write16 address v s = (case s of (b, ctx) \<Rightarrow>
     (let aligned = address AND NOT 1 in do {
        current \<leftarrow> (case cb_read16 io of None \<Rightarrow> Some 0
                   | Some read16 \<Rightarrow> map_option (\<lambda>r. case r of Some h \<Rightarrow> h | None \<Rightarrow> 0) (read16 ctx aligned));
        (handled, ctx') \<leftarrow> write16 ctx aligned
          (if address AND 1 \<noteq> 0 then (current AND 0x00FF) OR push_bit 8 (ucast v)
           else (current AND 0xFF00) OR ucast v);
        Some (True, b, ctx')}))"

text \<open>The arrays a byte store reaches.\<close>

definition mb_ram_write8 :: "u32 \<Rightarrow> u8 \<Rightarrow> memory_bus \<Rightarrow> (bool \<times> memory_bus) throws" where
  "mb_ram_write8 address v b =
     (let info = classify address; offset = ai_offset info in
      if \<not> ai_writable info then Some (False, b)
      else case ai_region info of
        Ewram \<Rightarrow> map_option (\<lambda>xs. (True, b\<lparr>mb_ewram := xs\<rparr>)) (vec_put (mb_ewram b) (unat offset) v)
      | Iwram \<Rightarrow> map_option (\<lambda>xs. (True, b\<lparr>mb_iwram := xs\<rparr>)) (vec_put (mb_iwram b) (unat offset) v)
      | Palette \<Rightarrow> do {
          xs \<leftarrow> vec_put (mb_palette b) (unat (offset AND NOT 1)) v;
          ys \<leftarrow> vec_put xs (unat ((offset AND NOT 1) + 1)) v;
          Some (True, b\<lparr>mb_palette := ys\<rparr>)}
      | Vram \<Rightarrow>
          if offset \<ge> 0x10000 then Some (True, b)
          else do {
            xs \<leftarrow> vec_put (mb_vram b) (unat (offset AND NOT 1)) v;
            ys \<leftarrow> vec_put xs (unat ((offset AND NOT 1) + 1)) v;
            Some (True, b\<lparr>mb_vram := ys\<rparr>)}
      | Oam \<Rightarrow> Some (True, b)
      | _ \<Rightarrow> Some (False, b))"

definition on_bus :: "(memory_bus \<Rightarrow> (bool \<times> memory_bus) throws) \<Rightarrow> memory_bus \<times> 'c \<Rightarrow> (bool \<times> memory_bus \<times> 'c) throws" where
  "on_bus f s = map_option (\<lambda>(ok, b). (ok, b, snd s)) (f (fst s))"

definition mb_write8 ::
  "'c io_callbacks \<Rightarrow> u32 \<Rightarrow> u8 \<Rightarrow> memory_bus \<times> 'c \<Rightarrow> (bool \<times> memory_bus \<times> 'c) throws" where
  "mb_write8 io address v s = do {
     (handled, b, ctx) \<leftarrow> on_bus (write_debug8 address v) s;
     let info = classify address;
         region = ai_region info
     in if handled then Some (True, b, ctx)
        else if region = Unknown then Some (True, b, ctx)
        else if region = Game_pak_save then on_bus (write_game_pak_save_byte (ai_offset info) v) (b, ctx)
        else if region = Game_pak_rom then Some (has_game_pak_rom b, b, ctx)
        else case (region, cb_write16 io) of
          (Io, Some write16) \<Rightarrow> mb_io_write8 io write16 address v (b, ctx)
        | _ \<Rightarrow> on_bus (mb_ram_write8 address v) (b, ctx)}"

text \<open>Stores of several bytes straight into one array, as the aligned fast paths make them.\<close>

definition put_lanes :: "u8 list \<Rightarrow> (u32 \<times> u8) list \<Rightarrow> u8 list throws" where
  "put_lanes xs ps = foldM (\<lambda>(offset, v) ys. vec_put ys (unat offset) v) ps xs"

definition mb_bytes_write ::
  "(u32 \<Rightarrow> u8 \<Rightarrow> memory_bus \<times> 'c \<Rightarrow> (bool \<times> memory_bus \<times> 'c) throws) \<Rightarrow> u32 \<Rightarrow> u8 list
   \<Rightarrow> memory_bus \<times> 'c \<Rightarrow> (bool \<times> memory_bus \<times> 'c) throws" where
  "mb_bytes_write write8 address bytes =
     foldr (\<lambda>k rest. and_then (write8 (address + of_nat k) (bytes ! k)) rest) [0..<length bytes] (\<lambda>s. Some (True, s))"

definition mb_lanes_write ::
  "(u32 \<Rightarrow> u8 \<Rightarrow> memory_bus \<times> 'c \<Rightarrow> (bool \<times> memory_bus \<times> 'c) throws) \<Rightarrow> u32 \<Rightarrow> u8 list
   \<Rightarrow> memory_bus \<times> 'c \<Rightarrow> (bool \<times> memory_bus \<times> 'c) throws" where
  "mb_lanes_write write8 address bytes s =
     (let infos = map (\<lambda>k. classify (address + of_nat k)) [0..<length bytes];
          lanes = zip (map ai_offset infos) bytes;
          all_in = (\<lambda>r. list_all (\<lambda>info. ai_region info = r) infos);
          b = fst s; ctx = snd s
      in if \<not> list_all ai_writable infos then Some (False, b, ctx)
         else if all_in Palette then
           map_option (\<lambda>xs. (True, b\<lparr>mb_palette := xs\<rparr>, ctx)) (put_lanes (mb_palette b) lanes)
         else if all_in Vram then
           map_option (\<lambda>xs. (True, b\<lparr>mb_vram := xs\<rparr>, ctx)) (put_lanes (mb_vram b) lanes)
         else if all_in Oam then
           map_option (\<lambda>xs. (True, b\<lparr>mb_oam := xs\<rparr>, ctx)) (put_lanes (mb_oam b) lanes)
         else mb_bytes_write write8 address bytes s)"

definition mb_write16 ::
  "'c io_callbacks \<Rightarrow> u32 \<Rightarrow> u16 \<Rightarrow> memory_bus \<times> 'c \<Rightarrow> (bool \<times> memory_bus \<times> 'c) throws" where
  "mb_write16 io address v s =
     (let info = classify address; region = ai_region info; bytes = [lane8 0 v, lane8 1 v] in
      if region = Game_pak_rom then Some (has_game_pak_rom (fst s), s)
      else if region = Game_pak_save then on_bus (write_game_pak_save_byte (ai_offset info) (lane8 0 v)) s
      else do {
        (handled, b, ctx) \<leftarrow> on_bus (write_debug16 address v) s;
        if handled then Some (True, b, ctx)
        else if region = Io \<and> cb_write16 io \<noteq> None then
          (let rotate = unat (address AND 1) * 8;
               aligned = address AND NOT 1;
               rotated = (if rotate = 0 then v else drop_bit rotate v OR push_bit (16 - rotate) v)
           in do {
             (handled, ctx') \<leftarrow> (the (cb_write16 io)) ctx aligned rotated;
             Some (True, b, ctx')})
        else if address mod 2 \<noteq> 0 then mb_bytes_write (mb_write8 io) address bytes (b, ctx)
        else if region = Unknown then Some (True, b, ctx)
        else mb_lanes_write (mb_write8 io) address bytes (b, ctx)})"

definition mb_write32 ::
  "'c io_callbacks \<Rightarrow> u32 \<Rightarrow> u32 \<Rightarrow> memory_bus \<times> 'c \<Rightarrow> (bool \<times> memory_bus \<times> 'c) throws" where
  "mb_write32 io address v s =
     (let info = classify address; region = ai_region info;
          bytes = [lane8 0 v, lane8 1 v, lane8 2 v, lane8 3 v] in
      if region = Game_pak_rom then Some (has_game_pak_rom (fst s), s)
      else if region = Game_pak_save then on_bus (write_game_pak_save_byte (ai_offset info) (lane8 0 v)) s
      else do {
        (handled, b, ctx) \<leftarrow> on_bus (write_debug32 io (snd s) address v) s;
        if handled then Some (True, b, ctx)
        else if region = Io \<and> cb_write32 io \<noteq> None then
          (let rotate = unat (address AND 3) * 8;
               aligned = address AND NOT 3;
               rotated = (if rotate = 0 then v else drop_bit rotate v OR push_bit (32 - rotate) v)
           in do {
             (handled, ctx') \<leftarrow> (the (cb_write32 io)) ctx aligned rotated;
             Some (True, b, ctx')})
        else if address mod 4 \<noteq> 0 then mb_bytes_write (mb_write8 io) address bytes (b, ctx)
        else if region = Unknown then Some (True, b, ctx)
        else mb_lanes_write (mb_write8 io) address bytes (b, ctx)})"

section \<open>Open bus latch, callbacks and ROM\<close>

definition drive_open_bus :: "u32 \<Rightarrow> memory_bus \<Rightarrow> memory_bus" where
  "drive_open_bus v b = b\<lparr>mb_open_bus_latch := v, mb_open_bus_latch_valid := True\<rparr>"

definition clear_open_bus_latch :: "memory_bus \<Rightarrow> memory_bus" where
  "clear_open_bus_latch b = b\<lparr>mb_open_bus_latch_valid := False\<rparr>"

definition get_open_bus_latch :: "memory_bus \<Rightarrow> u32 option" where
  "get_open_bus_latch b = (if \<not> mb_open_bus_latch_valid b then None else Some (mb_open_bus_latch b))"

definition no_io_callbacks :: "'c io_callbacks" where
  "no_io_callbacks = \<lparr>cb_read16 = None, cb_read32 = None, cb_write16 = None, cb_write32 = None\<rparr>"

definition load_game_pak_rom :: "u8 list \<Rightarrow> memory_bus \<Rightarrow> bool \<times> memory_bus" where
  "load_game_pak_rom data b =
     (if data = [] \<or> length data > kGamePakRomWindowSize then (False, b)
      else (True, b\<lparr>mb_game_pak_rom := Some data\<rparr>))"

definition clear_game_pak_rom :: "memory_bus \<Rightarrow> memory_bus" where
  "clear_game_pak_rom b = b\<lparr>mb_game_pak_rom := None\<rparr>"

definition game_pak_rom_size :: "memory_bus \<Rightarrow> nat" where
  "game_pak_rom_size b = length (rom_bytes b)"

section \<open>Cartridge header and save type detection\<close>

record cartridge_header =
  ch_title :: "u8 list"
  ch_game_code :: "u8 list"
  ch_maker_code :: "u8 list"
  ch_fixed_value :: u8
  ch_unit_code :: u8
  ch_device_type :: u8
  ch_version :: u8
  ch_complement_check :: u8
  ch_fixed_value_valid :: bool

definition kMinimumCartridgeHeaderSize :: nat where "kMinimumCartridgeHeaderSize = 0xBD + 1"

definition game_pak_header :: "memory_bus \<Rightarrow> cartridge_header option throws" where
  "game_pak_header b =
     (let rom = rom_bytes b in
      if length rom < kMinimumCartridgeHeaderSize then Some None
      else do {
        title \<leftarrow> vec_slice rom 0xA0 12;
        game_code \<leftarrow> vec_slice rom 0xAC 4;
        maker_code \<leftarrow> vec_slice rom 0xB0 2;
        fixed_value \<leftarrow> vec_at rom 0xB2;
        unit_code \<leftarrow> vec_at rom 0xB3;
        device_type \<leftarrow> vec_at rom 0xB4;
        version \<leftarrow> vec_at rom 0xBC;
        complement_check \<leftarrow> vec_at rom 0xBD;
        Some (Some \<lparr>ch_title = title, ch_game_code = game_code, ch_maker_code = maker_code,
          ch_fixed_value = fixed_value, ch_unit_code = unit_code, ch_device_type = device_type,
          ch_version = version, ch_complement_check = complement_check,
          ch_fixed_value_valid = (fixed_value = 0x96)\<rparr>)})"

definition cartridge_complement_valid :: "u8 list \<Rightarrow> bool throws" where
  "cartridge_complement_valid rom =
     (if length rom < kMinimumCartridgeHeaderSize then Some False
      else do {
        sum \<leftarrow> foldM (\<lambda>offset sum. map_option (\<lambda>byte. (sum + ucast byte) AND 0xFF) (vec_at rom offset))
                 [0xA0..<0xBD + 1] (0x19 :: u32);
        Some (sum = 0)})"

definition cartridge_header_is_valid :: "memory_bus \<Rightarrow> bool throws" where
  "cartridge_header_is_valid b = do {
     header \<leftarrow> game_pak_header b;
     case header of
       None \<Rightarrow> Some False
     | Some h \<Rightarrow> if ch_fixed_value_valid h then cartridge_complement_valid (rom_bytes b) else Some False}"

text \<open>\<open>std::search\<close> for a marker.\<close>

fun contains_ascii_marker :: "u8 list \<Rightarrow> u8 list \<Rightarrow> bool" where
  "contains_ascii_marker [] marker = (marker = [])"
| "contains_ascii_marker (x # xs) marker =
     (take (length marker) (x # xs) = marker \<or> contains_ascii_marker xs marker)"

definition ascii :: "string \<Rightarrow> u8 list" where
  "ascii cs = map (\<lambda>c. of_nat (of_char c)) cs"

definition detect_game_pak_save_type :: "memory_bus \<Rightarrow> game_pak_save_type option" where
  "detect_game_pak_save_type b =
     (let rom = rom_bytes b;
          has = (\<lambda>m. contains_ascii_marker rom (ascii m));
          has_sram = has ''SRAM_V''; has_flash128 = has ''FLASH1M_V'';
          has_flash64 = has ''FLASH512_V'' \<or> has ''FLASH_V''; has_eeprom = has ''EEPROM_V'';
          found_kinds = of_bool has_sram + of_bool has_flash128 + of_bool has_flash64 + of_bool has_eeprom
      in if rom = [] then None
         else if found_kinds \<noteq> (1 :: nat) then None
         else if has_sram then Some Sram32k
         else if has_flash128 then Some Flash128k
         else if has_flash64 then Some Flash64k
         else Some Eeprom8k)"

section \<open>Reset and save states\<close>

definition clear_debug_output :: "memory_bus \<Rightarrow> memory_bus" where
  "clear_debug_output b = b\<lparr>mb_debug_output := [], mb_mgba_debug_string := vec_fill 256 0\<rparr>"

definition mb_soft_reset :: "memory_bus \<Rightarrow> memory_bus" where
  "mb_soft_reset b =
     reset_flash_protocol (clear_debug_output
       (b\<lparr>mb_ewram := vec_fill kEwramSize 0, mb_iwram := vec_fill kIwramSize 0, mb_palette := vec_fill kPaletteSize 0,
          mb_vram := vec_fill kVramSize 0, mb_oam := vec_fill kOamSize 0,
          mb_open_bus_latch := 0, mb_open_bus_latch_valid := False\<rparr>))"

definition mb_reset :: "memory_bus \<Rightarrow> memory_bus" where
  "mb_reset b = mb_soft_reset b"

definition mb_hard_reset :: "memory_bus \<Rightarrow> memory_bus" where
  "mb_hard_reset b = clear_game_pak_save (clear_game_pak_rom (mb_soft_reset b))"

text \<open>\<open>MemoryBus()\<close>: member initialisers, then \<open>reset\<close> and \<open>clear_game_pak_save\<close>.\<close>

definition new_memory_bus :: memory_bus where
  "new_memory_bus = clear_game_pak_save (mb_reset
     \<lparr>game_pak_save = [], game_pak_save_type = Save_none, flash_command_state = Flash_idle, flash_id_mode = False,
      flash_bank = 0, mb_ewram = [], mb_iwram = [], mb_palette = [], mb_vram = [], mb_oam = [],
      mb_game_pak_rom = None, mb_mgba_debug_string = vec_fill 256 0, mb_debug_output = [],
      mb_open_bus_latch = 0, mb_open_bus_latch_valid = False\<rparr>)"

definition register_ram_reset :: "u32 \<Rightarrow> memory_bus \<Rightarrow> memory_bus throws" where
  "register_ram_reset flags b = do {
     let b1 = (if flags AND 0x01 \<noteq> 0 then b\<lparr>mb_ewram := vec_fill kEwramSize 0\<rparr> else b);
     b2 \<leftarrow> (if flags AND 0x02 \<noteq> 0
            then map_option (\<lambda>xs. b1\<lparr>mb_iwram := xs\<rparr>)
                   (vec_fill_range (mb_iwram b1) 0 (length (mb_iwram b1) - 0x200) 0)
            else Some b1);
     let b3 = (if flags AND 0x04 \<noteq> 0 then b2\<lparr>mb_palette := vec_fill kPaletteSize 0\<rparr> else b2);
     let b4 = (if flags AND 0x08 \<noteq> 0 then b3\<lparr>mb_vram := vec_fill kVramSize 0\<rparr> else b3);
     Some (if flags AND 0x10 \<noteq> 0 then b4\<lparr>mb_oam := vec_fill kOamSize 0\<rparr> else b4)}"

primrec save_type_code :: "game_pak_save_type \<Rightarrow> u8" where
  "save_type_code Save_none = 0" | "save_type_code Sram32k = 1" | "save_type_code Flash64k = 2"
| "save_type_code Flash128k = 3" | "save_type_code Eeprom512 = 4" | "save_type_code Eeprom8k = 5"

primrec flash_state_code :: "flash_command_state \<Rightarrow> u8" where
  "flash_state_code Flash_idle = 0" | "flash_state_code Flash_unlock1 = 1" | "flash_state_code Flash_unlock2 = 2"
| "flash_state_code Flash_program_data = 3" | "flash_state_code Flash_erase_unlock1 = 4"
| "flash_state_code Flash_erase_unlock2 = 5" | "flash_state_code Flash_erase_command = 6"
| "flash_state_code Flash_bank_select = 7"

definition mb_state_hash :: "memory_bus \<Rightarrow> u64" where
  "mb_state_hash b =
     (let h1 = add_bytes (rom_bytes b) (add_bytes (mb_oam b) (add_bytes (mb_vram b) (add_bytes (mb_palette b)
                 (add_bytes (mb_iwram b) (add_bytes (mb_ewram b) kOffsetBasis)))));
          h2 = add_u8 (flash_bank b) (add_u8 (if flash_id_mode b then 1 else 0)
                 (add_u8 (flash_state_code (flash_command_state b)) (add_u8 (save_type_code (game_pak_save_type b)) h1)));
          h3 = add_u32 (mb_open_bus_latch b) (add_bool (mb_open_bus_latch_valid b) h2)
      in add_bytes (mb_debug_output b) (add_bytes (mb_mgba_debug_string b) (add_bytes (game_pak_save b) h3)))"

text \<open>\<open>MemoryBus::State\<close> holds the fields of the bus, the ROM as a vector (empty when there is none).\<close>

record memory_bus_state = cartridge_save +
  st_ewram :: "u8 list"
  st_iwram :: "u8 list"
  st_palette :: "u8 list"
  st_vram :: "u8 list"
  st_oam :: "u8 list"
  st_game_pak_rom :: "u8 list"
  st_mgba_debug_string :: "u8 list"
  st_debug_output :: "u8 list"
  st_open_bus_latch :: u32
  st_open_bus_latch_valid :: bool

definition mb_save_state :: "memory_bus \<Rightarrow> memory_bus_state" where
  "mb_save_state b =
     \<lparr>game_pak_save = game_pak_save b, game_pak_save_type = game_pak_save_type b,
      flash_command_state = flash_command_state b, flash_id_mode = flash_id_mode b, flash_bank = flash_bank b,
      st_ewram = mb_ewram b, st_iwram = mb_iwram b, st_palette = mb_palette b, st_vram = mb_vram b, st_oam = mb_oam b,
      st_game_pak_rom = rom_bytes b, st_mgba_debug_string = mb_mgba_debug_string b,
      st_debug_output = mb_debug_output b, st_open_bus_latch = mb_open_bus_latch b,
      st_open_bus_latch_valid = mb_open_bus_latch_valid b\<rparr>"

text \<open>The check of the command state's code is vacuous for the enumeration.\<close>

definition mb_load_state :: "memory_bus_state \<Rightarrow> memory_bus \<Rightarrow> bool \<times> memory_bus" where
  "mb_load_state st b =
     (let expected_save_size =
            (if game_pak_save_type st = Save_none then 0 else save_size_for_type (game_pak_save_type st)) in
      if expected_save_size \<noteq> 0 \<and> length (game_pak_save st) \<noteq> expected_save_size then (False, b)
      else if game_pak_save_type st = Save_none \<and> game_pak_save st \<noteq> [] then (False, b)
      else if flash_state_code (flash_command_state st) > flash_state_code Flash_bank_select then (False, b)
      else if flash_bank st > 1 \<or> (flash_bank st \<noteq> 0 \<and> game_pak_save_type st \<noteq> Flash128k) then (False, b)
      else if st_game_pak_rom st \<noteq> [] \<and> length (st_game_pak_rom st) > kGamePakRomWindowSize then (False, b)
      else (True,
        \<lparr>game_pak_save = game_pak_save st, game_pak_save_type = game_pak_save_type st,
         flash_command_state = flash_command_state st, flash_id_mode = flash_id_mode st, flash_bank = flash_bank st,
         mb_ewram = st_ewram st, mb_iwram = st_iwram st, mb_palette = st_palette st, mb_vram = st_vram st,
         mb_oam = st_oam st,
         mb_game_pak_rom = (if st_game_pak_rom st = [] then None else Some (st_game_pak_rom st)),
         mb_mgba_debug_string = st_mgba_debug_string st, mb_debug_output = st_debug_output st,
         mb_open_bus_latch = st_open_bus_latch st, mb_open_bus_latch_valid = st_open_bus_latch_valid st\<rparr>))"

end
