(* ===== verification/Memory_Access.thy ===== *)
theory Memory_Access
  imports Memory_Bus
begin

text \<open>
  Correctness of the accesses of \<open>Memory_Bus\<close>: no access leaves its array, the halfword and word fast paths agree
  with byte accesses, and a store to RAM is read back. What the I/O callbacks promise is the locale \<open>io_facade\<close>;
  the accesses are proved safe inside it and the register facade interprets it.
\<close>

section \<open>Invariant\<close>

definition mb_wf :: "memory_bus \<Rightarrow> bool" where
  "mb_wf b \<longleftrightarrow> save_wf b
     \<and> length (mb_ewram b) = kEwramSize \<and> length (mb_iwram b) = kIwramSize \<and> length (mb_palette b) = kPaletteSize
     \<and> length (mb_vram b) = kVramSize \<and> length (mb_oam b) = kOamSize \<and> length (mb_mgba_debug_string b) = 256
     \<and> length (rom_bytes b) \<le> kGamePakRomWindowSize \<and> mb_game_pak_rom b \<noteq> Some []"

text \<open>The array behind a RAM region.\<close>

definition ram_array :: "region \<Rightarrow> memory_bus \<Rightarrow> u8 list option" where
  "ram_array r b =
     (case r of Ewram \<Rightarrow> Some (mb_ewram b) | Iwram \<Rightarrow> Some (mb_iwram b) | Palette \<Rightarrow> Some (mb_palette b)
      | Vram \<Rightarrow> Some (mb_vram b) | Oam \<Rightarrow> Some (mb_oam b) | _ \<Rightarrow> None)"

definition ram_region :: "region \<Rightarrow> bool" where
  "ram_region r \<longleftrightarrow> r \<in> {Ewram, Iwram, Palette, Vram, Oam}"

definition ram :: "region \<Rightarrow> memory_bus \<Rightarrow> u8 list" where
  "ram r b = (case ram_array r b of Some xs \<Rightarrow> xs | None \<Rightarrow> [])"

lemma ram_simps [simp]:
  "ram Ewram b = mb_ewram b" "ram Iwram b = mb_iwram b" "ram Palette b = mb_palette b" "ram Vram b = mb_vram b"
  "ram Oam b = mb_oam b"
  by (simp_all add: ram_def ram_array_def)

lemma ram_region_simps [simp]:
  "ram_region Ewram" "ram_region Iwram" "ram_region Palette" "ram_region Vram" "ram_region Oam"
  "\<not> ram_region Bios" "\<not> ram_region Io" "\<not> ram_region Game_pak_rom" "\<not> ram_region Game_pak_save" "\<not> ram_region Unknown"
  by (simp_all add: ram_region_def)

lemma ram_length:
  assumes "mb_wf b" and "ram_region r"
  shows "region_capacity r = Some (length (ram r b))"
  using assms by (auto simp: mb_wf_def ram_region_def region_capacity_def)

lemma ram_offset_less:
  assumes "mb_wf b" and "ram_region (ai_region (classify a))"
  shows "unat (ai_offset (classify a)) < length (ram (ai_region (classify a)) b)"
  using classify_capacity ram_length [OF assms] by blast

text \<open>The debug ports lie in the unmapped part of the I/O bank.\<close>

lemma debug_ports_unknown:
  assumes "0x04FFF600 \<le> a" and "a \<le> 0x04FFFFFF"
  shows "ai_region (classify a) = Unknown"
proof -
  have b: "83883520 \<le> unat a" "unat a \<le> 83886079"
    using assms by (simp_all add: word_le_nat_alt)
  have d: "unat a div 16777216 = 4"
    using b by (intro div_nat_eqI) simp_all
  have "16774656 \<le> unat a mod 16777216"
    using b unfolding minus_div_mult_eq_mod [symmetric] d by simp
  with d show ?thesis
    by (simp add: classify_region)
qed

lemma not_debug_port:
  assumes "ai_region (classify a) \<noteq> Unknown"
  shows "\<not> (kNoCashGbaDebugIdStart \<le> a \<and> a < kNoCashGbaDebugIdStart + of_nat (length kNoCashGbaDebugId))"
    "\<not> (kMgbaDebugStringStart \<le> a \<and> a \<le> kMgbaDebugStringEnd)" "a \<noteq> kMgbaDebugEnable" "a \<noteq> kMgbaDebugFlags"
    "a \<noteq> kNoCashGbaDebugChar" "a \<noteq> kNoCashGbaDebugOut"
    "\<not> (kMgbaDebugStringStart \<le> a \<and> a < kMgbaDebugStringEnd)"
    "\<not> (kMgbaDebugStringStart \<le> a \<and> a \<le> kMgbaDebugStringEnd - 3)"
  using assms debug_ports_unknown [of a]
  by (auto simp: debug_const_defs kNoCashGbaDebugId_def word_le_nat_alt word_less_nat_alt)

section \<open>Accesses to RAM in terms of its array\<close>

lemma read8_ram:
  assumes "mb_wf b" and "ram_region (ai_region (classify a))"
  shows "mb_read8 io ctx b a =
    Some (Some (ram (ai_region (classify a)) b ! unat (ai_offset (classify a))))"
proof -
  have "ai_region (classify a) \<noteq> Unknown"
    using assms(2) by (auto simp: ram_region_def)
  note nd = not_debug_port [OF this]
  show ?thesis
    using ram_offset_less [OF assms] assms(2) nd(1,2)
    unfolding mb_read8_def Let_def by (cases "ai_region (classify a)") auto
qed

lemma even_iff_dvd: "a mod 2 = 0 \<longleftrightarrow> 2 dvd unat a" "a mod 4 = 0 \<longleftrightarrow> 4 dvd unat a" for a :: u32
  by (simp_all add: word_unat_eq_iff unat_mod dvd_eq_mod_eq_0)

lemma align_word_nat: "unat (align_word a) = unat a div 4 * 4"
proof -
  have "align_word a = a AND NOT (mask 2)"
    by (simp add: align_word_def mask_eq_exp_minus_1)
  then show ?thesis
    by (simp add: unat_and_not_mask)
qed

lemma align_word_dvd [simp]: "4 dvd unat (align_word a)"
  by (simp add: align_word_nat)

lemma lanes_ram:
  assumes wf: "mb_wf b" and r: "ram_region (ai_region (classify a))" and al: "n dvd unat a" "n \<in> {2, 4}" "k < n"
  shows "ai_region (classify (a + of_nat k)) = ai_region (classify a)"
    "unat (ai_offset (classify (a + of_nat k))) = unat (ai_offset (classify a)) + k"
    "unat (ai_offset (classify a)) + k < length (ram (ai_region (classify a)) b)"
proof -
  have "ai_region (classify a) \<notin> {Io, Unknown}"
    using r by (auto simp: ram_region_def)
  note l = classify_lane [OF al this]
  show reg: "ai_region (classify (a + of_nat k)) = ai_region (classify a)"
    and off: "unat (ai_offset (classify (a + of_nat k))) = unat (ai_offset (classify a)) + k"
    using l by simp_all
  show "unat (ai_offset (classify a)) + k < length (ram (ai_region (classify a)) b)"
    using ram_offset_less [OF wf, of "a + of_nat k"] r unfolding reg off by simp
qed

lemma half_at_in: "unat off + 1 < length xs \<Longrightarrow> half_at xs off = Some (join16 (xs ! unat off) (xs ! (unat off + 1)))"
  by (simp add: half_at_def)

lemma word_at_in:
  "unat off + 3 < length xs \<Longrightarrow>
     word_at xs off = Some (join32 (xs ! unat off) (xs ! (unat off + 1)) (xs ! (unat off + 2)) (xs ! (unat off + 3)))"
  by (simp add: word_at_def)

lemma read16_ram:
  assumes "mb_wf b" and r: "ram_region (ai_region (classify a))" and al: "2 dvd unat a"
  shows "mb_read16 io ctx b a =
    (let xs = ram (ai_region (classify a)) b; i = unat (ai_offset (classify a)) in
     Some (Some (join16 (xs ! i) (xs ! (i + 1)))))"
proof -
  have "ai_region (classify a) \<noteq> Unknown"
    using r by (auto simp: ram_region_def)
  note nd = not_debug_port [OF this]
  have "unat (ai_offset (classify a)) + 1 < length (ram (ai_region (classify a)) b)"
    using lanes_ram(3) [OF assms(1,2) al, of 1] by simp
  then show ?thesis
    using r al nd(3) unfolding mb_read16_def Let_def even_iff_dvd
    by (cases "ai_region (classify a)") (auto simp: half_at_in)
qed

lemma align_word_split: "a = align_word a + of_nat (unat a mod 4)"
proof -
  have "unat (align_word a + of_nat (unat a mod 4)) = unat (align_word a) + unat a mod 4"
    by (rule unat_add_lane [of 4]) simp_all
  also have "\<dots> = unat a"
    unfolding align_word_nat by (rule div_mult_mod_eq)
  finally show ?thesis
    by (simp add: word_unat_eq_iff)
qed

lemma align_word_id: "4 dvd unat a \<Longrightarrow> align_word a = a"
  by (simp add: word_unat_eq_iff align_word_nat)

lemma and3_nat: "unat (a AND 3) = unat a mod 4" for a :: u32
  by (simp add: word_nat)

lemma rotate_right_0 [simp]: "rotate_right w 0 = w"
  by (simp add: rotate_right_def)

lemma read32_ram:
  assumes "mb_wf b" and r: "ram_region (ai_region (classify (align_word a)))"
  shows "mb_read32 io ctx b a =
    (let xs = ram (ai_region (classify (align_word a))) b; i = unat (ai_offset (classify (align_word a))) in
     Some (Some (rotate_right (join32 (xs ! i) (xs ! (i + 1)) (xs ! (i + 2)) (xs ! (i + 3))) (unat a mod 4 * 8))))"
proof -
  have reg: "ai_region (classify a) = ai_region (classify (align_word a))"
    using lanes_ram(1) [OF assms align_word_dvd, of "unat a mod 4"] align_word_split [of a] by simp
  have len: "unat (ai_offset (classify (align_word a))) + 3 < length (ram (ai_region (classify (align_word a))) b)"
    using lanes_ram(3) [OF assms align_word_dvd, of 3] by simp
  have info: "(if align_word a = a then classify a else classify (align_word a)) = classify (align_word a)"
    by simp
  show ?thesis
    using r len unfolding mb_read32_def Let_def info reg and3_nat
    by (cases "ai_region (classify (align_word a))") (auto simp: word_at_in)
qed

section \<open>Fast paths agree with byte accesses\<close>

lemma read8_rom:
  assumes "ai_region (classify a) = Game_pak_rom" and "rom_bytes b \<noteq> []"
  shows "mb_read8 io ctx b a =
    (if unat (ai_offset (classify a)) < length (rom_bytes b)
     then Some (Some (rom_bytes b ! unat (ai_offset (classify a))))
     else Some (Some (ucast (drop_bit (unat a mod 4 * 8) (game_pak_open_bus_aligned_word a) AND 0xFF))))"
proof -
  have "ai_region (classify a) \<noteq> Unknown"
    using assms by simp
  from not_debug_port(1,2) [OF this] show ?thesis
    using assms unfolding mb_read8_def Let_def by (auto simp: word_nat)
qed

lemma read8_no_rom:
  "ai_region (classify a) = Game_pak_rom \<Longrightarrow> rom_bytes b = [] \<Longrightarrow> mb_read8 io ctx b a = Some None"
  using not_debug_port(1,2) [of a] unfolding mb_read8_def Let_def by auto

lemma rom_lane:
  assumes "ai_region (classify a) = Game_pak_rom" and "n dvd unat a" "n \<in> {2, 4}" "k < n"
  shows "ai_region (classify (a + of_nat k)) = Game_pak_rom"
    "unat (ai_offset (classify (a + of_nat k))) = unat (ai_offset (classify a)) + k"
  using classify_lane [OF assms(2-4)] assms(1) by simp_all

lemma read16_bytes:
  assumes wf: "mb_wf b" and al: "2 dvd unat a"
    and r: "ai_region (classify a) \<noteq> Game_pak_save" "ai_region (classify a) = Io \<Longrightarrow> cb_read16 io = None"
    and "a \<noteq> kMgbaDebugEnable"
  shows "mb_read16 io ctx b a = bytes16 io ctx b a"
proof (cases "ram_region (ai_region (classify a))")
  case True
  note l = lanes_ram [OF wf True al, of 1]
  have "mb_read8 io ctx b (a + 1) =
      Some (Some (ram (ai_region (classify a)) b ! (unat (ai_offset (classify a)) + 1)))"
    using read8_ram [OF wf, of "a + 1" io ctx] l True by simp
  then show ?thesis
    using read16_ram [OF wf True al, of io ctx] read8_ram [OF wf True, of io ctx] by (simp add: bytes16_def Let_def)
next
  case False
  show ?thesis
  proof (cases "ai_region (classify a) = Game_pak_rom")
    case rom: True
    note l = rom_lane [OF rom al, of 1]
    show ?thesis
    proof (cases "rom_bytes b = []")
      case True
      then show ?thesis
        using rom al read8_no_rom [OF rom, of b io ctx] read8_no_rom [of "a + 1" b io ctx] l assms(5)
        unfolding mb_read16_def Let_def even_iff_dvd by (simp add: bytes16_def)
    next
      case False
      then show ?thesis
        using rom al read8_rom [OF rom, of b io ctx] read8_rom [of "a + 1" b io ctx] l assms(5)
        unfolding mb_read16_def Let_def even_iff_dvd by (auto simp: bytes16_def half_at_in not_le)
    qed
  next
    case other: False
    then show ?thesis
      using False r al assms(5) unfolding mb_read16_def Let_def even_iff_dvd
      by (cases "ai_region (classify a)") auto
  qed
qed

lemma lane8_drop: "lane8 k v = ucast (drop_bit (8 * k) v)"
  by (simp add: lane8_def ucast_and_FF)

lemma join16_lanes: "join16 (lane8 0 v) (lane8 1 v) = v" for v :: u16
  by (simp add: word_eq_bits join16_def lane8_drop bit_simps) (auto simp: not_less)

lemma join32_lanes: "join32 (lane8 0 v) (lane8 1 v) (lane8 2 v) (lane8 3 v) = v" for v :: u32
proof (rule bit_word_eqI)
  fix n assume "n < LENGTH(32)"
  then consider "n < 8" | "8 \<le> n" "n < 16" | "16 \<le> n" "n < 24" | "24 \<le> n" "n < 32"
    by fastforce
  then show "bit (join32 (lane8 0 v) (lane8 1 v) (lane8 2 v) (lane8 3 v)) n = bit v n"
    by cases (auto simp: join32_def lane8_drop bit_simps)
qed

lemma align_word_lane:
  assumes "4 dvd unat a" and "k < 4"
  shows "align_word (a + of_nat k) = a" "unat (a + of_nat k) mod 4 = k"
proof -
  have u: "unat (a + of_nat k) = unat a + k"
    using assms by (intro unat_add_lane [of 4]) simp_all
  have "(unat a + k) div 4 = unat a div 4" "(unat a + k) mod 4 = k"
    using assms by (auto elim!: dvdE)
  then show "align_word (a + of_nat k) = a" "unat (a + of_nat k) mod 4 = k"
    using assms(1) by (simp_all add: word_unat_eq_iff align_word_nat u)
qed

lemma open_bus_lane:
  assumes "4 dvd unat a" and "k < 4"
  shows "game_pak_open_bus_aligned_word (a + of_nat k) = game_pak_open_bus_aligned_word a"
  using align_word_lane(1) [OF assms] align_word_id [OF assms(1)] by (simp add: game_pak_open_bus_aligned_word_def)

lemma bytes32_lanes:
  assumes "\<And>k. k < 4 \<Longrightarrow> mb_read8 io ctx b (a + of_nat k) = Some (Some (f k))"
  shows "bytes32 io ctx b a = Some (Some (join32 (f 0) (f 1) (f 2) (f 3)))"
  using assms [of 0] assms [of 1] assms [of 2] assms [of 3] by (simp add: bytes32_def)

lemma read32_bytes_rom:
  assumes rom: "ai_region (classify a) = Game_pak_rom" and al: "4 dvd unat a"
  shows "mb_read32 io ctx b a = bytes32 io ctx b a"
proof (cases "rom_bytes b = []")
  case True
  have "mb_read8 io ctx b (a + of_nat k) = Some None" if "k < 4" for k
    using read8_no_rom rom_lane(1) [OF rom al _ that] True by simp
  from this [of 0] this [of 1] this [of 2] this [of 3] show ?thesis
    using True rom al unfolding mb_read32_def Let_def by (simp add: align_word_id bytes32_def)
next
  case ne: False
  let ?off = "unat (ai_offset (classify a))" and ?n = "length (rom_bytes b)"
  have lane: "mb_read8 io ctx b (a + of_nat k) =
      Some (Some (if ?off + k < ?n then rom_bytes b ! (?off + k)
                  else lane8 k (game_pak_open_bus_aligned_word a)))" if "k < 4" for k
    using read8_rom [OF rom_lane(1) [OF rom al _ that] ne, of io ctx] rom_lane(2) [OF rom al _ that]
      align_word_lane(2) [OF al that] open_bus_lane [OF al that]
    by (simp add: lane8_def mult.commute)
  note bytes = bytes32_lanes [OF lane]
  have w0: "unat (a AND 3) = 0"
    using al by (simp add: and3_nat dvd_eq_mod_eq_0)
  consider "?n \<le> ?off" | "?off < ?n" "?n \<le> ?off + 3" | "?off + 3 < ?n"
    by linarith
  then show ?thesis
  proof cases
    case 1
    then have "bytes32 io ctx b a = Some (Some (game_pak_open_bus_aligned_word a))"
      using bytes join32_lanes by simp
    then show ?thesis
      using 1 rom ne al w0 unfolding mb_read32_def Let_def by (simp add: game_pak_open_bus_word_def)
  next
    case 2
    then show ?thesis
      using rom ne al w0 unfolding mb_read32_def Let_def
      by (simp add: align_word_id option.map_ident comp_def map_option.id [unfolded id_def])
  next
    case 3
    then show ?thesis
      using rom ne al w0 bytes unfolding mb_read32_def Let_def by (simp add: align_word_id word_at_in)
  qed
qed

lemma read32_bytes:
  assumes wf: "mb_wf b" and al: "4 dvd unat a"
    and r: "ai_region (classify a) \<noteq> Game_pak_save" "ai_region (classify a) = Io \<Longrightarrow> cb_read32 io = None"
  shows "mb_read32 io ctx b a = bytes32 io ctx b a"
proof (cases "ram_region (ai_region (classify a))")
  case True
  have "mb_read8 io ctx b (a + of_nat k) =
      Some (Some (ram (ai_region (classify a)) b ! (unat (ai_offset (classify a)) + k)))" if "k < 4" for k
    using read8_ram [OF wf, of "a + of_nat k" io ctx] lanes_ram [OF wf True al _ that] True by simp
  from bytes32_lanes [OF this] show ?thesis
    using read32_ram [OF wf, of a io ctx] True al by (simp add: align_word_id Let_def dvd_eq_mod_eq_0)
next
  case False
  have w0: "unat (a AND 3) = 0"
    using al by (simp add: and3_nat dvd_eq_mod_eq_0)
  then show ?thesis
  proof (cases "ai_region (classify a) = Game_pak_rom")
    case True
    then show ?thesis
      using al by (rule read32_bytes_rom)
  next
    case other: False
    then show ?thesis
      using False r al w0 unfolding mb_read32_def Let_def
      by (cases "ai_region (classify a)")
        (auto simp: align_word_id map_option.id [unfolded id_def] even_iff_dvd)
  qed
qed

text \<open>Fast reads. For every address outside the save window and the register facade, a halfword read at an even address and
  a word read at a multiple of four return exactly the little-endian combination of the byte reads of their lanes, including
  the absent cases, the HLE BIOS bytes, the ROM image and the open bus values past its end.\<close>

lemma mb_fast_reads_bytewise:
  assumes "mb_wf b" and "ai_region (classify a) \<noteq> Game_pak_save"
  shows "(2 dvd unat a \<and> a \<noteq> kMgbaDebugEnable \<and> (ai_region (classify a) = Io \<longrightarrow> cb_read16 io = None)
           \<longrightarrow> mb_read16 io ctx b a = bytes16 io ctx b a)
       \<and> (4 dvd unat a \<and> (ai_region (classify a) = Io \<longrightarrow> cb_read32 io = None)
           \<longrightarrow> mb_read32 io ctx b a = bytes32 io ctx b a)"
  using assms by (intro conjI impI read16_bytes read32_bytes) auto

lemma new_memory_bus_wf: "mb_wf new_memory_bus"
proof -
  have "save_wf new_memory_bus"
    unfolding new_memory_bus_def by (rule save_wf_clear)
  then show ?thesis
    by (simp add: mb_wf_def new_memory_bus_def mb_reset_def mb_soft_reset_def clear_debug_output_def
        clear_game_pak_save_def reset_flash_protocol_def rom_bytes_def)
qed

section \<open>Stores to RAM\<close>

definition set_ram :: "region \<Rightarrow> u8 list \<Rightarrow> memory_bus \<Rightarrow> memory_bus" where
  "set_ram r xs b =
     (case r of Ewram \<Rightarrow> b\<lparr>mb_ewram := xs\<rparr> | Iwram \<Rightarrow> b\<lparr>mb_iwram := xs\<rparr> | Palette \<Rightarrow> b\<lparr>mb_palette := xs\<rparr>
      | Vram \<Rightarrow> b\<lparr>mb_vram := xs\<rparr> | Oam \<Rightarrow> b\<lparr>mb_oam := xs\<rparr> | _ \<Rightarrow> b)"

lemma ram_set_ram: "ram_region r \<Longrightarrow> ram r' (set_ram r xs b) = (if r' = r then xs else ram r' b)"
  by (cases r; cases r') (simp_all add: set_ram_def ram_def ram_array_def)

lemma set_ram_set_ram [simp]: "set_ram r ys (set_ram r xs b) = set_ram r ys b"
  by (cases r) (simp_all add: set_ram_def)

lemma save_wf_scheme: "save_wf b = save_wf b'" if
  "game_pak_save b = game_pak_save b'" "game_pak_save_type b = game_pak_save_type b'" "flash_bank b = flash_bank b'"
  for b b' :: memory_bus
  using that by (simp add: save_wf_def)

lemma set_ram_frame [simp]:
  "rom_bytes (set_ram r xs b) = rom_bytes b" "mb_mgba_debug_string (set_ram r xs b) = mb_mgba_debug_string b"
  "mb_game_pak_rom (set_ram r xs b) = mb_game_pak_rom b" "save_wf (set_ram r xs b) = save_wf b"
  "read_game_pak_save_byte off (set_ram r xs b) = read_game_pak_save_byte off b"
  by (cases r; simp add: set_ram_def rom_bytes_def save_wf_def read_game_pak_save_byte_def read_flash_byte_def
      game_pak_save_supports_memory_aperture_def has_game_pak_save_def is_flash_save_def flash_effective_offset_def)+

lemma mb_wf_set_ram:
  "mb_wf b \<Longrightarrow> ram_region r \<Longrightarrow> length xs = length (ram r b) \<Longrightarrow> mb_wf (set_ram r xs b)"
  by (cases r) (simp_all add: mb_wf_def set_ram_def rom_bytes_def save_wf_def)

lemma write_debug_none:
  assumes "ai_region (classify a) \<noteq> Unknown"
  shows "write_debug8 a v8 b = Some (False, b)" "write_debug16 a v16 b = Some (False, b)"
    "write_debug32 io ctx a v32 b = Some (False, b)"
  using not_debug_port [OF assms] by (auto simp: write_debug8_def write_debug16_def write_debug32_def)

lemma write8_work_ram:
  assumes "mb_wf b" and r: "ai_region (classify a) = Ewram \<or> ai_region (classify a) = Iwram"
  shows "mb_write8 io a v (b, ctx) =
    Some (True, set_ram (ai_region (classify a))
      ((ram (ai_region (classify a)) b)[unat (ai_offset (classify a)) := v]) b, ctx)"
proof -
  have "ram_region (ai_region (classify a))" "ai_region (classify a) \<noteq> Unknown"
    using r by auto
  then show ?thesis
    using r write_debug_none(1) [of a v b] ram_offset_less [OF assms(1), of a]
    by (auto simp: mb_write8_def on_bus_def mb_ram_write8_def classify_writable set_ram_def Let_def)
qed

lemma writable_ram: "ai_writable (classify a) = ram_region (ai_region (classify a))"
  by (simp add: classify_writable ram_region_def)

text \<open>Storing the bytes of a value lane by lane, in one array.\<close>

primrec put_bytes :: "nat \<Rightarrow> u8 list \<Rightarrow> u8 list \<Rightarrow> u8 list" where
  "put_bytes i [] xs = xs"
| "put_bytes i (v # vs) xs = put_bytes (Suc i) vs (xs[i := v])"

lemma length_put_bytes [simp]: "length (put_bytes i vs xs) = length xs"
  by (induction vs arbitrary: i xs) simp_all

lemma nth_put_bytes:
  "j < length xs \<Longrightarrow> put_bytes i vs xs ! j = (if i \<le> j \<and> j < i + length vs then vs ! (j - i) else xs ! j)"
proof (induction vs arbitrary: i xs)
  case (Cons v vs)
  then show ?case
    by (auto simp: nth_list_update nth_Cons' Suc_diff_Suc)
qed auto

lemma put_lanes_bytes:
  assumes "length offs = length bytes" and "\<And>k. k < length bytes \<Longrightarrow> unat (offs ! k) = i + k"
    and "i + length bytes \<le> length xs"
  shows "put_lanes xs (zip offs bytes) = Some (put_bytes i bytes xs)"
  using assms
proof (induction bytes arbitrary: offs i xs)
  case (Cons v bytes)
  then obtain off offs' where offs: "offs = off # offs'" "length offs' = length bytes"
    by (cases offs) auto
  have "unat off = i" "unat (offs' ! k) = Suc i + k" if "k < length bytes" for k
    using Cons.prems(2) [of 0] Cons.prems(2) [of "Suc k"] that offs by simp_all
  moreover have "unat off = i"
    using Cons.prems(2) [of 0] offs by simp
  ultimately show ?case
    using Cons.IH [of offs' "Suc i" "xs[i := v]"] Cons.prems(3) offs by (simp add: put_lanes_def)
qed (simp add: put_lanes_def)

lemma work_ram_bytes_write:
  assumes wf: "mb_wf b" and r: "r = Ewram \<or> r = Iwram"
    and lane: "\<And>k. k < length bytes \<Longrightarrow> ai_region (classify (a + of_nat k)) = r"
      "\<And>k. k < length bytes \<Longrightarrow> unat (ai_offset (classify (a + of_nat k))) = i + k"
    and j: "j \<le> length bytes"
  shows "foldr (\<lambda>k rest. and_then (mb_write8 io (a + of_nat k) (bytes ! k)) rest) [j..<length bytes]
      (\<lambda>s. Some (True, s)) (b, ctx) =
    Some (True, set_ram r (put_bytes (i + j) (drop j bytes) (ram r b)) b, ctx)"
  using wf j
proof (induction "length bytes - j" arbitrary: j b)
  case 0
  then show ?case
    using r by (cases r) (auto simp: set_ram_def)
next
  case (Suc n)
  then have lt: "j < length bytes"
    by simp
  note l = lane [OF lt]
  let ?b = "set_ram r ((ram r b)[i + j := bytes ! j]) b"
  have w: "mb_write8 io (a + of_nat j) (bytes ! j) (b, ctx) = Some (True, ?b, ctx)"
    using write8_work_ram [OF Suc.prems(1), of "a + of_nat j" io "bytes ! j" ctx] l r by auto
  have rr: "ram_region r"
    using r by auto
  have "mb_wf ?b"
    using Suc.prems(1) rr by (intro mb_wf_set_ram) simp_all
  then have "foldr (\<lambda>k rest. and_then (mb_write8 io (a + of_nat k) (bytes ! k)) rest) [Suc j..<length bytes]
      (\<lambda>s. Some (True, s)) (?b, ctx) =
    Some (True, set_ram r (put_bytes (i + Suc j) (drop (Suc j) bytes) (ram r ?b)) ?b, ctx)"
    using Suc.hyps lt by (intro Suc.hyps(1)) simp_all
  moreover have "ram r ?b = (ram r b)[i + j := bytes ! j]"
    using rr by (simp add: ram_set_ram)
  ultimately show ?case
    using w lt by (simp add: upt_conv_Cons and_then_def Cons_nth_drop_Suc [symmetric])
qed

lemma lanes_write_ram:
  fixes bytes :: "u8 list"
  assumes wf: "mb_wf b" and r: "ram_region (ai_region (classify a))"
    and n: "length bytes = n" and al: "n dvd unat a" "n \<in> {2, 4}"
  shows "mb_lanes_write (mb_write8 io) a bytes (b, ctx) =
    Some (True, set_ram (ai_region (classify a))
      (put_bytes (unat (ai_offset (classify a))) bytes (ram (ai_region (classify a)) b)) b, ctx)"
proof -
  let ?r = "ai_region (classify a)" and ?i = "unat (ai_offset (classify a))"
  note l = lanes_ram [OF wf r al, folded n]
  have pos: "0 < length bytes"
    using n al(2) by auto
  have len: "?i + length bytes \<le> length (ram ?r b)"
    using l(3) [of "length bytes - 1"] pos by simp
  have infos: "list_all (\<lambda>info. ai_region info = r') (map (\<lambda>k. classify (a + of_nat k)) [0..<length bytes]) \<longleftrightarrow> r' = ?r" for r'
    using l(1) pos by (auto simp: list_all_iff dest: bspec [of "{0..<length bytes}" _ 0])
  have wr: "list_all ai_writable (map (\<lambda>k. classify (a + of_nat k)) [0..<length bytes])"
    using l(1) r by (auto simp: list_all_iff writable_ram)
  have put: "put_lanes (ram ?r b) (zip (map ai_offset (map (\<lambda>k. classify (a + of_nat k)) [0..<length bytes])) bytes)
      = Some (put_bytes ?i bytes (ram ?r b))"
    using l(2) len by (intro put_lanes_bytes) simp_all
  have work: "mb_bytes_write (mb_write8 io) a bytes (b, ctx) =
      Some (True, set_ram ?r (put_bytes ?i bytes (ram ?r b)) b, ctx)" if "?r = Ewram \<or> ?r = Iwram"
    using work_ram_bytes_write [OF wf that, of bytes a ?i 0 io ctx] l(1,2) by (simp add: mb_bytes_write_def)
  show ?thesis
    using r put work unfolding mb_lanes_write_def Let_def infos
    by (cases ?r) (simp_all add: wr set_ram_def)
qed

lemma write16_ram:
  assumes wf: "mb_wf b" and r: "ram_region (ai_region (classify a))" and al: "2 dvd unat a"
  shows "mb_write16 io a v (b, ctx) =
    Some (True, set_ram (ai_region (classify a))
      (put_bytes (unat (ai_offset (classify a))) [lane8 0 v, lane8 1 v] (ram (ai_region (classify a)) b)) b, ctx)"
proof -
  have "ai_region (classify a) \<noteq> Unknown" "ai_region (classify a) \<notin> {Io, Game_pak_rom, Game_pak_save}"
    using r by (auto simp: ram_region_def)
  then show ?thesis
    using write_debug_none(2) [of a v b] lanes_write_ram [OF wf r _ al, of "[lane8 0 v, lane8 1 v]" io ctx] al
    by (simp add: mb_write16_def on_bus_def even_iff_dvd Let_def)
qed

lemma write32_ram:
  assumes wf: "mb_wf b" and r: "ram_region (ai_region (classify a))" and al: "4 dvd unat a"
  shows "mb_write32 io a v (b, ctx) =
    Some (True, set_ram (ai_region (classify a))
      (put_bytes (unat (ai_offset (classify a))) [lane8 0 v, lane8 1 v, lane8 2 v, lane8 3 v]
        (ram (ai_region (classify a)) b)) b, ctx)"
proof -
  have "ai_region (classify a) \<noteq> Unknown" "ai_region (classify a) \<notin> {Io, Game_pak_rom, Game_pak_save}"
    using r by (auto simp: ram_region_def)
  then show ?thesis
    using write_debug_none(3) [of a io ctx v b]
      lanes_write_ram [OF wf r _ al, of "[lane8 0 v, lane8 1 v, lane8 2 v, lane8 3 v]" io ctx] al
    by (simp add: mb_write32_def on_bus_def even_iff_dvd Let_def)
qed

lemma read8_set_ram:
  assumes wf: "mb_wf b" and r: "ram_region r" and len: "length xs = length (ram r b)"
    and same: "ai_region (classify a) = r \<Longrightarrow> xs ! unat (ai_offset (classify a)) = ram r b ! unat (ai_offset (classify a))"
  shows "mb_read8 io ctx (set_ram r xs b) a = mb_read8 io ctx b a"
proof (cases "ram_region (ai_region (classify a))")
  case True
  then show ?thesis
    using read8_ram [OF wf True, of io ctx] read8_ram [OF mb_wf_set_ram [OF wf r len] True, of io ctx] same r
    by (auto simp: ram_set_ram)
next
  case False
  then show ?thesis
    unfolding mb_read8_def Let_def set_ram_frame by (cases "ai_region (classify a)") simp_all
qed

text \<open>The bytes an aligned store covers: same region, offset among the store's lanes.\<close>

definition covers :: "nat \<Rightarrow> u32 \<Rightarrow> u32 \<Rightarrow> bool" where
  "covers n a a' \<longleftrightarrow> ai_region (classify a') = ai_region (classify a)
     \<and> unat (ai_offset (classify a)) \<le> unat (ai_offset (classify a'))
     \<and> unat (ai_offset (classify a')) < unat (ai_offset (classify a)) + n"

lemma put_bytes_frame:
  fixes bytes :: "u8 list"
  assumes wf: "mb_wf b" and r: "ram_region (ai_region (classify a))" and "\<not> covers (length bytes) a a'"
  shows "mb_read8 io ctx (set_ram (ai_region (classify a))
      (put_bytes (unat (ai_offset (classify a))) bytes (ram (ai_region (classify a)) b)) b) a' = mb_read8 io ctx b a'"
proof (rule read8_set_ram [OF wf r])
  assume "ai_region (classify a') = ai_region (classify a)"
  moreover have "unat (ai_offset (classify a')) < length (ram (ai_region (classify a)) b)"
    using ram_offset_less [OF wf, of a'] r calculation by simp
  ultimately show "put_bytes (unat (ai_offset (classify a))) bytes (ram (ai_region (classify a)) b)
      ! unat (ai_offset (classify a')) = ram (ai_region (classify a)) b ! unat (ai_offset (classify a'))"
    using assms(3) by (auto simp: nth_put_bytes covers_def)
qed simp

text \<open>C3. RAM stores. For every address of EWRAM, IWRAM, palette, VRAM or OAM, mirrors included, an aligned halfword or word store
  succeeds, leaves the I/O context alone and keeps the bus well formed; the same-width load returns the stored value, and no byte outside
  the stored lanes (and their mirrors) reads differently.\<close>

theorem mb_ram_store_load:
  assumes wf: "mb_wf b" and r: "ram_region (ai_region (classify a))"
  shows "(2 dvd unat a \<longrightarrow> (\<exists>b'. mb_write16 io a v (b, ctx) = Some (True, b', ctx) \<and> mb_wf b'
            \<and> mb_read16 io ctx b' a = Some (Some v)
            \<and> (\<forall>a'. \<not> covers 2 a a' \<longrightarrow> mb_read8 io ctx b' a' = mb_read8 io ctx b a')))
       \<and> (4 dvd unat a \<longrightarrow> (\<exists>b'. mb_write32 io a w (b, ctx) = Some (True, b', ctx) \<and> mb_wf b'
            \<and> mb_read32 io ctx b' a = Some (Some w)
            \<and> (\<forall>a'. \<not> covers 4 a a' \<longrightarrow> mb_read8 io ctx b' a' = mb_read8 io ctx b a')))"
proof (intro conjI impI)
  let ?r = "ai_region (classify a)" and ?i = "unat (ai_offset (classify a))"
  assume al: "2 dvd unat a"
  let ?vs = "[lane8 0 v, lane8 1 v]"
  let ?b = "set_ram ?r (put_bytes ?i ?vs (ram ?r b)) b"
  have b': "mb_wf ?b"
    using wf r by (intro mb_wf_set_ram) simp_all
  have "?i + 1 < length (ram ?r b)"
    using lanes_ram(3) [OF wf r al, of 1] by simp
  then have "mb_read16 io ctx ?b a = Some (Some v)"
    using read16_ram [OF b' r al, of io ctx] join16_lanes [of v] r
    by (simp add: ram_set_ram Let_def nth_put_bytes del: put_bytes.simps)
  then show "\<exists>b'. mb_write16 io a v (b, ctx) = Some (True, b', ctx) \<and> mb_wf b' \<and> mb_read16 io ctx b' a = Some (Some v)
      \<and> (\<forall>a'. \<not> covers 2 a a' \<longrightarrow> mb_read8 io ctx b' a' = mb_read8 io ctx b a')"
    using write16_ram [OF wf r al, of io v ctx] b' put_bytes_frame [OF wf r, of ?vs _ io ctx]
    by (simp del: put_bytes.simps add: numeral_2_eq_2)
next
  let ?r = "ai_region (classify a)" and ?i = "unat (ai_offset (classify a))"
  assume al: "4 dvd unat a"
  let ?vs = "[lane8 0 w, lane8 1 w, lane8 2 w, lane8 3 w]"
  let ?b = "set_ram ?r (put_bytes ?i ?vs (ram ?r b)) b"
  have b': "mb_wf ?b"
    using wf r by (intro mb_wf_set_ram) simp_all
  have "?i + 3 < length (ram ?r b)"
    using lanes_ram(3) [OF wf r al, of 3] by simp
  then have "mb_read32 io ctx ?b a = Some (Some w)"
    using read32_ram [OF b', of a io ctx] join32_lanes [of w] r al
    by (simp add: ram_set_ram Let_def nth_put_bytes align_word_id dvd_eq_mod_eq_0 del: put_bytes.simps)
  then show "\<exists>b'. mb_write32 io a w (b, ctx) = Some (True, b', ctx) \<and> mb_wf b' \<and> mb_read32 io ctx b' a = Some (Some w)
      \<and> (\<forall>a'. \<not> covers 4 a a' \<longrightarrow> mb_read8 io ctx b' a' = mb_read8 io ctx b a')"
    using write32_ram [OF wf r al, of io w ctx] b' put_bytes_frame [OF wf r, of ?vs _ io ctx]
    by (simp del: put_bytes.simps add: eval_nat_numeral)
qed

theorem mb_ram_store_load_witness:
  "\<exists>b'. mb_write32 no_io_callbacks 0x03007FFC 0xCAFEBABE (new_memory_bus, ()) = Some (True, b', ())
     \<and> mb_read32 no_io_callbacks () b' 0x03007FFC = Some (Some 0xCAFEBABE)"
  using mb_ram_store_load [OF new_memory_bus_wf, of "0x03007FFC" no_io_callbacks 0 "()" "0xCAFEBABE"]
  by (auto simp: classify_def)

text \<open>A byte store, region by region.\<close>

lemma even_lane:
  fixes off :: u32
  shows "unat (off AND NOT 1) = 2 * (unat off div 2)" "unat ((off AND NOT 1) + 1) = 2 * (unat off div 2) + 1"
proof -
  have "(1 :: u32) = mask 1"
    by (simp add: mask_eq_exp_minus_1)
  then have e: "unat (off AND NOT 1) = unat off div 2 * 2"
    using unat_and_not_mask [of off 1] by simp
  moreover have "unat off div 2 * 2 + 1 < 4294967296"
    using unat_u32_less [of off] by presburger
  ultimately show "unat (off AND NOT 1) = 2 * (unat off div 2)" "unat ((off AND NOT 1) + 1) = 2 * (unat off div 2) + 1"
    by (simp_all add: unat_word_ariths)
qed

lemma video_pair:
  assumes wf: "mb_wf b" and "ai_region (classify a) = r" and r: "r = Palette \<or> r = Vram"
  defines "j \<equiv> 2 * (unat (ai_offset (classify a)) div 2)"
  shows "j < length (ram r b)" "j + 1 < length (ram r b)"
proof -
  have "unat (ai_offset (classify a)) < length (ram r b)"
    using ram_offset_less [OF wf, of a] assms(2) r by auto
  moreover have "even (length (ram r b))"
    using wf r by (auto simp: mb_wf_def region_size_defs)
  ultimately show "j < length (ram r b)" "j + 1 < length (ram r b)"
    unfolding j_def by presburger+
qed

lemma ram_write8_cases:
  fixes a :: u32
  assumes wf: "mb_wf b"
  defines "i \<equiv> unat (ai_offset (classify a))"
  shows "ai_region (classify a) = Ewram \<Longrightarrow> mb_ram_write8 a v b = Some (True, set_ram Ewram ((mb_ewram b)[i := v]) b)"
    "ai_region (classify a) = Iwram \<Longrightarrow> mb_ram_write8 a v b = Some (True, set_ram Iwram ((mb_iwram b)[i := v]) b)"
    "ai_region (classify a) = Palette \<Longrightarrow> mb_ram_write8 a v b =
       Some (True, set_ram Palette ((mb_palette b)[2 * (i div 2) := v, 2 * (i div 2) + 1 := v]) b)"
    "ai_region (classify a) = Vram \<Longrightarrow> mb_ram_write8 a v b =
       Some (True, if i < 0x10000 then set_ram Vram ((mb_vram b)[2 * (i div 2) := v, 2 * (i div 2) + 1 := v]) b else b)"
    "ai_region (classify a) = Oam \<Longrightarrow> mb_ram_write8 a v b = Some (True, b)"
    "\<not> ram_region (ai_region (classify a)) \<Longrightarrow> mb_ram_write8 a v b = Some (False, b)"
proof -
  note off = ram_offset_less [OF wf, of a]
  note unfold = mb_ram_write8_def Let_def writable_ram even_lane i_def
  show "mb_ram_write8 a v b = Some (True, set_ram Ewram ((mb_ewram b)[i := v]) b)" if "ai_region (classify a) = Ewram"
    using that off unfolding unfold by (simp add: set_ram_def)
  show "mb_ram_write8 a v b = Some (True, set_ram Iwram ((mb_iwram b)[i := v]) b)" if "ai_region (classify a) = Iwram"
    using that off unfolding unfold by (simp add: set_ram_def)
  show "mb_ram_write8 a v b =
      Some (True, set_ram Palette ((mb_palette b)[2 * (i div 2) := v, 2 * (i div 2) + 1 := v]) b)"
    if "ai_region (classify a) = Palette"
    using video_pair [OF wf that] unfolding unfold that by (simp add: set_ram_def)
  show "mb_ram_write8 a v b =
      Some (True, if i < 0x10000 then set_ram Vram ((mb_vram b)[2 * (i div 2) := v, 2 * (i div 2) + 1 := v]) b else b)"
    if "ai_region (classify a) = Vram"
    using video_pair [OF wf that] unfolding unfold that by (simp add: set_ram_def word_le_nat_alt)
  show "mb_ram_write8 a v b = Some (True, b)" if "ai_region (classify a) = Oam"
    using that unfolding unfold by simp
  show "mb_ram_write8 a v b = Some (False, b)" if "\<not> ram_region (ai_region (classify a))"
    using that unfolding unfold by simp
qed

lemma write8_array:
  assumes "ai_region (classify a) \<notin> {Unknown, Game_pak_save, Game_pak_rom, Io}"
  shows "mb_write8 io a v (b, ctx) = on_bus (mb_ram_write8 a v) (b, ctx)"
  using assms write_debug_none(1) [of a v b]
  by (cases "ai_region (classify a)") (simp_all add: mb_write8_def on_bus_def Let_def)

text \<open>Byte stores. A byte store to EWRAM or IWRAM changes that byte only; to palette RAM or background VRAM it is duplicated into
  both bytes of the addressed halfword; to OAM and to object VRAM (offset 0x10000 and up) it is accepted and changes nothing; to the BIOS it
  is refused and to the ROM it is accepted exactly when a ROM is loaded, with no effect.\<close>

lemma mb_byte_store_spec:
  fixes a :: u32
  assumes "mb_wf b"
  defines "r \<equiv> ai_region (classify a)" and "i \<equiv> unat (ai_offset (classify a))"
  shows "(r = Ewram \<or> r = Iwram \<longrightarrow> mb_write8 io a v (b, ctx) = Some (True, set_ram r ((ram r b)[i := v]) b, ctx))
    \<and> (r = Palette \<or> r = Vram \<and> i < 0x10000 \<longrightarrow>
         mb_write8 io a v (b, ctx) =
           Some (True, set_ram r ((ram r b)[2 * (i div 2) := v, 2 * (i div 2) + 1 := v]) b, ctx))
    \<and> (r = Oam \<or> r = Vram \<and> 0x10000 \<le> i \<longrightarrow> mb_write8 io a v (b, ctx) = Some (True, b, ctx))
    \<and> (r = Bios \<longrightarrow> mb_write8 io a v (b, ctx) = Some (False, b, ctx))
    \<and> (r = Game_pak_rom \<longrightarrow> mb_write8 io a v (b, ctx) = Some (rom_bytes b \<noteq> [], b, ctx))"
proof -
  have rom: "r = Game_pak_rom \<Longrightarrow> mb_write8 io a v (b, ctx) = Some (rom_bytes b \<noteq> [], b, ctx)"
    using write_debug_none(1) [of a v b] unfolding r_def
    by (simp add: mb_write8_def on_bus_def has_game_pak_rom_def Let_def)
  show ?thesis
    using ram_write8_cases [OF assms(1), of a v] write8_array [of a io v b ctx] rom
    unfolding r_def i_def by (cases "ai_region (classify a)") (simp_all add: on_bus_def)
qed

section \<open>Safety of every access\<close>

text \<open>A result is safe for an invariant when it is not an exception and keeps the invariant; a step is safe when its
  results are.\<close>

definition safe_out :: "('s \<Rightarrow> bool) \<Rightarrow> (bool \<times> 's) throws \<Rightarrow> bool" where
  "safe_out P r = (case r of None \<Rightarrow> False | Some (ok, s) \<Rightarrow> P s)"

definition safe_step :: "('s \<Rightarrow> bool) \<Rightarrow> ('s \<Rightarrow> (bool \<times> 's) throws) \<Rightarrow> bool" where
  "safe_step P f \<longleftrightarrow> (\<forall>s. P s \<longrightarrow> safe_out P (f s))"

lemma safe_out_simps [simp]:
  "safe_out P (Some (ok, s)) = P s" "safe_out P None = False"
  "safe_out P (if c then r else r') = (if c then safe_out P r else safe_out P r')"
  by (simp_all add: safe_out_def)

lemma safe_outE:
  assumes "safe_out P r"
  obtains ok s where "r = Some (ok, s)" "P s"
  using assms by (auto simp: safe_out_def split: option.splits)

lemma safe_stepI: "(\<And>s. P s \<Longrightarrow> safe_out P (f s)) \<Longrightarrow> safe_step P f"
  by (simp add: safe_step_def)

lemma safe_stepD: "safe_step P f \<Longrightarrow> P s \<Longrightarrow> safe_out P (f s)"
  by (simp add: safe_step_def)

lemma safe_out_bind:
  "safe_out P r \<Longrightarrow> (\<And>ok s. P s \<Longrightarrow> safe_out P (g (ok, s))) \<Longrightarrow> safe_out P (r \<bind> g)"
  by (erule safe_outE) simp

lemma safe_and_then: "safe_step P f \<Longrightarrow> safe_step P g \<Longrightarrow> safe_step P (and_then f g)"
  unfolding and_then_def by (rule safe_stepI, rule safe_out_bind) (auto dest: safe_stepD)

lemma safe_foldr_and_then:
  "(\<And>x. x \<in> set xs \<Longrightarrow> safe_step P (f x)) \<Longrightarrow>
     safe_step P (foldr (\<lambda>x rest. and_then (f x) rest) xs (\<lambda>s. Some (True, s)))"
  by (induction xs) (simp_all add: safe_and_then, simp add: safe_step_def)

lemma safe_on_bus:
  "safe_step mb_wf f \<Longrightarrow> safe_step (\<lambda>(b, ctx). mb_wf b \<and> fine ctx) (on_bus f)"
  by (auto simp: safe_step_def on_bus_def safe_out_def split: option.splits)

lemma save_wf_mb_update:
  "save_wf (b\<lparr>mb_mgba_debug_string := str\<rparr>) = save_wf b" "save_wf (b\<lparr>mb_debug_output := out\<rparr>) = save_wf b"
  "save_wf (b\<lparr>mb_palette := xs\<rparr>) = save_wf b" "save_wf (b\<lparr>mb_vram := xs\<rparr>) = save_wf b"
  "save_wf (b\<lparr>mb_oam := xs\<rparr>) = save_wf b" "save_wf (b\<lparr>mb_ewram := xs\<rparr>) = save_wf b"
  "save_wf (b\<lparr>mb_iwram := xs\<rparr>) = save_wf b"
  by (simp_all add: save_wf_def)

lemma mb_wf_debug_output [simp]: "mb_wf (b\<lparr>mb_debug_output := out\<rparr>) = mb_wf b"
  by (simp add: mb_wf_def save_wf_mb_update rom_bytes_def)

lemma safe_write_debug8: "safe_step mb_wf (write_debug8 a v)"
proof (rule safe_stepI)
  fix b assume wf: "mb_wf b"
  have "unat (a - kMgbaDebugStringStart) < 256" if "kMgbaDebugStringStart \<le> a" "a \<le> kMgbaDebugStringEnd"
    using that by (simp add: unat_sub word_le_nat_alt debug_const_defs)
  then show "safe_out mb_wf (write_debug8 a v b)"
    using wf by (simp add: write_debug8_def mb_wf_def save_wf_mb_update rom_bytes_def)
qed

lemma safe_write_debug16: "safe_step mb_wf (write_debug16 a v)"
proof (rule safe_stepI)
  fix b assume wf: "mb_wf b"
  have "mb_wf (flush_mgba_debug_string v b)"
    using wf by (simp add: flush_mgba_debug_string_def Let_def)
  moreover have "safe_out mb_wf (and_then (write_debug8 a (lane8 0 v)) (write_debug8 (a + 1) (lane8 1 v)) b)"
    using safe_stepD [OF safe_and_then [OF safe_write_debug8 safe_write_debug8] wf] .
  ultimately show "safe_out mb_wf (write_debug16 a v b)"
    using wf by (simp add: write_debug16_def)
qed

lemma mb_more_eqD:
  assumes "cartridge_save.more b = cartridge_save.more b'"
  shows "mb_ewram b = mb_ewram b'" "mb_iwram b = mb_iwram b'" "mb_palette b = mb_palette b'" "mb_vram b = mb_vram b'"
    "mb_oam b = mb_oam b'" "mb_mgba_debug_string b = mb_mgba_debug_string b'" "mb_game_pak_rom b = mb_game_pak_rom b'"
  using assms by (cases b; cases b'; simp)+

lemma safe_save_byte: "safe_step mb_wf (write_game_pak_save_byte off v)"
proof (rule safe_stepI)
  fix b :: memory_bus assume wf: "mb_wf b"
  then obtain ok b' where w: "write_game_pak_save_byte off v b = Some (ok, b')" "save_wf b'"
    using write_game_pak_save_byte_safe [of b off v] by (auto simp: mb_wf_def)
  show "safe_out mb_wf (write_game_pak_save_byte off v b)"
    using wf w mb_more_eqD [OF write_game_pak_save_byte_more [OF w(1)]] by (simp add: mb_wf_def rom_bytes_def)
qed

lemma safe_ram_write8: "safe_step mb_wf (mb_ram_write8 a v)"
proof (rule safe_stepI)
  fix b assume wf: "mb_wf b"
  show "safe_out mb_wf (mb_ram_write8 a v b)"
    using ram_write8_cases [OF wf, of a v] wf mb_wf_set_ram [OF wf]
    by (cases "ai_region (classify a)") simp_all
qed

lemma put_lanes_length: "put_lanes xs ps = Some ys \<Longrightarrow> length ys = length xs"
  unfolding put_lanes_def
  by (erule foldM_invariant [where P = "\<lambda>zs. length zs = length xs"]) (auto simp: vec_put_def split: if_splits)

text \<open>The contract of the I/O register facade: on a fine context no callback throws, and writes keep it fine.\<close>

locale io_facade =
  fixes io :: "'c io_callbacks" and fine :: "'c \<Rightarrow> bool"
  assumes read16_returns: "cb_read16 io = Some r16 \<Longrightarrow> fine c \<Longrightarrow> r16 c a \<noteq> None"
    and read32_returns: "cb_read32 io = Some r32 \<Longrightarrow> fine c \<Longrightarrow> r32 c a \<noteq> None"
    and write16_returns: "cb_write16 io = Some w16 \<Longrightarrow> fine c \<Longrightarrow> \<exists>ok c'. w16 c a h = Some (ok, c') \<and> fine c'"
    and write32_returns: "cb_write32 io = Some w32 \<Longrightarrow> fine c \<Longrightarrow> \<exists>ok c'. w32 c a w = Some (ok, c') \<and> fine c'"
begin

lemma read8_returns:
  assumes wf: "mb_wf b" and c: "fine c"
  shows "mb_read8 io c b a \<noteq> None"
proof (cases "ram_region (ai_region (classify a))")
  case True
  then show ?thesis
    using read8_ram [OF wf True, of io c] by simp
next
  case False
  have id: "vec_at kNoCashGbaDebugId (unat (a - kNoCashGbaDebugIdStart)) \<noteq> None"
    if "kNoCashGbaDebugIdStart \<le> a" "a < kNoCashGbaDebugIdStart + of_nat (length kNoCashGbaDebugId)"
    using that
    by (simp add: vec_at_def unat_sub word_le_nat_alt word_less_nat_alt debug_const_defs kNoCashGbaDebugId_def)
  have str: "vec_at (mb_mgba_debug_string b) (unat (a - kMgbaDebugStringStart)) \<noteq> None"
    if "kMgbaDebugStringStart \<le> a" "a \<le> kMgbaDebugStringEnd"
    using that wf by (simp add: vec_at_def unat_sub word_le_nat_alt debug_const_defs mb_wf_def)
  have save: "read_game_pak_save_byte off b \<noteq> None" for off
    using read_game_pak_save_byte_safe [of b off] wf by (auto simp: mb_wf_def)
  have io: "(case cb_read16 io of None \<Rightarrow> Some None | Some r16 \<Rightarrow> r16 c (a AND NOT 1) \<bind> (\<lambda>h. Some (g h))) \<noteq> None" for g
    using read16_returns [OF _ c] by (cases "cb_read16 io") (simp_all add: bind_eq_None_conv del: not_None_eq)
  show ?thesis
    using False id str save io [of "map_option (\<lambda>h. ucast (drop_bit (unat (a AND 1) * 8) h AND 0xFF) :: u8)"]
    unfolding mb_read8_def Let_def
    by (cases "ai_region (classify a)") (simp_all add: vec_at_def del: not_None_eq)
qed

lemma bytes_return:
  assumes "mb_wf b" and "fine c"
  shows "bytes16 io c b a \<noteq> None" "bytes32 io c b a \<noteq> None"
  using read8_returns [OF assms] by (simp_all add: bytes16_def bytes32_def bind_eq_None_conv del: not_None_eq)

lemma mb_read16_returns:
  assumes wf: "mb_wf b" and c: "fine c"
  shows "mb_read16 io c b a \<noteq> None"
proof (cases "ram_region (ai_region (classify a)) \<and> 2 dvd unat a")
  case True
  then show ?thesis
    using read16_ram [OF wf, of a io c] by (simp add: Let_def)
next
  case False
  have save: "read_game_pak_save_byte off b \<noteq> None" for off
    using read_game_pak_save_byte_safe [of b off] wf by (auto simp: mb_wf_def)
  have io: "the (cb_read16 io) c a \<noteq> None" if "cb_read16 io \<noteq> None"
    using read16_returns [OF _ c] that by auto
  show ?thesis
    using False save io bytes_return [OF assms]
    unfolding mb_read16_def Let_def even_iff_dvd
    by (cases "ai_region (classify a)") (simp_all add: half_at_in not_le bind_eq_None_conv del: not_None_eq)
qed

lemma mb_read32_returns:
  assumes wf: "mb_wf b" and c: "fine c"
  shows "mb_read32 io c b a \<noteq> None"
proof (cases "ram_region (ai_region (classify (align_word a)))")
  case True
  then show ?thesis
    using read32_ram [OF wf, of a io c] by (simp add: Let_def)
next
  case False
  have save: "read_game_pak_save_byte off b \<noteq> None" for off
    using read_game_pak_save_byte_safe [of b off] wf by (auto simp: mb_wf_def)
  have io: "the (cb_read32 io) c a \<noteq> None" if "cb_read32 io \<noteq> None"
    using read32_returns [OF _ c] that by auto
  have info: "(if align_word a = a then classify a else classify (align_word a)) = classify (align_word a)"
    by simp
  show ?thesis
    using False save io bytes_return(2) [OF assms, of "align_word a"]
    unfolding mb_read32_def Let_def info
    by (cases "ai_region (classify (align_word a))") (simp_all add: word_at_in not_le bind_eq_None_conv del: not_None_eq)
qed

lemma io_write8_safe:
  assumes w: "cb_write16 io = Some w16" and P: "mb_wf b" "fine c"
  shows "safe_out (\<lambda>(b, c). mb_wf b \<and> fine c) (mb_io_write8 io w16 a v (b, c))"
proof -
  let ?cur = "case cb_read16 io of None \<Rightarrow> Some 0
      | Some r16 \<Rightarrow> map_option (\<lambda>r. case r of Some h \<Rightarrow> h | None \<Rightarrow> 0) (r16 c (a AND NOT 1))"
  have "?cur \<noteq> None"
    using read16_returns [OF _ P(2)] by (cases "cb_read16 io") (simp_all del: not_None_eq)
  then obtain cur where cur: "?cur = Some cur"
    by blast
  obtain ok c' where w: "w16 c (a AND NOT 1) (if a AND 1 \<noteq> 0 then (cur AND 0x00FF) OR push_bit 8 (ucast v)
      else (cur AND 0xFF00) OR ucast v) = Some (ok, c')" "fine c'"
    using write16_returns [OF w P(2)] by blast
  have "mb_io_write8 io w16 a v (b, c) = Some (True, b, c')"
    unfolding mb_io_write8_def Let_def prod.case cur Option.bind_lunit w(1) ..
  then show ?thesis
    using P(1) w(2) by simp
qed

lemma write8_safe: "safe_step (\<lambda>(b, c). mb_wf b \<and> fine c) (mb_write8 io a v)"
proof (rule safe_stepI, clarify)
  fix b c assume P: "mb_wf b" "fine c"
  have bus: "safe_out (\<lambda>(b, c). mb_wf b \<and> fine c) (on_bus f (b', c'))"
    if "safe_step mb_wf f" "mb_wf b'" "fine c'" for f b' c'
    using safe_stepD [OF safe_on_bus [OF that(1), of fine], of "(b', c')"] that(2,3) by simp
  show "safe_out (\<lambda>(b, c). mb_wf b \<and> fine c) (mb_write8 io a v (b, c))"
    unfolding mb_write8_def
  proof (rule safe_out_bind [OF bus [OF safe_write_debug8 P]], goal_cases)
    case (1 handled s)
    then obtain b' c' where s: "s = (b', c')" "mb_wf b'" "fine c'"
      by (cases s) simp
    show ?case
      using s bus [OF safe_save_byte s(2,3)] bus [OF safe_ram_write8 s(2,3)] io_write8_safe [OF _ s(2,3)]
      by (auto simp: Let_def split: region.splits option.splits)
  qed
qed

end

end
