(* ===== verification/Memory_Safety.thy ===== *)
theory Memory_Safety
  imports Memory_Access
begin

text \<open>
  Halfword and word stores of \<open>MemoryBus\<close> never throw and keep the bus well formed, whatever the address, for every I/O
  facade that meets the contract \<open>io_facade\<close>; the bus without a facade is its first instance. The theory also holds the round trip
  of the bus's save state, the memory part of the BIOS call RegisterRamReset, and the behaviour of unaligned word stores.
\<close>

section \<open>Halfword and word stores\<close>

lemma put_lanes_in:
  assumes "\<And>off v. (off, v) \<in> set ps \<Longrightarrow> unat off < length xs"
  shows "\<exists>ys. put_lanes xs ps = Some ys \<and> length ys = length xs"
  using assms
proof (induction ps arbitrary: xs)
  case (Cons p ps)
  obtain off v where p: "p = (off, v)"
    by (cases p)
  have "unat off < length xs"
    using Cons.prems p by (meson list.set_intros(1))
  moreover have "\<exists>ys. put_lanes (xs[unat off := v]) ps = Some ys \<and> length ys = length (xs[unat off := v])"
    using Cons.prems by (intro Cons.IH) auto
  ultimately show ?case
    using p by (simp add: put_lanes_def vec_put_def)
qed (simp add: put_lanes_def)

lemma lanes_in_array:
  fixes bytes :: "u8 list"
  assumes wf: "mb_wf b" and r: "ram_region r"
    and all: "list_all (\<lambda>info. ai_region info = r) (map (\<lambda>k. classify (a + of_nat k)) [0..<length bytes])"
  shows "\<exists>ys. put_lanes (ram r b) (zip (map ai_offset (map (\<lambda>k. classify (a + of_nat k)) [0..<length bytes])) bytes) = Some ys
    \<and> length ys = length (ram r b)"
proof (rule put_lanes_in)
  fix off v
  assume "(off, v) \<in> set (zip (map ai_offset (map (\<lambda>k. classify (a + of_nat k)) [0..<length bytes])) bytes)"
  then obtain k where k: "k < length bytes" "off = ai_offset (classify (a + of_nat k))"
    by (auto dest!: set_zip_leftD)
  then have "ai_region (classify (a + of_nat k)) = r"
    using all by (simp add: list_all_iff)
  then show "unat off < length (ram r b)"
    using ram_offset_less [OF wf, of "a + of_nat k"] r k by simp
qed

lemma safe_out_if:
  "(c \<Longrightarrow> safe_out P r) \<Longrightarrow> (\<not> c \<Longrightarrow> safe_out P r') \<Longrightarrow> safe_out P (if c then r else r')"
  by simp

context io_facade
begin

lemma bus_step_safe:
  "safe_step mb_wf f \<Longrightarrow> mb_wf b \<Longrightarrow> fine c \<Longrightarrow> safe_out (\<lambda>(b, c). mb_wf b \<and> fine c) (on_bus f (b, c))"
  using safe_stepD [OF safe_on_bus [of f fine], of "(b, c)"] by simp

lemma bytes_write_safe:
  "safe_step (\<lambda>(b, c). mb_wf b \<and> fine c) (mb_bytes_write (mb_write8 io) a bytes)"
  unfolding mb_bytes_write_def by (rule safe_foldr_and_then) (rule write8_safe)

lemma lanes_write_safe:
  assumes P: "mb_wf b" "fine c"
  shows "safe_out (\<lambda>(b, c). mb_wf b \<and> fine c) (mb_lanes_write (mb_write8 io) a bytes (b, c))"
proof -
  note l = lanes_in_array [OF P(1), where a = a and bytes = bytes]
  have put: "safe_out (\<lambda>(b, c). mb_wf b \<and> fine c)
      (map_option (\<lambda>xs. (True, set_ram r xs b, c))
        (put_lanes (ram r b) (zip (map ai_offset (map (\<lambda>k. classify (a + of_nat k)) [0..<length bytes])) bytes)))"
    if "ram_region r" "list_all (\<lambda>info. ai_region info = r) (map (\<lambda>k. classify (a + of_nat k)) [0..<length bytes])" for r
    using l [OF that] mb_wf_set_ram [OF P(1) that(1)] P(2) by auto
  note puts = put [of Palette] put [of Vram] put [of Oam]
  show ?thesis
    using puts safe_stepD [OF bytes_write_safe, of "(b, c)" a bytes] P
    unfolding mb_lanes_write_def Let_def fst_conv snd_conv
    by (simp add: set_ram_def)
qed

lemma io_store_safe:
  assumes "mb_wf b" and "fine c"
  shows "cb_write16 io \<noteq> None \<Longrightarrow> safe_out (\<lambda>(b, c). mb_wf b \<and> fine c)
      (the (cb_write16 io) c a h \<bind> (\<lambda>(handled, ctx'). Some (True, b, ctx')))"
    "cb_write32 io \<noteq> None \<Longrightarrow> safe_out (\<lambda>(b, c). mb_wf b \<and> fine c)
      (the (cb_write32 io) c a w \<bind> (\<lambda>(handled, ctx'). Some (True, b, ctx')))"
proof -
  show "safe_out (\<lambda>(b, c). mb_wf b \<and> fine c)
      (the (cb_write16 io) c a h \<bind> (\<lambda>(handled, ctx'). Some (True, b, ctx')))" if some: "cb_write16 io \<noteq> None"
  proof -
    obtain ok c' where "the (cb_write16 io) c a h = Some (ok, c')" "fine c'"
      using write16_returns [OF _ assms(2), of _ a h] some by auto
    then show ?thesis
      using assms(1) by simp
  qed
  show "safe_out (\<lambda>(b, c). mb_wf b \<and> fine c)
      (the (cb_write32 io) c a w \<bind> (\<lambda>(handled, ctx'). Some (True, b, ctx')))" if some: "cb_write32 io \<noteq> None"
  proof -
    obtain ok c' where "the (cb_write32 io) c a w = Some (ok, c')" "fine c'"
      using write32_returns [OF _ assms(2), of _ a w] some by auto
    then show ?thesis
      using assms(1) by simp
  qed
qed

lemma write16_safe: "safe_step (\<lambda>(b, c). mb_wf b \<and> fine c) (mb_write16 io a v)"
proof (rule safe_stepI, clarify)
  fix b c assume P: "mb_wf b" "fine c"
  show "safe_out (\<lambda>(b, c). mb_wf b \<and> fine c) (mb_write16 io a v (b, c))"
    unfolding mb_write16_def Let_def
  proof (intro safe_out_if safe_out_bind [OF bus_step_safe [OF safe_write_debug16 P]] bus_step_safe [OF safe_save_byte P],
      goal_cases)
    case (2 handled s)
    then show ?case
      using io_store_safe(1) lanes_write_safe safe_stepD [OF bytes_write_safe, of s] by (cases s) (simp add: Let_def)
  qed (use P in simp)
qed

lemma write_debug32_safe:
  assumes "fine c" and "mb_wf b"
  shows "safe_out mb_wf (write_debug32 io c a v b)"
proof -
  have str: "debug_string_at io c b as \<noteq> None" for as
  proof (induction as)
    case (Cons x as)
    then show ?case
      using read8_returns [OF assms(2,1), of x]
      by (auto simp: bind_eq_None_conv split: option.splits simp del: not_None_eq)
  qed simp
  have lanes: "safe_out mb_wf (and_then (and_then (and_then (write_debug8 a0 v0) (write_debug8 a1 v1)) (write_debug8 a2 v2))
      (write_debug8 a3 v3) b)" for a0 a1 a2 a3 v0 v1 v2 v3
    by (rule safe_stepD [where P = mb_wf, OF _ assms(2)]) (intro safe_and_then safe_write_debug8)
  show ?thesis
    using lanes str [of "map (\<lambda>k. v + of_nat k) [0..<256]"] assms(2) by (auto simp: write_debug32_def)
qed

lemma write32_safe: "safe_step (\<lambda>(b, c). mb_wf b \<and> fine c) (mb_write32 io a v)"
proof (rule safe_stepI, clarify)
  fix b c assume P: "mb_wf b" "fine c"
  have "safe_step mb_wf (\<lambda>b'. if b' = b then write_debug32 io c a v b' else Some (False, b'))"
    using write_debug32_safe [OF P(2)] by (auto intro!: safe_stepI)
  from bus_step_safe [OF this P]
  have d: "safe_out (\<lambda>(b, c). mb_wf b \<and> fine c) (on_bus (write_debug32 io (snd (b, c)) a v) (b, c))"
    by (simp add: on_bus_def)
  show "safe_out (\<lambda>(b, c). mb_wf b \<and> fine c) (mb_write32 io a v (b, c))"
    unfolding mb_write32_def Let_def
  proof (intro safe_out_if safe_out_bind [OF d] bus_step_safe [OF safe_save_byte P], goal_cases)
    case (2 handled s)
    then show ?case
      using io_store_safe(2) lanes_write_safe safe_stepD [OF bytes_write_safe, of s] by (cases s) (simp add: Let_def)
  qed (use P in simp)
qed

lemma access_safe:
  assumes "mb_wf b" and "fine c"
  shows "mb_read8 io c b a \<noteq> None \<and> mb_read16 io c b a \<noteq> None \<and> mb_read32 io c b a \<noteq> None
    \<and> (\<forall>r \<in> {mb_write8 io a v8 (b, c), mb_write16 io a v16 (b, c), mb_write32 io a v32 (b, c)}.
         \<exists>ok b' c'. r = Some (ok, b', c') \<and> mb_wf b' \<and> fine c')"
proof -
  have out: "\<exists>ok b' c'. r = Some (ok, b', c') \<and> mb_wf b' \<and> fine c'" if "safe_out (\<lambda>(b, c). mb_wf b \<and> fine c) r" for r
    using that by (auto elim: safe_outE)
  have P: "(\<lambda>(b, c). mb_wf b \<and> fine c) (b, c)"
    using assms by simp
  show ?thesis
    using read8_returns [OF assms] mb_read16_returns [OF assms] mb_read32_returns [OF assms]
      out [OF safe_stepD [OF write8_safe P]] out [OF safe_stepD [OF write16_safe P]] out [OF safe_stepD [OF write32_safe P]]
    by (simp del: not_None_eq)
qed

text \<open>The bus as clients hold it, memory and facade state together.\<close>

definition fine_bus :: "memory_bus \<times> 'c \<Rightarrow> bool" where
  "fine_bus m \<longleftrightarrow> mb_wf (fst m) \<and> fine (snd m)"

lemma memory_reads_yield:
  assumes "fine_bus m"
  shows "yields (\<lambda>_. True) (mb_read8 io (snd m) (fst m) a)" "yields (\<lambda>_. True) (mb_read16 io (snd m) (fst m) a)"
    "yields (\<lambda>_. True) (mb_read32 io (snd m) (fst m) a)"
  using access_safe [of "fst m" "snd m" a 0 0 0] assms by (auto simp: fine_bus_def)

lemma writes_yield:
  assumes "fine_bus m"
  shows "yields (\<lambda>(ok, m). fine_bus m) (mb_write8 io a v8 m)" "yields (\<lambda>(ok, m). fine_bus m) (mb_write16 io a v16 m)"
    "yields (\<lambda>(ok, m). fine_bus m) (mb_write32 io a v32 m)"
  using access_safe [of "fst m" "snd m" a v8 v16 v32] assms
  by (cases m; auto simp: fine_bus_def)+

end

text \<open>A bus whose embedder has installed no callbacks.\<close>

interpretation no_io: io_facade no_io_callbacks "\<lambda>_. True"
  by unfold_locales (simp_all add: no_io_callbacks_def)

text \<open>C10. No access of the bus ever indexes outside its arrays: with any I/O facade that meets its contract, on a well-formed bus
  and for every address, the byte, halfword and word loads return, the stores return, and the stores leave the bus well formed and the
  facade's context fine.\<close>

theorem mb_access_safe:
  assumes "io_facade io fine" and "mb_wf b" and "fine c"
  shows "mb_read8 io c b a \<noteq> None \<and> mb_read16 io c b a \<noteq> None \<and> mb_read32 io c b a \<noteq> None
    \<and> (\<forall>r \<in> {mb_write8 io a v8 (b, c), mb_write16 io a v16 (b, c), mb_write32 io a v32 (b, c)}.
         \<exists>ok b' c'. r = Some (ok, b', c') \<and> mb_wf b' \<and> fine c')"
  by (rule io_facade.access_safe [OF assms])

theorem mb_access_safe_witness:
  "mb_read32 no_io_callbacks () new_memory_bus 0xDEADBEEF \<noteq> None"
  using mb_access_safe [OF no_io.io_facade_axioms new_memory_bus_wf, of "()" "0xDEADBEEF" 0 0 0] by blast

section \<open>Resets, ROM and save states\<close>

lemma mb_wf_soft_reset [wf_intros]: "mb_wf b \<Longrightarrow> mb_wf (mb_soft_reset b)"
  by (simp add: mb_wf_def mb_soft_reset_def clear_debug_output_def reset_flash_protocol_def save_wf_def rom_bytes_def)

lemma mb_wf_clear_rom [wf_intros]: "mb_wf b \<Longrightarrow> mb_wf (clear_game_pak_rom b)"
  by (simp add: mb_wf_def clear_game_pak_rom_def save_wf_def rom_bytes_def)

lemma mb_wf_clear_save [wf_intros]: "mb_wf b \<Longrightarrow> mb_wf (clear_game_pak_save b)"
  by (simp add: mb_wf_def clear_game_pak_save_def reset_flash_protocol_def save_wf_def rom_bytes_def)

lemma mb_wf_hard_reset [wf_intros]: "mb_wf b \<Longrightarrow> mb_wf (mb_hard_reset b)"
  unfolding mb_hard_reset_def by (intro wf_intros)

lemma mb_wf_load_rom [wf_intros]: "mb_wf b \<Longrightarrow> mb_wf (snd (load_game_pak_rom data b))"
  by (auto simp: mb_wf_def load_game_pak_rom_def save_wf_def rom_bytes_def)

lemma mb_wf_open_bus [wf_intros]: "mb_wf b \<Longrightarrow> mb_wf (drive_open_bus v b)" "mb_wf b \<Longrightarrow> mb_wf (clear_open_bus_latch b)"
  by (simp_all add: mb_wf_def drive_open_bus_def clear_open_bus_latch_def save_wf_def rom_bytes_def)

text \<open>Save states of the bus. Loading the saved state of a well-formed bus into any bus gives back exactly that bus; a state that
  is refused leaves the bus untouched; an accepted one has a save buffer of the size of its type and a flash bank that exists.\<close>

lemma mb_save_load_state:
  shows "(mb_wf b \<longrightarrow> mb_load_state (mb_save_state b) b0 = (True, b))
    \<and> (\<not> fst (mb_load_state st b0) \<longrightarrow> snd (mb_load_state st b0) = b0)
    \<and> (fst (mb_load_state st b0) \<longrightarrow> save_wf (snd (mb_load_state st b0)))"
proof (intro conjI impI)
  assume wf: "mb_wf b"
  have code: "flash_state_code f \<le> flash_state_code Flash_bank_select" for f
    by (cases f) simp_all
  have "mb_game_pak_rom b = (if rom_bytes b = [] then None else Some (rom_bytes b))"
    using wf by (auto simp: mb_wf_def rom_bytes_def split: option.splits)
  then show "mb_load_state (mb_save_state b) b0 = (True, b)"
    using wf code [of "flash_command_state b"]
    by (cases b) (auto simp: mb_load_state_def mb_save_state_def mb_wf_def save_wf_def not_less Let_def rom_bytes_def
        save_size_defs)
next
  have refuse: "\<not> fst (if c then (False, b0) else r) \<longrightarrow> snd (if c then (False, b0) else r) = b0"
    if "\<not> fst r \<longrightarrow> snd r = b0" for c and r :: "bool \<times> memory_bus"
    using that by simp
  have refused: "\<not> fst (mb_load_state st b0) \<longrightarrow> snd (mb_load_state st b0) = b0"
    unfolding mb_load_state_def Let_def by (intro refuse) simp
  show "snd (mb_load_state st b0) = b0" if "\<not> fst (mb_load_state st b0)"
    using that refused by blast
  show "save_wf (snd (mb_load_state st b0))" if "fst (mb_load_state st b0)"
    using that by (cases "game_pak_save_type st")
      (auto simp: mb_load_state_def Let_def save_wf_def save_size_defs not_less split: if_splits)
qed

text \<open>C19. The memory part of the BIOS call RegisterRamReset never throws; each of the flags 0 to 4 clears its region and no other, and
  the last 0x200 bytes of IWRAM (the stacks and the interrupt vector) always survive; ROM and save memory are untouched.\<close>

theorem register_ram_reset_spec:
  assumes wf: "mb_wf b"
  shows "\<exists>b'. register_ram_reset flags b = Some b' \<and> mb_wf b'
    \<and> mb_ewram b' = (if bit flags 0 then vec_fill kEwramSize 0 else mb_ewram b)
    \<and> (\<forall>i < kIwramSize. mb_iwram b' ! i = (if bit flags 1 \<and> i < kIwramSize - 0x200 then 0 else mb_iwram b ! i))
    \<and> mb_palette b' = (if bit flags 2 then vec_fill kPaletteSize 0 else mb_palette b)
    \<and> mb_vram b' = (if bit flags 3 then vec_fill kVramSize 0 else mb_vram b)
    \<and> mb_oam b' = (if bit flags 4 then vec_fill kOamSize 0 else mb_oam b)
    \<and> rom_bytes b' = rom_bytes b \<and> game_pak_save b' = game_pak_save b"
proof -
  have flag: "flags AND 0x01 \<noteq> 0 \<longleftrightarrow> bit flags 0" "flags AND 0x02 \<noteq> 0 \<longleftrightarrow> bit flags 1"
    "flags AND 0x04 \<noteq> 0 \<longleftrightarrow> bit flags 2" "flags AND 0x08 \<noteq> 0 \<longleftrightarrow> bit flags 3" "flags AND 0x10 \<noteq> 0 \<longleftrightarrow> bit flags 4"
    using and_exp_eq_0_iff_not_bit [of flags 0] and_exp_eq_0_iff_not_bit [of flags 1]
      and_exp_eq_0_iff_not_bit [of flags 2] and_exp_eq_0_iff_not_bit [of flags 3]
      and_exp_eq_0_iff_not_bit [of flags 4] by simp_all
  define b1 where "b1 = (if bit flags 0 then b\<lparr>mb_ewram := vec_fill kEwramSize 0\<rparr> else b)"
  have iw: "mb_iwram b1 = mb_iwram b" "length (mb_iwram b) = kIwramSize"
    using wf by (simp_all add: b1_def mb_wf_def)
  obtain xs where xs: "vec_fill_range (mb_iwram b) 0 (length (mb_iwram b) - 0x200) 0 = Some xs"
    by (simp add: vec_fill_range_def)
  define b2 where "b2 = (if bit flags 1 then b1\<lparr>mb_iwram := xs\<rparr> else b1)"
  have "register_ram_reset flags b =
     (let b3 = (if bit flags 2 then b2\<lparr>mb_palette := vec_fill kPaletteSize 0\<rparr> else b2);
          b4 = (if bit flags 3 then b3\<lparr>mb_vram := vec_fill kVramSize 0\<rparr> else b3)
      in Some (if bit flags 4 then b4\<lparr>mb_oam := vec_fill kOamSize 0\<rparr> else b4))"
    unfolding register_ram_reset_def flag b1_def [symmetric] Let_def
    using xs by (simp add: iw b2_def)
  then show ?thesis
    using wf vec_fill_range_nth [OF xs] iw(2)
    by (simp add: Let_def b2_def b1_def mb_wf_def save_wf_mb_update rom_bytes_def)
qed

theorem register_ram_reset_spec_witness:
  "\<exists>b'. register_ram_reset 0x02 new_memory_bus = Some b' \<and> mb_wf b' \<and> mb_vram b' = mb_vram new_memory_bus"
  using register_ram_reset_spec [OF new_memory_bus_wf, of "0x02"] by auto

section \<open>Unaligned word stores\<close>

text \<open>An unaligned word store to work RAM lands byte by byte at the addressed bytes, while the word load of the same address
  rotates the aligned word: the two do not agree, as this pair of accesses shows.\<close>

lemma unaligned_word_store_not_read_back:
  "\<exists>b'. mb_write32 no_io_callbacks 0x02000001 0x44332211 (new_memory_bus, ()) = Some (True, b', ())
     \<and> mb_read8 no_io_callbacks () b' 0x02000004 = Some (Some 0x44)
     \<and> mb_read32 no_io_callbacks () b' 0x02000001 = Some (Some 0x00332211)"
proof -
  let ?vs = "[0x11, 0x22, 0x33, 0x44] :: u8 list"
  let ?xs = "put_bytes 1 ?vs (mb_ewram new_memory_bus)"
  let ?b = "set_ram Ewram ?xs new_memory_bus"
  have cl: "ai_region (classify (0x02000001 + of_nat k)) = Ewram
      \<and> unat (ai_offset (classify (0x02000001 + of_nat k))) = 1 + k" if "k < length ?vs" for k
  proof -
    have "k = 0 \<or> k = 1 \<or> k = 2 \<or> k = 3"
      using that by auto
    then show ?thesis
      by (elim disjE) (simp_all add: classify_def region_size_defs)
  qed
  have "mb_bytes_write (mb_write8 no_io_callbacks) 0x02000001 ?vs (new_memory_bus, ()) = Some (True, ?b, ())"
    using work_ram_bytes_write [OF new_memory_bus_wf, of Ewram ?vs "0x02000001" 1 0 no_io_callbacks "()"] cl
    by (simp add: mb_bytes_write_def del: put_bytes.simps)
  moreover have "ai_region (classify 0x02000001) = Ewram"
    using cl [of 0] by simp
  ultimately have w: "mb_write32 no_io_callbacks 0x02000001 0x44332211 (new_memory_bus, ()) = Some (True, ?b, ())"
    using write_debug_none(3) [of "0x02000001" no_io_callbacks "()" "0x44332211" new_memory_bus]
    by (simp add: mb_write32_def on_bus_def Let_def no_io_callbacks_def lane8_def del: put_bytes.simps)
  have wf: "mb_wf ?b"
    using new_memory_bus_wf by (intro mb_wf_set_ram) (simp_all del: put_bytes.simps)
  have len: "length (mb_ewram new_memory_bus) = 262144" "mb_ewram new_memory_bus ! 0 = 0"
    using new_memory_bus_wf
    by (simp_all add: mb_wf_def region_size_defs new_memory_bus_def mb_reset_def mb_soft_reset_def
        clear_debug_output_def clear_game_pak_save_def reset_flash_protocol_def vec_fill_def)
  have ewram: "mb_ewram (set_ram Ewram ys b) = ys" for ys b
    by (simp add: set_ram_def)
  have "mb_read8 no_io_callbacks () ?b 0x02000004 = Some (Some 0x44)"
    using read8_ram [OF wf, of "0x02000004" no_io_callbacks "()"] len
    by (simp add: classify_def region_size_defs ewram nth_put_bytes del: put_bytes.simps)
  moreover have "mb_read32 no_io_callbacks () ?b 0x02000001 = Some (Some 0x00332211)"
    using read32_ram [OF wf, of "0x02000001" no_io_callbacks "()"] len
    by (simp add: align_word_def classify_def region_size_defs ewram nth_put_bytes join32_def rotate_right_def Let_def del: put_bytes.simps)
  ultimately show ?thesis
    using w by blast
qed

end
