(* ===== verification/Dma_Registers.thy ===== *)
theory Dma_Registers
  imports Interrupts Apu
begin

text \<open>
  The registers of the four DMA channels, \<open>src/src/core/dma_controller.cpp\<close>: source, destination, count and control with the latched
  working copies, the pending flag of immediate transfers, save states and fingerprint. The transfers themselves, which run over the
  memory bus and so over the other devices, are in \<open>Dma_Transfer\<close>.
\<close>

datatype dma_address_control = Increment | Decrement | Fixed | Increment_reload

datatype dma_start_timing = Start_immediate | Start_vblank | Start_hblank | Start_special

datatype dma_trigger = Trigger_immediate | Trigger_vblank | Trigger_hblank | Trigger_special | Trigger_fifo_a | Trigger_fifo_b

record dma_channel =
  dc_source :: u32
  dc_destination :: u32
  dc_word_count :: u16
  dc_control :: u16
  dc_current_source :: u32
  dc_current_destination :: u32
  dc_current_count :: u32
  dc_data_latch :: u32

record dma_controller =
  dma_channels :: "dma_channel list"
  dma_immediate_pending :: bool

definition kChannelCount :: nat where "kChannelCount = 4"
definition kDestinationControlMask :: u16 where "kDestinationControlMask = 0x0060"
definition kSourceControlMask :: u16 where "kSourceControlMask = 0x0180"
definition kRepeatFlag :: u16 where "kRepeatFlag = 0x0200"
definition kTransfer32Flag :: u16 where "kTransfer32Flag = 0x0400"
definition kGamePakDrqFlag :: u16 where "kGamePakDrqFlag = 0x0800"
definition kStartTimingMask :: u16 where "kStartTimingMask = 0x3000"
definition kDmaIrqFlag :: u16 where "kDmaIrqFlag = 0x4000"
definition kDmaEnableFlag :: u16 where "kDmaEnableFlag = 0x8000"
definition kDmaControlMask :: u16 where
  "kDmaControlMask = kDestinationControlMask OR kSourceControlMask OR kRepeatFlag OR kTransfer32Flag OR kStartTimingMask
     OR kDmaIrqFlag OR kDmaEnableFlag"
definition kFifoAAddress :: u32 where "kFifoAAddress = 0x040000A0"
definition kFifoBAddress :: u32 where "kFifoBAddress = 0x040000A4"
definition kSoundFifoWordsPerRequest :: u32 where "kSoundFifoWordsPerRequest = 4"

lemmas dma_const_defs = kChannelCount_def kDestinationControlMask_def kSourceControlMask_def kRepeatFlag_def
  kTransfer32Flag_def kGamePakDrqFlag_def kStartTimingMask_def kDmaIrqFlag_def kDmaEnableFlag_def kDmaControlMask_def
  kFifoAAddress_def kFifoBAddress_def kSoundFifoWordsPerRequest_def

definition dma_word_count_mask :: "nat \<Rightarrow> u32" where
  "dma_word_count_mask channel = (if channel = 3 then 0xFFFF else 0x3FFF)"

text \<open>\<open>InterruptSource::dma0 + channel\<close>.\<close>

definition dma_interrupt_source :: "nat \<Rightarrow> interrupt_source" where
  "dma_interrupt_source channel =
     (if channel = 0 then Irq_dma0 else if channel = 1 then Irq_dma1 else if channel = 2 then Irq_dma2 else Irq_dma3)"

section \<open>Reading the registers\<close>

definition checked_channel :: "nat \<Rightarrow> dma_controller \<Rightarrow> dma_channel throws" where
  "checked_channel channel d = (if channel \<ge> kChannelCount then None else vec_at (dma_channels d) channel)"

definition put_channel :: "nat \<Rightarrow> dma_channel \<Rightarrow> dma_controller \<Rightarrow> dma_controller throws" where
  "put_channel channel st d =
     (if channel \<ge> kChannelCount then None
      else map_option (\<lambda>cs. d\<lparr>dma_channels := cs\<rparr>) (vec_put (dma_channels d) channel st))"

text \<open>The fields of a control word; the two-bit fields are the enumerations' codes.\<close>

definition address_control_of :: "u16 \<Rightarrow> dma_address_control" where
  "address_control_of code =
     (if code = 0 then Increment else if code = 1 then Decrement else if code = 2 then Fixed else Increment_reload)"

definition start_timing_of :: "u16 \<Rightarrow> dma_start_timing" where
  "start_timing_of code =
     (if code = 0 then Start_immediate else if code = 1 then Start_vblank else if code = 2 then Start_hblank
      else Start_special)"

definition channel_enabled :: "dma_channel \<Rightarrow> bool" where
  "channel_enabled st \<longleftrightarrow> dc_control st AND kDmaEnableFlag \<noteq> 0"

definition channel_repeat :: "dma_channel \<Rightarrow> bool" where
  "channel_repeat st \<longleftrightarrow> dc_control st AND kRepeatFlag \<noteq> 0"

definition channel_transfer_32bit :: "dma_channel \<Rightarrow> bool" where
  "channel_transfer_32bit st \<longleftrightarrow> dc_control st AND kTransfer32Flag \<noteq> 0"

definition channel_irq_on_completion :: "dma_channel \<Rightarrow> bool" where
  "channel_irq_on_completion st \<longleftrightarrow> dc_control st AND kDmaIrqFlag \<noteq> 0"

definition channel_destination_control :: "dma_channel \<Rightarrow> dma_address_control" where
  "channel_destination_control st = address_control_of (drop_bit 5 (dc_control st) AND 3)"

definition channel_source_control :: "dma_channel \<Rightarrow> dma_address_control" where
  "channel_source_control st = address_control_of (drop_bit 7 (dc_control st) AND 3)"

definition channel_start_timing :: "dma_channel \<Rightarrow> dma_start_timing" where
  "channel_start_timing st = start_timing_of (drop_bit 12 (dc_control st) AND 3)"

definition dma_source :: "nat \<Rightarrow> dma_controller \<Rightarrow> u32 throws" where
  "dma_source channel d = map_option dc_source (checked_channel channel d)"

definition dma_destination :: "nat \<Rightarrow> dma_controller \<Rightarrow> u32 throws" where
  "dma_destination channel d = map_option dc_destination (checked_channel channel d)"

definition dma_word_count :: "nat \<Rightarrow> dma_controller \<Rightarrow> u16 throws" where
  "dma_word_count channel d = map_option dc_word_count (checked_channel channel d)"

definition dma_control :: "nat \<Rightarrow> dma_controller \<Rightarrow> u16 throws" where
  "dma_control channel d = map_option dc_control (checked_channel channel d)"

definition dma_active_count :: "nat \<Rightarrow> dma_controller \<Rightarrow> u32 throws" where
  "dma_active_count channel d = map_option dc_current_count (checked_channel channel d)"

definition normalized_word_count :: "nat \<Rightarrow> dma_channel \<Rightarrow> u32" where
  "normalized_word_count channel st =
     (let m = dma_word_count_mask channel; count = ucast (dc_word_count st) AND m
      in if count = 0 then m + 1 else count)"

section \<open>Writing the registers\<close>

definition blank_channel :: dma_channel where
  "blank_channel = \<lparr>dc_source = 0, dc_destination = 0, dc_word_count = 0, dc_control = 0, dc_current_source = 0,
     dc_current_destination = 0, dc_current_count = 0, dc_data_latch = 0\<rparr>"

definition dma_reset :: dma_controller where
  "dma_reset = \<lparr>dma_channels = vec_fill kChannelCount blank_channel, dma_immediate_pending = False\<rparr>"

definition dma_write_source :: "nat \<Rightarrow> u32 \<Rightarrow> dma_controller \<Rightarrow> dma_controller throws" where
  "dma_write_source channel v d = do {st \<leftarrow> checked_channel channel d; put_channel channel (st\<lparr>dc_source := v\<rparr>) d}"

definition dma_write_destination :: "nat \<Rightarrow> u32 \<Rightarrow> dma_controller \<Rightarrow> dma_controller throws" where
  "dma_write_destination channel v d =
     do {st \<leftarrow> checked_channel channel d; put_channel channel (st\<lparr>dc_destination := v\<rparr>) d}"

definition dma_write_word_count :: "nat \<Rightarrow> u16 \<Rightarrow> dma_controller \<Rightarrow> dma_controller throws" where
  "dma_write_word_count channel v d =
     do {st \<leftarrow> checked_channel channel d; put_channel channel (st\<lparr>dc_word_count := v\<rparr>) d}"

definition channel_immediate :: "dma_channel \<Rightarrow> bool" where
  "channel_immediate st \<longleftrightarrow> channel_enabled st \<and> channel_start_timing st = Start_immediate"

definition refresh_immediate_pending :: "dma_controller \<Rightarrow> dma_controller" where
  "refresh_immediate_pending d = d\<lparr>dma_immediate_pending := list_ex channel_immediate (dma_channels d)\<rparr>"

definition control_mask_of :: "nat \<Rightarrow> u16" where
  "control_mask_of channel = (if channel = 3 then kDmaControlMask OR kGamePakDrqFlag else kDmaControlMask)"

text \<open>The channel's own part of \<open>write_control\<close>, up to the pending flag.\<close>

definition channel_write_control :: "nat \<Rightarrow> u16 \<Rightarrow> dma_channel \<Rightarrow> dma_channel" where
  "channel_write_control channel v st =
     (let was_enabled = channel_enabled st;
          was_sound_fifo = (was_enabled \<and> (channel = 1 \<or> channel = 2) \<and> channel_start_timing st = Start_special
            \<and> (dc_destination st = kFifoAAddress \<or> dc_destination st = kFifoBAddress));
          st1 = st\<lparr>dc_control := v AND control_mask_of channel\<rparr>;
          is_enabled = channel_enabled st1;
          st2 = (if \<not> was_enabled \<and> is_enabled then
                   st1\<lparr>dc_current_source := dc_source st1, dc_current_destination := dc_destination st1,
                       dc_current_count := normalized_word_count channel st1\<rparr>
                 else if was_sound_fifo \<and> is_enabled \<and> channel_start_timing st1 = Start_immediate then
                   st1\<lparr>dc_current_count := normalized_word_count channel st1\<rparr>
                 else st1)
      in if \<not> is_enabled then st2\<lparr>dc_current_count := 0\<rparr> else st2)"

definition dma_write_control :: "nat \<Rightarrow> u16 \<Rightarrow> dma_controller \<Rightarrow> dma_controller throws" where
  "dma_write_control channel v d = do {
     st \<leftarrow> checked_channel channel d;
     let st' = channel_write_control channel v st;
     d' \<leftarrow> put_channel channel st' d;
     Some (if channel_immediate st' then d'\<lparr>dma_immediate_pending := True\<rparr>
           else if channel_immediate st then refresh_immediate_pending d'
           else d')}"

section \<open>Save states and fingerprint\<close>

definition hash_channel :: "dma_channel \<Rightarrow> u64 \<Rightarrow> u64" where
  "hash_channel st h =
     add_u32 (dc_data_latch st) (add_u32 (dc_current_count st) (add_u32 (dc_current_destination st)
       (add_u32 (dc_current_source st) (add_u16 (dc_control st) (add_u16 (dc_word_count st)
         (add_u32 (dc_destination st) (add_u32 (dc_source st) h)))))))"

definition dma_state_hash :: "dma_controller \<Rightarrow> u64" where
  "dma_state_hash d = add_bool (dma_immediate_pending d) (fold hash_channel (dma_channels d) kOffsetBasis)"

record dma_state =
  dst_channels :: "dma_channel list"
  dst_immediate_pending :: bool

definition dma_save_state :: "dma_controller \<Rightarrow> dma_state" where
  "dma_save_state d = \<lparr>dst_channels = dma_channels d, dst_immediate_pending = dma_immediate_pending d\<rparr>"

definition channel_state_valid :: "nat \<Rightarrow> dma_channel \<Rightarrow> bool" where
  "channel_state_valid channel st \<longleftrightarrow>
     \<not> (dc_control st AND NOT (control_mask_of channel) \<noteq> 0
        \<or> (dc_control st AND kDmaEnableFlag = 0 \<and> dc_current_count st \<noteq> 0)
        \<or> dc_current_count st > dma_word_count_mask channel + 1)"

definition dma_load_state :: "dma_state \<Rightarrow> dma_controller \<Rightarrow> (bool \<times> dma_controller) throws" where
  "dma_load_state st d = do {
     checks \<leftarrow> foldM (\<lambda>channel ok. map_option (\<lambda>c. ok \<and> channel_state_valid channel c) (vec_at (dst_channels st) channel))
                [0..<kChannelCount] True;
     if \<not> checks then Some (False, d)
     else Some (True, refresh_immediate_pending (d\<lparr>dma_channels := dst_channels st\<rparr>))}"

section \<open>Invariant\<close>

definition dma_wf :: "dma_controller \<Rightarrow> bool" where
  "dma_wf d \<longleftrightarrow> length (dma_channels d) = 4 \<and> (\<forall>i < 4. channel_state_valid i (dma_channels d ! i))"

text \<open>What also survives a transfer that overwrites the registers of its own channel: the control bits exist and the count fits.\<close>

definition channel_shape :: "nat \<Rightarrow> dma_channel \<Rightarrow> bool" where
  "channel_shape i st \<longleftrightarrow> dc_control st AND NOT (control_mask_of i) = 0 \<and> dc_current_count st \<le> dma_word_count_mask i + 1"

definition dma_shape :: "dma_controller \<Rightarrow> bool" where
  "dma_shape d \<longleftrightarrow> length (dma_channels d) = 4 \<and> (\<forall>i < 4. channel_shape i (dma_channels d ! i))"

lemma channel_valid_shape: "channel_state_valid i st \<longleftrightarrow> channel_shape i st \<and> (channel_enabled st \<or> dc_current_count st = 0)"
  by (auto simp: channel_state_valid_def channel_shape_def channel_enabled_def not_less)

lemma dma_wf_shape [simp]: "dma_wf d \<Longrightarrow> dma_shape d"
  by (simp add: dma_wf_def dma_shape_def channel_valid_shape)

text \<open>The pending flag is set exactly when some channel is enabled with immediate start.\<close>

definition dma_pending_ok :: "dma_controller \<Rightarrow> bool" where
  "dma_pending_ok d \<longleftrightarrow> dma_immediate_pending d = list_ex channel_immediate (dma_channels d)"

lemma dma_wf_reset [wf_intros]: "dma_wf dma_reset" "dma_pending_ok dma_reset"
  by (simp_all add: dma_wf_def dma_pending_ok_def dma_reset_def blank_channel_def channel_state_valid_def vec_fill_def
      channel_immediate_def channel_enabled_def list_ex_iff dma_const_defs)

lemma checked_channel_in [simp]: "dma_shape d \<Longrightarrow> i < 4 \<Longrightarrow> checked_channel i d = Some (dma_channels d ! i)"
  by (simp add: checked_channel_def dma_shape_def kChannelCount_def)

lemma put_channel_in [simp]: "dma_shape d \<Longrightarrow> i < 4 \<Longrightarrow> put_channel i st d = Some (d\<lparr>dma_channels := (dma_channels d)[i := st]\<rparr>)"
  by (simp add: put_channel_def dma_shape_def kChannelCount_def)

lemma dma_wf_put:
  "dma_wf d \<Longrightarrow> channel_state_valid i st \<Longrightarrow> dma_wf (d\<lparr>dma_channels := (dma_channels d)[i := st]\<rparr>)"
  by (cases "i < 4") (auto simp: dma_wf_def nth_list_update)

lemma dma_shape_put:
  "dma_shape d \<Longrightarrow> channel_shape i st \<Longrightarrow> dma_shape (d\<lparr>dma_channels := (dma_channels d)[i := st]\<rparr>)"
  by (cases "i < 4") (auto simp: dma_shape_def nth_list_update)

lemma dma_shape_pending [simp]:
  "dma_shape (d\<lparr>dma_immediate_pending := p\<rparr>) = dma_shape d" "dma_shape (refresh_immediate_pending d) = dma_shape d"
  by (simp_all add: dma_shape_def refresh_immediate_pending_def)

lemma dma_shape_channel: "dma_shape d \<Longrightarrow> i < 4 \<Longrightarrow> channel_shape i (dma_channels d ! i)"
  by (simp add: dma_shape_def)

lemma dma_wf_pending [simp]: "dma_wf (d\<lparr>dma_immediate_pending := p\<rparr>) = dma_wf d" "dma_wf (refresh_immediate_pending d) = dma_wf d"
  by (simp_all add: dma_wf_def refresh_immediate_pending_def)

lemma dma_wf_valid: "dma_wf d \<Longrightarrow> i < 4 \<Longrightarrow> channel_state_valid i (dma_channels d ! i)"
  by (simp add: dma_wf_def)

text \<open>A count register selects between one and \<open>mask + 1\<close> units.\<close>

lemma normalized_word_count_range:
  "0 < normalized_word_count i st \<and> normalized_word_count i st \<le> dma_word_count_mask i + 1"
proof -
  let ?m = "dma_word_count_mask i" and ?c = "ucast (dc_word_count st) AND dma_word_count_mask i"
  have m: "unat ?m < 65536"
    by (simp add: dma_word_count_mask_def)
  have "unat ?c \<le> unat ?m"
    by (metis and.commute word_and_le1 word_le_nat_alt)
  then have "?c \<le> ?m + 1"
    using m by (simp add: word_le_nat_alt unat_word_ariths)
  moreover have "0 < ?m + 1"
    by (simp add: dma_word_count_mask_def)
  ultimately show ?thesis
    by (auto simp: normalized_word_count_def Let_def word_neq_0_conv)
qed

lemma channel_write_control_valid:
  assumes "channel_shape i st"
  shows "channel_state_valid i (channel_write_control i v st)"
proof -
  have count: "dc_current_count st \<le> dma_word_count_mask i + 1"
    using assms by (simp add: channel_shape_def)
  have m: "(v AND control_mask_of i) AND NOT (control_mask_of i) = 0"
    by (simp add: and.assoc)
  show ?thesis
    using count normalized_word_count_range [of i]
    by (auto simp: channel_write_control_def Let_def channel_state_valid_def m not_less channel_enabled_def)
qed

lemma list_ex_update:
  "i < length xs \<Longrightarrow> P (xs ! i) = P y \<Longrightarrow> list_ex P (xs[i := y]) = list_ex P xs"
  by (auto simp: list_ex_length nth_list_update)

lemma dma_keep_channel:
  assumes wf: "dma_wf d" and "dma_pending_ok d" and i: "i < 4"
    and "dc_control st = dc_control (dma_channels d ! i)" and "dc_current_count st = dc_current_count (dma_channels d ! i)"
  shows "dma_wf (d\<lparr>dma_channels := (dma_channels d)[i := st]\<rparr>)" "dma_pending_ok (d\<lparr>dma_channels := (dma_channels d)[i := st]\<rparr>)"
proof -
  have len: "length (dma_channels d) = 4"
    using wf by (simp add: dma_wf_def)
  have v: "channel_state_valid i st" "channel_immediate st = channel_immediate (dma_channels d ! i)"
    using dma_wf_valid [OF wf i] assms(4,5)
    by (simp_all add: channel_state_valid_def channel_immediate_def channel_enabled_def channel_start_timing_def)
  show "dma_wf (d\<lparr>dma_channels := (dma_channels d)[i := st]\<rparr>)"
    using wf v(1) by (rule dma_wf_put)
  show "dma_pending_ok (d\<lparr>dma_channels := (dma_channels d)[i := st]\<rparr>)"
    using assms(2) len i v(2) by (simp add: dma_pending_ok_def list_ex_update)
qed

lemma dma_write_control_in:
  fixes v :: u16
  assumes wf: "dma_shape d" and i: "i < 4"
  defines "st \<equiv> dma_channels d ! i"
  defines "st' \<equiv> channel_write_control i v st"
  defines "d1 \<equiv> d\<lparr>dma_channels := (dma_channels d)[i := st']\<rparr>"
  shows "dma_write_control i v d =
    Some (if channel_immediate st' then d1\<lparr>dma_immediate_pending := True\<rparr>
          else if channel_immediate st then refresh_immediate_pending d1 else d1)"
  using wf i by (simp add: dma_write_control_def Let_def st_def st'_def d1_def)

lemma dma_write_control_ok:
  assumes wf: "dma_wf d" and pend: "dma_pending_ok d" and i: "i < 4"
  shows "\<exists>d'. dma_write_control i v d = Some d' \<and> dma_wf d' \<and> dma_pending_ok d'
    \<and> dma_channels d' = (dma_channels d)[i := channel_write_control i v (dma_channels d ! i)]"
proof -
  define st where "st = dma_channels d ! i"
  define st' where "st' = channel_write_control i v st"
  define d1 where "d1 = d\<lparr>dma_channels := (dma_channels d)[i := st']\<rparr>"
  have len: "length (dma_channels d) = 4"
    using wf by (simp add: dma_wf_def)
  have wf1: "dma_wf d1"
    unfolding d1_def st'_def st_def by (rule dma_wf_put [OF wf channel_write_control_valid [OF dma_shape_channel [OF dma_wf_shape [OF wf] i]]])
  have here: "channel_immediate st' \<Longrightarrow> list_ex channel_immediate (dma_channels d1)"
    using len i by (auto simp: d1_def list_ex_length intro!: exI [of _ i])
  have same: "\<not> channel_immediate st' \<Longrightarrow> \<not> channel_immediate st \<Longrightarrow> list_ex channel_immediate (dma_channels d1) = dma_immediate_pending d"
    using pend len i by (simp add: d1_def st_def dma_pending_ok_def list_ex_update)
  define d2 where "d2 = (if channel_immediate st' then d1\<lparr>dma_immediate_pending := True\<rparr>
      else if channel_immediate st then refresh_immediate_pending d1 else d1)"
  have "dma_write_control i v d = Some d2"
    unfolding st_def st'_def d1_def d2_def by (rule dma_write_control_in [OF dma_wf_shape [OF wf] i])
  moreover have "dma_wf d2"
    using wf1 by (simp add: d2_def)
  moreover have "dma_pending_ok d2"
    using here same by (auto simp: d2_def dma_pending_ok_def refresh_immediate_pending_def d1_def)
  moreover have "dma_channels d2 = (dma_channels d)[i := st']"
    by (simp add: d2_def d1_def refresh_immediate_pending_def)
  ultimately show ?thesis
    by (auto simp: st'_def st_def)
qed

lemma channel_enable_latches:
  assumes "\<not> channel_enabled st" and "bit v 15"
  shows "dc_current_source (channel_write_control i v st) = dc_source st"
    "dc_current_destination (channel_write_control i v st) = dc_destination st"
    "dc_current_count (channel_write_control i v st) = normalized_word_count i st"
    "channel_enabled (channel_write_control i v st)"
proof -
  have e: "(v AND control_mask_of i) AND kDmaEnableFlag \<noteq> 0"
  proof
    assume "(v AND control_mask_of i) AND kDmaEnableFlag = 0"
    then have "\<not> bit ((v AND control_mask_of i) AND kDmaEnableFlag) 15"
      by simp
    then show False
      using assms(2) by (simp add: bit_and_iff control_mask_of_def dma_const_defs split: if_splits)
  qed
  then show "dc_current_source (channel_write_control i v st) = dc_source st"
    "dc_current_destination (channel_write_control i v st) = dc_destination st"
    "dc_current_count (channel_write_control i v st) = normalized_word_count i st"
    "channel_enabled (channel_write_control i v st)"
    using assms(1) unfolding channel_write_control_def Let_def channel_enabled_def
    by (simp_all add: normalized_word_count_def Let_def)
qed

text \<open>C29. DMA register writes. Every write to an existing channel succeeds, keeps the controller well formed (no stray control bits,
  no residual count on a disabled channel, counts within the channel's capacity), and keeps the pending flag equal to the existence of an
  enabled channel with immediate start; writing the enable bit of a disabled channel latches its addresses and its normalised count.\<close>

theorem dma_register_writes:
  assumes wf: "dma_wf d" and pend: "dma_pending_ok d" and i: "i < 4"
  shows "(\<forall>r \<in> {dma_write_source i v32 d, dma_write_destination i v32 d, dma_write_word_count i v16 d, dma_write_control i v16 d}.
      \<exists>d'. r = Some d' \<and> dma_wf d' \<and> dma_pending_ok d')
    \<and> (\<forall>d'. dma_write_control i v16 d = Some d' \<and> \<not> channel_enabled (dma_channels d ! i) \<and> bit v16 15 \<longrightarrow>
        (let st = dma_channels d ! i; st' = dma_channels d' ! i in
         dc_current_source st' = dc_source st \<and> dc_current_destination st' = dc_destination st
         \<and> dc_current_count st' = normalized_word_count i st \<and> channel_enabled st'))"
proof -
  have len: "i < length (dma_channels d)"
    using wf i by (simp add: dma_wf_def)
  obtain d' where d': "dma_write_control i v16 d = Some d'" "dma_wf d'" "dma_pending_ok d'"
    "dma_channels d' = (dma_channels d)[i := channel_write_control i v16 (dma_channels d ! i)]"
    using dma_write_control_ok [OF assms] by blast
  have others: "dma_write_source i v32 d = Some (d\<lparr>dma_channels := (dma_channels d)[i := (dma_channels d ! i)\<lparr>dc_source := v32\<rparr>]\<rparr>)"
    "dma_write_destination i v32 d = Some (d\<lparr>dma_channels := (dma_channels d)[i := (dma_channels d ! i)\<lparr>dc_destination := v32\<rparr>]\<rparr>)"
    "dma_write_word_count i v16 d = Some (d\<lparr>dma_channels := (dma_channels d)[i := (dma_channels d ! i)\<lparr>dc_word_count := v16\<rparr>]\<rparr>)"
    using wf i by (simp_all add: dma_write_source_def dma_write_destination_def dma_write_word_count_def)
  show ?thesis
    unfolding others using d' dma_keep_channel [OF assms] channel_enable_latches [of "dma_channels d ! i" v16 i] len
    by (simp add: Let_def)
qed

theorem dma_register_writes_witness:
  "\<exists>d'. dma_write_control 3 0x8400 dma_reset = Some d' \<and> dma_wf d' \<and> dma_pending_ok d'"
  using dma_register_writes [OF dma_wf_reset, of 3 0 "0x8400"] by auto

lemma dma_load_state_checks:
  assumes "length (dst_channels st) = 4"
  shows "dma_load_state st e =
    Some (if \<forall>i < 4. channel_state_valid i (dst_channels st ! i)
          then (True, refresh_immediate_pending (e\<lparr>dma_channels := dst_channels st\<rparr>)) else (False, e))"
proof -
  have "(\<forall>i < 4. P i) \<longleftrightarrow> P 0 \<and> P 1 \<and> P 2 \<and> P 3" for P :: "nat \<Rightarrow> bool"
    by (auto simp: numeral_eq_Suc less_Suc_eq)
  moreover have "[0..<4] = [0, 1, 2, 3]"
    by (simp add: upt_rec)
  ultimately show ?thesis
    using assms by (simp add: dma_load_state_def kChannelCount_def)
qed

text \<open>DMA save states. Loading the saved state of a well-formed controller restores every channel, with the pending flag recomputed
  from the channels; a state with stray control bits, a count on a disabled channel or a count beyond the channel's capacity is refused
  and changes nothing.\<close>

lemma dma_save_load_state:
  "(dma_wf d \<and> dma_pending_ok d \<longrightarrow> dma_load_state (dma_save_state d) e = Some (True, d))
   \<and> (length (dst_channels st) = 4 \<longrightarrow>
      (if \<forall>i < 4. channel_state_valid i (dst_channels st ! i)
       then \<exists>d'. dma_load_state st e = Some (True, d') \<and> dma_wf d' \<and> dma_pending_ok d' \<and> dma_channels d' = dst_channels st
       else dma_load_state st e = Some (False, e)))"
proof (intro conjI impI)
  assume d: "dma_wf d \<and> dma_pending_ok d"
  then have len: "length (dst_channels (dma_save_state d)) = 4" "\<forall>i < 4. channel_state_valid i (dst_channels (dma_save_state d) ! i)"
    by (simp_all add: dma_save_state_def dma_wf_def)
  show "dma_load_state (dma_save_state d) e = Some (True, d)"
    using d len by (simp add: dma_load_state_checks refresh_immediate_pending_def dma_save_state_def dma_pending_ok_def)
next
  assume len: "length (dst_channels st) = 4"
  show "if \<forall>i < 4. channel_state_valid i (dst_channels st ! i)
       then \<exists>d'. dma_load_state st e = Some (True, d') \<and> dma_wf d' \<and> dma_pending_ok d' \<and> dma_channels d' = dst_channels st
       else dma_load_state st e = Some (False, e)"
    using len by (simp add: dma_load_state_checks dma_wf_def refresh_immediate_pending_def dma_pending_ok_def)
qed

end
