(* ===== verification/Io_Registers.thy ===== *)
theory Io_Registers
  imports Keypad Wait_States Ppu_Timing Timers Apu_Correct Dma_Registers Memory_Safety
begin

text \<open>
  The memory-mapped register facade, \<open>src/src/core/io_registers.cpp\<close>. The class holds references to the device components; here
  \<open>devices\<close> holds the components themselves together with the serial port that the facade keeps on its own, so every operation is a
  function from devices to devices. The facade is the context of the memory bus callbacks: at the end of the theory it is shown to
  satisfy the contract \<open>io_facade\<close> on which the memory bus lemmas rest.
\<close>

record devices =
  dev_interrupts :: interrupt_controller
  dev_timers :: timers
  dev_dma :: dma_controller
  dev_ppu :: ppu_timing
  dev_apu :: apu
  dev_waitcnt :: wait_state_control
  dev_keypad :: keypad
  dev_serial :: "u16 list"
  dev_sio_active :: bool
  dev_sio_cycles :: u32

definition kDispstat :: u32 where "kDispstat = 0x04000004"
definition kVcount :: u32 where "kVcount = 0x04000006"
definition kSoundcntL :: u32 where "kSoundcntL = 0x04000080"
definition kSoundcntH :: u32 where "kSoundcntH = 0x04000082"
definition kSoundcntX :: u32 where "kSoundcntX = 0x04000084"
definition kSoundbias :: u32 where "kSoundbias = 0x04000088"
definition kFifoA :: u32 where "kFifoA = 0x040000A0"
definition kFifoB :: u32 where "kFifoB = 0x040000A4"
definition kDmaBase :: u32 where "kDmaBase = 0x040000B0"
definition kTimerBase :: u32 where "kTimerBase = 0x04000100"
definition kKeyinput :: u32 where "kKeyinput = 0x04000130"
definition kKeycnt :: u32 where "kKeycnt = 0x04000132"
definition kRcnt :: u32 where "kRcnt = 0x04000134"
definition kIe :: u32 where "kIe = 0x04000200"
definition kIf :: u32 where "kIf = 0x04000202"
definition kWaitcnt :: u32 where "kWaitcnt = 0x04000204"
definition kIme :: u32 where "kIme = 0x04000208"

definition kDmaChannelStride :: u32 where "kDmaChannelStride = 12"
definition kDmaRegisterBytes :: u32 where "kDmaRegisterBytes = kDmaChannelStride * of_nat kChannelCount"
definition kTimerStride :: u32 where "kTimerStride = 4"
definition kTimerRegisterBytes :: u32 where "kTimerRegisterBytes = kTimerStride * of_nat kTimerCount"
definition kSiodata32Low :: u32 where "kSiodata32Low = 0x04000120"
definition kSiodata32High :: u32 where "kSiodata32High = 0x04000122"
definition kSiomulti2 :: u32 where "kSiomulti2 = 0x04000124"
definition kSiomulti3 :: u32 where "kSiomulti3 = 0x04000126"
definition kSiocnt :: u32 where "kSiocnt = 0x04000128"
definition kSiodata8 :: u32 where "kSiodata8 = 0x0400012A"
definition kSerialRegisterAddresses :: "u32 list" where
  "kSerialRegisterAddresses = [0x04000120, 0x04000122, 0x04000124, 0x04000126, 0x04000128, 0x0400012A, kRcnt]"
definition kJoycnt :: u32 where "kJoycnt = 0x04000140"
definition kJoyRecvLow :: u32 where "kJoyRecvLow = 0x04000150"
definition kJoyRecvHigh :: u32 where "kJoyRecvHigh = 0x04000152"
definition kJoyTransLow :: u32 where "kJoyTransLow = 0x04000154"
definition kJoyTransHigh :: u32 where "kJoyTransHigh = 0x04000156"
definition kJoystat :: u32 where "kJoystat = 0x0400015A"
definition kSiocntModeMask :: u16 where "kSiocntModeMask = 0x3000"
definition kRcModeMask :: u16 where "kRcModeMask = 0xC000"
definition kSioIdleControlBits :: u16 where "kSioIdleControlBits = 0x4F8F"
definition kJoycntIdle :: u16 where "kJoycntIdle = 0x0040"
definition kSioStartBit :: u16 where "kSioStartBit = 0x0080"
definition kSioInternalClockBit :: u16 where "kSioInternalClockBit = 0x0001"
definition kSioFastClockBit :: u16 where "kSioFastClockBit = 0x0002"
definition kSioIrqEnableBit :: u16 where "kSioIrqEnableBit = 0x4000"
definition kSioSlowClockCyclesPerBit :: u32 where "kSioSlowClockCyclesPerBit = 64"
definition kSioFastClockCyclesPerBit :: u32 where "kSioFastClockCyclesPerBit = 8"
definition kSioCompletionLatencyCycles :: u32 where "kSioCompletionLatencyCycles = 40"

lemmas io_address_defs = kDispstat_def kVcount_def kSoundcntL_def kSoundcntH_def kSoundcntX_def kSoundbias_def kFifoA_def
  kFifoB_def kDmaBase_def kTimerBase_def kKeyinput_def kKeycnt_def kRcnt_def kIe_def kIf_def kWaitcnt_def kIme_def
  kDmaChannelStride_def kDmaRegisterBytes_def kTimerStride_def kTimerRegisterBytes_def kSiodata32Low_def kSiodata32High_def
  kSiomulti2_def kSiomulti3_def kSiocnt_def kSiodata8_def kJoycnt_def kJoyRecvLow_def kJoyRecvHigh_def kJoyTransLow_def
  kJoyTransHigh_def kJoystat_def kTimerCount_def kChannelCount_def

lemmas sio_const_defs = kSiocntModeMask_def kRcModeMask_def kSioIdleControlBits_def kSioStartBit_def
  kSioInternalClockBit_def kSioFastClockBit_def kSioIrqEnableBit_def kSioSlowClockCyclesPerBit_def
  kSioFastClockCyclesPerBit_def kSioCompletionLatencyCycles_def

section \<open>Address decoding\<close>

definition is_halfword_aligned :: "u32 \<Rightarrow> bool" where
  "is_halfword_aligned address \<longleftrightarrow> address AND 1 = 0"

definition is_word_aligned :: "u32 \<Rightarrow> bool" where
  "is_word_aligned address \<longleftrightarrow> address AND 3 = 0"

definition is_lcd_control_address :: "u32 \<Rightarrow> bool" where
  "is_lcd_control_address address =
     (if \<not> is_halfword_aligned address then False
      else if address \<le> 0x0400001E then address \<noteq> kDispstat \<and> address \<noteq> kVcount
      else if 0x04000020 \<le> address \<and> address \<le> 0x0400003E then True
      else if 0x04000040 \<le> address \<and> address \<le> 0x04000054 then True
      else False)"

definition dma_index :: "u32 \<Rightarrow> (nat \<times> u32) option" where
  "dma_index address =
     (if address < kDmaBase \<or> kDmaBase + kDmaRegisterBytes \<le> address then None
      else let relative = address - kDmaBase
           in Some (unat (relative div kDmaChannelStride), relative mod kDmaChannelStride))"

definition timer_index :: "u32 \<Rightarrow> (nat \<times> u32) option" where
  "timer_index address =
     (if address < kTimerBase \<or> kTimerBase + kTimerRegisterBytes \<le> address then None
      else let relative = address - kTimerBase in Some (unat (relative div kTimerStride), relative mod kTimerStride))"

text \<open>The search loop over the serial addresses.\<close>

fun index_from :: "nat \<Rightarrow> u32 list \<Rightarrow> u32 \<Rightarrow> nat option" where
  "index_from i [] address = None"
| "index_from i (a # as) address = (if address = a then Some i else index_from (i + 1) as address)"

definition serial_index :: "u32 \<Rightarrow> nat option" where
  "serial_index address = index_from 0 kSerialRegisterAddresses address"

definition wave_ram_index :: "u32 \<Rightarrow> nat option" where
  "wave_ram_index address =
     (if address < 0x04000090 \<or> 0x0400009E < address \<or> \<not> is_halfword_aligned address then None
      else Some (unat ((address - 0x04000090) div 2)))"

definition zero_read_hole :: "u32 \<Rightarrow> u16 option" where
  "zero_read_hole address =
     (if address \<in> {0x04000066, 0x0400006A, 0x0400006E, 0x04000076, 0x0400007A, 0x0400007E, 0x04000086, 0x0400008A,
                     0x04000136, 0x04000142, kJoystat, 0x04000206, 0x0400020A, 0x04000302}
      then Some 0 else None)"

definition low16 :: "u32 \<Rightarrow> u16" where
  "low16 v = ucast (v AND 0xFFFF)"

definition high16 :: "u32 \<Rightarrow> u16" where
  "high16 v = ucast (drop_bit 16 v AND 0xFFFF)"

definition replace_low16 :: "u32 \<Rightarrow> u16 \<Rightarrow> u32" where
  "replace_low16 current v = (current AND 0xFFFF0000) OR ucast v"

definition replace_high16 :: "u32 \<Rightarrow> u16 \<Rightarrow> u32" where
  "replace_high16 current v = (current AND 0x0000FFFF) OR push_bit 16 (ucast v)"

definition combine16 :: "u16 \<Rightarrow> u16 \<Rightarrow> u32" where
  "combine16 low high = ucast low OR push_bit 16 (ucast high)"

definition can_write16_address :: "u32 \<Rightarrow> bool" where
  "can_write16_address address =
     (if \<not> is_halfword_aligned address then False
      else if address \<in> {kDispstat, kSoundcntL, kSoundcntH, kSoundcntX, kSoundbias, kKeycnt, kIe, kIf, kWaitcnt, kIme} then True
      else if address = kVcount then False
      else if is_lcd_control_address address then True
      else case timer_index address of
          Some (_, offset) \<Rightarrow> offset = 0 \<or> offset = 2
        | None \<Rightarrow>
            (case serial_index address of
               Some _ \<Rightarrow> True
             | None \<Rightarrow>
                 (case dma_index address of Some (_, offset) \<Rightarrow> offset \<in> {0, 2, 4, 6, 8, 10} | None \<Rightarrow> False)))"

section \<open>The serial port\<close>

definition serial_mode :: "u16 \<Rightarrow> u16" where
  "serial_mode siocnt = siocnt AND kSiocntModeMask"

definition read_siocnt :: "u16 \<Rightarrow> u16" where
  "read_siocnt v =
     (let mode = serial_mode v; uart_external_clock = (if mode = 0x3000 then v AND 0x0020 else 0)
      in kSioIdleControlBits OR mode OR uart_external_clock)"

definition read_rcnt :: "u16 \<Rightarrow> u16 \<Rightarrow> u16" where
  "read_rcnt rcnt siocnt =
     (if rcnt AND kRcModeMask = 0x8000 then 0x81FF
      else if rcnt AND kRcModeMask = 0xC000 then 0xC1FC
      else if serial_mode siocnt = 0 \<or> serial_mode siocnt = 0x1000 then 0x01F5 else 0x01FF)"

definition read_serial_data :: "u32 \<Rightarrow> u16 \<Rightarrow> u16 \<Rightarrow> u16" where
  "read_serial_data address siocnt stored =
     (let mode = serial_mode siocnt
      in if address = kSiodata32Low \<or> address = kSiodata32High then (if mode = 0x1000 then stored else 0)
         else if address = kSiomulti2 \<or> address = kSiomulti3 then 0
         else if address = kSiodata8 then (if mode = 0x3000 then 0 else stored)
         else stored)"

definition serial_transfer_cycles :: "u16 \<Rightarrow> u32 option" where
  "serial_transfer_cycles siocnt =
     (if siocnt AND kSioStartBit = 0 \<or> siocnt AND kSioInternalClockBit = 0 then None
      else
        let cycles_per_bit = (if siocnt AND kSioFastClockBit \<noteq> 0 then kSioFastClockCyclesPerBit else kSioSlowClockCyclesPerBit)
        in if serial_mode siocnt = 0 then Some (8 * cycles_per_bit + kSioCompletionLatencyCycles)
           else if serial_mode siocnt = 0x1000 then Some (32 * cycles_per_bit + kSioCompletionLatencyCycles)
           else None)"

definition io_reset :: "devices \<Rightarrow> devices" where
  "io_reset d = d\<lparr>dev_serial := vec_fill 7 0, dev_sio_active := False, dev_sio_cycles := 0\<rparr>"

record io_registers_state =
  ios_serial :: "u16 list"
  ios_sio_transfer_active :: bool
  ios_sio_transfer_cycles_remaining :: u32

definition io_save_state :: "devices \<Rightarrow> io_registers_state" where
  "io_save_state d = \<lparr>ios_serial = dev_serial d, ios_sio_transfer_active = dev_sio_active d,
     ios_sio_transfer_cycles_remaining = dev_sio_cycles d\<rparr>"

definition io_load_state :: "io_registers_state \<Rightarrow> devices \<Rightarrow> devices" where
  "io_load_state st d = d\<lparr>dev_serial := ios_serial st, dev_sio_active := ios_sio_transfer_active st,
     dev_sio_cycles := ios_sio_transfer_cycles_remaining st\<rparr>"

definition io_state_hash :: "devices \<Rightarrow> u64" where
  "io_state_hash d = add_u32 (dev_sio_cycles d) (add_bool (dev_sio_active d) (fold add_u16 (dev_serial d) kOffsetBasis))"

definition io_tick :: "u32 \<Rightarrow> devices \<Rightarrow> devices throws" where
  "io_tick cycles d =
     (if \<not> dev_sio_active d \<or> cycles = 0 then Some d
      else if cycles < dev_sio_cycles d then Some (d\<lparr>dev_sio_cycles := dev_sio_cycles d - cycles\<rparr>)
      else do {
        siocnt \<leftarrow> vec_at (dev_serial d) 4;
        let d' = d\<lparr>dev_sio_active := False, dev_sio_cycles := 0\<rparr>;
        Some (if siocnt AND kSioIrqEnableBit \<noteq> 0
              then d'\<lparr>dev_interrupts := ic_request Irq_serial (dev_interrupts d')\<rparr> else d')})"

section \<open>Reads\<close>

text \<open>The constants of the first cases of \<open>read16\<close>: the PSG registers, which are not modelled by the audio unit.\<close>

definition psg_idle_reads :: "(u32 \<times> u16) list" where
  "psg_idle_reads = [(0x04000060, 0x007F), (0x04000062, 0xFFC0), (0x04000064, 0x4000), (0x04000068, 0xFFC0), (0x0400006C, 0x4000),
     (0x04000070, 0x00E0), (0x04000072, 0xE000), (0x04000074, 0x4000), (0x04000078, 0xFF00), (0x0400007C, 0x40FF)]"

text \<open>The remaining cases of the switch; \<open>None\<close> is the default branch.\<close>

definition io_read_named :: "devices \<Rightarrow> u32 \<Rightarrow> u16 throws option" where
  "io_read_named d address =
     (if address = kDispstat then Some (Some (ppu_dispstat (dev_ppu d)))
      else if address = kVcount then Some (Some (ppu_vcount (dev_ppu d)))
      else if address = kSoundcntL then Some (Some (apu_soundcnt_l (dev_apu d)))
      else if address = kSoundcntH then Some (Some (apu_soundcnt_h (dev_apu d)))
      else if address = kSoundcntX then Some (soundcnt_x (dev_apu d))
      else if address = kSoundbias then Some (Some (apu_soundbias (dev_apu d)))
      else if address = kKeyinput then Some (Some (keypad_keyinput (dev_keypad d)))
      else if address = kKeycnt then Some (Some (keycnt (dev_keypad d)))
      else if address = kIe then Some (Some (interrupt_enable (dev_interrupts d)))
      else if address = kIf then Some (Some (interrupt_flags (dev_interrupts d)))
      else if address = kWaitcnt then Some (Some (wsc_read_control (dev_waitcnt d)))
      else if address = kIme then Some (Some (ic_ime (dev_interrupts d)))
      else None)"

definition io_read_timer :: "devices \<Rightarrow> nat \<Rightarrow> u32 \<Rightarrow> u16 option throws" where
  "io_read_timer d timer offset =
     (if offset = 0 then map_option Some (timers_counter timer (dev_timers d))
      else if offset = 2 then map_option Some (timers_control timer (dev_timers d))
      else Some None)"

definition io_read_serial :: "devices \<Rightarrow> u32 \<Rightarrow> nat \<Rightarrow> u16 option throws" where
  "io_read_serial d address serial = do {
     stored \<leftarrow> vec_at (dev_serial d) serial;
     if address = kSiocnt then Some (Some (read_siocnt stored))
     else do {
       siocnt \<leftarrow> vec_at (dev_serial d) 4;
       Some (Some (if address = kRcnt then read_rcnt stored siocnt else read_serial_data address siocnt stored))}}"

definition io_read_dma :: "devices \<Rightarrow> nat \<Rightarrow> u32 \<Rightarrow> u16 option throws" where
  "io_read_dma d channel offset =
     (if offset \<in> {0, 2, 4, 6} then Some None
      else if offset = 8 then Some (Some 0)
      else if offset = 10 then map_option Some (dma_control channel (dev_dma d))
      else Some None)"

text \<open>The tests after the LCD control registers, in the order of the code.\<close>

definition io_read_rest :: "devices \<Rightarrow> u32 \<Rightarrow> u16 option throws" where
  "io_read_rest d address =
     (case timer_index address of
        Some (timer, offset) \<Rightarrow> io_read_timer d timer offset
      | None \<Rightarrow>
        (case serial_index address of
           Some serial \<Rightarrow> io_read_serial d address serial
         | None \<Rightarrow>
           if address = kJoycnt then Some (Some kJoycntIdle)
           else if address \<in> {kJoyRecvLow, kJoyRecvHigh, kJoyTransLow, kJoyTransHigh} then Some (Some 0)
           else
             (case wave_ram_index address of
                Some i \<Rightarrow> map_option Some (wave_ram i (dev_apu d))
              | None \<Rightarrow>
                (case dma_index address of Some (channel, offset) \<Rightarrow> io_read_dma d channel offset | None \<Rightarrow> Some None))))"

definition io_read16 :: "devices \<Rightarrow> u32 \<Rightarrow> u16 option throws" where
  "io_read16 d address =
     (if \<not> is_halfword_aligned address then Some None
      else
        (case map_of psg_idle_reads address of
           Some v \<Rightarrow> Some (Some v)
         | None \<Rightarrow>
           (case io_read_named d address of
              Some v \<Rightarrow> map_option Some v
            | None \<Rightarrow>
              (case zero_read_hole address of
                 Some v \<Rightarrow> Some (Some v)
               | None \<Rightarrow> do {
                   lcd_value \<leftarrow> ppu_read_lcd_control address (dev_ppu d);
                   (case lcd_value of Some v \<Rightarrow> Some (Some v) | None \<Rightarrow> io_read_rest d address)}))))"

definition io_read32 :: "devices \<Rightarrow> u32 \<Rightarrow> u32 option throws" where
  "io_read32 d address =
     (if \<not> is_word_aligned address then Some None
      else if address = kIme then map_option (map_option ucast) (io_read16 d address)
      else do {
        low \<leftarrow> io_read16 d address;
        high \<leftarrow> io_read16 d (address + 2);
        Some (case (low, high) of (Some l, Some h) \<Rightarrow> Some (combine16 l h) | _ \<Rightarrow> None)})"

section \<open>Writes\<close>

text \<open>The outcome of a write: whether it was accepted, and the devices.\<close>

type_synonym io_write = "(bool \<times> devices) throws"

definition io_write_dispstat :: "u16 \<Rightarrow> devices \<Rightarrow> devices" where
  "io_write_dispstat v d =
     (let (newly, ppu) = ppu_recheck_vcount_match v (dev_ppu d); d' = d\<lparr>dev_ppu := ppu\<rparr>
      in if newly \<and> ppu_vcount_irq_enabled ppu
         then d'\<lparr>dev_interrupts := ic_request Irq_vcount (dev_interrupts d')\<rparr> else d')"

definition io_write_keycnt :: "u16 \<Rightarrow> devices \<Rightarrow> devices" where
  "io_write_keycnt v d =
     (let k = keypad_write_keycnt v (dev_keypad d)
      in d\<lparr>dev_keypad := k, dev_interrupts := keypad_poll_interrupt k (dev_interrupts d)\<rparr>)"

definition write_apu :: "apu throws \<Rightarrow> devices \<Rightarrow> io_write" where
  "write_apu r d = map_option (\<lambda>a. (True, d\<lparr>dev_apu := a\<rparr>)) r"

definition write_timers :: "timers throws \<Rightarrow> devices \<Rightarrow> io_write" where
  "write_timers r d = map_option (\<lambda>t. (True, d\<lparr>dev_timers := t\<rparr>)) r"

definition write_dma :: "dma_controller throws \<Rightarrow> devices \<Rightarrow> io_write" where
  "write_dma r d = map_option (\<lambda>c. (True, d\<lparr>dev_dma := c\<rparr>)) r"

definition write_irq :: "interrupt_controller \<Rightarrow> devices \<Rightarrow> io_write" where
  "write_irq ic d = Some (True, d\<lparr>dev_interrupts := ic\<rparr>)"

text \<open>The switch of \<open>write16\<close>; \<open>None\<close> is its default branch.\<close>

definition io_write_named :: "u32 \<Rightarrow> u16 \<Rightarrow> devices \<Rightarrow> io_write option" where
  "io_write_named address v d =
     (if address = kDispstat then Some (Some (True, io_write_dispstat v d))
      else if address = kVcount then Some (Some (False, d))
      else if address = kSoundcntL then Some (write_apu (Some (write_soundcnt_l v (dev_apu d))) d)
      else if address = kSoundcntH then Some (write_apu (write_soundcnt_h v (dev_apu d)) d)
      else if address = kSoundcntX then Some (write_apu (write_soundcnt_x v (dev_apu d)) d)
      else if address = kSoundbias then Some (write_apu (Some (write_soundbias v (dev_apu d))) d)
      else if address = kKeyinput then Some (Some (False, d))
      else if address = kKeycnt then Some (Some (True, io_write_keycnt v d))
      else if address = kIe then Some (write_irq (ic_write_interrupt_enable v (dev_interrupts d)) d)
      else if address = kIf then Some (write_irq (ic_write_interrupt_flags v (dev_interrupts d)) d)
      else if address = kWaitcnt then Some (Some (True, d\<lparr>dev_waitcnt := wsc_write_control v (dev_waitcnt d)\<rparr>))
      else if address = kIme then Some (write_irq (ic_write_ime v (dev_interrupts d)) d)
      else None)"

definition io_write_timer :: "nat \<Rightarrow> u32 \<Rightarrow> u16 \<Rightarrow> devices \<Rightarrow> io_write" where
  "io_write_timer timer offset v d =
     (if offset = 0 then write_timers (timers_write_reload timer v (dev_timers d)) d
      else if offset = 2 then write_timers (timers_write_control timer v (dev_timers d)) d
      else Some (False, d))"

definition io_write_serial :: "u32 \<Rightarrow> nat \<Rightarrow> u16 \<Rightarrow> devices \<Rightarrow> io_write" where
  "io_write_serial address serial v d = do {
     regs \<leftarrow> vec_put (dev_serial d) serial v;
     let d' = d\<lparr>dev_serial := regs\<rparr>;
     Some (True,
       if address = kSiocnt
       then d'\<lparr>dev_sio_active := serial_transfer_cycles v \<noteq> None,
               dev_sio_cycles := (case serial_transfer_cycles v of Some n \<Rightarrow> n | None \<Rightarrow> 0)\<rparr>
       else d')}"

definition io_write_dma :: "nat \<Rightarrow> u32 \<Rightarrow> u16 \<Rightarrow> devices \<Rightarrow> io_write" where
  "io_write_dma channel offset v d =
     (let dma = dev_dma d
      in if offset = 0 then write_dma (do {s \<leftarrow> dma_source channel dma; dma_write_source channel (replace_low16 s v) dma}) d
         else if offset = 2 then write_dma (do {s \<leftarrow> dma_source channel dma; dma_write_source channel (replace_high16 s v) dma}) d
         else if offset = 4
         then write_dma (do {s \<leftarrow> dma_destination channel dma; dma_write_destination channel (replace_low16 s v) dma}) d
         else if offset = 6
         then write_dma (do {s \<leftarrow> dma_destination channel dma; dma_write_destination channel (replace_high16 s v) dma}) d
         else if offset = 8 then write_dma (dma_write_word_count channel v dma) d
         else if offset = 10 then write_dma (dma_write_control channel v dma) d
         else Some (False, d))"

definition io_write_rest :: "u32 \<Rightarrow> u16 \<Rightarrow> devices \<Rightarrow> io_write" where
  "io_write_rest address v d =
     (case timer_index address of
        Some (timer, offset) \<Rightarrow> io_write_timer timer offset v d
      | None \<Rightarrow>
        (case serial_index address of
           Some serial \<Rightarrow> io_write_serial address serial v d
         | None \<Rightarrow>
           if address \<in> {kJoycnt, kJoyRecvLow, kJoyRecvHigh, kJoyTransLow, kJoyTransHigh} then Some (True, d)
           else
             (case wave_ram_index address of
                Some i \<Rightarrow> write_apu (write_wave_ram i v (dev_apu d)) d
              | None \<Rightarrow>
                (case dma_index address of Some (channel, offset) \<Rightarrow> io_write_dma channel offset v d
                 | None \<Rightarrow> Some (False, d)))))"

definition io_write16 :: "devices \<Rightarrow> u32 \<Rightarrow> u16 \<Rightarrow> io_write" where
  "io_write16 d address v =
     (if \<not> is_halfword_aligned address then Some (False, d)
      else
        (case io_write_named address v d of
           Some r \<Rightarrow> r
         | None \<Rightarrow> do {
             (accepted, ppu) \<leftarrow> ppu_write_lcd_control address v (dev_ppu d);
             if accepted then Some (True, d\<lparr>dev_ppu := ppu\<rparr>) else io_write_rest address v d}))"

text \<open>The half-open part of \<open>write32\<close>: each half is written when its address accepts writes.\<close>

definition io_write_halves :: "devices \<Rightarrow> u32 \<Rightarrow> u32 \<Rightarrow> io_write" where
  "io_write_halves d address v = do {
     (low_handled, d1) \<leftarrow> (if can_write16_address address then io_write16 d address (low16 v) else Some (False, d));
     if can_write16_address (address + 2)
     then do {(high_handled, d2) \<leftarrow> io_write16 d1 (address + 2) (high16 v); Some (high_handled \<or> low_handled, d2)}
     else Some (low_handled, d1)}"

definition io_write32 :: "devices \<Rightarrow> u32 \<Rightarrow> u32 \<Rightarrow> io_write" where
  "io_write32 d address v =
     (if \<not> is_word_aligned address then Some (False, d)
      else if address = kIme then io_write16 d address (low16 v)
      else if address = kWaitcnt then io_write16 d address (low16 v)
      else if address = kFifoA then write_apu (write_fifo Channel_a v (dev_apu d)) d
      else if address = kFifoB then write_apu (write_fifo Channel_b v (dev_apu d)) d
      else io_write_halves d address v)"

text \<open>The callbacks \<open>io_callbacks\<close> of \<open>core_session.cpp\<close>, which connect the facade to the memory bus.\<close>

definition device_callbacks :: "devices io_callbacks" where
  "device_callbacks = \<lparr>cb_read16 = Some io_read16, cb_read32 = Some io_read32, cb_write16 = Some io_write16,
     cb_write32 = Some io_write32\<rparr>"

end
