(* ===== verification/Io_Facade.thy ===== *)
theory Io_Facade
  imports Io_Registers
begin

text \<open>
  Correctness of the register facade: the invariant of the devices, that every register access returns and keeps it (the interpretation
  of \<open>io_facade\<close> on which bus accesses with the real registers rest), which addresses accept writes, the serial transfer clock, and
  the half-open word writes.
\<close>

section \<open>Invariant of the devices\<close>

text \<open>The serial port counts down from at most the cycles of a slow 32-bit transfer.\<close>

definition sio_wf :: "devices \<Rightarrow> bool" where
  "sio_wf d \<longleftrightarrow> length (dev_serial d) = 7 \<and> dev_sio_active d = (dev_sio_cycles d \<noteq> 0) \<and> dev_sio_cycles d \<le> 2088"

definition devices_wf :: "devices \<Rightarrow> bool" where
  "devices_wf d \<longleftrightarrow> ic_wf (dev_interrupts d) \<and> timers_shape (dev_timers d) \<and> dma_shape (dev_dma d) \<and> ppu_wf (dev_ppu d)
     \<and> apu_wf (dev_apu d) \<and> keypad_wf (dev_keypad d) \<and> sio_wf d"

definition reset_devices :: devices where
  "reset_devices = \<lparr>dev_interrupts = ic_reset, dev_timers = timers_reset, dev_dma = dma_reset, dev_ppu = ppu_reset,
     dev_apu = apu_reset, dev_waitcnt = wsc_reset, dev_keypad = keypad_reset, dev_serial = vec_fill 7 0,
     dev_sio_active = False, dev_sio_cycles = 0\<rparr>"

lemma devices_wf_reset [wf_intros]: "devices_wf reset_devices"
  by (simp add: devices_wf_def reset_devices_def sio_wf_def ic_wf_reset timers_wf_shape [OF timers_wf_reset] dma_wf_shape [OF dma_wf_reset(1)] apu_wf_reset
      keypad_wf_ops ppu_wf_def ppu_reset_def ppu_consts kLcdControlCount_def)

lemma sio_wf_updates [simp]:
  "sio_wf (d\<lparr>dev_interrupts := ic\<rparr>) = sio_wf d" "sio_wf (d\<lparr>dev_timers := t\<rparr>) = sio_wf d" "sio_wf (d\<lparr>dev_dma := m\<rparr>) = sio_wf d"
  "sio_wf (d\<lparr>dev_ppu := p\<rparr>) = sio_wf d" "sio_wf (d\<lparr>dev_apu := a\<rparr>) = sio_wf d" "sio_wf (d\<lparr>dev_waitcnt := w\<rparr>) = sio_wf d"
  "sio_wf (d\<lparr>dev_keypad := k\<rparr>) = sio_wf d"
  by (simp_all add: sio_wf_def)

lemma devices_wf_put [wf_intros]:
  assumes "devices_wf d"
  shows "ic_wf ic \<Longrightarrow> devices_wf (d\<lparr>dev_interrupts := ic\<rparr>)" "timers_shape t \<Longrightarrow> devices_wf (d\<lparr>dev_timers := t\<rparr>)"
    "dma_shape m \<Longrightarrow> devices_wf (d\<lparr>dev_dma := m\<rparr>)" "ppu_wf p \<Longrightarrow> devices_wf (d\<lparr>dev_ppu := p\<rparr>)"
    "apu_wf a \<Longrightarrow> devices_wf (d\<lparr>dev_apu := a\<rparr>)" "devices_wf (d\<lparr>dev_waitcnt := w\<rparr>)" "keypad_wf k \<Longrightarrow> devices_wf (d\<lparr>dev_keypad := k\<rparr>)"
  using assms by (simp_all add: devices_wf_def)

lemma devices_wfD:
  assumes "devices_wf d"
  shows "ic_wf (dev_interrupts d)" "timers_shape (dev_timers d)" "dma_shape (dev_dma d)" "ppu_wf (dev_ppu d)" "apu_wf (dev_apu d)"
    "keypad_wf (dev_keypad d)" "sio_wf d" "length (dev_serial d) = 7"
  using assms by (simp_all add: devices_wf_def sio_wf_def)

section \<open>Address decoding\<close>

lemma halfword_even: "is_halfword_aligned a \<longleftrightarrow> even (unat a)"
  by (simp add: is_halfword_aligned_def word_unat_eq_iff and_one_eq unat_mod even_iff_mod_2_eq_zero)

lemma timer_index_range:
  assumes "timer_index a = Some (i, offset)"
  shows "i < 4 \<and> 0x04000100 \<le> unat a \<and> unat a < 0x04000110 \<and> i = (unat a - 0x04000100) div 4
    \<and> unat offset = (unat a - 0x04000100) mod 4"
proof -
  have r: "0x04000100 \<le> unat a" "unat a < 0x04000110"
    using assms by (auto simp: timer_index_def io_address_defs word_less_nat_alt word_le_nat_alt split: if_splits)
  then have "unat (a - 0x04000100) = unat a - 0x04000100"
    by (simp add: unat_sub word_le_nat_alt)
  then show ?thesis
    using assms r by (auto simp: timer_index_def io_address_defs unat_div unat_mod split: if_splits)
qed

lemma dma_index_range:
  assumes "dma_index a = Some (i, offset)"
  shows "i < 4 \<and> 0x040000B0 \<le> unat a \<and> unat a < 0x040000E0 \<and> i = (unat a - 0x040000B0) div 12
    \<and> unat offset = (unat a - 0x040000B0) mod 12"
proof -
  have r: "0x040000B0 \<le> unat a" "unat a < 0x040000E0"
    using assms by (auto simp: dma_index_def io_address_defs word_less_nat_alt word_le_nat_alt split: if_splits)
  then have "unat (a - 0x040000B0) = unat a - 0x040000B0"
    by (simp add: unat_sub word_le_nat_alt)
  then show ?thesis
    using assms r by (auto simp: dma_index_def io_address_defs unat_div unat_mod split: if_splits)
qed

lemma wave_ram_index_range: "wave_ram_index a = Some i \<Longrightarrow> i < 8"
proof -
  assume a: "wave_ram_index a = Some i"
  then have r: "0x04000090 \<le> unat a" "unat a \<le> 0x0400009E"
    by (auto simp: wave_ram_index_def word_less_nat_alt split: if_splits)
  then have "unat (a - 0x04000090) = unat a - 0x04000090"
    by (simp add: unat_sub word_le_nat_alt)
  then show ?thesis
    using a r by (auto simp: wave_ram_index_def unat_div split: if_splits)
qed

lemma index_from_range: "index_from k as a = Some i \<Longrightarrow> k \<le> i \<and> i < k + length as \<and> as ! (i - k) = a"
  by (induction k as a rule: index_from.induct) (auto split: if_splits simp: nth_Cons' Suc_le_eq)

lemma serial_index_range: "serial_index a = Some i \<Longrightarrow> i < 7 \<and> kSerialRegisterAddresses ! i = a"
  using index_from_range [of 0 kSerialRegisterAddresses a i] by (simp add: serial_index_def kSerialRegisterAddresses_def)

lemma lcd_index_range: "ppu_is_lcd_control_address a \<Longrightarrow> lcd_control_index a < kLcdControlCount"
proof -
  assume a: "ppu_is_lcd_control_address a"
  then have r: "0x04000000 \<le> unat a" "unat a \<le> 0x04000054"
    by (auto simp: ppu_is_lcd_control_address_def kLcdControlStart_def kLcdControlEnd_def word_less_nat_alt split: if_splits)
  then have "unat (a - 0x04000000) = unat a - 0x04000000"
    by (simp add: unat_sub word_le_nat_alt)
  then show ?thesis
    using r by (simp add: lcd_control_index_def kLcdControlStart_def kLcdControlCount_def unat_div)
qed

section \<open>Every access returns\<close>

lemma returns_case:
  "(\<And>x. r = Some x \<Longrightarrow> f x \<noteq> None) \<Longrightarrow> (r = None \<Longrightarrow> e \<noteq> None) \<Longrightarrow> (case r of None \<Rightarrow> e | Some x \<Rightarrow> f x) \<noteq> None"
  "(\<And>x y. p = (x, y) \<Longrightarrow> g x y \<noteq> None) \<Longrightarrow> (case p of (x, y) \<Rightarrow> g x y) \<noteq> None"
  "(c \<Longrightarrow> e \<noteq> None) \<Longrightarrow> (\<not> c \<Longrightarrow> e' \<noteq> None) \<Longrightarrow> (if c then e else e') \<noteq> None"
  by (cases r; cases p; simp)+

lemma safe_out_case:
  "(\<And>x. r = Some x \<Longrightarrow> safe_out P (f x)) \<Longrightarrow> (r = None \<Longrightarrow> safe_out P e) \<Longrightarrow> safe_out P (case r of None \<Rightarrow> e | Some x \<Rightarrow> f x)"
  "(\<And>x y. p = (x, y) \<Longrightarrow> safe_out P (g x y)) \<Longrightarrow> safe_out P (case p of (x, y) \<Rightarrow> g x y)"
  by (cases r; cases p; simp)+

lemma wave_ram_access:
  assumes "apu_wf a" and "i < 8"
  shows "wave_ram i a \<noteq> None" "\<exists>a'. write_wave_ram i v a = Some a' \<and> apu_wf a'"
proof -
  have len: "length (apu_wave_ram_banks a) = 2" "\<And>k. k < 2 \<Longrightarrow> length (apu_wave_ram_banks a ! k) = 8"
    using assms(1) by (auto simp: apu_wf_def list_all_length)
  show "wave_ram i a \<noteq> None"
    using len assms(2) by (auto simp: wave_ram_def)
  show "\<exists>a'. write_wave_ram i v a = Some a' \<and> apu_wf a'"
    using len assms by (auto simp: write_wave_ram_def Let_def apu_wf_def list_all_length nth_list_update)
qed

lemma soundcnt_x_access:
  assumes "apu_wf a"
  shows "soundcnt_x a \<noteq> None" "\<exists>a'. write_soundcnt_x v a = Some a' \<and> apu_wf a'"
  using assms clear_sound_circuit_reset [OF assms] apu_wf_clear_sound_circuit [OF assms]
  by (auto simp: soundcnt_x_def write_soundcnt_x_def apu_wf_squares Let_def) (auto simp: apu_wf_def)

lemma io_read16_returns:
  assumes wf: "devices_wf d"
  shows "io_read16 d a \<noteq> None"
proof -
  note dw = devices_wfD [OF wf]
  have named: "io_read_named d a = Some r \<Longrightarrow> r \<noteq> None" for r
    using soundcnt_x_access(1) [OF dw(5)] by (auto simp: io_read_named_def simp del: not_None_eq split: if_splits)
  have lcd: "ppu_read_lcd_control a (dev_ppu d) \<noteq> None"
    using lcd_index_range [of a] dw(4) by (auto simp: ppu_read_lcd_control_def ppu_wf_def)
  have timer: "io_read_timer d i off \<noteq> None" if "timer_index a = Some (i, off)" for i off
    using timer_index_range [OF that] dw(2)
    by (simp add: io_read_timer_def timers_counter_def timers_control_def timers_shape_checked)
  have serial: "io_read_serial d a i \<noteq> None" if "serial_index a = Some i" for i
    using serial_index_range [OF that] dw(8) by (simp add: io_read_serial_def)
  have wave: "wave_ram i (dev_apu d) \<noteq> None" if "wave_ram_index a = Some i" for i
    using wave_ram_access(1) [OF dw(5) wave_ram_index_range [OF that]] .
  have dma: "io_read_dma d i off \<noteq> None" if "dma_index a = Some (i, off)" for i off
    using dma_index_range [OF that] dw(3) by (simp add: io_read_dma_def dma_control_def)
  have rest: "io_read_rest d a \<noteq> None"
    unfolding io_read_rest_def by (intro returns_case) (use timer serial wave dma in simp_all)
  show ?thesis
    using named lcd rest by (auto simp: io_read16_def simp del: not_None_eq split: option.splits)
qed

lemma io_read32_returns:
  assumes "devices_wf d"
  shows "io_read32 d a \<noteq> None"
  using io_read16_returns [OF assms, of a] io_read16_returns [OF assms, of "a + 2"]
  by (auto simp: io_read32_def)

lemma serial_transfer_bound: "serial_transfer_cycles v = Some n \<Longrightarrow> 0 < n \<and> n \<le> 2088"
  by (auto simp: serial_transfer_cycles_def sio_const_defs Let_def split: if_splits)

lemma ic_wf_writes [wf_intros]:
  assumes "ic_wf ic"
  shows "ic_wf (ic_write_interrupt_enable v ic)" "ic_wf (ic_write_interrupt_flags v ic)" "ic_wf (ic_write_ime v ic)"
    "ic_wf (keypad_poll_interrupt k ic)"
  using ic_wf_apply [OF assms, of "Ic_write_ie v"] ic_wf_apply [OF assms, of "Ic_write_if v"]
    ic_wf_apply [OF assms, of "Ic_write_ime v"] assms ic_wf_request [OF assms]
  by (simp_all add: keypad_poll_interrupt_def)

lemma write_device_safe:
  assumes "devices_wf d"
  shows "\<exists>a. r = Some a \<and> apu_wf a \<Longrightarrow> safe_out devices_wf (write_apu r d)"
    "\<exists>t. s = Some t \<and> timers_shape t \<Longrightarrow> safe_out devices_wf (write_timers s d)"
    "\<exists>m. c = Some m \<and> dma_shape m \<Longrightarrow> safe_out devices_wf (write_dma c d)"
    "ic_wf ic \<Longrightarrow> safe_out devices_wf (write_irq ic d)"
  using assms by (auto simp: write_apu_def write_timers_def write_dma_def write_irq_def safe_out_def intro: wf_intros)

lemma dma_write_safe:
  assumes "devices_wf d" and "i < 4"
  shows "safe_out devices_wf (io_write_dma i off v d)"
proof -
  have wf: "dma_shape (dev_dma d)"
    using assms(1) by (rule devices_wfD)
  have valid: "channel_shape i (dma_channels (dev_dma d) ! i)"
    using dma_shape_channel [OF wf assms(2)] .
  have keep: "dma_shape (dev_dma d\<lparr>dma_channels := (dma_channels (dev_dma d))[i := st]\<rparr>)"
    if "dc_control st = dc_control (dma_channels (dev_dma d) ! i)" "dc_current_count st = dc_current_count (dma_channels (dev_dma d) ! i)" for st
    using valid that by (intro dma_shape_put [OF wf]) (simp add: channel_shape_def)
  have control: "\<exists>m. dma_write_control i v (dev_dma d) = Some m \<and> dma_shape m"
    unfolding dma_write_control_in [OF wf assms(2)]
    using dma_shape_put [OF wf, of i "channel_write_control i v (dma_channels (dev_dma d) ! i)"] channel_write_control_valid [OF valid, of v]
    by (simp add: channel_valid_shape)
  show ?thesis
    unfolding io_write_dma_def Let_def safe_out_simps(3)
    using assms wf keep control
    by (auto simp: dma_source_def dma_destination_def dma_write_source_def dma_write_destination_def dma_write_word_count_def
        intro!: write_device_safe)
qed

lemma io_write_named_safe:
  assumes wf: "devices_wf d" and "io_write_named a v d = Some r"
  shows "safe_out devices_wf r"
proof -
  note dw = devices_wfD [OF wf]
  have dispstat: "devices_wf (io_write_dispstat v d)"
    using dw(1,4) wf by (auto simp: io_write_dispstat_def ppu_recheck_vcount_match_def ppu_write_dispstat_def Let_def ppu_wf_def
        intro!: wf_intros)
  have keycnt: "devices_wf (io_write_keycnt v d)"
    using dw(1,6) wf by (auto simp: io_write_keycnt_def Let_def intro!: wf_intros)
  show ?thesis
    using assms(2) dispstat keycnt wf write_soundcnt_h_wf [OF dw(5)] soundcnt_x_access(2) [OF dw(5)] dw(1,5)
    by (auto simp: io_write_named_def split: if_splits intro!: write_device_safe wf_intros)
qed

lemma io_write_rest_safe:
  assumes wf: "devices_wf d"
  shows "safe_out devices_wf (io_write_rest a v d)"
proof -
  note dw = devices_wfD [OF wf]
  have timer: "safe_out devices_wf (io_write_timer i off v d)" if "timer_index a = Some (i, off)" for i off
    using timer_index_range [OF that] timers_shape_write [OF dw(2), of i v] wf
    by (simp add: io_write_timer_def write_device_safe)
  have serial: "safe_out devices_wf (io_write_serial a i v d)" if "serial_index a = Some i" for i
    using serial_index_range [OF that] dw serial_transfer_bound [of v] wf
    by (auto simp: io_write_serial_def Let_def devices_wf_def sio_wf_def split: option.splits)
  have wave: "safe_out devices_wf (write_apu (write_wave_ram i v (dev_apu d)) d)" if "wave_ram_index a = Some i" for i
    using wave_ram_access(2) [OF dw(5) wave_ram_index_range [OF that]] write_device_safe(1) [OF wf] by blast
  have dma: "safe_out devices_wf (io_write_dma i off v d)" if "dma_index a = Some (i, off)" for i off
    using dma_write_safe [OF wf] dma_index_range [OF that] by simp
  show ?thesis
    unfolding io_write_rest_def by (intro safe_out_case) (use timer serial wave dma wf in \<open>simp_all add: safe_out_case\<close>)
qed

lemma io_write16_safe:
  assumes wf: "devices_wf d"
  shows "safe_out devices_wf (io_write16 d a v)"
proof -
  have "\<exists>ok p. ppu_write_lcd_control a v (dev_ppu d) = Some (ok, p) \<and> ppu_wf p"
    using lcd_index_range [of a] devices_wfD(4) [OF wf] by (auto simp: ppu_write_lcd_control_def ppu_wf_def)
  then show ?thesis
    using io_write_named_safe [OF wf] io_write_rest_safe [OF wf] wf
    by (auto simp: io_write16_def split: option.splits intro: wf_intros)
qed

lemma io_write32_safe:
  assumes wf: "devices_wf d"
  shows "safe_out devices_wf (io_write32 d a v)"
proof -
  have halves: "safe_out devices_wf (io_write_halves d a v)"
    unfolding io_write_halves_def
    using wf io_write16_safe by (intro safe_out_bind) (auto intro!: safe_out_bind)
  have fifo: "\<exists>a'. write_fifo c v (dev_apu d) = Some a' \<and> apu_wf a'" for c
    using write_fifo_queue [OF devices_wfD(5) [OF wf], of c v] by blast
  show ?thesis
    unfolding io_write32_def safe_out_simps(3)
    using wf halves io_write16_safe [OF wf] write_device_safe(1) [OF wf fifo] by simp
qed

interpretation registers: io_facade device_callbacks devices_wf
proof unfold_locales
  fix r16 :: "devices \<Rightarrow> u32 \<Rightarrow> u16 option throws" and c a
  assume "cb_read16 device_callbacks = Some r16" "devices_wf c"
  then show "r16 c a \<noteq> None"
    using io_read16_returns [of c a] by (simp add: device_callbacks_def)
next
  fix r32 :: "devices \<Rightarrow> u32 \<Rightarrow> u32 option throws" and c a
  assume "cb_read32 device_callbacks = Some r32" "devices_wf c"
  then show "r32 c a \<noteq> None"
    using io_read32_returns [of c a] by (simp add: device_callbacks_def)
next
  fix w16 :: "devices \<Rightarrow> u32 \<Rightarrow> u16 \<Rightarrow> (bool \<times> devices) throws" and c a h
  assume "cb_write16 device_callbacks = Some w16" "devices_wf c"
  then show "\<exists>ok c'. w16 c a h = Some (ok, c') \<and> devices_wf c'"
    using io_write16_safe [of c a h] by (auto simp: device_callbacks_def elim: safe_outE)
next
  fix w32 :: "devices \<Rightarrow> u32 \<Rightarrow> u32 \<Rightarrow> (bool \<times> devices) throws" and c a w
  assume "cb_write32 device_callbacks = Some w32" "devices_wf c"
  then show "\<exists>ok c'. w32 c a w = Some (ok, c') \<and> devices_wf c'"
    using io_write32_safe [of c a w] by (auto simp: device_callbacks_def elim: safe_outE)
qed

section \<open>Which writes are accepted\<close>

definition took :: "(bool \<times> 's) throws \<Rightarrow> bool" where
  "took r = (case r of Some (ok, _) \<Rightarrow> ok | None \<Rightarrow> False)"

lemma took_simps [simp]:
  "took (Some (ok, s)) = ok" "took None = False" "took (if c then r else r') = (if c then took r else took r')"
  "took (map_option (\<lambda>x. (True, f x)) e) = (e \<noteq> None)"
  by (simp_all add: took_def split: option.splits)

lemma lcd_decoders_agree:
  "0x04000000 \<le> a \<Longrightarrow> is_halfword_aligned a \<Longrightarrow> a \<noteq> kDispstat \<Longrightarrow> a \<noteq> kVcount \<Longrightarrow> ppu_is_lcd_control_address a = is_lcd_control_address a"
  by (auto simp: ppu_is_lcd_control_address_def is_lcd_control_address_def is_halfword_aligned_def kLcdControlStart_def
      kLcdControlEnd_def kDispstatAddress_def kVcountAddress_def kDispstat_def kVcount_def word_less_nat_alt word_le_nat_alt)

lemma even_below: "even n \<Longrightarrow> n < 4 \<Longrightarrow> n \<in> {0, 2}" "even n \<Longrightarrow> n < 12 \<Longrightarrow> n \<in> {0, 2, 4, 6, 8, 10}" for n :: nat
  by simp_all presburger+

lemma timer_offset_aligned:
  assumes "is_halfword_aligned a" and "timer_index a = Some (i, off)"
  shows "off \<in> {0, 2}"
proof -
  have "even (unat off)" "unat off < 4"
    using timer_index_range [OF assms(2)] assms(1) by (simp_all add: halfword_even dvd_mod)
  then show ?thesis
    using even_below(1) by (simp add: word_unat_eq_iff)
qed

lemma dma_offset_aligned:
  assumes "is_halfword_aligned a" and "dma_index a = Some (i, off)"
  shows "off \<in> {0, 2, 4, 6, 8, 10}"
proof -
  have "even (unat off)" "unat off < 12"
    using dma_index_range [OF assms(2)] assms(1) by (simp_all add: halfword_even dvd_mod)
  then show ?thesis
    using even_below(2) by (simp add: word_unat_eq_iff)
qed

lemma took_rest:
  assumes wf: "devices_wf d" and al: "is_halfword_aligned a"
  shows "took (io_write_rest a v d) \<longleftrightarrow>
    timer_index a \<noteq> None \<or> serial_index a \<noteq> None \<or> a \<in> {kJoycnt, kJoyRecvLow, kJoyRecvHigh, kJoyTransLow, kJoyTransHigh}
    \<or> wave_ram_index a \<noteq> None \<or> dma_index a \<noteq> None"
proof -
  note dw = devices_wfD [OF wf]
  have timer: "took (io_write_timer i off v d)" if "timer_index a = Some (i, off)" for i off
    using timers_shape_write [OF dw(2), of i v] timer_index_range [OF that] timer_offset_aligned [OF al that]
    by (auto simp: io_write_timer_def write_timers_def)
  have serial: "took (io_write_serial a i v d)" if "serial_index a = Some i" for i
    using serial_index_range [OF that] dw(8) by (simp add: io_write_serial_def Let_def)
  have wave: "took (write_apu (write_wave_ram i v (dev_apu d)) d)" if "wave_ram_index a = Some i" for i
    using wave_ram_access(2) [OF dw(5) wave_ram_index_range [OF that], of v] by (auto simp: write_apu_def)
  have dma: "took (io_write_dma i off v d)" if "dma_index a = Some (i, off)" for i off
    using dw(3) dma_index_range [OF that] dma_offset_aligned [OF al that]
    by (auto simp: io_write_dma_def Let_def write_dma_def dma_source_def dma_destination_def dma_write_source_def
        dma_write_destination_def dma_write_word_count_def dma_write_control_in)
  show ?thesis
    by (cases "timer_index a"; cases "serial_index a"; cases "wave_ram_index a"; cases "dma_index a")
      (use timer serial wave dma in \<open>simp_all add: io_write_rest_def split: prod.split\<close>)
qed

definition named_writable :: "u32 set" where
  "named_writable = {kDispstat, kSoundcntL, kSoundcntH, kSoundcntX, kSoundbias, kKeycnt, kIe, kIf, kWaitcnt, kIme}"

lemma named_aligned: "a \<in> named_writable \<union> {kVcount, kKeyinput} \<Longrightarrow> is_halfword_aligned a"
  by (auto simp: named_writable_def is_halfword_aligned_def io_address_defs)

lemma can_write_named:
  "a \<in> named_writable \<Longrightarrow> can_write16_address a" "\<not> can_write16_address kVcount" "\<not> can_write16_address kKeyinput"
proof -
  show "can_write16_address a" if "a \<in> named_writable"
    using that named_aligned [of a] by (simp add: can_write16_address_def named_writable_def)
  show "\<not> can_write16_address kVcount" "\<not> can_write16_address kKeyinput"
    by (simp_all add: can_write16_address_def is_lcd_control_address_def timer_index_def serial_index_def
        kSerialRegisterAddresses_def dma_index_def io_address_defs)
qed

lemma took_named:
  assumes wf: "devices_wf d"
  shows "(case io_write_named a v d of None \<Rightarrow> a \<notin> named_writable \<union> {kVcount, kKeyinput}
    | Some r \<Rightarrow> a \<in> named_writable \<union> {kVcount, kKeyinput} \<and> took r = (a \<in> named_writable))"
proof -
  note dw = devices_wfD [OF wf]
  have "write_soundcnt_h v (dev_apu d) \<noteq> None" "write_soundcnt_x v (dev_apu d) \<noteq> None"
    using write_soundcnt_h_wf [OF dw(5), of v] soundcnt_x_access(2) [OF dw(5), of v] by auto
  then show ?thesis
    by (simp add: io_write_named_def named_writable_def write_apu_def write_irq_def del: not_None_eq)
      (simp add: io_address_defs)
qed

lemma io_write16_took:
  assumes wf: "devices_wf d" and io: "0x04000000 \<le> a"
  shows "took (io_write16 d a v) \<longleftrightarrow>
    can_write16_address a \<or> a \<in> {kJoycnt, kJoyRecvLow, kJoyRecvHigh, kJoyTransLow, kJoyTransHigh} \<or> wave_ram_index a \<noteq> None"
proof (cases "is_halfword_aligned a")
  case False
  then show ?thesis
    by (auto simp: io_write16_def can_write16_address_def wave_ram_index_def is_halfword_aligned_def io_address_defs)
next
  case al: True
  show ?thesis
  proof (cases "io_write_named a v d")
    case None
    then have n: "a \<notin> named_writable" "a \<noteq> kVcount" "a \<noteq> kKeyinput"
      using took_named [OF wf, of a v] by simp_all
    have can: "can_write16_address a \<longleftrightarrow> is_lcd_control_address a \<or> timer_index a \<noteq> None \<or> serial_index a \<noteq> None \<or> dma_index a \<noteq> None"
      using n al timer_offset_aligned [OF al] dma_offset_aligned [OF al]
      by (cases "timer_index a"; cases "serial_index a"; cases "dma_index a")
        (simp_all add: can_write16_address_def named_writable_def split: prod.split)
    have agree: "ppu_is_lcd_control_address a = is_lcd_control_address a"
      using lcd_decoders_agree [OF io al] n by (auto simp: named_writable_def)
    have "\<exists>p. ppu_write_lcd_control a v (dev_ppu d) = Some (is_lcd_control_address a, p)"
      using lcd_index_range [of a] devices_wfD(4) [OF wf] by (auto simp: ppu_write_lcd_control_def ppu_wf_def agree)
    then have "took (io_write16 d a v) = (is_lcd_control_address a \<or> took (io_write_rest a v d))"
      using None al by (auto simp: io_write16_def split: if_splits)
    then show ?thesis
      using can took_rest [OF wf al, of v] by (simp del: not_None_eq) blast
  next
    case (Some r)
    then have r: "took r = (a \<in> named_writable)" "a \<in> named_writable \<union> {kVcount, kKeyinput}"
      using took_named [OF wf, of a v] by simp_all
    have "can_write16_address a = (a \<in> named_writable)"
      using r(2) can_write_named named_writable_def by (auto simp: io_address_defs)
    moreover have "a \<notin> {kJoycnt, kJoyRecvLow, kJoyRecvHigh, kJoyTransLow, kJoyTransHigh}" "wave_ram_index a = None"
      using r(2) by (auto simp: named_writable_def wave_ram_index_def io_address_defs)
    ultimately show ?thesis
      using Some r(1) al by (simp add: io_write16_def)
  qed
qed

lemma wave_ram_not_listed:
  assumes "0x04000090 \<le> a" "a \<le> 0x0400009E"
  shows "\<not> can_write16_address a"
proof -
  have r: "0x04000090 \<le> unat a" "unat a \<le> 0x0400009E"
    using assms by (simp_all add: word_le_nat_alt)
  have "a \<notin> named_writable"
    using r by (auto simp: named_writable_def io_address_defs)
  moreover have "\<not> is_lcd_control_address a" "timer_index a = None" "dma_index a = None"
    using r by (simp_all add: is_lcd_control_address_def timer_index_def dma_index_def io_address_defs word_le_nat_alt word_less_nat_alt)
  moreover have "serial_index a = None"
    using r by (auto simp: serial_index_def kSerialRegisterAddresses_def io_address_defs)
  ultimately show ?thesis
    by (simp add: can_write16_address_def named_writable_def)
qed

section \<open>Properties\<close>

text \<open>C25. Bus accesses with the real registers. With the register facade installed as the I/O callbacks, every load and every store of
  the memory bus returns for every address and value, no array or device index is ever out of range, and stores keep the bus and all
  devices well formed.\<close>

theorem register_bus_safe:
  assumes "mb_wf b" and "devices_wf d"
  shows "mb_read8 device_callbacks d b a \<noteq> None \<and> mb_read16 device_callbacks d b a \<noteq> None \<and> mb_read32 device_callbacks d b a \<noteq> None
    \<and> (\<forall>r \<in> {mb_write8 device_callbacks a v8 (b, d), mb_write16 device_callbacks a v16 (b, d),
              mb_write32 device_callbacks a v32 (b, d)}.
         \<exists>ok b' d'. r = Some (ok, b', d') \<and> mb_wf b' \<and> devices_wf d')"
  using assms by (rule registers.access_safe)

theorem register_bus_safe_witness:
  "\<exists>ok b' d'. mb_write32 device_callbacks 0x040000B8 0x84000004 (new_memory_bus, reset_devices) = Some (ok, b', d') \<and> devices_wf d'"
  using register_bus_safe [OF new_memory_bus_wf devices_wf_reset, of "0x040000B8" 0 0 "0x84000004"] by blast

text \<open>Writable registers. A halfword write in the I/O region is accepted exactly at the addresses that word writes consider
  writable (\<open>can_write16_address\<close>) and, besides these, at the JOY bus registers and in wave RAM.\<close>

lemma io_write16_accepts:
  assumes "devices_wf d" and "0x04000000 \<le> a"
  shows "(\<exists>d'. io_write16 d a v = Some (True, d')) \<longleftrightarrow>
    can_write16_address a \<or> a \<in> {kJoycnt, kJoyRecvLow, kJoyRecvHigh, kJoyTransLow, kJoyTransHigh} \<or> wave_ram_index a \<noteq> None"
  using io_write16_took [OF assms, of v] by (auto simp: took_def split: option.splits prod.splits)

text \<open>C28. Word writes to wave RAM are lost: although both halfwords of an aligned wave RAM word accept halfword writes, the word
  write is refused and changes nothing, because \<open>can_write16_address\<close> does not know the wave RAM addresses.\<close>

theorem wave_ram_word_store_dropped:
  assumes wf: "devices_wf d" and a: "a \<in> {0x04000090, 0x04000094, 0x04000098, 0x0400009C}"
  shows "(\<exists>d'. io_write16 d a (low16 v) = Some (True, d')) \<and> (\<exists>d'. io_write16 d (a + 2) (high16 v) = Some (True, d'))
    \<and> io_write32 d a v = Some (False, d)"
proof -
  have "wave_ram_index a \<noteq> None" "wave_ram_index (a + 2) \<noteq> None" "0x04000000 \<le> a" "0x04000000 \<le> a + 2"
    using a by (auto simp: wave_ram_index_def is_halfword_aligned_def)
  then have "took (io_write16 d a (low16 v))" "took (io_write16 d (a + 2) (high16 v))"
    using io_write16_took [OF wf, of a "low16 v"] io_write16_took [OF wf, of "a + 2" "high16 v"] by (simp_all del: not_None_eq)
  moreover have "\<not> can_write16_address a" "\<not> can_write16_address (a + 2)"
    using a wave_ram_not_listed [of a] wave_ram_not_listed [of "a + 2"] by auto
  then have "io_write32 d a v = Some (False, d)"
    using a by (auto simp: io_write32_def io_write_halves_def is_word_aligned_def io_address_defs)
  ultimately show ?thesis
    by (auto simp: took_def split: option.splits prod.splits)
qed

theorem wave_ram_word_store_dropped_witness: "io_write32 reset_devices 0x04000090 0x12345678 = Some (False, reset_devices)"
  using wave_ram_word_store_dropped [OF devices_wf_reset, of "0x04000090" "0x12345678"] by simp

text \<open>C27. Serial transfers. A SIOCNT write that starts a transfer of \<open>n\<close> cycles (internal clock, 8 or 32 bits at the selected rate,
  plus the completion latency) is accepted and makes the port busy; ticking fewer than \<open>n\<close> cycles, in any two parts, leaves it busy
  without an interrupt; ticking at least \<open>n\<close> cycles ends the transfer and raises the serial interrupt exactly when SIOCNT enables it.\<close>

theorem sio_transfer_timing:
  assumes wf: "devices_wf d" and start: "serial_transfer_cycles v = Some n"
  shows "\<exists>d1. io_write16 d kSiocnt v = Some (True, d1) \<and> devices_wf d1 \<and> dev_interrupts d1 = dev_interrupts d
    \<and> (\<forall>x y. unat x + unat y < unat n \<longrightarrow>
        (\<exists>d2 d3. io_tick x d1 = Some d2 \<and> io_tick y d2 = Some d3 \<and> io_tick (x + y) d1 = Some d3
          \<and> dev_sio_active d3 \<and> dev_interrupts d3 = dev_interrupts d))
    \<and> (\<forall>x y. unat x < unat n \<and> unat n \<le> unat x + unat y \<longrightarrow>
        (\<exists>d2 d3. io_tick x d1 = Some d2 \<and> io_tick y d2 = Some d3 \<and> \<not> dev_sio_active d3 \<and> dev_sio_cycles d3 = 0
          \<and> dev_interrupts d3 = (if bit v 14 then ic_request Irq_serial (dev_interrupts d) else dev_interrupts d)))"
proof -
  have n: "0 < unat n"
    using serial_transfer_bound [OF start] by (simp add: word_less_nat_alt)
  define d1 where "d1 = d\<lparr>dev_serial := (dev_serial d)[4 := v], dev_sio_active := True, dev_sio_cycles := n\<rparr>"
  have "serial_index kSiocnt = Some 4"
    by (simp add: serial_index_def kSerialRegisterAddresses_def io_address_defs)
  then have rest: "io_write_rest kSiocnt v d = Some (True, d1)"
    using devices_wfD(8) [OF wf] start
    by (simp add: io_write_rest_def timer_index_def io_write_serial_def Let_def d1_def) (simp add: io_address_defs)
  have "ppu_write_lcd_control kSiocnt v (dev_ppu d) = Some (False, dev_ppu d)" "io_write_named kSiocnt v d = None" "is_halfword_aligned kSiocnt"
    by (simp_all add: ppu_write_lcd_control_def ppu_is_lcd_control_address_def kLcdControlEnd_def io_write_named_def
        is_halfword_aligned_def io_address_defs)
  with rest have w: "io_write16 d kSiocnt v = Some (True, d1)"
    by (simp add: io_write16_def)
  have cnt: "vec_at (dev_serial d1) 4 = Some v" "(v AND kSioIrqEnableBit \<noteq> 0) = bit v 14"
    using devices_wfD(8) [OF wf] and_exp_eq_0_iff_not_bit [of v 14] by (simp_all add: d1_def kSioIrqEnableBit_def)
  have busy: "io_tick x (d1\<lparr>dev_sio_cycles := k\<rparr>) = Some (d1\<lparr>dev_sio_cycles := k - x\<rparr>)" if "x < k" for x k
    using that by (simp add: io_tick_def d1_def)
  have finished: "io_tick x (d1\<lparr>dev_sio_cycles := k\<rparr>) = Some (d1\<lparr>dev_sio_active := False, dev_sio_cycles := 0,
      dev_interrupts := (if bit v 14 then ic_request Irq_serial (dev_interrupts d) else dev_interrupts d)\<rparr>)"
    if "k \<le> x" "0 < x" for x k
    using that cnt by (simp add: io_tick_def d1_def Let_def not_less)
  have d1n: "d1 = d1\<lparr>dev_sio_cycles := n\<rparr>"
    by (simp add: d1_def)
  have split: "unat (x + y) = unat x + unat y" "x < n" "y < n - x" "x + y < n" "n - x - y = n - (x + y)"
    if "unat x + unat y < unat n" for x y
  proof -
    show s: "unat (x + y) = unat x + unat y"
      using less_trans [OF that unat_u32_less] by (simp add: unat_word_ariths)
    show "x < n" "y < n - x" "x + y < n" "n - x - y = n - (x + y)"
      using that s by (simp_all add: word_less_nat_alt unat_sub word_le_nat_alt)
  qed
  have after: "n - x \<le> y \<and> x < n \<and> 0 < y" if "unat x < unat n" "unat n \<le> unat x + unat y" for x y
    using that by (simp add: word_less_nat_alt word_le_nat_alt unat_sub)
  have fine: "devices_wf d1"
    using io_write16_safe [OF wf, of kSiocnt v] w by simp
  have parts: "\<exists>d2 d3. io_tick x d1 = Some d2 \<and> io_tick y d2 = Some d3 \<and> io_tick (x + y) d1 = Some d3
      \<and> dev_sio_active d3 \<and> dev_interrupts d3 = dev_interrupts d" if "unat x + unat y < unat n" for x y
  proof (intro exI conjI)
    show "io_tick x d1 = Some (d1\<lparr>dev_sio_cycles := n - x\<rparr>)" "io_tick (x + y) d1 = Some (d1\<lparr>dev_sio_cycles := n - (x + y)\<rparr>)"
      using busy [OF split(2) [OF that]] busy [OF split(4) [OF that]] d1n by simp_all
    show "io_tick y (d1\<lparr>dev_sio_cycles := n - x\<rparr>) = Some (d1\<lparr>dev_sio_cycles := n - (x + y)\<rparr>)"
      using busy [OF split(3) [OF that]] split(5) [OF that] by simp
  qed (simp_all add: d1_def)
  have ends: "\<exists>d2 d3. io_tick x d1 = Some d2 \<and> io_tick y d2 = Some d3 \<and> \<not> dev_sio_active d3 \<and> dev_sio_cycles d3 = 0
      \<and> dev_interrupts d3 = (if bit v 14 then ic_request Irq_serial (dev_interrupts d) else dev_interrupts d)"
    if "unat x < unat n" "unat n \<le> unat x + unat y" for x y
  proof (intro exI conjI)
    show "io_tick x d1 = Some (d1\<lparr>dev_sio_cycles := n - x\<rparr>)"
      using busy [of x n] after [OF that] d1n by simp
    show "io_tick y (d1\<lparr>dev_sio_cycles := n - x\<rparr>) = Some (d1\<lparr>dev_sio_active := False, dev_sio_cycles := 0,
        dev_interrupts := (if bit v 14 then ic_request Irq_serial (dev_interrupts d) else dev_interrupts d)\<rparr>)"
      using finished [of "n - x" y] after [OF that] by blast
  qed simp_all
  show ?thesis
    using w fine parts ends by (intro exI [of _ d1]) (simp add: d1_def)
qed

theorem sio_transfer_timing_witness:
  "\<exists>d1 d2. io_write16 reset_devices kSiocnt 0x4081 = Some (True, d1) \<and> io_tick 551 d1 = Some d2 \<and> dev_sio_active d2
    \<and> dev_interrupts d2 = ic_reset"
proof -
  have "serial_transfer_cycles 0x4081 = Some 552"
    by (simp add: serial_transfer_cycles_def serial_mode_def sio_const_defs)
  then obtain d1 where "io_write16 reset_devices kSiocnt 0x4081 = Some (True, d1)"
    "\<exists>d2 d3. io_tick 551 d1 = Some d2 \<and> io_tick 0 d2 = Some d3 \<and> io_tick (551 + 0) d1 = Some d3
      \<and> dev_sio_active d3 \<and> dev_interrupts d3 = dev_interrupts reset_devices"
    using sio_transfer_timing [OF devices_wf_reset, of "0x4081" 552] by (force dest: spec [of _ 551] spec [of _ 0])
  then show ?thesis
    by (auto simp: reset_devices_def)
qed

section \<open>Word writes to the DMA registers\<close>

lemma replace_halves: "replace_high16 (replace_low16 s (low16 v)) (high16 v) = v"
proof -
  have m: "(0xFFFF :: u32) = mask 16" "(0xFFFF0000 :: u32) = NOT (mask 16)"
    by (simp_all add: mask_eq_exp_minus_1)
  show ?thesis
    unfolding replace_high16_def replace_low16_def low16_def high16_def m
    by (rule bit_word_eqI) (auto simp: bit_simps)
qed

lemma dma_register_index:
  assumes "i < 4" and "k < 12"
  shows "dma_index (0x040000B0 + of_nat (12 * i + k)) = Some (i, of_nat k)"
    and "unat (0x040000B0 + of_nat (12 * i + k) :: u32) = 0x040000B0 + 12 * i + k"
proof -
  have n: "12 * i + k < 48"
    using assms by linarith
  have u: "unat (of_nat (12 * i + k) :: u32) = 12 * i + k"
    using n by (simp add: unat_of_nat del: of_nat_add of_nat_mult)
  then show a: "unat (0x040000B0 + of_nat (12 * i + k) :: u32) = 0x040000B0 + 12 * i + k"
    using n by (simp add: unat_word_ariths del: of_nat_add of_nat_mult)
  define j where "j = 12 * i + k"
  have j: "unat (of_nat j :: u32) = j" "unat (0x040000B0 + of_nat j :: u32) = 0x040000B0 + j" "j < 48"
    using u a n by (simp_all add: j_def del: of_nat_add of_nat_mult)
  have "j div 12 = i" "j mod 12 = k"
    using assms by (simp_all add: j_def)
  then show "dma_index (0x040000B0 + of_nat (12 * i + k)) = Some (i, of_nat k)"
    unfolding j_def [symmetric] using j assms(2)
    by (simp add: dma_index_def io_address_defs word_less_nat_alt word_le_nat_alt unat_div unat_mod word_unat_eq_iff unat_of_nat)
qed

lemma io_write16_dma:
  assumes "i < 4" and "k \<in> {0, 2, 4, 6, 8, 10}"
  defines "a \<equiv> 0x040000B0 + of_nat (12 * i + k)"
  shows "io_write16 d a v = io_write_dma i (of_nat k) v d" "can_write16_address a"
proof -
  have k: "k < 12" "even k"
    using assms(2) by auto
  have u: "unat a = 0x040000B0 + 12 * i + k" and idx: "dma_index a = Some (i, of_nat k)"
    using dma_register_index [OF assms(1) k(1)] by (simp_all add: a_def)
  have r: "0x040000B0 \<le> unat a" "unat a < 0x040000E0"
    using u assms(1) k by simp_all
  have al: "is_halfword_aligned a"
    using u k by (simp add: halfword_even)
  have named: "a \<notin> named_writable" "a \<noteq> kVcount" "a \<noteq> kKeyinput"
    using r by (auto simp: named_writable_def io_address_defs)
  have others: "\<not> is_lcd_control_address a" "\<not> ppu_is_lcd_control_address a" "timer_index a = None" "wave_ram_index a = None"
    using r by (simp_all add: is_lcd_control_address_def ppu_is_lcd_control_address_def kLcdControlEnd_def timer_index_def
        wave_ram_index_def io_address_defs word_le_nat_alt word_less_nat_alt)
  have serial: "serial_index a = None" "a \<notin> {kJoycnt, kJoyRecvLow, kJoyRecvHigh, kJoyTransLow, kJoyTransHigh}"
    using r by (auto simp: serial_index_def kSerialRegisterAddresses_def io_address_defs)
  have "io_write_named a v d = None"
    using named by (simp add: io_write_named_def named_writable_def)
  then show "io_write16 d a v = io_write_dma i (of_nat k) v d"
    using al others serial idx by (simp add: io_write16_def ppu_write_lcd_control_def io_write_rest_def)
  show "can_write16_address a"
    using al others serial idx assms(2) named by (auto simp: can_write16_address_def named_writable_def)
qed

lemma io_write32_dma:
  assumes "i < 4" and "k \<in> {0, 4, 8}"
  shows "io_write32 d (0x040000B0 + of_nat (12 * i + k)) v = do {
    (ok, d1) \<leftarrow> io_write_dma i (of_nat k) (low16 v) d;
    (ok', d2) \<leftarrow> io_write_dma i (of_nat (k + 2)) (high16 v) d1;
    Some (ok' \<or> ok, d2)}"
proof -
  define a :: u32 where "a = 0x040000B0 + of_nat (12 * i + k)"
  have k: "k \<in> {0, 2, 4, 6, 8, 10}" "k + 2 \<in> {0, 2, 4, 6, 8, 10}" "k < 12"
    using assms(2) by auto
  have next_half: "a + 2 = 0x040000B0 + of_nat (12 * i + (k + 2))"
    by (simp add: a_def)
  have u: "unat a = 0x040000B0 + 12 * i + k"
    using dma_register_index(2) [OF assms(1) k(3)] by (simp add: a_def)
  have "unat a mod 4 = 0"
    using assms(2) by (auto simp: u)
  then have "is_word_aligned a"
    by (simp add: is_word_aligned_def word_unat_eq_iff word_nat)
  moreover have "a \<notin> {kIme, kWaitcnt, kFifoA, kFifoB}"
    using u assms(1) k(3) by (auto simp: io_address_defs)
  ultimately have "io_write32 d a v = io_write_halves d a v"
    by (simp add: io_write32_def)
  also have "\<dots> = do {(ok, d1) \<leftarrow> io_write_dma i (of_nat k) (low16 v) d;
    (ok', d2) \<leftarrow> io_write_dma i (of_nat (k + 2)) (high16 v) d1; Some (ok' \<or> ok, d2)}"
    unfolding io_write_halves_def next_half
    using io_write16_dma [OF assms(1) k(1)] io_write16_dma [OF assms(1) k(2)] by (simp add: a_def del: of_nat_add of_nat_mult)
  finally show ?thesis
    by (simp add: a_def)
qed

definition with_channel :: "nat \<Rightarrow> (dma_channel \<Rightarrow> dma_channel) \<Rightarrow> devices \<Rightarrow> devices" where
  "with_channel i f d = d\<lparr>dev_dma := dev_dma d\<lparr>dma_channels := (dma_channels (dev_dma d))[i := f (dma_channels (dev_dma d) ! i)]\<rparr>\<rparr>"

lemma with_channel_twice:
  "dma_shape (dev_dma d) \<Longrightarrow> i < 4 \<Longrightarrow> with_channel i g (with_channel i f d) = with_channel i (g \<circ> f) d"
  by (simp add: with_channel_def dma_shape_def)

lemma with_channel_wf:
  assumes "dma_shape (dev_dma d)" and "i < 4" and "\<And>st. dc_control (f st) = dc_control st \<and> dc_current_count (f st) = dc_current_count st"
  shows "dma_shape (dev_dma (with_channel i f d))"
  using dma_shape_channel [OF assms(1,2)] assms dma_shape_put [OF assms(1)] by (simp add: with_channel_def channel_shape_def)

lemma io_write_dma_addresses:
  assumes "dma_shape (dev_dma d)" and "i < 4"
  shows "io_write_dma i 0 v d = Some (True, with_channel i (\<lambda>st. st\<lparr>dc_source := replace_low16 (dc_source st) v\<rparr>) d)"
    "io_write_dma i 2 v d = Some (True, with_channel i (\<lambda>st. st\<lparr>dc_source := replace_high16 (dc_source st) v\<rparr>) d)"
    "io_write_dma i 4 v d = Some (True, with_channel i (\<lambda>st. st\<lparr>dc_destination := replace_low16 (dc_destination st) v\<rparr>) d)"
    "io_write_dma i 6 v d = Some (True, with_channel i (\<lambda>st. st\<lparr>dc_destination := replace_high16 (dc_destination st) v\<rparr>) d)"
    "io_write_dma i 8 v d = Some (True, with_channel i (\<lambda>st. st\<lparr>dc_word_count := v\<rparr>) d)"
  using assms by (simp_all add: io_write_dma_def Let_def write_dma_def dma_source_def dma_destination_def dma_write_source_def
      dma_write_destination_def dma_write_word_count_def with_channel_def)

lemma count_of_word:
  "unat (normalized_word_count i (st\<lparr>dc_word_count := low16 v\<rparr>))
     = (let m = if i = 3 then 65536 else 16384; n = unat v mod m in if n = 0 then m else n)"
proof -
  have "unat (ucast (low16 v) AND 0xFFFF :: u32) = unat v mod 65536"
    by (simp add: low16_def word_nat)
  moreover have "unat (ucast (low16 v) AND 0x3FFF :: u32) = unat v mod 16384"
    by (simp add: low16_def word_nat mod_mod_cancel)
  ultimately show ?thesis
    by (simp add: normalized_word_count_def dma_word_count_mask_def Let_def word_unat_eq_iff)
qed

text \<open>C26. Word writes to the DMA registers, the way programs start a transfer. A word written to the source or destination register of
  a channel sets the whole 32-bit address; a word written at the count register writes the count first and then the control, so that a
  disabled channel it enables starts with the new count (the full capacity for zero) and the addresses it holds.\<close>

theorem dma_word_register_writes:
  assumes wf: "devices_wf d" and i: "i < 4"
  shows "io_write32 d (0x040000B0 + of_nat (12 * i)) v = Some (True, with_channel i (\<lambda>st. st\<lparr>dc_source := v\<rparr>) d)
    \<and> io_write32 d (0x040000B0 + of_nat (12 * i + 4)) v = Some (True, with_channel i (\<lambda>st. st\<lparr>dc_destination := v\<rparr>) d)
    \<and> (\<exists>d'. io_write32 d (0x040000B0 + of_nat (12 * i + 8)) v = Some (True, d')
        \<and> (let st = dma_channels (dev_dma d) ! i; st' = dma_channels (dev_dma d') ! i in
           dc_word_count st' = low16 v \<and> dc_control st' = high16 v AND control_mask_of i
           \<and> (\<not> channel_enabled st \<and> bit v 31 \<longrightarrow>
                dc_current_source st' = dc_source st \<and> dc_current_destination st' = dc_destination st
                \<and> unat (dc_current_count st')
                    = (let m = if i = 3 then 65536 else 16384; n = unat v mod m in if n = 0 then m else n))))"
proof -
  have dw: "dma_shape (dev_dma d)"
    using devices_wfD(3) [OF wf] .
  have halves: "io_write32 d (0x040000B0 + of_nat (12 * i + 0)) v = Some (True, with_channel i (\<lambda>st. st\<lparr>dc_source := v\<rparr>) d)"
    "io_write32 d (0x040000B0 + of_nat (12 * i + 4)) v = Some (True, with_channel i (\<lambda>st. st\<lparr>dc_destination := v\<rparr>) d)"
    using dw i by (subst io_write32_dma [OF i]; simp add: io_write_dma_addresses with_channel_wf with_channel_twice replace_halves
        comp_def del: of_nat_add of_nat_mult)+
  define d1 where "d1 = with_channel i (\<lambda>st. st\<lparr>dc_word_count := low16 v\<rparr>) d"
  have dw1: "dma_shape (dev_dma d1)"
    unfolding d1_def using dw i by (rule with_channel_wf) simp
  have st1: "dma_channels (dev_dma d1) ! i = (dma_channels (dev_dma d) ! i)\<lparr>dc_word_count := low16 v\<rparr>" "i < length (dma_channels (dev_dma d1))"
    using dw i by (simp_all add: d1_def with_channel_def dma_shape_def)
  obtain m where m: "dma_write_control i (high16 v) (dev_dma d1) = Some m"
    "dma_channels m ! i = channel_write_control i (high16 v) ((dma_channels (dev_dma d) ! i)\<lparr>dc_word_count := low16 v\<rparr>)"
    using dma_write_control_in [OF dw1 i, of "high16 v"] st1 by (auto simp: refresh_immediate_pending_def split: if_splits)
  have "io_write_dma i 10 (high16 v) d1 = Some (True, d1\<lparr>dev_dma := m\<rparr>)"
    using m(1) by (simp add: io_write_dma_def write_dma_def)
  then have w: "io_write32 d (0x040000B0 + of_nat (12 * i + 8)) v = Some (True, d1\<lparr>dev_dma := m\<rparr>)"
    using io_write_dma_addresses(5) [OF dw i, of "low16 v"]
    by (subst io_write32_dma [OF i]) (simp_all add: d1_def del: of_nat_add of_nat_mult)
  have kept: "dc_word_count (channel_write_control i c st) = dc_word_count st" "dc_control (channel_write_control i c st) = c AND control_mask_of i" for c st
    by (simp_all add: channel_write_control_def Let_def)
  have top: "bit v 31 \<Longrightarrow> bit (high16 v) 15"
    by (simp add: high16_def bit_simps mask_numeral_eq)
  show ?thesis
    using halves w m(2) kept channel_enable_latches [of "(dma_channels (dev_dma d) ! i)\<lparr>dc_word_count := low16 v\<rparr>" "high16 v" i]
      top count_of_word [where i = i and v = v and st = "dma_channels (dev_dma d) ! i"]
    by (simp add: channel_enabled_def del: of_nat_add of_nat_mult)
qed

theorem dma_word_register_writes_witness:
  "\<exists>d'. io_write32 reset_devices 0x040000DC 0x84000010 = Some (True, d') \<and> dc_current_count (dma_channels (dev_dma d') ! 3) = 16"
proof -
  have "\<not> channel_enabled (dma_channels (dev_dma reset_devices) ! 3)" "bit (0x84000010 :: u32) 31"
    by (simp_all add: reset_devices_def dma_reset_def blank_channel_def channel_enabled_def vec_fill_def kChannelCount_def)
  then show ?thesis
    using dma_word_register_writes [OF devices_wf_reset, of 3 "0x84000010"] by (auto simp: Let_def word_unat_eq_iff)
qed

end
