(* ===== verification/Dma_Transfer.thy ===== *)
theory Dma_Transfer
  imports Io_Facade
begin

text \<open>
  The transfers of the DMA controller, \<open>src/src/core/dma_controller.cpp\<close>, over the memory bus and the devices behind it. A transfer may
  write the registers of the controller that executes it (or WAITCNT, or the sound registers), so the state of the channel, the wait
  states and the interrupt controller are read back from the devices wherever the code reads them. The pointer \<open>waitcnt\<close>, null or
  the wait state control of the same machine, is the flag \<open>use_waitcnt\<close>.
\<close>

type_synonym machine = "memory_bus \<times> devices"

record dma_run_result =
  dr_channels_executed :: u8
  dr_units_transferred :: u32
  dr_unsupported_request :: bool
  dr_bus_cycles :: u32

section \<open>Addresses and bus cycles\<close>

definition step_address :: "u32 \<Rightarrow> dma_address_control \<Rightarrow> u32 \<Rightarrow> u32" where
  "step_address address control unit_size =
     (case control of
        Increment \<Rightarrow> address + unit_size
      | Increment_reload \<Rightarrow> address + unit_size
      | Decrement \<Rightarrow> address - unit_size
      | Fixed \<Rightarrow> address)"

primrec trigger_timing :: "dma_trigger \<Rightarrow> dma_start_timing" where
  "trigger_timing Trigger_immediate = Start_immediate"
| "trigger_timing Trigger_vblank = Start_vblank"
| "trigger_timing Trigger_hblank = Start_hblank"
| "trigger_timing Trigger_special = Start_special"
| "trigger_timing Trigger_fifo_a = Start_special"
| "trigger_timing Trigger_fifo_b = Start_special"

definition trigger_fifo :: "dma_trigger \<Rightarrow> direct_sound_channel" where
  "trigger_fifo trigger = (if trigger = Trigger_fifo_b then Channel_b else Channel_a)"

definition trigger_fifo_address :: "dma_trigger \<Rightarrow> u32" where
  "trigger_fifo_address trigger = (if trigger = Trigger_fifo_b then kFifoBAddress else kFifoAAddress)"

definition dma_source_uses_latch :: "u32 \<Rightarrow> bool" where
  "dma_source_uses_latch address \<longleftrightarrow> ai_region (classify address) = Bios"

definition dma_source_steps_as_game_pak_stream :: "nat \<Rightarrow> u32 \<Rightarrow> bool" where
  "dma_source_steps_as_game_pak_stream channel address \<longleftrightarrow>
     channel \<noteq> 0 \<and> ai_region (classify (address AND 0x0FFFFFFF)) = Game_pak_rom"

definition duplicate_halfword :: "u16 \<Rightarrow> u32" where
  "duplicate_halfword v = ucast v OR push_bit 16 (ucast v)"

definition game_pak_region :: "region \<Rightarrow> bool" where
  "game_pak_region r \<longleftrightarrow> r = Game_pak_rom \<or> r = Game_pak_save"

definition dma_timing :: "u32 \<Rightarrow> access_width \<Rightarrow> wait_state_control option \<Rightarrow> memory_access_timing" where
  "dma_timing address width waitcnt =
     (case waitcnt of Some w \<Rightarrow> mb_timing_waitcnt address width w | None \<Rightarrow> mb_timing address width)"

definition dma_access_phase_cycles :: "memory_access_timing \<Rightarrow> bool \<Rightarrow> bool \<Rightarrow> u32" where
  "dma_access_phase_cycles timing sequential external_waitcnt_access =
     (let cycles = (if sequential then ucast (mt_sequential timing) else ucast (mt_nonsequential timing))
      in if external_waitcnt_access then cycles + 1 else cycles)"

definition dma_access_cycles :: "u32 \<Rightarrow> access_width \<Rightarrow> bool \<Rightarrow> wait_state_control option \<Rightarrow> u32" where
  "dma_access_cycles address width sequential waitcnt =
     (let timing = dma_timing address width waitcnt;
          external_waitcnt_access = (waitcnt \<noteq> None \<and> game_pak_region (ai_region (classify address)))
      in if width = Width_word \<and> external_waitcnt_access
         then dma_access_phase_cycles timing sequential True + dma_access_phase_cycles timing True True
         else dma_access_phase_cycles timing sequential external_waitcnt_access)"

definition dma_transfer_bus_cycles :: "u32 \<Rightarrow> u32 \<Rightarrow> bool \<Rightarrow> bool \<Rightarrow> bool \<Rightarrow> wait_state_control option \<Rightarrow> u32" where
  "dma_transfer_bus_cycles source_address destination_address word_transfer source_sequential destination_sequential waitcnt =
     (let width = (if word_transfer then Width_word else Width_halfword)
      in dma_access_cycles source_address width source_sequential waitcnt
         + dma_access_cycles destination_address width destination_sequential waitcnt)"

definition dma_stream_is_sequential :: "u32 \<Rightarrow> dma_address_control \<Rightarrow> bool" where
  "dma_stream_is_sequential unit control \<longleftrightarrow> unit \<noteq> 0 \<and> (control = Increment \<or> control = Increment_reload)"

text \<open>The adjustment is a signed 32-bit value of small magnitude.\<close>

definition apply_dma_bus_adjustment :: "u32 \<Rightarrow> int \<Rightarrow> u32" where
  "apply_dma_bus_adjustment bus_cycles adjustment =
     (if adjustment \<ge> 0 then bus_cycles + word_of_int adjustment
      else let magnitude = word_of_int (- adjustment) in if bus_cycles > magnitude then bus_cycles - magnitude else 0)"

definition dma_game_pak_arbitration_adjustment :: "u32 \<Rightarrow> u32 \<Rightarrow> wait_state_control option \<Rightarrow> int" where
  "dma_game_pak_arbitration_adjustment source_address destination_address waitcnt =
     (case waitcnt of None \<Rightarrow> 0
      | Some w \<Rightarrow>
        let source_game_pak = game_pak_region (ai_region (classify source_address));
            destination_game_pak = game_pak_region (ai_region (classify destination_address))
        in if \<not> source_game_pak \<and> \<not> destination_game_pak then 0
           else if source_game_pak \<and> destination_game_pak then
             (let timing = mb_timing_waitcnt source_address Width_halfword w;
                  adjustment = - (if mt_nonsequential timing > 2 then uint (mt_nonsequential timing) - 2 else 0)
              in if \<not> wsc_prefetch_enabled w \<and> mt_sequential timing \<le> 1 then adjustment - 1 else adjustment)
           else if source_game_pak then
             (let timing = mb_timing_waitcnt source_address Width_halfword w
              in if wsc_prefetch_enabled w \<and> mt_sequential timing \<le> 1 then 1 else 0)
           else
             (let timing = mb_timing_waitcnt destination_address Width_halfword w
              in if wsc_prefetch_enabled w \<and> mt_sequential timing > 1 then 1 else 0))"

definition effective_source_address :: "nat \<Rightarrow> u32 \<Rightarrow> u32" where
  "effective_source_address channel address = address AND (if channel = 0 then 0x07FFFFFF else 0x0FFFFFFF)"

definition effective_destination_address :: "nat \<Rightarrow> u32 \<Rightarrow> u32" where
  "effective_destination_address channel address = address AND (if channel = 3 then 0x0FFFFFFF else 0x07FFFFFF)"

section \<open>One channel\<close>

definition machine_waitcnt :: "bool \<Rightarrow> machine \<Rightarrow> wait_state_control option" where
  "machine_waitcnt use_waitcnt m = (if use_waitcnt then Some (dev_waitcnt (snd m)) else None)"

definition machine_channel :: "nat \<Rightarrow> machine \<Rightarrow> dma_channel throws" where
  "machine_channel channel m = checked_channel channel (dev_dma (snd m))"

definition machine_put_channel :: "nat \<Rightarrow> dma_channel \<Rightarrow> machine \<Rightarrow> machine throws" where
  "machine_put_channel channel st m =
     map_option (\<lambda>dma. (fst m, snd m\<lparr>dev_dma := dma\<rparr>)) (put_channel channel st (dev_dma (snd m)))"

text \<open>The data phase of one unit: read or reuse the latch, drive the open bus, write. The outcome of the write is ignored.\<close>

definition transfer_word :: "nat \<Rightarrow> bool \<Rightarrow> u32 \<Rightarrow> u32 \<Rightarrow> machine \<Rightarrow> machine throws" where
  "transfer_word channel drive aligned_source aligned_destination m = do {
     st \<leftarrow> machine_channel channel m;
     read_value \<leftarrow> (if dma_source_uses_latch aligned_source then Some None
                   else mb_read32 device_callbacks (snd m) (fst m) aligned_source);
     let v = (case read_value of Some w \<Rightarrow> w | None \<Rightarrow> dc_data_latch st);
     (b, d) \<leftarrow> machine_put_channel channel (st\<lparr>dc_data_latch := v\<rparr>) m;
     (written, m') \<leftarrow> mb_write32 device_callbacks aligned_destination v (if drive then drive_open_bus v b else b, d);
     Some m'}"

definition transfer_halfword :: "nat \<Rightarrow> bool \<Rightarrow> u32 \<Rightarrow> u32 \<Rightarrow> machine \<Rightarrow> machine throws" where
  "transfer_halfword channel drive aligned_source aligned_destination m = do {
     st \<leftarrow> machine_channel channel m;
     read_value \<leftarrow> (if dma_source_uses_latch aligned_source then Some None
                   else mb_read16 device_callbacks (snd m) (fst m) aligned_source);
     let v = (case read_value of Some w \<Rightarrow> w | None \<Rightarrow> ucast (dc_data_latch st AND 0xFFFF));
     (b, d) \<leftarrow> (case read_value of
                  Some _ \<Rightarrow> machine_put_channel channel (st\<lparr>dc_data_latch := duplicate_halfword v\<rparr>) m
                | None \<Rightarrow> Some m);
     (written, m') \<leftarrow> mb_write16 device_callbacks aligned_destination v
        (if drive then drive_open_bus (duplicate_halfword v) b else b, d);
     Some m'}"

text \<open>The working variables of the unit loop.\<close>

record dma_cursor =
  cu_unit :: u32
  cu_source :: u32
  cu_destination :: u32
  cu_bus_cycles :: u32

definition dma_unit :: "bool \<Rightarrow> nat \<Rightarrow> bool \<Rightarrow> bool \<Rightarrow> dma_cursor \<Rightarrow> machine \<Rightarrow> (dma_cursor \<times> machine) throws" where
  "dma_unit use_waitcnt channel word_transfer drive c m = do {
     st \<leftarrow> machine_channel channel m;
     let unit_size = (if word_transfer then 4 else 2);
     let aligned_source = effective_source_address channel (cu_source c) AND NOT (unit_size - 1);
     let aligned_destination = effective_destination_address channel (cu_destination c) AND NOT (unit_size - 1);
     let source_step_control = (if dma_source_steps_as_game_pak_stream channel (cu_source c) then Increment
                                else channel_source_control st);
     let bus_cycles = cu_bus_cycles c
           + dma_transfer_bus_cycles aligned_source aligned_destination word_transfer
               (dma_stream_is_sequential (cu_unit c) source_step_control)
               (dma_stream_is_sequential (cu_unit c) (channel_destination_control st)) (machine_waitcnt use_waitcnt m);
     m' \<leftarrow> (if word_transfer then transfer_word channel drive aligned_source aligned_destination m
            else transfer_halfword channel drive aligned_source aligned_destination m);
     st' \<leftarrow> machine_channel channel m';
     Some (\<lparr>cu_unit = cu_unit c + 1, cu_source = step_address (cu_source c) source_step_control unit_size,
        cu_destination = step_address (cu_destination c) (channel_destination_control st') unit_size,
        cu_bus_cycles = bus_cycles\<rparr>, m')}"

lemma dma_unit_counts: "dma_unit w channel word drive c m = Some (c', m') \<Longrightarrow> cu_unit c' = cu_unit c + 1"
  by (auto simp: dma_unit_def Let_def bind_eq_Some_conv)

function dma_units :: "bool \<Rightarrow> nat \<Rightarrow> bool \<Rightarrow> bool \<Rightarrow> dma_cursor \<Rightarrow> machine \<Rightarrow> (dma_cursor \<times> machine) throws" where
  "dma_units use_waitcnt channel word_transfer drive c m = do {
     st \<leftarrow> machine_channel channel m;
     if cu_unit c < dc_current_count st
     then do {
       (c', m') \<leftarrow> dma_unit use_waitcnt channel word_transfer drive c m;
       dma_units use_waitcnt channel word_transfer drive c' m'}
     else Some (c, m)}"
  by pat_completeness auto
termination
proof (relation "measure (\<lambda>(use_waitcnt, channel, word_transfer, drive, c, m). 2 ^ 32 - unat (cu_unit c))", goal_cases)
  case (2 use_waitcnt channel word_transfer drive c m st p c' m')
  then have c': "cu_unit c' = cu_unit c + 1"
    by (auto dest: dma_unit_counts)
  have "unat (cu_unit c) < unat (dc_current_count st)"
    using 2 by (simp add: word_less_nat_alt)
  then have "unat (cu_unit c) + 1 < 4294967296"
    using unat_u32_less [of "dc_current_count st"] by linarith
  then have "unat (cu_unit c + 1) = unat (cu_unit c) + 1"
    by (simp add: unat_word_ariths)
  then show ?case
    using unat_u32_less [of "cu_unit c + 1"] by (simp add: c')
qed simp

declare dma_units.simps [simp del]

text \<open>The registers after the last unit, and the completion interrupt.\<close>

definition finish_channel :: "nat \<Rightarrow> dma_cursor \<Rightarrow> dma_channel \<Rightarrow> dma_channel" where
  "finish_channel channel c st =
     (let st1 = st\<lparr>dc_current_source := cu_source c, dc_current_destination := cu_destination c, dc_current_count := 0\<rparr>
      in if channel_repeat st1 \<and> channel_start_timing st1 \<noteq> Start_immediate then
           (let st2 = st1\<lparr>dc_current_count := normalized_word_count channel st1\<rparr>
            in if channel_destination_control st2 = Increment_reload
               then st2\<lparr>dc_current_destination := dc_destination st2\<rparr> else st2)
         else st1\<lparr>dc_control := dc_control st1 AND NOT kDmaEnableFlag\<rparr>)"

definition raise_dma_irq :: "nat \<Rightarrow> dma_channel \<Rightarrow> devices \<Rightarrow> devices" where
  "raise_dma_irq channel st d =
     (if channel_irq_on_completion st
      then d\<lparr>dev_interrupts := ic_request (dma_interrupt_source channel) (dev_interrupts d)\<rparr> else d)"

text \<open>Success, units transferred so far, bus cycles so far, and the machine.\<close>

type_synonym channel_outcome = "(bool \<times> u32 \<times> u32 \<times> machine) throws"

definition execute_channel :: "nat \<Rightarrow> bool \<Rightarrow> bool \<Rightarrow> u32 \<Rightarrow> u32 \<Rightarrow> machine \<Rightarrow> channel_outcome" where
  "execute_channel channel use_waitcnt drive units bus_cycles m = do {
     st \<leftarrow> machine_channel channel m;
     if channel_source_control st = Increment_reload then Some (False, units, bus_cycles, m)
     else do {
       let word_transfer = channel_transfer_32bit st;
       let unit_size = (if word_transfer then 4 else 2);
       let initial_source = effective_source_address channel (dc_current_source st) AND NOT (unit_size - 1);
       let initial_destination = effective_destination_address channel (dc_current_destination st) AND NOT (unit_size - 1);
       (c, m1) \<leftarrow> dma_units use_waitcnt channel word_transfer drive
          \<lparr>cu_unit = 0, cu_source = dc_current_source st, cu_destination = dc_current_destination st, cu_bus_cycles = bus_cycles + 2\<rparr> m;
       st1 \<leftarrow> machine_channel channel m1;
       let bus_cycles1 = apply_dma_bus_adjustment (cu_bus_cycles c)
          (dma_game_pak_arbitration_adjustment initial_source initial_destination (machine_waitcnt use_waitcnt m1));
       (b2, d2) \<leftarrow> machine_put_channel channel (finish_channel channel c st1) m1;
       Some (True, units + dc_current_count st1, bus_cycles1, (b2, raise_dma_irq channel st1 d2))}}"

section \<open>Triggers\<close>

definition no_dma_run :: dma_run_result where
  "no_dma_run = \<lparr>dr_channels_executed = 0, dr_units_transferred = 0, dr_unsupported_request = False, dr_bus_cycles = 0\<rparr>"

definition set_pending :: "bool \<Rightarrow> machine \<Rightarrow> machine" where
  "set_pending p m = (fst m, snd m\<lparr>dev_dma := dev_dma (snd m)\<lparr>dma_immediate_pending := p\<rparr>\<rparr>)"

text \<open>The loop over the channels; the flag \<open>still\<close> is \<open>immediate_still_pending\<close>, and the empty list is the code after the loop.\<close>

fun run_trigger_loop :: "dma_trigger \<Rightarrow> bool \<Rightarrow> nat list \<Rightarrow> bool \<Rightarrow> dma_run_result \<Rightarrow> machine \<Rightarrow> (dma_run_result \<times> machine) throws" where
  "run_trigger_loop trigger use_waitcnt [] still r m =
     Some (r, if trigger = Trigger_immediate then set_pending still m else m)"
| "run_trigger_loop trigger use_waitcnt (channel # rest) still r m = do {
     st \<leftarrow> machine_channel channel m;
     if \<not> channel_enabled st \<or> channel_start_timing st \<noteq> trigger_timing trigger
     then run_trigger_loop trigger use_waitcnt rest still r m
     else do {
       (ok, units, cycles, m') \<leftarrow> execute_channel channel use_waitcnt (trigger \<noteq> Trigger_immediate) (dr_units_transferred r)
          (dr_bus_cycles r) m;
       let r' = r\<lparr>dr_units_transferred := units, dr_bus_cycles := cycles\<rparr>;
       if \<not> ok then Some (r'\<lparr>dr_unsupported_request := True\<rparr>, if trigger = Trigger_immediate then set_pending True m' else m')
       else do {
         st' \<leftarrow> machine_channel channel m';
         run_trigger_loop trigger use_waitcnt rest (still \<or> (trigger = Trigger_immediate \<and> channel_immediate st'))
           (r'\<lparr>dr_channels_executed := dr_channels_executed r' + 1\<rparr>) m'}}}"

definition run_trigger :: "dma_trigger \<Rightarrow> bool \<Rightarrow> machine \<Rightarrow> (dma_run_result \<times> machine) throws" where
  "run_trigger trigger use_waitcnt m =
     (if trigger = Trigger_fifo_a \<or> trigger = Trigger_fifo_b then Some (no_dma_run\<lparr>dr_unsupported_request := True\<rparr>, m)
      else run_trigger_loop trigger use_waitcnt [0..<kChannelCount] False no_dma_run m)"

definition run_immediate :: "bool \<Rightarrow> machine \<Rightarrow> (dma_run_result \<times> machine) throws" where
  "run_immediate use_waitcnt m = run_trigger Trigger_immediate use_waitcnt m"

section \<open>Sound FIFO bursts\<close>

text \<open>The burst loop with the number of words left: the address it reached, the bus cycles, and whether every read succeeded.\<close>

primrec sound_fifo_burst ::
  "nat \<Rightarrow> bool \<Rightarrow> nat \<Rightarrow> direct_sound_channel \<Rightarrow> u32 \<Rightarrow> u32 \<Rightarrow> u32 \<Rightarrow> machine \<Rightarrow> (bool \<times> u32 \<times> u32 \<times> machine) throws" where
  "sound_fifo_burst 0 use_waitcnt channel fifo unit source bus_cycles m = Some (True, source, bus_cycles, m)"
| "sound_fifo_burst (Suc n) use_waitcnt channel fifo unit source bus_cycles m = do {
     st \<leftarrow> machine_channel channel m;
     let aligned_source = effective_source_address channel source AND NOT 3;
     let bus_cycles' = bus_cycles + dma_transfer_bus_cycles aligned_source (dc_destination st) True
           (dma_stream_is_sequential unit (channel_source_control st)) False (machine_waitcnt use_waitcnt m);
     read_value \<leftarrow> mb_read32 device_callbacks (snd m) (fst m) aligned_source;
     (case read_value of
        None \<Rightarrow> Some (False, source, bus_cycles', m)
      | Some v \<Rightarrow> do {
          (b, d) \<leftarrow> machine_put_channel channel (st\<lparr>dc_data_latch := v\<rparr>) m;
          apu \<leftarrow> write_fifo fifo v (dev_apu d);
          sound_fifo_burst n use_waitcnt channel fifo (unit + 1)
            (step_address source (channel_source_control st) 4) bus_cycles' (b, d\<lparr>dev_apu := apu\<rparr>)})}"

definition finish_sound_fifo :: "nat \<Rightarrow> u32 \<Rightarrow> dma_channel \<Rightarrow> dma_channel" where
  "finish_sound_fifo channel source st =
     (let st1 = st\<lparr>dc_current_source := source, dc_current_destination := dc_destination st\<rparr>
      in if channel_repeat st1 then st1\<lparr>dc_current_count := normalized_word_count channel st1\<rparr>
         else st1\<lparr>dc_current_count := 0, dc_control := dc_control st1 AND NOT kDmaEnableFlag\<rparr>)"

definition execute_sound_fifo_channel ::
  "nat \<Rightarrow> direct_sound_channel \<Rightarrow> bool \<Rightarrow> u32 \<Rightarrow> u32 \<Rightarrow> machine \<Rightarrow> channel_outcome" where
  "execute_sound_fifo_channel channel fifo use_waitcnt units bus_cycles m = do {
     st \<leftarrow> machine_channel channel m;
     if channel_source_control st = Increment_reload then Some (False, units, bus_cycles, m)
     else do {
       (ok, source, bus_cycles', m1) \<leftarrow> sound_fifo_burst (unat kSoundFifoWordsPerRequest) use_waitcnt channel fifo 0
          (dc_current_source st) bus_cycles m;
       if \<not> ok then Some (False, units, bus_cycles', m1)
       else do {
         st1 \<leftarrow> machine_channel channel m1;
         (b2, d2) \<leftarrow> machine_put_channel channel (finish_sound_fifo channel source st1) m1;
         Some (True, units + kSoundFifoWordsPerRequest, bus_cycles', (b2, raise_dma_irq channel st1 d2))}}}"

fun run_sound_fifo_loop :: "dma_trigger \<Rightarrow> bool \<Rightarrow> nat list \<Rightarrow> dma_run_result \<Rightarrow> machine \<Rightarrow> (dma_run_result \<times> machine) throws" where
  "run_sound_fifo_loop trigger use_waitcnt [] r m = Some (r, m)"
| "run_sound_fifo_loop trigger use_waitcnt (channel # rest) r m = do {
     st \<leftarrow> machine_channel channel m;
     if \<not> channel_enabled st \<or> channel_start_timing st \<noteq> Start_special \<or> dc_destination st \<noteq> trigger_fifo_address trigger
     then run_sound_fifo_loop trigger use_waitcnt rest r m
     else do {
       (ok, units, cycles, m') \<leftarrow> execute_sound_fifo_channel channel (trigger_fifo trigger) use_waitcnt (dr_units_transferred r)
          (dr_bus_cycles r) m;
       let r' = r\<lparr>dr_units_transferred := units, dr_bus_cycles := cycles\<rparr>;
       if \<not> ok then Some (r'\<lparr>dr_unsupported_request := True\<rparr>, m')
       else run_sound_fifo_loop trigger use_waitcnt rest (r'\<lparr>dr_channels_executed := dr_channels_executed r' + 1\<rparr>) m'}}"

definition run_sound_fifo :: "dma_trigger \<Rightarrow> bool \<Rightarrow> machine \<Rightarrow> (dma_run_result \<times> machine) throws" where
  "run_sound_fifo trigger use_waitcnt m =
     (if trigger \<noteq> Trigger_fifo_a \<and> trigger \<noteq> Trigger_fifo_b then Some (no_dma_run\<lparr>dr_unsupported_request := True\<rparr>, m)
      else run_sound_fifo_loop trigger use_waitcnt [1, 2] no_dma_run m)"

end
