(* ===== verification/Dma_Correct.thy ===== *)
theory Dma_Correct
  imports Dma_Transfer
begin

text \<open>
  Correctness of the DMA transfers: every trigger terminates without an exception and keeps the machine well formed, whatever registers
  the transfer overwrites; a transfer between disjoint RAM ranges copies them; the sound burst feeds its FIFO; and one state of the
  registers that a transfer can reach but a save state cannot restore.
\<close>

section \<open>Safety\<close>

definition machine_wf :: "machine \<Rightarrow> bool" where
  "machine_wf m \<longleftrightarrow> mb_wf (fst m) \<and> devices_wf (snd m)"

lemma machine_channel_in:
  assumes "machine_wf m" and "i < 4"
  shows "machine_channel i m = Some (dma_channels (dev_dma (snd m)) ! i)" "channel_shape i (dma_channels (dev_dma (snd m)) ! i)"
  using assms devices_wfD(3) [of "snd m"] dma_shape_channel [of "dev_dma (snd m)" i]
  by (simp_all add: machine_channel_def machine_wf_def)

lemma machine_put_channel_in:
  assumes "machine_wf m" and "i < 4"
  shows "machine_put_channel i st m = Some (fst m, with_channel i (\<lambda>_. st) (snd m))"
    "channel_shape i st \<Longrightarrow> machine_wf (fst m, with_channel i (\<lambda>_. st) (snd m))"
proof -
  have w: "dma_shape (dev_dma (snd m))" "devices_wf (snd m)"
    using assms devices_wfD(3) by (auto simp: machine_wf_def)
  then show "machine_put_channel i st m = Some (fst m, with_channel i (\<lambda>_. st) (snd m))"
    using assms by (simp add: machine_put_channel_def with_channel_def)
  show "machine_wf (fst m, with_channel i (\<lambda>_. st) (snd m))" if "channel_shape i st"
    using assms(1) dma_shape_put [OF w(1) that] devices_wf_put(3) [OF w(2)] by (simp add: machine_wf_def with_channel_def)
qed

lemma machine_wf_parts [simp]:
  "machine_wf (drive_open_bus v b, d) = machine_wf (b, d)" "machine_wf (set_pending p m) = machine_wf m"
proof -
  have "mb_wf (drive_open_bus v b) = mb_wf b"
    by (simp add: mb_wf_def drive_open_bus_def save_wf_def rom_bytes_def)
  then show "machine_wf (drive_open_bus v b, d) = machine_wf (b, d)"
    by (simp add: machine_wf_def)
  show "machine_wf (set_pending p m) = machine_wf m"
    by (simp add: machine_wf_def set_pending_def devices_wf_def)
qed

lemma machine_store:
  assumes "machine_wf (b, d)"
  shows "\<exists>ok m'. mb_write32 device_callbacks a v (b, d) = Some (ok, m') \<and> machine_wf m'"
    "\<exists>ok m'. mb_write16 device_callbacks a h (b, d) = Some (ok, m') \<and> machine_wf m'"
  using registers.access_safe [of b d a 0 h v] assms by (auto simp: machine_wf_def)

lemma machine_load:
  assumes "machine_wf m"
  shows "mb_read32 device_callbacks (snd m) (fst m) a \<noteq> None" "mb_read16 device_callbacks (snd m) (fst m) a \<noteq> None"
  using registers.access_safe [of "fst m" "snd m" a 0 0 0] assms by (auto simp: machine_wf_def)

lemma machine_store_bind:
  assumes "machine_wf (b, d)"
  shows "\<exists>m'. mb_write32 device_callbacks a v (b, d) \<bind> (\<lambda>(written, m). Some m) = Some m' \<and> machine_wf m'"
    "\<exists>m'. mb_write16 device_callbacks a h (b, d) \<bind> (\<lambda>(written, m). Some m) = Some m' \<and> machine_wf m'"
  using machine_store(1) [OF assms, of a v] machine_store(2) [OF assms, of a h] by auto

lemma transfer_safe:
  assumes wf: "machine_wf m" and i: "i < 4"
  shows "\<exists>m'. transfer_word i drive s t m = Some m' \<and> machine_wf m'" "\<exists>m'. transfer_halfword i drive s t m = Some m' \<and> machine_wf m'"
proof -
  note ch = machine_channel_in [OF wf i]
  have latch: "machine_wf (fst m, with_channel i (\<lambda>_. (dma_channels (dev_dma (snd m)) ! i)\<lparr>dc_data_latch := v\<rparr>) (snd m))" for v
    using ch(2) by (intro machine_put_channel_in(2) [OF wf i]) (simp add: channel_shape_def)
  then have driven: "machine_wf (if drive then drive_open_bus w (fst m) else fst m,
      with_channel i (\<lambda>_. (dma_channels (dev_dma (snd m)) ! i)\<lparr>dc_data_latch := v\<rparr>) (snd m))" for v w
    by simp
  have plain: "machine_wf (if drive then drive_open_bus w (fst m) else fst m, snd m)" for w
    using wf by simp
  obtain r where r: "(if dma_source_uses_latch s then Some None else mb_read32 device_callbacks (snd m) (fst m) s) = Some r"
    using machine_load(1) [OF wf, of s] by (cases "dma_source_uses_latch s") auto
  show "\<exists>m'. transfer_word i drive s t m = Some m' \<and> machine_wf m'"
    unfolding transfer_word_def ch(1) bind.bind_lunit r Let_def machine_put_channel_in(1) [OF wf i] prod.case
    by (rule machine_store_bind(1) [OF driven])
  obtain h where h: "(if dma_source_uses_latch s then Some None else mb_read16 device_callbacks (snd m) (fst m) s) = Some h"
    using machine_load(2) [OF wf, of s] by (cases "dma_source_uses_latch s") auto
  show "\<exists>m'. transfer_halfword i drive s t m = Some m' \<and> machine_wf m'"
    unfolding transfer_halfword_def ch(1) bind.bind_lunit h Let_def machine_put_channel_in(1) [OF wf i]
    using machine_store_bind(2) [OF driven] machine_store_bind(2) [OF plain] by (cases h; cases drive) (simp_all add: split_beta)
qed

lemma dma_unit_safe:
  assumes wf: "machine_wf m" and i: "i < 4"
  shows "\<exists>c' m'. dma_unit w i word drive c m = Some (c', m') \<and> machine_wf m'"
proof -
  let ?st = "dma_channels (dev_dma (snd m)) ! i" and ?n = "if word then 4 else 2 :: u32"
  let ?s = "effective_source_address i (cu_source c) AND NOT (?n - 1)"
    and ?t = "effective_destination_address i (cu_destination c) AND NOT (?n - 1)"
  obtain m' where "(if word then transfer_word i drive ?s ?t m else transfer_halfword i drive ?s ?t m) = Some m'" "machine_wf m'"
    using transfer_safe [OF wf i, of drive ?s ?t] by (cases word) auto
  then show ?thesis
    using machine_channel_in(1) [OF wf i] machine_channel_in(1) [OF _ i, of m']
    by (simp only: dma_unit_def Let_def bind.bind_lunit) blast
qed

lemma dma_units_safe:
  "machine_wf m \<Longrightarrow> i < 4 \<Longrightarrow> \<exists>c' m'. dma_units w i word drive c m = Some (c', m') \<and> machine_wf m'"
proof (induction w i word drive c m rule: dma_units.induct)
  case (1 w i word drive c m)
  let ?st = "dma_channels (dev_dma (snd m)) ! i"
  note ch = machine_channel_in(1) [OF 1(2,3)]
  obtain c' m' where step: "dma_unit w i word drive c m = Some (c', m')" "machine_wf m'"
    using dma_unit_safe [OF 1(2,3)] by blast
  show ?case
  proof (cases "cu_unit c < dc_current_count ?st")
    case True
    then show ?thesis
      using 1(1) [OF ch True step(1) refl step(2) 1(3)] ch step by (simp add: dma_units.simps [of w i word drive c m])
  next
    case False
    then show ?thesis
      using ch 1(2) by (simp add: dma_units.simps [of w i word drive c m])
  qed
qed

lemma finish_channel_shape:
  assumes "channel_shape i st"
  shows "channel_shape i (finish_channel i c st)" "channel_shape i (finish_sound_fifo i s st)"
proof -
  have "(dc_control st AND NOT kDmaEnableFlag) AND NOT (control_mask_of i) = 0"
    using assms by (simp add: channel_shape_def and.assoc and.commute [of "NOT kDmaEnableFlag"]) (simp flip: and.assoc)
  then show "channel_shape i (finish_channel i c st)" "channel_shape i (finish_sound_fifo i s st)"
    using assms normalized_word_count_range [of i]
    by (auto simp: finish_channel_def finish_sound_fifo_def channel_shape_def Let_def)
qed

lemma raise_dma_irq_wf: "devices_wf d \<Longrightarrow> devices_wf (raise_dma_irq i st d)"
  by (auto simp: raise_dma_irq_def devices_wfD intro!: wf_intros)

lemma finish_safe:
  assumes wf: "machine_wf m" and i: "i < 4" and "channel_shape i st'"
  shows "\<exists>b d. machine_put_channel i st' m = Some (b, d) \<and> machine_wf (b, raise_dma_irq i st d)"
  using machine_put_channel_in [OF wf i, of st'] assms(3) raise_dma_irq_wf by (simp add: machine_wf_def)

lemma execute_channel_safe:
  assumes wf: "machine_wf m" and i: "i < 4"
  shows "\<exists>ok u c m'. execute_channel i w drive units cycles m = Some (ok, u, c, m') \<and> machine_wf m'"
proof -
  let ?st = "dma_channels (dev_dma (snd m)) ! i"
  note ch = machine_channel_in(1) [OF wf i]
  obtain c m1 where loop: "dma_units w i (channel_transfer_32bit ?st) drive \<lparr>cu_unit = 0, cu_source = dc_current_source ?st,
      cu_destination = dc_current_destination ?st, cu_bus_cycles = cycles + 2\<rparr> m = Some (c, m1)" "machine_wf m1"
    using dma_units_safe [OF wf i] by blast
  note ch1 = machine_channel_in [OF loop(2) i]
  obtain b2 d2 where "machine_put_channel i (finish_channel i c (dma_channels (dev_dma (snd m1)) ! i)) m1 = Some (b2, d2)"
    "machine_wf (b2, raise_dma_irq i (dma_channels (dev_dma (snd m1)) ! i) d2)"
    using finish_safe [OF loop(2) i finish_channel_shape(1) [OF ch1(2)]] by blast
  then show ?thesis
    using ch wf loop ch1 by (auto simp: execute_channel_def Let_def simp del: split_paired_Ex)
qed

lemma run_trigger_loop_safe:
  "machine_wf m \<Longrightarrow> set channels \<subseteq> {..<4} \<Longrightarrow> \<exists>r' m'. run_trigger_loop t w channels still r m = Some (r', m') \<and> machine_wf m'"
proof (induction channels arbitrary: still r m)
  case (Cons i rest)
  then have i: "i < 4" and rest: "set rest \<subseteq> {..<4}"
    by simp_all
  obtain ok u c m' where ex: "execute_channel i w (t \<noteq> Trigger_immediate) (dr_units_transferred r) (dr_bus_cycles r) m = Some (ok, u, c, m')"
    "machine_wf m'"
    using execute_channel_safe [OF Cons.prems(1) i] by blast
  show ?case
    using Cons.IH [OF Cons.prems(1) rest] Cons.IH [OF ex(2) rest] ex machine_channel_in(1) [OF Cons.prems(1) i]
      machine_channel_in(1) [OF ex(2) i] by (auto simp: Let_def simp del: split_paired_Ex)
qed (simp del: split_paired_Ex)

lemma sound_fifo_burst_safe:
  "machine_wf m \<Longrightarrow> i < 4 \<Longrightarrow> \<exists>ok s' c' m'. sound_fifo_burst n w i fifo unit s c m = Some (ok, s', c', m') \<and> machine_wf m'"
proof (induction n arbitrary: unit s c m)
  case (Suc n)
  let ?st = "dma_channels (dev_dma (snd m)) ! i" and ?a = "effective_source_address i s AND NOT 3"
  note ch = machine_channel_in [OF Suc.prems]
  obtain r where r: "mb_read32 device_callbacks (snd m) (fst m) ?a = Some r"
    using machine_load(1) [OF Suc.prems(1), of ?a] by auto
  show ?case
  proof (cases r)
    case None
    then show ?thesis
      using ch r Suc.prems(1) by (auto simp: Let_def simp del: split_paired_Ex)
  next
    case (Some v)
    let ?d = "with_channel i (\<lambda>_. ?st\<lparr>dc_data_latch := v\<rparr>) (snd m)"
    have put: "machine_put_channel i (?st\<lparr>dc_data_latch := v\<rparr>) m = Some (fst m, ?d)" "machine_wf (fst m, ?d)"
      using machine_put_channel_in [OF Suc.prems, of "?st\<lparr>dc_data_latch := v\<rparr>"] ch(2) by (simp_all add: channel_shape_def)
    then have d: "devices_wf ?d"
      by (simp add: machine_wf_def)
    obtain a' where a': "write_fifo fifo v (dev_apu ?d) = Some a'" "apu_wf a'"
      using write_fifo_queue [OF devices_wfD(5) [OF d], of fifo v] by blast
    have "machine_wf (fst m, ?d\<lparr>dev_apu := a'\<rparr>)"
      using put(2) devices_wf_put(5) [OF d a'(2)] by (simp add: machine_wf_def)
    from Suc.IH [OF this Suc.prems(2)] show ?thesis
      using ch r Some put(1) a'(1) by (simp add: Let_def del: split_paired_Ex)
  qed
qed auto

lemma execute_sound_fifo_safe:
  assumes wf: "machine_wf m" and i: "i < 4"
  shows "\<exists>ok u c m'. execute_sound_fifo_channel i fifo w units cycles m = Some (ok, u, c, m') \<and> machine_wf m'"
proof -
  let ?st = "dma_channels (dev_dma (snd m)) ! i"
  obtain ok s c m1 where loop: "sound_fifo_burst (unat kSoundFifoWordsPerRequest) w i fifo 0 (dc_current_source ?st) cycles m
      = Some (ok, s, c, m1)" "machine_wf m1"
    using sound_fifo_burst_safe [OF wf i] by blast
  note ch1 = machine_channel_in [OF loop(2) i]
  obtain b2 d2 where "machine_put_channel i (finish_sound_fifo i s (dma_channels (dev_dma (snd m1)) ! i)) m1 = Some (b2, d2)"
    "machine_wf (b2, raise_dma_irq i (dma_channels (dev_dma (snd m1)) ! i) d2)"
    using finish_safe [OF loop(2) i finish_channel_shape(2) [OF ch1(2)]] by blast
  then show ?thesis
    using machine_channel_in(1) [OF wf i] wf loop ch1
    by (auto simp: execute_sound_fifo_channel_def Let_def simp del: split_paired_Ex)
qed

lemma run_sound_fifo_loop_safe:
  "machine_wf m \<Longrightarrow> set channels \<subseteq> {..<4} \<Longrightarrow> \<exists>r' m'. run_sound_fifo_loop t w channels r m = Some (r', m') \<and> machine_wf m'"
proof (induction channels arbitrary: r m)
  case (Cons i rest)
  then have i: "i < 4" and rest: "set rest \<subseteq> {..<4}"
    by simp_all
  obtain ok u c m' where ex: "execute_sound_fifo_channel i (trigger_fifo t) w (dr_units_transferred r) (dr_bus_cycles r) m = Some (ok, u, c, m')"
    "machine_wf m'"
    using execute_sound_fifo_safe [OF Cons.prems(1) i] by blast
  show ?case
    using Cons.IH [OF Cons.prems(1) rest] Cons.IH [OF ex(2) rest] ex machine_channel_in(1) [OF Cons.prems(1) i]
    by (auto simp: Let_def simp del: split_paired_Ex)
qed (simp del: split_paired_Ex)

text \<open>C17. Every DMA trigger terminates and is safe: on a well-formed machine, whatever the channels are programmed to do (including
  overwriting their own registers), running a trigger or a sound request returns without an exception and leaves the bus and all devices
  well formed.\<close>

theorem dma_run_safe:
  assumes "machine_wf m"
  shows "(\<exists>r m'. run_trigger trigger use_waitcnt m = Some (r, m') \<and> machine_wf m')
    \<and> (\<exists>r m'. run_sound_fifo trigger use_waitcnt m = Some (r, m') \<and> machine_wf m')"
proof -
  have "set [0..<kChannelCount] \<subseteq> {..<4}" "set [1, 2] \<subseteq> {..<4 :: nat}"
    by (auto simp: kChannelCount_def)
  then show ?thesis
    using run_trigger_loop_safe [OF assms, of "[0..<kChannelCount]" trigger use_waitcnt False no_dma_run]
      run_sound_fifo_loop_safe [OF assms, of "[1, 2]" trigger use_waitcnt no_dma_run] assms
    by (simp add: run_trigger_def run_sound_fifo_def del: split_paired_Ex)
qed

lemma reset_machine_wf: "machine_wf (new_memory_bus, reset_devices)"
  by (simp add: machine_wf_def new_memory_bus_wf devices_wf_reset)

theorem dma_run_safe_witness: "\<exists>r m'. run_trigger Trigger_vblank True (new_memory_bus, reset_devices) = Some (r, m') \<and> machine_wf m'"
  using dma_run_safe [OF reset_machine_wf, of Trigger_vblank True] by blast

section \<open>Copying between RAM ranges\<close>

lemma lane8_join:
  "lane8 0 (join32 b0 b1 b2 b3) = b0" "lane8 1 (join32 b0 b1 b2 b3) = b1" "lane8 2 (join32 b0 b1 b2 b3) = b2"
  "lane8 3 (join32 b0 b1 b2 b3) = b3" "lane8 0 (join16 b0 b1) = b0" "lane8 1 (join16 b0 b1) = b1"
  by (rule bit_word_eqI; auto simp: lane8_drop join32_def join16_def bit_simps dest: bit_imp_le_length)+

lemma put_bytes_append:
  assumes "i + length us + length vs \<le> length xs"
  shows "put_bytes (i + length us) vs (put_bytes i us xs) = put_bytes i (us @ vs) xs"
  using assms by (intro nth_equalityI) (auto simp: nth_put_bytes nth_append)

text \<open>The units of size \<open>z\<close> of a transfer stream lie side by side at an offset of one RAM region.\<close>

definition ram_stream :: "region \<Rightarrow> nat \<Rightarrow> nat \<Rightarrow> nat \<Rightarrow> u32 \<Rightarrow> memory_bus \<Rightarrow> bool" where
  "ram_stream r off z n a b \<longleftrightarrow> ram_region r \<and> z dvd unat a \<and> unat a + z * n \<le> 0x08000000 \<and> off + z * n \<le> length (ram r b)
     \<and> (\<forall>k < n. ai_region (classify (a + of_nat (z * k))) = r \<and> unat (ai_offset (classify (a + of_nat (z * k)))) = off + z * k)"

text \<open>What a transfer of \<open>k\<close> units leaves: the bytes are in place, the other regions and the devices are as before, except for the latch.\<close>

definition copied :: "nat \<Rightarrow> region \<Rightarrow> nat \<Rightarrow> region \<Rightarrow> nat \<Rightarrow> nat \<Rightarrow> machine \<Rightarrow> machine \<Rightarrow> bool" where
  "copied i r so t to bytes m m' \<longleftrightarrow> machine_wf m'
     \<and> ram t (fst m') = put_bytes to (take bytes (drop so (ram r (fst m)))) (ram t (fst m))
     \<and> (\<forall>q. q \<noteq> t \<longrightarrow> ram q (fst m') = ram q (fst m))
     \<and> (\<exists>l. snd m' = with_channel i (\<lambda>st. st\<lparr>dc_data_latch := l\<rparr>) (snd m))"

lemma ram_drive [simp]: "ram q (drive_open_bus v b) = ram q b"
  by (cases q) (simp_all add: ram_def ram_array_def drive_open_bus_def)

lemma set_ram_other: "ram_region t \<Longrightarrow> ram q (set_ram t xs b) = (if q = t then xs else ram q b)"
  by (rule ram_set_ram)

lemma take_drop_elements:
  "so + 4 \<le> length xs \<Longrightarrow> take 4 (drop so xs) = [xs ! so, xs ! (so + 1), xs ! (so + 2), xs ! (so + 3)]"
  "so + 2 \<le> length xs \<Longrightarrow> take 2 (drop so xs) = [xs ! so, xs ! (so + 1)]"
  by (simp_all add: eval_nat_numeral take_Suc_conv_app_nth nth_append Cons_nth_drop_Suc [symmetric])

lemma copied_store:
  assumes wf: "machine_wf m" and i: "i < 4" and t: "ram_region t"
  defines "b \<equiv> \<lambda>drive l. if drive then drive_open_bus l (fst m) else fst m"
  defines "d \<equiv> \<lambda>l. with_channel i (\<lambda>st. st\<lparr>dc_data_latch := l\<rparr>) (snd m)"
  shows "mb_wf (b drive l)"
    "machine_put_channel i ((dma_channels (dev_dma (snd m)) ! i)\<lparr>dc_data_latch := l\<rparr>) m = Some (fst m, d l)"
    "copied i r so t to z m (set_ram t (put_bytes to (take z (drop so (ram r (fst m)))) (ram t (b drive l'))) (b drive l'), d l)"
proof -
  let ?st = "dma_channels (dev_dma (snd m)) ! i"
  have mb: "mb_wf (fst m)"
    using wf by (simp add: machine_wf_def)
  then show bwf: "mb_wf (b drive l)" for drive l
    using mb_wf_open_bus(1) by (simp add: b_def)
  have ram: "ram q (b drive l) = ram q (fst m)" for q drive l
    by (simp add: b_def)
  have "channel_shape i (?st\<lparr>dc_data_latch := l\<rparr>)"
    using machine_channel_in(2) [OF wf i] by (simp add: channel_shape_def)
  then show "machine_put_channel i (?st\<lparr>dc_data_latch := l\<rparr>) m = Some (fst m, d l)" and "copied i r so t to z m
      (set_ram t (put_bytes to (take z (drop so (ram r (fst m)))) (ram t (b drive l'))) (b drive l'), d l)"
    using machine_put_channel_in [OF wf i, of "?st\<lparr>dc_data_latch := l\<rparr>"] mb_wf_set_ram [OF bwf t] t ram
    by (auto simp: d_def with_channel_def copied_def set_ram_other machine_wf_def)
qed

lemma transfer_word_copies:
  assumes wf: "machine_wf m" and i: "i < 4"
    and s: "ram_region (ai_region (classify s))" "4 dvd unat s" and t: "ram_region (ai_region (classify t))" "4 dvd unat t"
  shows "\<exists>m'. transfer_word i drive s t m = Some m'
    \<and> copied i (ai_region (classify s)) (unat (ai_offset (classify s))) (ai_region (classify t)) (unat (ai_offset (classify t))) 4 m m'"
proof -
  let ?so = "unat (ai_offset (classify s))" and ?xs = "ram (ai_region (classify s)) (fst m)"
  define v where "v = join32 (?xs ! ?so) (?xs ! (?so + 1)) (?xs ! (?so + 2)) (?xs ! (?so + 3))"
  define b where "b = (if drive then drive_open_bus v (fst m) else fst m)"
  have mb: "mb_wf (fst m)"
    using wf by (simp add: machine_wf_def)
  have len: "?so + 4 \<le> length ?xs"
    using lanes_ram(3) [OF mb s(1) s(2), of 3] by simp
  have rd: "\<not> dma_source_uses_latch s" "mb_read32 device_callbacks (snd m) (fst m) s = Some (Some v)"
    using s read32_ram [OF mb, of s device_callbacks "snd m"]
    by (auto simp: dma_source_uses_latch_def ram_region_def v_def align_word_id Let_def dvd_eq_mod_eq_0)
  have lanes: "[lane8 0 v, lane8 1 v, lane8 2 v, lane8 3 v] = take 4 (drop ?so ?xs)"
    using len by (simp add: take_drop_elements v_def lane8_join del: One_nat_def)
  define d where "d = with_channel i (\<lambda>st. st\<lparr>dc_data_latch := v\<rparr>) (snd m)"
  have bwf: "mb_wf b"
    unfolding b_def by (rule copied_store(1) [OF wf i t(1)])
  note put = copied_store(2) [OF wf i t(1), of v, folded d_def]
  note done_store = copied_store(3) [OF wf i t(1), where drive = drive and l = v and l' = v and z = 4, folded b_def d_def]
  have "transfer_word i drive s t m = Some (set_ram (ai_region (classify t))
      (put_bytes (unat (ai_offset (classify t))) (take 4 (drop ?so ?xs)) (ram (ai_region (classify t)) b)) b, d)"
    using machine_channel_in(1) [OF wf i] rd put write32_ram [OF bwf t, of device_callbacks v d, unfolded lanes]
    by (cases drive) (simp_all add: transfer_word_def Let_def b_def)
  then show ?thesis
    using done_store by blast
qed

lemma transfer_halfword_copies:
  assumes wf: "machine_wf m" and i: "i < 4"
    and s: "ram_region (ai_region (classify s))" "2 dvd unat s" and t: "ram_region (ai_region (classify t))" "2 dvd unat t"
  shows "\<exists>m'. transfer_halfword i drive s t m = Some m'
    \<and> copied i (ai_region (classify s)) (unat (ai_offset (classify s))) (ai_region (classify t)) (unat (ai_offset (classify t))) 2 m m'"
proof -
  let ?so = "unat (ai_offset (classify s))" and ?xs = "ram (ai_region (classify s)) (fst m)"
  define v where "v = join16 (?xs ! ?so) (?xs ! (?so + 1))"
  define b where "b = (if drive then drive_open_bus (duplicate_halfword v) (fst m) else fst m)"
  have mb: "mb_wf (fst m)"
    using wf by (simp add: machine_wf_def)
  have len: "?so + 2 \<le> length ?xs"
    using lanes_ram(3) [OF mb s(1) s(2), of 1] by simp
  have rd: "\<not> dma_source_uses_latch s" "mb_read16 device_callbacks (snd m) (fst m) s = Some (Some v)"
    using s read16_ram [OF mb s, of device_callbacks "snd m"]
    by (auto simp: dma_source_uses_latch_def ram_region_def v_def Let_def)
  have lanes: "[lane8 0 v, lane8 1 v] = take 2 (drop ?so ?xs)"
    using len by (simp add: take_drop_elements v_def lane8_join del: One_nat_def)
  define d where "d = with_channel i (\<lambda>st. st\<lparr>dc_data_latch := duplicate_halfword v\<rparr>) (snd m)"
  have bwf: "mb_wf b"
    unfolding b_def by (rule copied_store(1) [OF wf i t(1)])
  note put = copied_store(2) [OF wf i t(1), of "duplicate_halfword v", folded d_def]
  note done_store = copied_store(3) [OF wf i t(1), where drive = drive and l = "duplicate_halfword v" and l' = "duplicate_halfword v" and z = 2, folded b_def d_def]
  have "transfer_halfword i drive s t m = Some (set_ram (ai_region (classify t))
      (put_bytes (unat (ai_offset (classify t))) (take 2 (drop ?so ?xs)) (ram (ai_region (classify t)) b)) b, d)"
    using machine_channel_in(1) [OF wf i] rd put write16_ram [OF bwf t, of device_callbacks v d, unfolded lanes]
    by (cases drive) (simp_all add: transfer_halfword_def Let_def b_def)
  then show ?thesis
    using done_store by blast
qed

lemma aligned_address:
  fixes a :: u32
  assumes "unat a < 0x08000000"
  shows "effective_source_address i a = a" "effective_destination_address i a = a" "a AND 0x0FFFFFFF = a"
    "4 dvd unat a \<Longrightarrow> a AND NOT 3 = a" "2 dvd unat a \<Longrightarrow> a AND NOT 1 = a"
proof -
  have m: "a AND 0x07FFFFFF = a" "a AND 0x0FFFFFFF = a"
    using assms by (simp_all add: word_unat_eq_iff word_nat)
  then show "effective_source_address i a = a" "effective_destination_address i a = a" "a AND 0x0FFFFFFF = a"
    by (simp_all add: effective_source_address_def effective_destination_address_def)
  show "a AND NOT 3 = a" if "4 dvd unat a"
    using align_word_id [OF that] by (simp add: align_word_def)
  show "a AND NOT 1 = a" if "2 dvd unat a"
    using even_lane(1) [of a] that by (simp add: word_unat_eq_iff)
qed

lemma copied_channel:
  assumes "copied i r so t to z m m'" and "machine_wf m" "i < 4"
  shows "\<exists>l. machine_channel i m' = Some ((dma_channels (dev_dma (snd m)) ! i)\<lparr>dc_data_latch := l\<rparr>)"
proof -
  have len: "i < length (dma_channels (dev_dma (snd m)))"
    using assms(2,3) devices_wfD(3) [of "snd m"] by (simp add: machine_wf_def dma_shape_def)
  have "machine_channel i m' = Some (dma_channels (dev_dma (snd m')) ! i)"
    using assms by (intro machine_channel_in) (simp_all add: copied_def)
  then show ?thesis
    using assms(1) len by (auto simp: copied_def with_channel_def)
qed

definition unit_bytes :: "bool \<Rightarrow> nat" where
  "unit_bytes word = (if word then 4 else 2)"

definition plain_copy :: "dma_channel \<Rightarrow> bool" where
  "plain_copy st \<longleftrightarrow> channel_source_control st = Increment \<and> channel_destination_control st \<in> {Increment, Increment_reload}"

lemma dma_unit_copies:
  assumes wf: "machine_wf m" and i: "i < 4" and st: "plain_copy (dma_channels (dev_dma (snd m)) ! i)"
    and s: "ram_region (ai_region (classify (cu_source c)))" "unit_bytes word dvd unat (cu_source c)" "unat (cu_source c) < 0x08000000"
    and t: "ram_region (ai_region (classify (cu_destination c)))" "unit_bytes word dvd unat (cu_destination c)"
      "unat (cu_destination c) < 0x08000000"
  shows "\<exists>c' m'. dma_unit w i word drive c m = Some (c', m')
    \<and> copied i (ai_region (classify (cu_source c))) (unat (ai_offset (classify (cu_source c))))
        (ai_region (classify (cu_destination c))) (unat (ai_offset (classify (cu_destination c)))) (unit_bytes word) m m'
    \<and> cu_unit c' = cu_unit c + 1 \<and> cu_source c' = cu_source c + of_nat (unit_bytes word)
    \<and> cu_destination c' = cu_destination c + of_nat (unit_bytes word)"
proof -
  let ?st = "dma_channels (dev_dma (snd m)) ! i"
  have al: "effective_source_address i (cu_source c) AND NOT ((if word then 4 else 2) - 1) = cu_source c"
    "effective_destination_address i (cu_destination c) AND NOT ((if word then 4 else 2) - 1) = cu_destination c"
    using aligned_address [OF s(3)] aligned_address [OF t(3)] s(2) t(2) by (cases word; simp add: unit_bytes_def)+
  obtain m' where m': "(if word then transfer_word i drive (cu_source c) (cu_destination c) m
        else transfer_halfword i drive (cu_source c) (cu_destination c) m) = Some m'"
    "copied i (ai_region (classify (cu_source c))) (unat (ai_offset (classify (cu_source c))))
        (ai_region (classify (cu_destination c))) (unat (ai_offset (classify (cu_destination c)))) (unit_bytes word) m m'"
    using transfer_word_copies [OF wf i s(1) _ t(1), of drive] transfer_halfword_copies [OF wf i s(1) _ t(1), of drive] s(2) t(2)
    by (cases word) (auto simp: unit_bytes_def)
  obtain l where l: "machine_channel i m' = Some (?st\<lparr>dc_data_latch := l\<rparr>)"
    using copied_channel [OF m'(2) wf i] by blast
  have ctl: "\<not> dma_source_steps_as_game_pak_stream i (cu_source c)" "channel_source_control ?st = Increment"
    "channel_destination_control (?st\<lparr>dc_data_latch := l\<rparr>) \<in> {Increment, Increment_reload}"
    using s(1,3) st aligned_address(3) [OF s(3)]
    by (auto simp: dma_source_steps_as_game_pak_stream_def ram_region_def plain_copy_def channel_destination_control_def)
  have step: "step_address a ctl u = a + u" if "ctl \<in> {Increment, Increment_reload}" for a u :: u32 and ctl
    using that by (auto simp: step_address_def)
  have "\<exists>cycles. dma_unit w i word drive c m = Some (\<lparr>cu_unit = cu_unit c + 1, cu_source = cu_source c + (if word then 4 else 2),
      cu_destination = cu_destination c + (if word then 4 else 2), cu_bus_cycles = cycles\<rparr>, m')"
    unfolding dma_unit_def machine_channel_in(1) [OF wf i] bind.bind_lunit Let_def al m'(1) l step [OF ctl(3)]
    by (simp add: ctl(1,2) step)
  then show ?thesis
    using m'(2) by (auto simp: unit_bytes_def simp del: split_paired_Ex)
qed

lemma ram_stream_unit:
  assumes "ram_stream r off z n a b" and "k < n"
  shows "ram_region (ai_region (classify (a + of_nat (z * k))))" "z dvd unat (a + of_nat (z * k))"
    "unat (a + of_nat (z * k)) < 0x08000000 \<or> z = 0"
    "ai_region (classify (a + of_nat (z * k))) = r" "unat (ai_offset (classify (a + of_nat (z * k)))) = off + z * k"
    "off + z * k + z \<le> length (ram r b)"
proof -
  have le: "z * k + z \<le> z * n"
    using mult_le_mono2 [of "Suc k" n z] assms(2) by simp
  have range: "unat a + z * k + z \<le> 0x08000000"
    using assms(1) le by (simp add: ram_stream_def)
  then have "z * k < 4294967296" "unat a + z * k < 4294967296"
    by linarith+
  then have u: "unat (a + of_nat (z * k)) = unat a + z * k"
    by (simp add: unat_word_ariths unat_of_nat del: of_nat_mult)
  show "z dvd unat (a + of_nat (z * k))" "unat (a + of_nat (z * k)) < 0x08000000 \<or> z = 0"
    using u range assms(1) by (auto simp: ram_stream_def)
  show "ai_region (classify (a + of_nat (z * k))) = r" "ram_region (ai_region (classify (a + of_nat (z * k))))"
    "unat (ai_offset (classify (a + of_nat (z * k)))) = off + z * k" "off + z * k + z \<le> length (ram r b)"
    using assms le by (auto simp: ram_stream_def simp del: of_nat_mult)
qed

text \<open>One more unit after \<open>bytes\<close> copied bytes, from a source range that the copy does not touch.\<close>

lemma copied_step:
  assumes wf: "machine_wf m" "i < 4" and before: "copied i r so t to bytes m m1" and next_unit: "copied i r (so + bytes) t (to + bytes) z m1 m2"
    and src: "so + bytes + z \<le> length (ram r (fst m))" and dst: "to + bytes + z \<le> length (ram t (fst m))"
    and apart: "r \<noteq> t \<or> so + bytes + z \<le> to \<or> to + bytes \<le> so"
  shows "copied i r so t to (bytes + z) m m2"
proof -
  let ?xs = "ram r (fst m)" and ?ys = "ram t (fst m)"
  have m1: "ram t (fst m1) = put_bytes to (take bytes (drop so ?xs)) ?ys" "\<And>q. q \<noteq> t \<Longrightarrow> ram q (fst m1) = ram q (fst m)"
    using before by (simp_all add: copied_def)
  have "take z (drop (so + bytes) (ram r (fst m1))) = take z (drop (so + bytes) ?xs)"
  proof (cases "r = t")
    case True
    then show ?thesis
      using m1(1) src apart by (intro nth_equalityI) (auto simp: nth_put_bytes)
  qed (simp add: m1(2))
  then have "ram t (fst m2) = put_bytes (to + bytes) (take z (drop (so + bytes) ?xs)) (put_bytes to (take bytes (drop so ?xs)) ?ys)"
    using next_unit m1(1) by (simp add: copied_def)
  also have "\<dots> = put_bytes to (take (bytes + z) (drop so ?xs)) ?ys"
    using put_bytes_append [of to "take bytes (drop so ?xs)" "take z (drop (so + bytes) ?xs)" ?ys] src dst
    by (simp add: take_add add.commute)
  finally have t: "ram t (fst m2) = put_bytes to (take (bytes + z) (drop so ?xs)) ?ys" .
  have "\<exists>l. snd m2 = with_channel i (\<lambda>st. st\<lparr>dc_data_latch := l\<rparr>) (snd m)"
    using before next_unit with_channel_twice [of "snd m" i] wf devices_wfD(3)
    by (auto simp: copied_def machine_wf_def comp_def)
  then show ?thesis
    using t next_unit m1(2) by (simp add: copied_def)
qed

lemma copied_nothing: "machine_wf m \<Longrightarrow> copied i r so t to 0 m m"
proof -
  assume "machine_wf m"
  moreover have "snd m = with_channel i (\<lambda>st. st\<lparr>dc_data_latch := dc_data_latch (dma_channels (dev_dma (snd m)) ! i)\<rparr>) (snd m)"
    by (simp add: with_channel_def)
  ultimately show ?thesis
    by (auto simp: copied_def)
qed

lemma dma_units_copy:
  fixes n :: nat
  assumes wf: "machine_wf m" "i < 4" and st: "plain_copy (dma_channels (dev_dma (snd m)) ! i)"
    and count: "unat (dc_current_count (dma_channels (dev_dma (snd m)) ! i)) = n"
    and src: "ram_stream r so (unit_bytes word) n s (fst m)" and dst: "ram_stream q to (unit_bytes word) n t (fst m)"
    and apart: "r \<noteq> q \<or> so + unit_bytes word * n \<le> to \<or> to + unit_bytes word * n \<le> so"
  shows "k \<le> n \<Longrightarrow> copied i r so q to (unit_bytes word * k) m mk \<Longrightarrow> cu_unit c = of_nat k
    \<Longrightarrow> cu_source c = s + of_nat (unit_bytes word * k) \<Longrightarrow> cu_destination c = t + of_nat (unit_bytes word * k)
    \<Longrightarrow> \<exists>c' m'. dma_units w i word drive c mk = Some (c', m') \<and> copied i r so q to (unit_bytes word * n) m m'
      \<and> cu_source c' = s + of_nat (unit_bytes word * n) \<and> cu_destination c' = t + of_nat (unit_bytes word * n)"
proof (induction "n - k" arbitrary: k mk c)
  case 0
  obtain l where "machine_channel i mk = Some ((dma_channels (dev_dma (snd m)) ! i)\<lparr>dc_data_latch := l\<rparr>)"
    using copied_channel [OF 0(3) wf] by blast
  moreover have "k = n"
    using 0 by simp
  moreover have "\<not> cu_unit c < dc_current_count (dma_channels (dev_dma (snd m)) ! i)"
    using 0(4) \<open>k = n\<close> by (simp flip: count)
  ultimately show ?case
    using 0 by (simp add: dma_units.simps [of w i word drive c mk])
next
  case (Suc x)
  let ?z = "unit_bytes word" and ?st = "dma_channels (dev_dma (snd m)) ! i"
  have k: "k < n"
    using Suc(2) by simp
  obtain l where l: "machine_channel i mk = Some (?st\<lparr>dc_data_latch := l\<rparr>)"
    using copied_channel [OF Suc(4) wf] by blast
  have mk: "machine_wf mk"
    using Suc(4) by (simp add: copied_def)
  then have here: "dma_channels (dev_dma (snd mk)) ! i = ?st\<lparr>dc_data_latch := l\<rparr>"
    using machine_channel_in(1) [OF mk wf(2)] l by simp
  have "unat (of_nat k :: u32) = k"
    using k count unat_u32_less [of "dc_current_count ?st"] by (simp add: unat_of_nat)
  then have more: "cu_unit c < dc_current_count ?st"
    using k count Suc(5) by (simp add: word_less_nat_alt)
  have z: "?z \<noteq> 0"
    by (simp add: unit_bytes_def)
  note us = ram_stream_unit [OF src k, folded Suc(6)] and ut = ram_stream_unit [OF dst k, folded Suc(7)]
  have "plain_copy (dma_channels (dev_dma (snd mk)) ! i)"
    using st here by (simp add: plain_copy_def channel_source_control_def channel_destination_control_def)
  from dma_unit_copies [OF mk wf(2) this us(1,2) _ ut(1,2), of w drive] us(3) ut(3) z
  obtain c' m' where step: "dma_unit w i word drive c mk = Some (c', m')" "copied i r (so + ?z * k) q (to + ?z * k) ?z mk m'"
    "cu_unit c' = cu_unit c + 1" "cu_source c' = cu_source c + of_nat ?z" "cu_destination c' = cu_destination c + of_nat ?z"
    unfolding us(4,5) ut(4,5) by blast
  have "r \<noteq> q \<or> so + ?z * k + ?z \<le> to \<or> to + ?z * k \<le> so"
    using apart mult_le_mono2 [of "Suc k" n ?z] k by auto
  then have "copied i r so q to (?z * k + ?z) m m'"
    using us(6) ut(6) by (intro copied_step [OF wf Suc(4) step(2)]) simp_all
  then have "copied i r so q to (?z * Suc k) m m'"
    by (simp add: add.commute)
  from Suc(1) [OF _ _ this, of c'] show ?case
    using Suc k step l more by (simp add: dma_units.simps [of w i word drive c mk] algebra_simps)
qed

lemma finish_channel_fields:
  defines "rearm \<equiv> \<lambda>st. channel_repeat st \<and> channel_start_timing st \<noteq> Start_immediate"
  shows "dc_current_source (finish_channel i c (st\<lparr>dc_data_latch := l\<rparr>)) = cu_source c"
    "rearm st \<Longrightarrow> channel_enabled (finish_channel i c (st\<lparr>dc_data_latch := l\<rparr>)) = channel_enabled st"
    "rearm st \<Longrightarrow> dc_current_count (finish_channel i c (st\<lparr>dc_data_latch := l\<rparr>)) = normalized_word_count i st"
    "rearm st \<Longrightarrow> dc_current_destination (finish_channel i c (st\<lparr>dc_data_latch := l\<rparr>))
       = (if channel_destination_control st = Increment_reload then dc_destination st else cu_destination c)"
    "\<not> rearm st \<Longrightarrow> \<not> channel_enabled (finish_channel i c (st\<lparr>dc_data_latch := l\<rparr>))"
    "\<not> rearm st \<Longrightarrow> dc_current_count (finish_channel i c (st\<lparr>dc_data_latch := l\<rparr>)) = 0"
    "\<not> rearm st \<Longrightarrow> dc_current_destination (finish_channel i c (st\<lparr>dc_data_latch := l\<rparr>)) = cu_destination c"
  by (auto simp: rearm_def finish_channel_def Let_def channel_repeat_def channel_start_timing_def channel_enabled_def
      channel_destination_control_def normalized_word_count_def and.assoc)

text \<open>C16. DMA copies. A channel whose source and destination count up and whose streams lie in disjoint ranges of RAM (any of EWRAM,
  IWRAM, palette, VRAM, OAM, in halfwords or words) copies exactly the source bytes to the destination, changes no other byte of RAM, and
  finishes: a repeating channel is rearmed with its count register (and its destination register in reload mode), any other is disabled,
  and the completion interrupt is raised exactly when the channel enables it.\<close>

theorem dma_copy:
  fixes m :: machine and i :: nat
  defines "st \<equiv> dma_channels (dev_dma (snd m)) ! i"
  defines "z \<equiv> unit_bytes (channel_transfer_32bit st)" and "n \<equiv> unat (dc_current_count st)"
  assumes wf: "machine_wf m" and i: "i < 4" and plain: "plain_copy st"
    and src: "ram_stream r so z n (dc_current_source st) (fst m)" and dst: "ram_stream q to z n (dc_current_destination st) (fst m)"
    and apart: "r \<noteq> q \<or> so + z * n \<le> to \<or> to + z * n \<le> so"
  shows "\<exists>cycles' m'. execute_channel i w drive units cycles m = Some (True, units + dc_current_count st, cycles', m') \<and> machine_wf m'
    \<and> (\<forall>j < z * n. ram q (fst m') ! (to + j) = ram r (fst m) ! (so + j))
    \<and> (\<forall>p j. j < length (ram p (fst m)) \<and> \<not> (p = q \<and> to \<le> j \<and> j < to + z * n) \<longrightarrow> ram p (fst m') ! j = ram p (fst m) ! j)
    \<and> (let st' = dma_channels (dev_dma (snd m')) ! i in
       dc_current_source st' = dc_current_source st + of_nat (z * n)
       \<and> (if channel_repeat st \<and> channel_start_timing st \<noteq> Start_immediate
          then channel_enabled st' = channel_enabled st \<and> dc_current_count st' = normalized_word_count i st
            \<and> dc_current_destination st' = (if channel_destination_control st = Increment_reload then dc_destination st
                                            else dc_current_destination st + of_nat (z * n))
          else \<not> channel_enabled st' \<and> dc_current_count st' = 0
            \<and> dc_current_destination st' = dc_current_destination st + of_nat (z * n)))
    \<and> dev_interrupts (snd m') = (if channel_irq_on_completion st
        then ic_request (dma_interrupt_source i) (dev_interrupts (snd m)) else dev_interrupts (snd m))"
proof -
  define c0 where "c0 = \<lparr>cu_unit = 0, cu_source = dc_current_source st, cu_destination = dc_current_destination st, cu_bus_cycles = cycles + 2\<rparr>"
  have cnt: "unat (dc_current_count (dma_channels (dev_dma (snd m)) ! i)) = n"
    by (simp add: n_def st_def)
  have "\<exists>c m1. dma_units w i (channel_transfer_32bit st) drive c0 m = Some (c, m1) \<and> copied i r so q to (z * n) m m1
      \<and> cu_source c = dc_current_source st + of_nat (z * n) \<and> cu_destination c = dc_current_destination st + of_nat (z * n)"
    using dma_units_copy [OF wf i plain [unfolded st_def] cnt src [unfolded z_def st_def] dst [unfolded z_def st_def]
        apart [unfolded z_def st_def], of 0 m c0 w drive] copied_nothing [OF wf]
    by (simp add: st_def z_def c0_def)
  then obtain c m1 where loop: "dma_units w i (channel_transfer_32bit st) drive c0 m = Some (c, m1)" "copied i r so q to (z * n) m m1"
    "cu_source c = dc_current_source st + of_nat (z * n)" "cu_destination c = dc_current_destination st + of_nat (z * n)"
    by blast
  obtain l where l: "machine_channel i m1 = Some (st\<lparr>dc_data_latch := l\<rparr>)"
    using copied_channel [OF loop(2) wf i] by (auto simp: st_def)
  have m1: "machine_wf m1" "dev_interrupts (snd m1) = dev_interrupts (snd m)" "ram q (fst m1) = put_bytes to (take (z * n) (drop so (ram r (fst m)))) (ram q (fst m))"
    "\<And>p. p \<noteq> q \<Longrightarrow> ram p (fst m1) = ram p (fst m)"
    using loop(2) by (auto simp: copied_def with_channel_def)
  define fin where "fin = finish_channel i c (st\<lparr>dc_data_latch := l\<rparr>)"
  define m' where "m' = (fst m1, raise_dma_irq i (st\<lparr>dc_data_latch := l\<rparr>) (with_channel i (\<lambda>_. fin) (snd m1)))"
  have shape: "channel_shape i fin"
    using machine_channel_in [OF m1(1) i] l finish_channel_shape(1) by (simp add: fin_def)
  have len: "so + z * n \<le> length (ram r (fst m))" "to + z * n \<le> length (ram q (fst m))"
    using src dst by (simp_all add: ram_stream_def)
  obtain cyc where ex: "execute_channel i w drive units cycles m = Some (True, units + dc_current_count st, cyc, m')"
    using machine_channel_in(1) [OF wf i] plain loop(1) l machine_put_channel_in(1) [OF m1(1) i, of fin]
    by (simp add: execute_channel_def Let_def plain_copy_def fin_def m'_def flip: st_def c0_def)
  have wf': "machine_wf m'"
    using finish_safe [OF m1(1) i shape, of "st\<lparr>dc_data_latch := l\<rparr>"] machine_put_channel_in(1) [OF m1(1) i, of fin] by (simp add: m'_def)
  have moved: "\<forall>j < z * n. ram q (fst m') ! (to + j) = ram r (fst m) ! (so + j)"
    using len by (simp add: m'_def m1(3) nth_put_bytes)
  have kept: "\<forall>p j. j < length (ram p (fst m)) \<and> \<not> (p = q \<and> to \<le> j \<and> j < to + z * n) \<longrightarrow> ram p (fst m') ! j = ram p (fst m) ! j"
  proof (intro allI impI)
    fix p j assume "j < length (ram p (fst m)) \<and> \<not> (p = q \<and> to \<le> j \<and> j < to + z * n)"
    then show "ram p (fst m') ! j = ram p (fst m) ! j"
      using len m1(3,4) by (cases "p = q") (auto simp: m'_def nth_put_bytes)
  qed
  have regs: "dma_channels (dev_dma (snd m')) ! i = fin" "dev_interrupts (snd m') = (if channel_irq_on_completion st
        then ic_request (dma_interrupt_source i) (dev_interrupts (snd m)) else dev_interrupts (snd m))"
    using m1 i devices_wfD(3) [of "snd m1"]
    by (simp_all add: m'_def raise_dma_irq_def with_channel_def channel_irq_on_completion_def machine_wf_def dma_shape_def)
  note fields = finish_channel_fields [where i = i and c = c and st = st and l = l, folded fin_def]
  show ?thesis
    unfolding Let_def
  proof (intro exI [of _ cyc] exI [of _ m'] conjI ex wf' moved kept regs(2))
    show "dc_current_source (dma_channels (dev_dma (snd m')) ! i) = dc_current_source st + of_nat (z * n)"
      using fields(1) regs(1) loop(3) by simp
  qed (use fields(2-7) regs(1) loop(4) in \<open>cases "channel_repeat st \<and> channel_start_timing st \<noteq> Start_immediate"; auto\<close>)
qed

definition copy_demo :: machine where
  "copy_demo = (new_memory_bus, with_channel 3 (\<lambda>st. st\<lparr>dc_control := 0xC400, dc_current_source := 0x02000000,
     dc_current_destination := 0x03000000, dc_current_count := 1\<rparr>) reset_devices)"

lemma copy_demo_channel:
  "dma_channels (dev_dma (snd copy_demo)) ! 3 = blank_channel\<lparr>dc_control := 0xC400, dc_current_source := 0x02000000,
     dc_current_destination := 0x03000000, dc_current_count := 1\<rparr>"
  by (simp add: copy_demo_def with_channel_def reset_devices_def dma_reset_def vec_fill_def kChannelCount_def)

lemma demo_wf:
  assumes "mb_wf b" and "channel_shape 3 (f blank_channel)"
  shows "machine_wf (b, with_channel 3 f reset_devices)"
proof -
  have "dma_shape (dev_dma reset_devices)" "(dma_channels (dev_dma reset_devices)) ! 3 = blank_channel"
    using devices_wfD(3) [OF devices_wf_reset] by (simp_all add: reset_devices_def dma_reset_def vec_fill_def kChannelCount_def)
  then show ?thesis
    unfolding with_channel_def machine_wf_def fst_conv snd_conv using assms
    by (intro conjI devices_wf_put(3) [OF devices_wf_reset] dma_shape_put) simp_all
qed

lemma copy_demo_wf: "machine_wf copy_demo"
  unfolding copy_demo_def
  by (rule demo_wf [OF new_memory_bus_wf])
    (simp add: channel_shape_def blank_channel_def control_mask_of_def dma_const_defs dma_word_count_mask_def)

theorem dma_copy_witness:
  "\<exists>cycles' m'. execute_channel 3 True False 0 0 copy_demo = Some (True, 1, cycles', m')
     \<and> \<not> channel_enabled (dma_channels (dev_dma (snd m')) ! 3)
     \<and> dev_interrupts (snd m') = ic_request Irq_dma3 (dev_interrupts (snd copy_demo))"
proof -
  have len: "length (mb_ewram new_memory_bus) = 262144" "length (mb_iwram new_memory_bus) = 32768"
    using new_memory_bus_wf by (simp_all add: mb_wf_def region_size_defs)
  have st: "channel_transfer_32bit (dma_channels (dev_dma (snd copy_demo)) ! 3)" "plain_copy (dma_channels (dev_dma (snd copy_demo)) ! 3)"
    "\<not> channel_repeat (dma_channels (dev_dma (snd copy_demo)) ! 3)" "channel_irq_on_completion (dma_channels (dev_dma (snd copy_demo)) ! 3)"
    by (simp_all add: copy_demo_channel blank_channel_def channel_transfer_32bit_def plain_copy_def channel_source_control_def
        channel_destination_control_def address_control_of_def channel_repeat_def channel_irq_on_completion_def dma_const_defs)
  have src: "ram_stream Ewram 0 4 1 0x02000000 (fst copy_demo)" "ram_stream Iwram 0 4 1 0x03000000 (fst copy_demo)"
    using len by (simp_all add: ram_stream_def copy_demo_def classify_def region_size_defs)
  show ?thesis
    using dma_copy [OF copy_demo_wf, of 3 Ewram 0 Iwram 0 True False 0 0] st src
    by (simp add: copy_demo_channel unit_bytes_def dma_interrupt_source_def Let_def del: split_paired_Ex) blast
qed

section \<open>A channel that disables itself\<close>

definition self_disable_demo :: machine where
  "self_disable_demo =
     (set_ram Ewram (put_bytes 0 [0x00, 0x12] (mb_ewram new_memory_bus)) new_memory_bus,
      with_channel 3 (\<lambda>st. st\<lparr>dc_control := 0x9200, dc_word_count := 1, dc_current_source := 0x02000000,
        dc_current_destination := 0x040000DE, dc_current_count := 1\<rparr>) reset_devices)"

lemma demo_channels:
  "dma_channels (dev_dma (with_channel 3 f reset_devices)) = [blank_channel, blank_channel, blank_channel, f blank_channel]"
  by (simp add: with_channel_def reset_devices_def dma_reset_def vec_fill_def kChannelCount_def numeral_eq_Suc)

lemma io_store16:
  assumes "ai_region (classify a) = Io" and "2 dvd unat a" and "unat a < 0x08000000"
  shows "mb_write16 device_callbacks a v (b, d) = map_option (\<lambda>(ok, d'). (True, b, d')) (io_write16 d a v)"
proof -
  have "a AND 1 = 0"
    using assms(2) by (simp add: word_unat_eq_iff word_nat dvd_eq_mod_eq_0)
  then show ?thesis
    using write_debug_none(2) [of a v b] assms(1) aligned_address(5) [OF assms(3,2)]
    by (auto simp: mb_write16_def on_bus_def Let_def device_callbacks_def map_option_case split: option.splits)
qed

definition demo_channel :: dma_channel where
  "demo_channel = blank_channel\<lparr>dc_control := 0x9200, dc_word_count := 1, dc_current_source := 0x02000000,
     dc_current_destination := 0x040000DE, dc_current_count := 1\<rparr>"

lemma self_disable_start:
  "machine_wf self_disable_demo" "dma_channels (dev_dma (snd self_disable_demo)) = [blank_channel, blank_channel, blank_channel, demo_channel]"
  "mb_read16 device_callbacks (snd self_disable_demo) (fst self_disable_demo) 0x02000000 = Some (Some 0x1200)"
proof -
  show "dma_channels (dev_dma (snd self_disable_demo)) = [blank_channel, blank_channel, blank_channel, demo_channel]"
    by (simp add: self_disable_demo_def demo_channels demo_channel_def)
  have len: "length (mb_ewram new_memory_bus) = 262144"
    using new_memory_bus_wf by (simp add: mb_wf_def region_size_defs)
  have mb: "mb_wf (fst self_disable_demo)"
    using new_memory_bus_wf by (simp add: self_disable_demo_def mb_wf_set_ram del: put_bytes.simps)
  then show "machine_wf self_disable_demo"
    unfolding self_disable_demo_def fst_conv
    by (rule demo_wf) (simp add: channel_shape_def blank_channel_def control_mask_of_def dma_const_defs dma_word_count_mask_def)
  have "ram Ewram (fst self_disable_demo) = put_bytes 0 [0x00, 0x12] (mb_ewram new_memory_bus)"
    by (simp add: self_disable_demo_def set_ram_other del: put_bytes.simps ram_simps)
  then show "mb_read16 device_callbacks (snd self_disable_demo) (fst self_disable_demo) 0x02000000 = Some (Some 0x1200)"
    using read16_ram [OF mb, of "0x02000000" device_callbacks "snd self_disable_demo"] len
    by (simp add: classify_def region_size_defs Let_def nth_put_bytes join16_def del: put_bytes.simps ram_simps)
qed

lemma self_disable_write:
  assumes "dma_channels (dev_dma d) = [blank_channel, blank_channel, blank_channel, demo_channel\<lparr>dc_data_latch := l\<rparr>]"
  shows "\<exists>d'. io_write16 d 0x040000DE 0x1200 = Some (True, d')
    \<and> dma_channels (dev_dma d') = [blank_channel, blank_channel, blank_channel,
        demo_channel\<lparr>dc_data_latch := l, dc_control := 0x1200, dc_current_count := 0\<rparr>]"
proof -
  have "io_write16 d 0x040000DE 0x1200 = io_write_dma 3 10 0x1200 d"
    using io_write16_dma(1) [of 3 10 d "0x1200"] by simp
  then show ?thesis
    using assms
    by (auto simp: io_write_dma_def write_dma_def dma_write_control_def checked_channel_def put_channel_def kChannelCount_def Let_def
        channel_write_control_def demo_channel_def blank_channel_def channel_enabled_def channel_start_timing_def start_timing_of_def
        control_mask_of_def dma_const_defs channel_immediate_def refresh_immediate_pending_def numeral_3_eq_3)
qed

lemma self_disable_unit:
  fixes cycles :: u32
  defines "c \<equiv> \<lparr>cu_unit = 0, cu_source = 0x02000000, cu_destination = 0x040000DE, cu_bus_cycles = cycles\<rparr>"
  shows "\<exists>c' m'. dma_units w 3 False True c self_disable_demo = Some (c', m') \<and> machine_wf m'
    \<and> (\<exists>l. dma_channels (dev_dma (snd m')) = [blank_channel, blank_channel, blank_channel,
        demo_channel\<lparr>dc_data_latch := l, dc_control := 0x1200, dc_current_count := 0\<rparr>])"
proof -
  let ?m = self_disable_demo and ?l = "duplicate_halfword 0x1200"
  have st: "machine_channel 3 ?m = Some demo_channel"
    using machine_channel_in(1) [OF self_disable_start(1), of 3] self_disable_start(2) by (simp add: numeral_3_eq_3)
  define d1 where "d1 = with_channel 3 (\<lambda>_. demo_channel\<lparr>dc_data_latch := ?l\<rparr>) (snd ?m)"
  have "machine_put_channel 3 (demo_channel\<lparr>dc_data_latch := ?l\<rparr>) ?m = Some (fst ?m, d1)"
    using machine_put_channel_in(1) [OF self_disable_start(1), of 3] by (simp add: d1_def)
  moreover have "dma_channels (dev_dma d1) = [blank_channel, blank_channel, blank_channel, demo_channel\<lparr>dc_data_latch := ?l\<rparr>]"
    by (simp add: d1_def with_channel_def self_disable_start(2) numeral_3_eq_3)
  then obtain d2 where d2: "io_write16 d1 0x040000DE 0x1200 = Some (True, d2)" "dma_channels (dev_dma d2) = [blank_channel, blank_channel,
      blank_channel, demo_channel\<lparr>dc_data_latch := ?l, dc_control := 0x1200, dc_current_count := 0\<rparr>]"
    using self_disable_write by blast
  moreover have "ai_region (classify 0x040000DE) = Io" "ai_region (classify 0x02000000) = Ewram"
    by (simp_all add: classify_def region_size_defs)
  ultimately have t: "transfer_halfword 3 True 0x02000000 0x040000DE ?m = Some (drive_open_bus ?l (fst ?m), d2)"
    using st self_disable_start(3) io_store16 [of "0x040000DE" "0x1200" "drive_open_bus ?l (fst ?m)" d1]
    by (simp add: transfer_halfword_def dma_source_uses_latch_def)
  let ?m1 = "(drive_open_bus ?l (fst ?m), d2)"
  have wf: "machine_wf ?m1"
    using transfer_safe(2) [OF self_disable_start(1), of 3 True "0x02000000" "0x040000DE"] t by simp
  then have st1: "machine_channel 3 ?m1 = Some (demo_channel\<lparr>dc_data_latch := ?l, dc_control := 0x1200, dc_current_count := 0\<rparr>)"
    using machine_channel_in(1) [OF wf, of 3] d2(2) by (simp add: numeral_3_eq_3)
  have "\<exists>c'. dma_unit w 3 False True c ?m = Some (c', ?m1)"
    using st t st1 by (simp add: dma_unit_def c_def effective_source_address_def effective_destination_address_def Let_def)
  then obtain c' where "dma_unit w 3 False True c ?m = Some (c', ?m1)"
    by blast
  moreover have "dma_units w 3 False True c' ?m1 = Some (c', ?m1)"
    using st1 by (subst dma_units.simps) simp
  moreover have "cu_unit c = 0" "dc_current_count demo_channel = 1"
    by (simp_all add: c_def demo_channel_def)
  ultimately have "dma_units w 3 False True c ?m = Some (c', ?m1)"
    using st by (subst dma_units.simps) simp
  then show ?thesis
    using wf d2(2) by auto
qed

text \<open>C30. A self-disabling channel. VBlank channel 3 in repeat mode copies the halfword 0x1200 (repeat and VBlank, without enable) over
  its own control register: the channel ends disabled but is rearmed with a nonzero count, and the save state of that controller is
  refused by \<open>load_state\<close>.\<close>

theorem self_disabled_channel_not_restorable:
  "\<exists>r m'. run_trigger Trigger_vblank False self_disable_demo = Some (r, m')
     \<and> \<not> channel_enabled (dma_channels (dev_dma (snd m')) ! 3) \<and> dc_current_count (dma_channels (dev_dma (snd m')) ! 3) = 1
     \<and> dma_load_state (dma_save_state (dev_dma (snd m'))) e = Some (False, e)"
proof -
  let ?m = self_disable_demo
  note simps = demo_channel_def blank_channel_def channel_enabled_def channel_source_control_def address_control_of_def
    channel_transfer_32bit_def channel_repeat_def channel_start_timing_def start_timing_of_def dma_const_defs
  obtain c m1 l where loop: "dma_units False 3 False True
      \<lparr>cu_unit = 0, cu_source = 0x02000000, cu_destination = 0x040000DE, cu_bus_cycles = 2\<rparr> ?m = Some (c, m1)" "machine_wf m1"
    "dma_channels (dev_dma (snd m1)) = [blank_channel, blank_channel, blank_channel,
        demo_channel\<lparr>dc_data_latch := l, dc_control := 0x1200, dc_current_count := 0\<rparr>]"
    using self_disable_unit [of False 2] by blast
  let ?st1 = "demo_channel\<lparr>dc_data_latch := l, dc_control := 0x1200, dc_current_count := 0\<rparr>"
  have ch: "machine_channel i ?m = Some ([blank_channel, blank_channel, blank_channel, demo_channel] ! i)"
    "machine_channel i m1 = Some ([blank_channel, blank_channel, blank_channel, ?st1] ! i)" if "i < 4" for i
    using machine_channel_in(1) [OF self_disable_start(1) that] machine_channel_in(1) [OF loop(2) that] self_disable_start(2) loop(3) by simp_all
  define fin where "fin = finish_channel 3 c ?st1"
  have fin: "\<not> channel_enabled fin" "dc_current_count fin = 1"
    by (simp_all add: fin_def finish_channel_def Let_def normalized_word_count_def dma_word_count_mask_def simps)
  define m' where "m' = (fst m1, raise_dma_irq 3 ?st1 (with_channel 3 (\<lambda>_. fin) (snd m1)))"
  have "machine_put_channel 3 fin m1 = Some (fst m1, with_channel 3 (\<lambda>_. fin) (snd m1))"
    using machine_put_channel_in(1) [OF loop(2)] by simp
  then have "\<exists>u cy. execute_channel 3 False True 0 0 ?m = Some (True, u, cy, m')"
    using loop(1) ch [of 3] by (simp add: execute_channel_def Let_def m'_def fin_def simps)
  then obtain u cy where ex: "execute_channel 3 False True 0 0 ?m = Some (True, u, cy, m')"
    by blast
  have chans: "dma_channels (dev_dma (snd m')) = [blank_channel, blank_channel, blank_channel, fin]"
    by (simp add: m'_def raise_dma_irq_def with_channel_def loop(3) numeral_3_eq_3)
  have m3: "machine_channel 3 m' = Some fin"
    using chans by (simp add: machine_channel_def checked_channel_def kChannelCount_def numeral_3_eq_3)
  have skip: "\<not> channel_enabled blank_channel" "channel_enabled demo_channel" "channel_start_timing demo_channel = Start_vblank"
    by (simp_all add: simps)
  have four: "[0..<4] = [0, 1, 2, 3 :: nat]"
    by (simp add: upt_rec)
  have "\<exists>r. run_trigger Trigger_vblank False ?m = Some (r, m')"
    using ex ch(1) [of 0] ch(1) [of 1] ch(1) [of 2] ch(1) [of 3] skip m3
    by (simp add: run_trigger_def kChannelCount_def four no_dma_run_def Let_def)
  moreover have "\<not> channel_state_valid 3 fin"
    using fin by (simp add: channel_valid_shape)
  then have "dma_load_state (dma_save_state (dev_dma (snd m'))) e = Some (False, e)"
    using dma_load_state_checks [of "dma_save_state (dev_dma (snd m'))" e] chans
    by (auto simp: dma_save_state_def intro!: exI [of _ 3])
  ultimately show ?thesis
    using fin chans by (auto simp: numeral_3_eq_3 simp del: split_paired_Ex)
qed

end
