(* ===== verification/Bios.thy ===== *)
theory Bios
  imports Prelude "HOL-Library.Signed_Division"
begin

text \<open>
  The BIOS services that the core emulates itself, \<open>src/src/core/bios.cpp\<close>: decoding of software interrupts, the table of known
  services, the cycle constants of interrupt dispatch, and the arithmetic services. A signed 32-bit value is an \<open>int\<close>; where the source
  computes on signed values without its wrapping helpers, the model uses checked operations that are \<open>None\<close> exactly when the C++
  operation would be undefined (overflow, division by zero), and the theorems show that this never happens.
\<close>

datatype bios_execution_mode = No_bios | Caller_provided_bios | Hle

datatype bios_swi_source = Swi_arm | Swi_thumb

datatype bios_swi_status = Trap_to_vector | Handled | Unimplemented_service

record bios_swi_call =
  swi_source :: bios_swi_source
  swi_raw_comment :: u32
  swi_service :: u8

record bios_swi_result =
  swr_mode :: bios_execution_mode
  swr_status :: bios_swi_status
  swr_call :: bios_swi_call
  swr_handled :: bool
  swr_requires_bios_bytes :: bool

record bios_irq_dispatch_timing =
  bt_reentry :: bool
  bt_post_return :: bool
  bt_chained_post_return :: bool
  bt_chained_post_return_data :: bool
  bt_chained_post_return_spaced_data :: bool
  bt_timer0_interrupt_requested :: bool
  bt_timer0_reload :: u32
  bt_timer_io_access_gap_cycles :: u32

record affine_matrix =
  am_pa :: int
  am_pb :: int
  am_pc :: int
  am_pd :: int

section \<open>Software interrupts and dispatch timing\<close>

definition kIrqDispatchCycles :: u32 where "kIrqDispatchCycles = 21"
definition kIrqPostReturnDispatchCycles :: u32 where "kIrqPostReturnDispatchCycles = 24"
definition kIrqChainedPostReturnDispatchCycles :: u32 where "kIrqChainedPostReturnDispatchCycles = 26"
definition kIrqReentryDispatchCycles :: u32 where "kIrqReentryDispatchCycles = 29"
definition kIrqReturnCycles :: u32 where "kIrqReturnCycles = 3"
definition kBiosHleLongTimerNonDataIrqDispatchExtraCycles :: u32 where "kBiosHleLongTimerNonDataIrqDispatchExtraCycles = 2"
definition kBiosHleVeryLongTimerNonDataIrqDispatchAdvanceCycles :: u32 where
  "kBiosHleVeryLongTimerNonDataIrqDispatchAdvanceCycles = 3"
definition kBiosHleSpacedTimerDataIrqDispatchAdvanceCycles :: u32 where "kBiosHleSpacedTimerDataIrqDispatchAdvanceCycles = 1"
definition kBiosHleLongTimerChainedPostReturnExtraCycles :: u32 where "kBiosHleLongTimerChainedPostReturnExtraCycles = 5"
definition kBiosHleSlowTimer0ActiveReturnExtraCycles :: u32 where "kBiosHleSlowTimer0ActiveReturnExtraCycles = 1"
definition kLooseTimerIoIrqDispatchGapCycles :: u32 where "kLooseTimerIoIrqDispatchGapCycles = 12"

lemmas bios_timing_defs = kIrqDispatchCycles_def kIrqPostReturnDispatchCycles_def kIrqChainedPostReturnDispatchCycles_def
  kIrqReentryDispatchCycles_def kIrqReturnCycles_def kBiosHleLongTimerNonDataIrqDispatchExtraCycles_def
  kBiosHleVeryLongTimerNonDataIrqDispatchAdvanceCycles_def kBiosHleSpacedTimerDataIrqDispatchAdvanceCycles_def
  kBiosHleLongTimerChainedPostReturnExtraCycles_def kBiosHleSlowTimer0ActiveReturnExtraCycles_def kLooseTimerIoIrqDispatchGapCycles_def

definition kHleHandledGbaServices :: "u8 list" where
  "kHleHandledGbaServices = [0x01, 0x02, 0x04, 0x05, 0x06, 0x07, 0x08, 0x09, 0x0A, 0x0B, 0x0C, 0x0E, 0x0F, 0x10, 0x11, 0x12,
     0x13, 0x14, 0x15, 0x16, 0x17]"

definition known_gba_service :: "u8 \<Rightarrow> bool" where
  "known_gba_service service \<longleftrightarrow> service \<in> set kHleHandledGbaServices"

definition bios_reset :: bios_execution_mode where
  "bios_reset = No_bios"

definition bios_set_mode :: "bios_execution_mode \<Rightarrow> bios_execution_mode \<Rightarrow> bios_execution_mode" where
  "bios_set_mode mode _ = mode"

definition handle_swi :: "bios_execution_mode \<Rightarrow> bios_swi_call \<Rightarrow> bios_swi_result" where
  "handle_swi mode call =
     (case mode of
        No_bios \<Rightarrow> \<lparr>swr_mode = mode, swr_status = Trap_to_vector, swr_call = call, swr_handled = False, swr_requires_bios_bytes = False\<rparr>
      | Caller_provided_bios \<Rightarrow>
          \<lparr>swr_mode = mode, swr_status = Trap_to_vector, swr_call = call, swr_handled = False, swr_requires_bios_bytes = True\<rparr>
      | Hle \<Rightarrow>
          \<lparr>swr_mode = mode,
            swr_status = (if known_gba_service (swi_service call) then Handled else Unimplemented_service),
            swr_call = call, swr_handled = known_gba_service (swi_service call), swr_requires_bios_bytes = False\<rparr>)"

definition decode_arm_swi :: "u32 \<Rightarrow> bios_swi_call" where
  "decode_arm_swi instruction =
     (let comment = instruction AND 0x00FFFFFF
      in \<lparr>swi_source = Swi_arm, swi_raw_comment = comment, swi_service = ucast (drop_bit 16 comment AND 0xFF)\<rparr>)"

definition decode_thumb_swi :: "u16 \<Rightarrow> bios_swi_call" where
  "decode_thumb_swi instruction =
     (let comment = (ucast (instruction AND 0x00FF) :: u8)
      in \<lparr>swi_source = Swi_thumb, swi_raw_comment = ucast comment, swi_service = comment\<rparr>)"

definition irq_dispatch_cycles :: "bios_irq_dispatch_timing \<Rightarrow> u32" where
  "irq_dispatch_cycles timing =
     (let long_timer_chained_post_return_dispatch =
            (bt_chained_post_return timing \<and> bt_timer0_interrupt_requested timing \<and> bt_timer0_reload timing \<le> 0xFF80);
          spaced_long_timer_data_dispatch =
            (long_timer_chained_post_return_dispatch \<and> bt_chained_post_return_spaced_data timing
             \<and> bt_timer0_reload timing \<ge> 0xF800 \<and> bt_timer0_reload timing < 0xFF80);
          chained_dispatch_cycles =
            (if long_timer_chained_post_return_dispatch \<and> \<not> bt_chained_post_return_data timing then
               (let cycles = kIrqChainedPostReturnDispatchCycles + kBiosHleLongTimerNonDataIrqDispatchExtraCycles
                in if bt_timer0_reload timing \<le> 0x8000 \<and> bt_timer_io_access_gap_cycles timing \<ge> kLooseTimerIoIrqDispatchGapCycles
                   then cycles - kBiosHleVeryLongTimerNonDataIrqDispatchAdvanceCycles else cycles)
             else if spaced_long_timer_data_dispatch
             then kIrqChainedPostReturnDispatchCycles - kBiosHleSpacedTimerDataIrqDispatchAdvanceCycles
             else kIrqChainedPostReturnDispatchCycles)
      in if bt_reentry timing then kIrqReentryDispatchCycles
         else if bt_chained_post_return timing then chained_dispatch_cycles
         else if bt_post_return timing then kIrqPostReturnDispatchCycles
         else kIrqDispatchCycles)"

definition irq_return_cycles :: "bool \<Rightarrow> bool \<Rightarrow> u32" where
  "irq_return_cycles long_timer_chained_return slow_timer0_active_return =
     kIrqReturnCycles + (if long_timer_chained_return then kBiosHleLongTimerChainedPostReturnExtraCycles else 0)
       + (if slow_timer0_active_return then kBiosHleSlowTimer0ActiveReturnExtraCycles else 0)"

section \<open>Signed arithmetic\<close>

definition i32 :: "int \<Rightarrow> bool" where
  "i32 x \<longleftrightarrow> - (2 ^ 31) \<le> x \<and> x < 2 ^ 31"

text \<open>The value of a signed expression, undefined when it does not fit.\<close>

definition fits_i32 :: "int \<Rightarrow> int throws" where
  "fits_i32 x = (if i32 x then Some x else None)"

definition checked_sdiv :: "int \<Rightarrow> int \<Rightarrow> int throws" where
  "checked_sdiv a b = (if b = 0 then None else fits_i32 (a sdiv b))"

definition wrap_i32 :: "u32 \<Rightarrow> int" where
  "wrap_i32 v = sint v"

definition wrap_u32 :: "int \<Rightarrow> u32" where
  "wrap_u32 v = word_of_int v"

definition wrap_mul_i32 :: "int \<Rightarrow> int \<Rightarrow> int" where
  "wrap_mul_i32 left right = wrap_i32 (wrap_u32 left * wrap_u32 right)"

definition wrap_shl_i32 :: "int \<Rightarrow> nat \<Rightarrow> int" where
  "wrap_shl_i32 v shift = wrap_i32 (push_bit shift (wrap_u32 v))"

definition wrap_asr_i32 :: "int \<Rightarrow> nat \<Rightarrow> int" where
  "wrap_asr_i32 v shift =
     (if shift = 0 then v
      else let raw = wrap_u32 v;
               shifted = drop_bit shift raw;
               sign_fill = (if raw AND 0x80000000 \<noteq> 0 then push_bit (32 - shift) (NOT (wrap_u32 0)) else 0)
           in wrap_i32 (shifted OR sign_fill))"

section \<open>Division and square root\<close>

definition int32_min :: int where "int32_min = - (2 ^ 31)"

definition hle_div_quotient :: "int \<Rightarrow> int \<Rightarrow> int" where
  "hle_div_quotient numerator denominator =
     (if denominator = 0 then (if numerator < 0 then - 1 else 1)
      else if denominator = - 1 \<and> numerator = int32_min then int32_min
      else numerator sdiv denominator)"

definition hle_div_remainder :: "int \<Rightarrow> int \<Rightarrow> int" where
  "hle_div_remainder numerator denominator =
     (if denominator = 0 then numerator
      else if denominator = - 1 \<and> numerator = int32_min then 0
      else numerator smod denominator)"

definition hle_div_abs_scratch :: "int \<Rightarrow> int \<Rightarrow> u32" where
  "hle_div_abs_scratch numerator denominator =
     (if denominator = 0 then 1
      else if denominator = - 1 \<and> numerator = int32_min then wrap_u32 int32_min
      else let quotient = numerator sdiv denominator; absolute = (if quotient < 0 then - quotient else quotient)
           in word_of_int absolute)"

definition hle_div_base_cycles :: "int \<Rightarrow> int \<Rightarrow> u32" where
  "hle_div_base_cycles numerator denominator =
     (if denominator = 0 \<or> (denominator = - 1 \<and> numerator = int32_min) then 330
      else let abs64 = (\<lambda>v :: int. if v < 0 then - v else v) in if abs64 numerator < abs64 denominator then 70 else 330)"

text \<open>Integer square root, digit by digit.\<close>

fun isqrt :: "nat \<Rightarrow> nat" where
  "isqrt n = (if n = 0 then 0 else let r = 2 * isqrt (n div 4) in if (r + 1) * (r + 1) \<le> n then r + 1 else r)"

declare isqrt.simps [simp del]

text \<open>\<open>std::sqrt\<close> on a double is correctly rounded (IEEE 754, to nearest): for a positive integer it is \<open>m / 2 ^ s\<close>, where \<open>s\<close> scales
  the root to a 53-bit significand and \<open>m\<close> is the integer nearest to \<open>sqrt (n * 4 ^ s)\<close>; a tie cannot occur. The conversion to an
  unsigned integer truncates.\<close>

fun bit_length :: "nat \<Rightarrow> nat" where
  "bit_length n = (if n = 0 then 0 else Suc (bit_length (n div 2)))"

declare bit_length.simps [simp del]

definition double_sqrt :: "nat \<Rightarrow> nat \<times> nat" where
  "double_sqrt n =
     (let s = 53 - bit_length (isqrt n); x = n * 4 ^ s; r = isqrt x in (if r * r + r < x then r + 1 else r, s))"

definition hle_sqrt :: "u32 \<Rightarrow> u32" where
  "hle_sqrt input = (let (m, s) = double_sqrt (unat input) in of_nat (m div 2 ^ s))"

definition hle_sqrt_base_cycles :: "u32 \<Rightarrow> u32" where
  "hle_sqrt_base_cycles v = (if v = 0 then 99 else if v \<le> 0xFF then 214 else 1130)"

section \<open>Arc tangent\<close>

text \<open>One Horner step: \<open>factor = wrap_asr_i32(wrap_mul_i32(factor, polynomial), 14) + c\<close>.\<close>

definition arc_tan_step :: "int \<Rightarrow> int \<Rightarrow> int \<Rightarrow> int throws" where
  "arc_tan_step polynomial c factor = fits_i32 (wrap_asr_i32 (wrap_mul_i32 factor polynomial) 14 + c)"

text \<open>The result with the values left in the scratch registers r1 and r3.\<close>

definition hle_arc_tan :: "int \<Rightarrow> (int \<times> int \<times> int) throws" where
  "hle_arc_tan v = do {
     let square = wrap_mul_i32 v v;
     polynomial \<leftarrow> fits_i32 (- wrap_asr_i32 square 14);
     factor \<leftarrow> foldM (arc_tan_step polynomial) [0x390, 0x91C, 0xFB6, 0x16AA, 0x2081, 0x3651, 0xA2F9] 0xA9;
     Some (sint (word_of_int (wrap_asr_i32 (wrap_mul_i32 v factor) 16) :: u16), polynomial, factor)}"

definition arc_tan_quotient :: "int \<Rightarrow> int \<Rightarrow> (int \<times> int) throws" where
  "arc_tan_quotient a b = do {
     q \<leftarrow> checked_sdiv (wrap_shl_i32 a 14) b;
     (result, r1, r3) \<leftarrow> hle_arc_tan q;
     Some (result, r1)}"

text \<open>The result and, where the code computed an arc tangent, the value of scratch register r1.\<close>

definition with_offset :: "(int \<Rightarrow> int) \<Rightarrow> (int \<times> int) throws \<Rightarrow> (int \<times> int option) throws" where
  "with_offset f r = do {(v, r1) \<leftarrow> r; w \<leftarrow> fits_i32 (f v); Some (w, Some r1)}"

definition hle_arc_tan2 :: "int \<Rightarrow> int \<Rightarrow> (int \<times> int option) throws" where
  "hle_arc_tan2 x y =
     (if y = 0 then Some (if x \<ge> 0 then 0 else 0x8000, None)
      else if x = 0 then Some (if y \<ge> 0 then 0x4000 else 0xC000, None)
      else if y \<ge> 0 then
        (if x \<ge> 0 \<and> x \<ge> y then with_offset (\<lambda>v. v) (arc_tan_quotient y x)
         else if x < 0 \<and> - x \<ge> y then with_offset (\<lambda>v. v + 0x8000) (arc_tan_quotient y x)
         else with_offset (\<lambda>v. 0x4000 - v) (arc_tan_quotient x y))
      else
        (if x \<le> 0 \<and> - x > - y then with_offset (\<lambda>v. v + 0x8000) (arc_tan_quotient y x)
         else if \<not> x \<le> 0 \<and> x \<ge> - y then with_offset (\<lambda>v. v + 0x10000) (arc_tan_quotient y x)
         else with_offset (\<lambda>v. 0xC000 - v) (arc_tan_quotient x y)))"

section \<open>Affine matrices\<close>

definition kAffineQuarterSine :: "int list" where
  "kAffineQuarterSine = [0, 402, 803, 1205, 1605, 2005, 2404, 2801, 3196, 3589, 3980, 4369, 4756, 5139, 5519, 5896,
     6269, 6639, 7005, 7366, 7723, 8075, 8423, 8765, 9102, 9434, 9759, 10079, 10393, 10701, 11002, 11297,
     11585, 11866, 12139, 12406, 12665, 12916, 13159, 13395, 13622, 13842, 14053, 14255, 14449, 14634, 14810, 14978,
     15136, 15286, 15426, 15557, 15678, 15790, 15892, 15985, 16069, 16142, 16206, 16260, 16305, 16339, 16364, 16379, 16384]"

definition affine_sine :: "u8 \<Rightarrow> int throws" where
  "affine_sine angle = do {
     let quadrant = drop_bit 6 angle;
     let offset = unat (angle AND 0x3F);
     v \<leftarrow> vec_at kAffineQuarterSine (if quadrant AND 1 \<noteq> 0 then 64 - offset else offset);
     Some (if quadrant AND 2 \<noteq> 0 then - v else v)}"

definition affine_halfword :: "int \<Rightarrow> int" where
  "affine_halfword v =
     (let bits = uint (word_of_int v :: u16) in if bits < 0x8000 then bits else bits - 0x10000)"

definition scaled :: "int \<Rightarrow> int \<Rightarrow> int throws" where
  "scaled scale trig = map_option (\<lambda>p. wrap_asr_i32 p 14) (fits_i32 (scale * trig))"

definition hle_affine_matrix_wide :: "int \<Rightarrow> int \<Rightarrow> u16 \<Rightarrow> affine_matrix throws" where
  "hle_affine_matrix_wide scale_x scale_y rotation = do {
     let angle = (ucast (drop_bit 8 rotation) :: u8);
     sine \<leftarrow> affine_sine angle;
     cosine \<leftarrow> affine_sine (angle + 64);
     pa \<leftarrow> scaled scale_x cosine;
     pb \<leftarrow> scaled scale_x sine;
     pb \<leftarrow> fits_i32 (- pb);
     pc \<leftarrow> scaled scale_y sine;
     pd \<leftarrow> scaled scale_y cosine;
     Some \<lparr>am_pa = pa, am_pb = pb, am_pc = pc, am_pd = pd\<rparr>}"

definition hle_affine_matrix :: "int \<Rightarrow> int \<Rightarrow> u16 \<Rightarrow> affine_matrix throws" where
  "hle_affine_matrix scale_x scale_y rotation =
     map_option (\<lambda>matrix. \<lparr>am_pa = affine_halfword (am_pa matrix), am_pb = affine_halfword (am_pb matrix),
         am_pc = affine_halfword (am_pc matrix), am_pd = affine_halfword (am_pd matrix)\<rparr>)
       (hle_affine_matrix_wide scale_x scale_y rotation)"

section \<open>Properties of the signed helpers\<close>

lemma i32_sint [simp]: "i32 (sint (w :: u32))"
  using sint_range_size [of w] by (simp add: i32_def word_size)

lemma sint_wrap_u32: "i32 x \<Longrightarrow> sint (wrap_u32 x) = x"
  by (simp add: i32_def wrap_u32_def signed_of_int signed_take_bit_int_eq_self)

text \<open>The shift over unsigned storage is division rounding down.\<close>

lemma wrap_asr_div:
  assumes "i32 v" and "s < 32"
  shows "wrap_asr_i32 v s = v div 2 ^ s"
proof (cases "s = 0")
  case False
  let ?raw = "wrap_u32 v"
  have sign: "?raw AND 0x80000000 \<noteq> 0 \<longleftrightarrow> bit ?raw 31"
    using and_exp_eq_0_iff_not_bit [of ?raw 31] by simp
  have "(drop_bit s ?raw OR (if bit ?raw 31 then push_bit (32 - s) (NOT (wrap_u32 0)) else 0)) = signed_drop_bit s ?raw"
    using assms(2) False
    by (intro bit_word_eqI) (auto simp: bit_simps wrap_u32_def bit_signed_drop_bit_iff not_le dest: bit_imp_le_length)
  then have "wrap_asr_i32 v s = sint (signed_drop_bit s ?raw)"
    using False by (simp add: wrap_asr_i32_def Let_def sign wrap_i32_def)
  also have "\<dots> = v div 2 ^ s"
    using sint_wrap_u32 [OF assms(1)] by (simp add: sint_signed_drop_bit_eq drop_bit_eq_div)
  finally show ?thesis .
qed (simp add: wrap_asr_i32_def)

section \<open>Division\<close>

text \<open>C35. The division service. For a nonzero denominator, quotient and remainder satisfy the division equation with truncation toward
  zero (modulo 2^32 for the single overflowing quotient, which the code pins to INT_MIN), the remainder is smaller than the denominator
  and has the sign of the numerator, all results fit their registers and r3 holds the absolute quotient; a zero denominator gives
  quotient plus or minus one and the numerator as remainder.\<close>

theorem hle_div_spec:
  fixes n d :: int
  defines "q \<equiv> hle_div_quotient n d" and "r \<equiv> hle_div_remainder n d"
  assumes n: "i32 n" and d: "i32 d"
  shows "i32 q \<and> i32 r
    \<and> (d \<noteq> 0 \<longrightarrow> wrap_u32 n = wrap_u32 (q * d + r) \<and> \<bar>r\<bar> < \<bar>d\<bar> \<and> (r = 0 \<or> sgn r = sgn n)
        \<and> hle_div_abs_scratch n d = wrap_u32 \<bar>q\<bar> \<and> (\<not> (d = - 1 \<and> n = int32_min) \<longrightarrow> n = q * d + r))
    \<and> (d = 0 \<longrightarrow> q = (if n < 0 then - 1 else 1) \<and> r = n \<and> hle_div_abs_scratch n d = 1)"
proof (cases "d = 0 \<or> (d = - 1 \<and> n = int32_min)")
  case True
  then show ?thesis
    using n by (auto simp: q_def r_def hle_div_quotient_def hle_div_remainder_def hle_div_abs_scratch_def int32_min_def i32_def
        wrap_u32_def word_of_int_eq_iff)
next
  case False
  have qr: "q = n sdiv d" "r = n smod d"
    using False by (auto simp: q_def r_def hle_div_quotient_def hle_div_remainder_def)
  have eq: "q * d + r = n"
    unfolding qr by (rule sdiv_mult_smod_eq)
  have small: "\<bar>r\<bar> < \<bar>d\<bar>"
    using smod_int_range [of d n] False by (auto simp: qr)
  have "\<bar>q\<bar> \<le> \<bar>n\<bar>"
    using sdiv_int_range [of n d] by (auto simp: qr)
  moreover have "\<bar>q\<bar> < 2 ^ 31 \<or> q = - (2 ^ 31)"
  proof (rule ccontr)
    assume "\<not> (\<bar>q\<bar> < 2 ^ 31 \<or> q = - (2 ^ 31))"
    then have "q = 2 ^ 31" "n = - (2 ^ 31)"
      using \<open>\<bar>q\<bar> \<le> \<bar>n\<bar>\<close> n by (auto simp: i32_def)
    then have "n sdiv d = - n"
      by (simp add: qr)
    then have "d = - 1"
      using int_sdiv_negated_is_minus1 [of n d] \<open>n = - (2 ^ 31)\<close> by simp
    then show False
      using False \<open>n = - (2 ^ 31)\<close> by (simp add: int32_min_def)
  qed
  ultimately have "i32 q"
    by (auto simp: i32_def)
  moreover have "i32 r"
    using small d by (auto simp: i32_def)
  moreover have "r = 0 \<or> sgn r = sgn n"
  proof -
    have "0 \<le> \<bar>n\<bar> mod \<bar>d\<bar>"
      using False by simp
    then show ?thesis
      unfolding qr signed_modulo_int_def by (cases "\<bar>n\<bar> mod \<bar>d\<bar> = 0") (auto simp: sgn_mult)
  qed
  moreover have "hle_div_abs_scratch n d = wrap_u32 \<bar>q\<bar>"
    using False by (auto simp: hle_div_abs_scratch_def wrap_u32_def Let_def qr)
  ultimately show ?thesis
    using eq small False by auto
qed

theorem hle_div_spec_witness: "(- 7 :: int) = hle_div_quotient (- 7) 2 * 2 + hle_div_remainder (- 7) 2"
  using hle_div_spec [of "- 7" 2] by (simp add: i32_def int32_min_def)

section \<open>Square root\<close>

lemma isqrt_spec: "isqrt n * isqrt n \<le> n \<and> n < (isqrt n + 1) * (isqrt n + 1)"
proof (induction n rule: isqrt.induct)
  case (1 n)
  show ?case
  proof (cases "n = 0")
    case False
    define k where "k = isqrt (n div 4)"
    have k: "k * k \<le> n div 4" "n div 4 < (k + 1) * (k + 1)"
      using 1 False by (simp_all add: k_def)
    have lower: "4 * (k * k) \<le> n"
      using k(1) by linarith
    have "4 * (n div 4) + 3 < 4 * ((k + 1) * (k + 1))"
      using k(2) by linarith
    then have upper: "n < 4 * ((k + 1) * (k + 1))"
      by linarith
    have "isqrt n = (if (2 * k + 1) * (2 * k + 1) \<le> n then 2 * k + 1 else 2 * k)"
      using False by (simp add: isqrt.simps [of n] k_def Let_def)
    then show ?thesis
      using lower upper by (auto simp: algebra_simps)
  qed (simp add: isqrt.simps)
qed

lemma bit_length_le: "n < 2 ^ k \<Longrightarrow> bit_length n \<le> k"
proof (induction k arbitrary: n)
  case (Suc k)
  then show ?case
    by (cases "n = 0") (simp_all add: bit_length.simps [of n] bit_length.simps [of 0] less_mult_imp_div_less)
qed (simp add: bit_length.simps)

text \<open>Rounding the significand to nearest never reaches the next integer.\<close>

lemma double_sqrt_floor:
  assumes "n < 2 ^ 32"
  shows "(case double_sqrt n of (m, s) \<Rightarrow> m div 2 ^ s) = isqrt n"
proof -
  define k where "k = isqrt n"
  define s where "s = 53 - bit_length k"
  define x where "x = n * 4 ^ s"
  define r where "r = isqrt x"
  define K where "K = (k + 1) * 2 ^ s"
  have k: "k * k \<le> n" "n < (k + 1) * (k + 1)"
    using isqrt_spec [of n] by (simp_all add: k_def)
  have r: "r * r \<le> x" "x < (r + 1) * (r + 1)"
    using isqrt_spec [of x] by (simp_all add: r_def)
  have four: "(4 :: nat) ^ s = 2 ^ s * 2 ^ s"
    by (simp flip: power_mult_distrib)
  have "k < 2 ^ 16"
  proof (rule ccontr)
    assume "\<not> k < 2 ^ 16"
    then have "2 ^ 16 * 2 ^ 16 \<le> k * k"
      by (intro mult_mono) simp_all
    then show False
      using k(1) assms by simp
  qed
  then have "bit_length k \<le> 16"
    by (rule bit_length_le)
  then have "37 \<le> s"
    by (simp add: s_def)
  then have "(2 :: nat) ^ 37 \<le> 2 ^ s"
    by (rule power_increasing) simp
  then have small: "k < 2 ^ s"
    using \<open>k < 2 ^ 16\<close> less_le_trans [of k "2 ^ 37" "2 ^ s"] by simp
  have lo: "k * 2 ^ s \<le> r"
  proof (rule ccontr)
    assume "\<not> k * 2 ^ s \<le> r"
    then have "(r + 1) * (r + 1) \<le> (k * 2 ^ s) * (k * 2 ^ s)"
      by (intro mult_mono) simp_all
    also have "\<dots> \<le> x"
      using mult_right_mono [OF k(1), of "4 ^ s"] by (simp add: x_def four algebra_simps)
    finally show False
      using r(2) by simp
  qed
  have "x + 4 ^ s \<le> K * K"
    using mult_right_mono [of "n + 1" "(k + 1) * (k + 1)" "4 ^ s"] k(2) by (simp add: x_def K_def four algebra_simps)
  have hi: "r + (if r * r + r < x then 1 else 0) < K"
  proof -
    have "r < K"
    proof (rule ccontr)
      assume "\<not> r < K"
      then have "K * K \<le> r * r"
        by (intro mult_mono) simp_all
      then show False
        using \<open>x + 4 ^ s \<le> K * K\<close> r(1) zero_less_power [of "4 :: nat" s] by linarith
    qed
    moreover have "r + 1 \<noteq> K" if "r * r + r < x"
    proof
      assume "r + 1 = K"
      then have "r * r + r + K = K * K"
        by (simp flip: \<open>r + 1 = K\<close>)
      then have "4 ^ s < K"
        using that \<open>x + 4 ^ s \<le> K * K\<close> by linarith
      then show False
        using mult_right_mono [of "k + 1" "2 ^ s" "2 ^ s"] small by (simp add: K_def four)
    qed
    ultimately show ?thesis
      by (cases "r * r + r < x") auto
  qed
  define m where "m = r + (if r * r + r < x then 1 else 0)"
  have "m div 2 ^ s = k"
    using lo hi by (intro div_nat_eqI) (auto simp: m_def K_def algebra_simps)
  moreover have "double_sqrt n = (m, s)"
    by (simp add: double_sqrt_def Let_def m_def r_def x_def s_def k_def)
  ultimately show ?thesis
    by (simp add: k_def)
qed

text \<open>C36. The square root service, computed in double precision, is the integer square root of every 32-bit input.\<close>

theorem hle_sqrt_spec:
  "(unat (hle_sqrt n))\<^sup>2 \<le> unat n \<and> unat n < (unat (hle_sqrt n) + 1)\<^sup>2"
proof -
  have "hle_sqrt n = of_nat (isqrt (unat n))"
    using double_sqrt_floor [of "unat n"] by (simp add: hle_sqrt_def split: prod.splits)
  moreover have "isqrt (unat n) < 4294967296"
  proof -
    have "isqrt (unat n) \<le> isqrt (unat n) * isqrt (unat n)"
      by simp
    then show ?thesis
      using isqrt_spec [of "unat n"] unat_u32_less [of n] by linarith
  qed
  ultimately have "unat (hle_sqrt n) = isqrt (unat n)"
    by (simp add: unat_of_nat)
  then show ?thesis
    using isqrt_spec [of "unat n"] by (simp add: power2_eq_square)
qed

section \<open>Arc tangent\<close>

lemma wrap_mul_i32 [simp]: "i32 (wrap_mul_i32 a b)"
  by (simp add: wrap_mul_i32_def wrap_i32_def)

lemma asr_product_range: "- (2 ^ 17) \<le> wrap_asr_i32 (wrap_mul_i32 a b) 14 \<and> wrap_asr_i32 (wrap_mul_i32 a b) 14 < 2 ^ 17"
proof -
  have "wrap_asr_i32 (wrap_mul_i32 a b) 14 = wrap_mul_i32 a b div 2 ^ 14"
    by (rule wrap_asr_div) simp_all
  moreover have "- (2 ^ 31) \<le> wrap_mul_i32 a b" "wrap_mul_i32 a b < 2 ^ 31"
    using wrap_mul_i32 [of a b] by (simp_all add: i32_def)
  ultimately show ?thesis
    using zdiv_mono1 [of "- (2 ^ 31)" "wrap_mul_i32 a b" "2 ^ 14"] zdiv_mono1 [of "wrap_mul_i32 a b" "2 ^ 31 - 1" "2 ^ 14"] by simp
qed

lemma arc_tan_step_returns: "0 \<le> c \<Longrightarrow> c < 2 ^ 16 \<Longrightarrow> \<exists>f'. arc_tan_step p c f = Some f'"
  using asr_product_range [of f p] by (simp add: arc_tan_step_def fits_i32_def i32_def)

lemma arc_tan_returns: "\<exists>v r1 r3. hle_arc_tan x = Some (v, r1, r3) \<and> - 32768 \<le> v \<and> v < 32768"
proof -
  obtain p where p: "fits_i32 (- wrap_asr_i32 (wrap_mul_i32 x x) 14) = Some p"
    using asr_product_range [of x x] by (simp add: fits_i32_def i32_def)
  have "\<exists>f'. foldM (arc_tan_step p) cs f = Some f'" if "\<forall>c \<in> set cs. 0 \<le> c \<and> c < 2 ^ 16" for cs f
    using that
  proof (induction cs arbitrary: f)
    case (Cons c cs)
    then show ?case
      using arc_tan_step_returns [of c p f] by auto
  qed simp
  from this [of "[0x390, 0x91C, 0xFB6, 0x16AA, 0x2081, 0x3651, 0xA2F9]"] obtain f where
    "foldM (arc_tan_step p) [0x390, 0x91C, 0xFB6, 0x16AA, 0x2081, 0x3651, 0xA2F9] 0xA9 = Some f"
    by auto
  moreover have "- 32768 \<le> sint w \<and> sint w < 32768" for w :: u16
    using sint_range_size [of w] by (simp add: word_size)
  ultimately show ?thesis
    using p by (simp add: hle_arc_tan_def del: foldM.simps)
qed

lemma arc_tan_quotient_returns:
  assumes "b \<noteq> 0" and "b = - 1 \<Longrightarrow> \<bar>a\<bar> \<le> 1"
  shows "\<exists>v r1. arc_tan_quotient a b = Some (v, r1) \<and> - 32768 \<le> v \<and> v < 32768"
proof -
  define s where "s = wrap_shl_i32 a 14"
  have "i32 s"
    by (simp add: s_def wrap_shl_i32_def wrap_i32_def)
  have "i32 (s sdiv b)"
  proof (cases "b = - 1")
    case True
    then have "a = 0 \<or> a = 1 \<or> a = - 1"
      using assms(2) by auto
    then have "s \<in> {0, 16384, - 16384}"
      by (auto simp: s_def wrap_shl_i32_def wrap_i32_def wrap_u32_def push_bit_eq_mult)
    then show ?thesis
      using True by (auto simp: i32_def)
  next
    case False
    have "\<bar>s sdiv b\<bar> \<le> \<bar>s\<bar>"
      using sdiv_int_range [of s b] by auto
    moreover have "s sdiv b \<noteq> 2 ^ 31 \<or> s \<noteq> - (2 ^ 31)"
    proof (rule ccontr)
      assume "\<not> (s sdiv b \<noteq> 2 ^ 31 \<or> s \<noteq> - (2 ^ 31))"
      then have "s \<noteq> 0" "s sdiv b = - s"
        by (auto simp del: minus_sdiv_eq)
      then show False
        using int_sdiv_negated_is_minus1 [of s b] False by blast
    qed
    ultimately show ?thesis
      using \<open>i32 s\<close> unfolding i32_def by arith
  qed
  then show ?thesis
    using assms(1) arc_tan_returns [of "s sdiv b"] by (auto simp: arc_tan_quotient_def checked_sdiv_def fits_i32_def s_def)
qed

lemma hle_arc_tan2_returns: "\<exists>v r1. hle_arc_tan2 x y = Some (v, r1) \<and> - 0x8000 \<le> v \<and> v \<le> 0x17FFF"
proof (cases "x = 0 \<or> y = 0")
  case True
  then show ?thesis
    by (auto simp: hle_arc_tan2_def)
next
  case False
  define good where "good r \<longleftrightarrow> (\<exists>v r1. r = Some (v, r1) \<and> - 0x8000 \<le> v \<and> v \<le> 0x17FFF)" for r :: "(int \<times> int option) throws"
  have offset: "good (with_offset f (arc_tan_quotient a b))"
    if "b \<noteq> 0" "b = - 1 \<Longrightarrow> \<bar>a\<bar> \<le> 1" "\<And>v. - 32768 \<le> v \<Longrightarrow> v < 32768 \<Longrightarrow> - 0x8000 \<le> f v \<and> f v \<le> 0x17FFF" for f a b
  proof -
    note bounds = that(3) and q = arc_tan_quotient_returns [OF that(1,2)]
    from q obtain v r1 where "arc_tan_quotient a b = Some (v, r1)" "- 32768 \<le> v" "v < 32768"
      by blast
    then show ?thesis
      using bounds [of v] by (simp add: good_def with_offset_def fits_i32_def i32_def)
  qed
  have choose: "(c \<Longrightarrow> good r) \<Longrightarrow> (\<not> c \<Longrightarrow> good r') \<Longrightarrow> good (if c then r else r')" for c r r'
    by simp
  have "good (hle_arc_tan2 x y)"
    unfolding hle_arc_tan2_def by (intro choose offset) (use False in auto)
  then show ?thesis
    by (simp add: good_def)
qed

text \<open>C37. The two-argument arc tangent never divides by zero and never overflows a signed value, for any pair of 32-bit inputs; on the
  axes it returns the exact quarter turns, and its result always lies between -0x8000 and 0x17FFF.\<close>

theorem hle_arc_tan2_defined:
  assumes "i32 x" and "i32 y"
  shows "\<exists>v r1. hle_arc_tan2 x y = Some (v, r1) \<and> - 0x8000 \<le> v \<and> v \<le> 0x17FFF
    \<and> (y = 0 \<longrightarrow> v = (if x \<ge> 0 then 0 else 0x8000)) \<and> (x = 0 \<and> y \<noteq> 0 \<longrightarrow> v = (if y > 0 then 0x4000 else 0xC000))"
  using hle_arc_tan2_returns [of x y] by (auto simp: hle_arc_tan2_def)

theorem hle_arc_tan2_defined_witness: "\<exists>v r1. hle_arc_tan2 (- 1) (- 2147483648) = Some (v, r1) \<and> v \<le> 0x17FFF"
  using hle_arc_tan2_defined [of "- 1" "- 2147483648"] by (auto simp: i32_def)

section \<open>Affine matrices\<close>

lemma sine_table: "length kAffineQuarterSine = 65" "\<forall>v \<in> set kAffineQuarterSine. 0 \<le> v \<and> v \<le> 16384"
  by (simp_all add: kAffineQuarterSine_def)

lemma affine_sine_parts:
  fixes angle :: u8
  defines "q \<equiv> unat angle div 64" and "k \<equiv> unat angle mod 64"
  shows "affine_sine angle = Some ((if q \<ge> 2 then - 1 else 1) * kAffineQuarterSine ! (if odd q then 64 - k else k))"
proof -
  have q: "q < 4"
    using unat_u8_less [of angle] less_mult_imp_div_less [of "unat angle" 4 64] by (simp add: q_def)
  have "unat (drop_bit 6 angle AND 1) = q mod 2"
    by (simp add: word_nat q_def)
  then have odd: "(drop_bit 6 angle AND 1 \<noteq> 0) = odd q"
    by (simp add: word_unat_eq_iff odd_iff_mod_2_eq_one)
  have "(drop_bit 6 angle AND 2 \<noteq> 0) = bit (unat (drop_bit 6 angle)) 1"
    using and_exp_eq_0_iff_not_bit [of "drop_bit 6 angle" 1] by (simp add: bit_unsigned_iff)
  also have "\<dots> = odd (q div 2)"
    by (simp add: bit_iff_odd word_nat q_def)
  also have "\<dots> = (q \<ge> 2)"
    using q by presburger
  finally have two: "(drop_bit 6 angle AND 2 \<noteq> 0) = (q \<ge> 2)" .
  have "unat (angle AND 0x3F) = k"
    using unat_and_mask [of angle 6] by (simp add: k_def mask_eq_exp_minus_1)
  moreover have "k < 64"
    by (simp add: k_def)
  ultimately show ?thesis
    by (simp add: affine_sine_def Let_def odd two sine_table(1))
qed

lemma affine_sine_range: "\<exists>v. affine_sine angle = Some v \<and> \<bar>v\<bar> \<le> 16384"
proof -
  have "kAffineQuarterSine ! j \<in> set kAffineQuarterSine" if "j < 65" for j
    using that by (simp add: sine_table(1))
  then have "0 \<le> kAffineQuarterSine ! j \<and> kAffineQuarterSine ! j \<le> 16384" if "j < 65" for j
    using that sine_table(2) by blast
  moreover have "(if odd (unat angle div 64) then 64 - unat angle mod 64 else unat angle mod 64) < 65"
    using mod_less_divisor [of 64 "unat angle"] by auto
  ultimately show ?thesis
    unfolding affine_sine_parts by fastforce
qed

lemma scaled_value:
  assumes "- 32768 \<le> scale" "scale \<le> 32767" "\<bar>trig\<bar> \<le> 16384"
  shows "scaled scale trig = Some (scale * trig div 2 ^ 14)" "\<bar>scale * trig div 2 ^ 14\<bar> \<le> 32768"
proof -
  have "\<bar>scale * trig\<bar> \<le> 32768 * 16384"
    unfolding abs_mult using assms by (intro mult_mono) auto
  then have p: "- 536870912 \<le> scale * trig" "scale * trig \<le> 536870912"
    by auto
  then have "i32 (scale * trig)"
    by (simp add: i32_def)
  then show "scaled scale trig = Some (scale * trig div 2 ^ 14)"
    using wrap_asr_div [of "scale * trig" 14] by (simp add: scaled_def fits_i32_def)
  show "\<bar>scale * trig div 2 ^ 14\<bar> \<le> 32768"
    using zdiv_mono1 [of "- 536870912" "scale * trig" "2 ^ 14"] zdiv_mono1 [of "scale * trig" "536870912" "2 ^ 14"] p by simp
qed

text \<open>Affine matrices. For all signed halfword scales and every rotation, no product overflows; the coefficients are the products of
  scale and table sine or cosine, divided by 2^14 rounding down, with the sign of the second applied after rounding; each has magnitude at
  most 0x8000, and an angle of zero gives the diagonal matrix of the scales.\<close>

lemma hle_affine_matrix_spec:
  assumes "- 32768 \<le> sx" "sx \<le> 32767" "- 32768 \<le> sy" "sy \<le> 32767"
  shows "\<exists>s c m. affine_sine (ucast (drop_bit 8 rotation)) = Some s \<and> affine_sine (ucast (drop_bit 8 rotation) + 64) = Some c
    \<and> hle_affine_matrix_wide sx sy rotation = Some m
    \<and> am_pa m = sx * c div 2 ^ 14 \<and> am_pb m = - (sx * s div 2 ^ 14) \<and> am_pc m = sy * s div 2 ^ 14 \<and> am_pd m = sy * c div 2 ^ 14
    \<and> (\<forall>v \<in> {am_pa m, am_pb m, am_pc m, am_pd m}. \<bar>v\<bar> \<le> 0x8000)
    \<and> (unat rotation < 256 \<longrightarrow> m = \<lparr>am_pa = sx, am_pb = 0, am_pc = 0, am_pd = sy\<rparr>
        \<and> hle_affine_matrix sx sy rotation = Some m)"
proof -
  let ?a = "ucast (drop_bit 8 rotation) :: u8"
  obtain s c where sc: "affine_sine ?a = Some s" "\<bar>s\<bar> \<le> 16384" "affine_sine (?a + 64) = Some c" "\<bar>c\<bar> \<le> 16384"
    using affine_sine_range by blast
  note sx = scaled_value [OF assms(1,2) sc(4)] scaled_value [OF assms(1,2) sc(2)]
  note sy = scaled_value [OF assms(3,4) sc(4)] scaled_value [OF assms(3,4) sc(2)]
  define m where "m = \<lparr>am_pa = sx * c div 2 ^ 14, am_pb = - (sx * s div 2 ^ 14), am_pc = sy * s div 2 ^ 14, am_pd = sy * c div 2 ^ 14\<rparr>"
  have "i32 (- (sx * s div 2 ^ 14))"
    using sx(4) by (simp add: i32_def abs_le_iff)
  then have w: "hle_affine_matrix_wide sx sy rotation = Some m"
    using sc sx sy by (simp add: hle_affine_matrix_wide_def Let_def fits_i32_def m_def)
  have zero: "m = \<lparr>am_pa = sx, am_pb = 0, am_pc = 0, am_pd = sy\<rparr> \<and> hle_affine_matrix sx sy rotation = Some m" if "unat rotation < 256"
  proof -
    have "?a = 0"
      using that by (simp add: word_unat_eq_iff word_nat)
    then have "s = 0" "c = 16384"
      using sc affine_sine_parts [of 0] affine_sine_parts [of 64] by (simp_all add: kAffineQuarterSine_def)
    then have "m = \<lparr>am_pa = sx, am_pb = 0, am_pc = 0, am_pd = sy\<rparr>"
      by (simp add: m_def)
    moreover have "affine_halfword v = v" if "- 32768 \<le> v" "v \<le> 32767" for v
    proof -
      have "uint (word_of_int v :: u16) = v mod 65536"
        by (simp add: uint_word_of_int)
      also have "\<dots> = (if v < 0 then v + 65536 else v)"
        using that mod_pos_pos_trivial [of v 65536] mod_pos_pos_trivial [of "v + 65536" 65536] by auto
      finally show ?thesis
        using that by (simp add: affine_halfword_def Let_def)
    qed
    ultimately show ?thesis
      using w assms by (simp add: hle_affine_matrix_def)
  qed
  have coefficients: "am_pa m = sx * c div 2 ^ 14" "am_pb m = - (sx * s div 2 ^ 14)" "am_pc m = sy * s div 2 ^ 14" "am_pd m = sy * c div 2 ^ 14"
    unfolding m_def affine_matrix.simps by (rule refl)+
  then have "\<forall>v \<in> {am_pa m, am_pb m, am_pc m, am_pd m}. \<bar>v\<bar> \<le> 0x8000"
    using sx(2,4) sy(2,4) unfolding abs_minus_cancel ball_simps by (simp del: One_nat_def)
  then show ?thesis
    using sc(1,3) w zero coefficients by blast
qed

end
