(* ===== verification/Cpu_State.thy ===== *)
theory Cpu_State
  imports State_Hash
begin

text \<open>
  The programmer's model of the ARM7TDMI, \<open>src/src/core/arm7tdmi.cpp\<close>: the visible registers, the storage of the registers each mode
  banks, the status registers, the condition codes, exceptions and the save state. \<open>CpuMode\<close> is an enumeration over a byte that
  \<open>load_state\<close> and the save state codec fill from untrusted data, so it is the byte itself here, and every \<open>switch\<close> on it has the fall
  through of the code. \<open>std::array::at\<close> throws outside the array, so a register access is a value of \<open>throws\<close>.
\<close>

section \<open>Enumerations\<close>

datatype arm_condition = Cond_eq | Cond_ne | Cond_cs | Cond_cc | Cond_mi | Cond_pl | Cond_vs | Cond_vc
  | Cond_hi | Cond_ls | Cond_ge | Cond_lt | Cond_gt | Cond_le | Cond_al

datatype exception_kind = Exc_reset | Exc_undefined_instruction | Exc_software_interrupt | Exc_prefetch_abort
  | Exc_data_abort | Exc_irq | Exc_fiq

datatype execute_status = Executed | Skipped_condition | Unsupported

type_synonym cpu_mode = u8

definition mode_user :: cpu_mode where "mode_user = 0x10"
definition mode_fiq :: cpu_mode where "mode_fiq = 0x11"
definition mode_irq :: cpu_mode where "mode_irq = 0x12"
definition mode_supervisor :: cpu_mode where "mode_supervisor = 0x13"
definition mode_abort :: cpu_mode where "mode_abort = 0x17"
definition mode_undefined :: cpu_mode where "mode_undefined = 0x1B"
definition mode_system :: cpu_mode where "mode_system = 0x1F"

lemmas mode_defs = mode_user_def mode_fiq_def mode_irq_def mode_supervisor_def mode_abort_def mode_undefined_def mode_system_def

definition kNegativeFlag :: u32 where "kNegativeFlag = 0x80000000"
definition kZeroFlag :: u32 where "kZeroFlag = 0x40000000"
definition kCarryFlag :: u32 where "kCarryFlag = 0x20000000"
definition kOverflowFlag :: u32 where "kOverflowFlag = 0x10000000"
definition kThumbStateFlag :: u32 where "kThumbStateFlag = 0x00000020"
definition kFiqDisableFlag :: u32 where "kFiqDisableFlag = 0x00000040"
definition kIrqDisableFlag :: u32 where "kIrqDisableFlag = 0x00000080"
definition kModeMask :: u32 where "kModeMask = 0x0000001F"
definition kControlByteMask :: u32 where "kControlByteMask = 0x000000FF"

lemmas psr_flag_defs = kNegativeFlag_def kZeroFlag_def kCarryFlag_def kOverflowFlag_def kThumbStateFlag_def kFiqDisableFlag_def
  kIrqDisableFlag_def kModeMask_def kControlByteMask_def

definition kRegisterCount :: nat where "kRegisterCount = 16"
definition kLinkRegister :: u8 where "kLinkRegister = 14"
definition kPc :: u8 where "kPc = 15"

definition decode_cpu_mode :: "u32 \<Rightarrow> cpu_mode option" where
  "decode_cpu_mode v =
     (let mode = ucast (v AND kModeMask) in
      if mode \<in> {mode_user, mode_fiq, mode_irq, mode_supervisor, mode_abort, mode_undefined, mode_system} then Some mode else None)"

definition mode_has_spsr :: "cpu_mode \<Rightarrow> bool" where
  "mode_has_spsr mode \<longleftrightarrow> mode = mode_fiq \<or> mode = mode_irq \<or> mode = mode_supervisor \<or> mode = mode_abort \<or> mode = mode_undefined"

section \<open>State\<close>

record arm7tdmi =
  cpu_registers :: "u32 list"
  cpu_elapsed_cycles :: u64
  cpu_negative :: bool
  cpu_zero :: bool
  cpu_carry :: bool
  cpu_overflow :: bool
  cpu_irq_disabled :: bool
  cpu_fiq_disabled :: bool
  cpu_thumb_state :: bool
  cpu_mode :: cpu_mode
  cpu_shared_r8_r12 :: "u32 list"
  cpu_fiq_r8_r12 :: "u32 list"
  cpu_user_sp :: u32
  cpu_user_lr :: u32
  cpu_fiq_sp :: u32
  cpu_fiq_lr :: u32
  cpu_irq_sp :: u32
  cpu_irq_lr :: u32
  cpu_supervisor_sp :: u32
  cpu_supervisor_lr :: u32
  cpu_abort_sp :: u32
  cpu_abort_lr :: u32
  cpu_undefined_sp :: u32
  cpu_undefined_lr :: u32
  cpu_fiq_spsr :: u32
  cpu_supervisor_spsr :: u32
  cpu_abort_spsr :: u32
  cpu_irq_spsr :: u32
  cpu_undefined_spsr :: u32

definition arm_reset :: arm7tdmi where
  "arm_reset =
     \<lparr>cpu_registers = vec_fill kRegisterCount 0, cpu_elapsed_cycles = 0, cpu_negative = False, cpu_zero = False, cpu_carry = False,
      cpu_overflow = False, cpu_irq_disabled = False, cpu_fiq_disabled = False, cpu_thumb_state = False, cpu_mode = mode_supervisor,
      cpu_shared_r8_r12 = vec_fill 5 0, cpu_fiq_r8_r12 = vec_fill 5 0, cpu_user_sp = 0, cpu_user_lr = 0, cpu_fiq_sp = 0, cpu_fiq_lr = 0,
      cpu_irq_sp = 0, cpu_irq_lr = 0, cpu_supervisor_sp = 0, cpu_supervisor_lr = 0, cpu_abort_sp = 0, cpu_abort_lr = 0,
      cpu_undefined_sp = 0, cpu_undefined_lr = 0, cpu_fiq_spsr = 0, cpu_supervisor_spsr = 0, cpu_abort_spsr = 0, cpu_irq_spsr = 0,
      cpu_undefined_spsr = 0\<rparr>"

definition reset_elapsed_cycles :: "arm7tdmi \<Rightarrow> arm7tdmi" where
  "reset_elapsed_cycles c = c\<lparr>cpu_elapsed_cycles := 0\<rparr>"

text \<open>The save state has the fields of the class, so it is a value of the same record.\<close>

definition arm_save_state :: "arm7tdmi \<Rightarrow> arm7tdmi" where
  "arm_save_state c = c"

definition arm_load_state :: "arm7tdmi \<Rightarrow> arm7tdmi \<Rightarrow> bool \<times> arm7tdmi" where
  "arm_load_state st c = (if decode_cpu_mode (ucast (cpu_mode st)) = None then (False, c) else (True, st))"

text \<open>The register file: \<open>registers_.at(index)\<close> read and written.\<close>

definition reg :: "arm7tdmi \<Rightarrow> u8 \<Rightarrow> u32 throws" where
  "reg c index = vec_at (cpu_registers c) (unat index)"

definition set_reg :: "u8 \<Rightarrow> u32 \<Rightarrow> arm7tdmi \<Rightarrow> arm7tdmi throws" where
  "set_reg index v c = map_option (\<lambda>rs. c\<lparr>cpu_registers := rs\<rparr>) (vec_put (cpu_registers c) (unat index) v)"

definition register_value :: "u8 \<Rightarrow> arm7tdmi \<Rightarrow> u32 throws" where
  "register_value index c = (if unat index \<ge> length (cpu_registers c) then None else reg c index)"

definition set_register :: "u8 \<Rightarrow> u32 \<Rightarrow> arm7tdmi \<Rightarrow> arm7tdmi throws" where
  "set_register index v c = (if unat index \<ge> length (cpu_registers c) then None else set_reg index v c)"

definition arm_visible_register_value :: "arm7tdmi \<Rightarrow> u8 \<Rightarrow> u32 throws" where
  "arm_visible_register_value c index = do {v \<leftarrow> reg c index; Some (if index = kPc then v + 8 else v)}"

definition thumb_visible_register_value :: "arm7tdmi \<Rightarrow> u8 \<Rightarrow> u32 throws" where
  "thumb_visible_register_value c index = do {v \<leftarrow> reg c index; Some (if index = kPc then (v + 4) AND NOT 1 else v)}"

definition arm_state_hash :: "arm7tdmi \<Rightarrow> u64" where
  "arm_state_hash c =
     (let h = fold add_u32 (cpu_registers c) kOffsetBasis;
          h = add_u64 (cpu_elapsed_cycles c) h;
          h = fold add_bool [cpu_negative c, cpu_zero c, cpu_carry c, cpu_overflow c, cpu_irq_disabled c, cpu_fiq_disabled c,
                cpu_thumb_state c] h;
          h = add_u8 (cpu_mode c) h;
          h = fold add_u32 (cpu_shared_r8_r12 c) h;
          h = fold add_u32 (cpu_fiq_r8_r12 c) h
      in fold add_u32 [cpu_user_sp c, cpu_user_lr c, cpu_fiq_sp c, cpu_fiq_lr c, cpu_irq_sp c, cpu_irq_lr c, cpu_supervisor_sp c,
           cpu_supervisor_lr c, cpu_abort_sp c, cpu_abort_lr c, cpu_undefined_sp c, cpu_undefined_lr c, cpu_fiq_spsr c,
           cpu_supervisor_spsr c, cpu_abort_spsr c, cpu_irq_spsr c, cpu_undefined_spsr c] h)"

section \<open>Banked registers\<close>

definition save_banked_registers :: "cpu_mode \<Rightarrow> arm7tdmi \<Rightarrow> arm7tdmi throws" where
  "save_banked_registers mode c = do {
     r8_r12 \<leftarrow> vec_slice (cpu_registers c) 8 5;
     let c = (if mode = mode_fiq then c\<lparr>cpu_fiq_r8_r12 := r8_r12\<rparr> else c\<lparr>cpu_shared_r8_r12 := r8_r12\<rparr>);
     sp \<leftarrow> reg c 13;
     lr \<leftarrow> reg c 14;
     Some (if mode = mode_fiq then c\<lparr>cpu_fiq_sp := sp, cpu_fiq_lr := lr\<rparr>
       else if mode = mode_irq then c\<lparr>cpu_irq_sp := sp, cpu_irq_lr := lr\<rparr>
       else if mode = mode_supervisor then c\<lparr>cpu_supervisor_sp := sp, cpu_supervisor_lr := lr\<rparr>
       else if mode = mode_abort then c\<lparr>cpu_abort_sp := sp, cpu_abort_lr := lr\<rparr>
       else if mode = mode_undefined then c\<lparr>cpu_undefined_sp := sp, cpu_undefined_lr := lr\<rparr>
       else if mode = mode_user \<or> mode = mode_system then c\<lparr>cpu_user_sp := sp, cpu_user_lr := lr\<rparr>
       else c)}"

definition banked_sp_lr :: "cpu_mode \<Rightarrow> arm7tdmi \<Rightarrow> (u32 \<times> u32) option" where
  "banked_sp_lr mode c =
     (if mode = mode_fiq then Some (cpu_fiq_sp c, cpu_fiq_lr c)
      else if mode = mode_irq then Some (cpu_irq_sp c, cpu_irq_lr c)
      else if mode = mode_supervisor then Some (cpu_supervisor_sp c, cpu_supervisor_lr c)
      else if mode = mode_abort then Some (cpu_abort_sp c, cpu_abort_lr c)
      else if mode = mode_undefined then Some (cpu_undefined_sp c, cpu_undefined_lr c)
      else if mode = mode_user \<or> mode = mode_system then Some (cpu_user_sp c, cpu_user_lr c)
      else None)"

definition load_banked_registers :: "cpu_mode \<Rightarrow> arm7tdmi \<Rightarrow> arm7tdmi throws" where
  "load_banked_registers mode c = do {
     rs \<leftarrow> vec_blit (cpu_registers c) 8 (if mode = mode_fiq then cpu_fiq_r8_r12 c else cpu_shared_r8_r12 c);
     let c = c\<lparr>cpu_registers := rs\<rparr>;
     case banked_sp_lr mode c of
       None \<Rightarrow> Some c
     | Some (sp, lr) \<Rightarrow> do {c \<leftarrow> set_reg 13 sp c; set_reg 14 lr c}}"

definition switch_mode :: "cpu_mode \<Rightarrow> arm7tdmi \<Rightarrow> arm7tdmi throws" where
  "switch_mode mode c =
     (if cpu_mode c = mode then Some c
      else do {
        c \<leftarrow> save_banked_registers (cpu_mode c) c;
        load_banked_registers mode (c\<lparr>cpu_mode := mode\<rparr>)})"

section \<open>Status registers\<close>

definition cpsr :: "arm7tdmi \<Rightarrow> u32" where
  "cpsr c = ucast (cpu_mode c)
     OR (if cpu_negative c then kNegativeFlag else 0) OR (if cpu_zero c then kZeroFlag else 0)
     OR (if cpu_carry c then kCarryFlag else 0) OR (if cpu_overflow c then kOverflowFlag else 0)
     OR (if cpu_thumb_state c then kThumbStateFlag else 0) OR (if cpu_fiq_disabled c then kFiqDisableFlag else 0)
     OR (if cpu_irq_disabled c then kIrqDisableFlag else 0)"

definition set_cpsr :: "u32 \<Rightarrow> arm7tdmi \<Rightarrow> (bool \<times> arm7tdmi) throws" where
  "set_cpsr v c =
     (case decode_cpu_mode v of
        None \<Rightarrow> Some (False, c)
      | Some mode \<Rightarrow> do {
          c \<leftarrow> switch_mode mode (c\<lparr>cpu_negative := v AND kNegativeFlag \<noteq> 0, cpu_zero := v AND kZeroFlag \<noteq> 0,
            cpu_carry := v AND kCarryFlag \<noteq> 0, cpu_overflow := v AND kOverflowFlag \<noteq> 0,
            cpu_thumb_state := v AND kThumbStateFlag \<noteq> 0, cpu_fiq_disabled := v AND kFiqDisableFlag \<noteq> 0,
            cpu_irq_disabled := v AND kIrqDisableFlag \<noteq> 0\<rparr>);
          Some (True, c)})"

definition has_spsr :: "arm7tdmi \<Rightarrow> bool" where
  "has_spsr c = mode_has_spsr (cpu_mode c)"

definition spsr :: "arm7tdmi \<Rightarrow> u32 option" where
  "spsr c =
     (if cpu_mode c = mode_fiq then Some (cpu_fiq_spsr c)
      else if cpu_mode c = mode_supervisor then Some (cpu_supervisor_spsr c)
      else if cpu_mode c = mode_abort then Some (cpu_abort_spsr c)
      else if cpu_mode c = mode_irq then Some (cpu_irq_spsr c)
      else if cpu_mode c = mode_undefined then Some (cpu_undefined_spsr c)
      else None)"

definition set_spsr_for_mode :: "cpu_mode \<Rightarrow> u32 \<Rightarrow> arm7tdmi \<Rightarrow> arm7tdmi" where
  "set_spsr_for_mode mode v c =
     (if mode = mode_fiq then c\<lparr>cpu_fiq_spsr := v\<rparr>
      else if mode = mode_supervisor then c\<lparr>cpu_supervisor_spsr := v\<rparr>
      else if mode = mode_abort then c\<lparr>cpu_abort_spsr := v\<rparr>
      else if mode = mode_irq then c\<lparr>cpu_irq_spsr := v\<rparr>
      else if mode = mode_undefined then c\<lparr>cpu_undefined_spsr := v\<rparr>
      else c)"

definition set_spsr :: "u32 \<Rightarrow> arm7tdmi \<Rightarrow> bool \<times> arm7tdmi" where
  "set_spsr v c =
     (if cpu_mode c = mode_fiq then (True, c\<lparr>cpu_fiq_spsr := v\<rparr>)
      else if cpu_mode c = mode_supervisor then (True, c\<lparr>cpu_supervisor_spsr := v\<rparr>)
      else if cpu_mode c = mode_abort then (True, c\<lparr>cpu_abort_spsr := v\<rparr>)
      else if cpu_mode c = mode_irq then (True, c\<lparr>cpu_irq_spsr := v\<rparr>)
      else if cpu_mode c = mode_undefined then (True, c\<lparr>cpu_undefined_spsr := v\<rparr>)
      else (False, c))"

section \<open>Conditions and flags\<close>

fun condition_passed :: "arm7tdmi \<Rightarrow> arm_condition \<Rightarrow> bool" where
  "condition_passed c Cond_eq = cpu_zero c"
| "condition_passed c Cond_ne = (\<not> cpu_zero c)"
| "condition_passed c Cond_cs = cpu_carry c"
| "condition_passed c Cond_cc = (\<not> cpu_carry c)"
| "condition_passed c Cond_mi = cpu_negative c"
| "condition_passed c Cond_pl = (\<not> cpu_negative c)"
| "condition_passed c Cond_vs = cpu_overflow c"
| "condition_passed c Cond_vc = (\<not> cpu_overflow c)"
| "condition_passed c Cond_hi = (cpu_carry c \<and> \<not> cpu_zero c)"
| "condition_passed c Cond_ls = (\<not> cpu_carry c \<or> cpu_zero c)"
| "condition_passed c Cond_ge = (cpu_negative c = cpu_overflow c)"
| "condition_passed c Cond_lt = (cpu_negative c \<noteq> cpu_overflow c)"
| "condition_passed c Cond_gt = (\<not> cpu_zero c \<and> cpu_negative c = cpu_overflow c)"
| "condition_passed c Cond_le = (cpu_zero c \<or> cpu_negative c \<noteq> cpu_overflow c)"
| "condition_passed c Cond_al = True"

definition sign_bit :: "u32 \<Rightarrow> bool" where
  "sign_bit v \<longleftrightarrow> v AND 0x80000000 \<noteq> 0"

definition set_nz :: "u32 \<Rightarrow> arm7tdmi \<Rightarrow> arm7tdmi" where
  "set_nz result c = c\<lparr>cpu_negative := sign_bit result, cpu_zero := result = 0\<rparr>"

definition set_nz64 :: "u64 \<Rightarrow> arm7tdmi \<Rightarrow> arm7tdmi" where
  "set_nz64 result c = c\<lparr>cpu_negative := result AND 0x8000000000000000 \<noteq> 0, cpu_zero := result = 0\<rparr>"

definition set_add_flags :: "u32 \<Rightarrow> u32 \<Rightarrow> u32 \<Rightarrow> arm7tdmi \<Rightarrow> arm7tdmi" where
  "set_add_flags left right result c = (set_nz result c)
     \<lparr>cpu_carry := result < left, cpu_overflow := sign_bit left = sign_bit right \<and> sign_bit left \<noteq> sign_bit result\<rparr>"

definition set_adc_flags :: "u32 \<Rightarrow> u32 \<Rightarrow> bool \<Rightarrow> u32 \<Rightarrow> arm7tdmi \<Rightarrow> arm7tdmi" where
  "set_adc_flags left right carry_in result c =
     (let sum = ucast left + ucast right + (if carry_in then 1 else 0) :: u64
      in (set_nz result c)
         \<lparr>cpu_carry := sum > 0xFFFFFFFF, cpu_overflow := sign_bit left = sign_bit right \<and> sign_bit left \<noteq> sign_bit result\<rparr>)"

definition set_sub_flags :: "u32 \<Rightarrow> u32 \<Rightarrow> u32 \<Rightarrow> arm7tdmi \<Rightarrow> arm7tdmi" where
  "set_sub_flags left right result c = (set_nz result c)
     \<lparr>cpu_carry := left \<ge> right, cpu_overflow := sign_bit left \<noteq> sign_bit right \<and> sign_bit left \<noteq> sign_bit result\<rparr>"

definition set_sbc_flags :: "u32 \<Rightarrow> u32 \<Rightarrow> bool \<Rightarrow> u32 \<Rightarrow> arm7tdmi \<Rightarrow> arm7tdmi" where
  "set_sbc_flags left right carry_in result c =
     (let subtrahend = ucast right + (if carry_in then 0 else 1) :: u64
      in (set_nz result c)
         \<lparr>cpu_carry := (ucast left :: u64) \<ge> subtrahend,
          cpu_overflow := sign_bit left \<noteq> sign_bit right \<and> sign_bit left \<noteq> sign_bit result\<rparr>)"

section \<open>Exceptions\<close>

record exception_vector_entry =
  ev_vector_address :: u32
  ev_mode :: cpu_mode
  ev_link_offset :: u32
  ev_save_cpsr :: bool
  ev_disable_irq :: bool
  ev_disable_fiq :: bool

definition vector_entry :: "u32 \<Rightarrow> cpu_mode \<Rightarrow> u32 \<Rightarrow> bool \<Rightarrow> bool \<Rightarrow> bool \<Rightarrow> exception_vector_entry" where
  "vector_entry address mode offset save irq fiq =
     \<lparr>ev_vector_address = address, ev_mode = mode, ev_link_offset = offset, ev_save_cpsr = save, ev_disable_irq = irq,
      ev_disable_fiq = fiq\<rparr>"

primrec exception_vector :: "exception_kind \<Rightarrow> exception_vector_entry" where
  "exception_vector Exc_reset = vector_entry 0x00 mode_supervisor 0 False True True"
| "exception_vector Exc_undefined_instruction = vector_entry 0x04 mode_undefined 4 True True False"
| "exception_vector Exc_software_interrupt = vector_entry 0x08 mode_supervisor 4 True True False"
| "exception_vector Exc_prefetch_abort = vector_entry 0x0C mode_abort 4 True True False"
| "exception_vector Exc_data_abort = vector_entry 0x10 mode_abort 8 True True False"
| "exception_vector Exc_irq = vector_entry 0x18 mode_irq 4 True True False"
| "exception_vector Exc_fiq = vector_entry 0x1C mode_fiq 4 True True True"

definition irq_vector_address :: u32 where "irq_vector_address = 0x00000018"

definition is_irq_vector_address :: "u32 \<Rightarrow> bool" where
  "is_irq_vector_address address \<longleftrightarrow> address = irq_vector_address"

definition enter_exception :: "exception_kind \<Rightarrow> arm7tdmi \<Rightarrow> (execute_status \<times> arm7tdmi) throws" where
  "enter_exception kind c =
     (let vector = exception_vector kind; saved_cpsr = cpsr c in do {
      saved_pc \<leftarrow> reg c kPc;
      c \<leftarrow> switch_mode (ev_mode vector) c;
      c \<leftarrow> (if ev_save_cpsr vector
            then set_reg kLinkRegister
              (saved_pc + (if saved_cpsr AND kThumbStateFlag \<noteq> 0 \<and> (kind = Exc_irq \<or> kind = Exc_software_interrupt) then 2
                           else ev_link_offset vector))
              (set_spsr_for_mode (ev_mode vector) saved_cpsr c)
            else Some c);
      c \<leftarrow> set_reg kPc (ev_vector_address vector)
        (c\<lparr>cpu_thumb_state := False, cpu_irq_disabled := cpu_irq_disabled c \<or> ev_disable_irq vector,
           cpu_fiq_disabled := cpu_fiq_disabled c \<or> ev_disable_fiq vector\<rparr>);
      Some (Executed, c)})"

definition return_from_exception :: "u32 \<Rightarrow> arm7tdmi \<Rightarrow> (execute_status \<times> arm7tdmi) throws" where
  "return_from_exception link_adjustment c =
     (case spsr c of
        None \<Rightarrow> Some (Unsupported, c)
      | Some saved_psr \<Rightarrow> do {
          lr \<leftarrow> reg c kLinkRegister;
          (accepted, c) \<leftarrow> set_cpsr saved_psr c;
          if \<not> accepted then Some (Unsupported, c)
          else do {c \<leftarrow> set_reg kPc (lr - link_adjustment) c; Some (Executed, c)}})"

end
