(* ===== verification/Cpu_Banks.thy ===== *)
theory Cpu_Banks
  imports Cpu_State
begin

text \<open>
  Correctness of the programmer's model: the well-formedness of a processor state, the register banks against an abstract register file
  that gives every mode its own view of the registers, the packing of CPSR, and the pairing of exception entry and return.
\<close>

section \<open>Well-formedness\<close>

definition valid_modes :: "cpu_mode set" where
  "valid_modes = {mode_user, mode_fiq, mode_irq, mode_supervisor, mode_abort, mode_undefined, mode_system}"

definition cpu_wf :: "arm7tdmi \<Rightarrow> bool" where
  "cpu_wf c \<longleftrightarrow> length (cpu_registers c) = 16 \<and> length (cpu_shared_r8_r12 c) = 5 \<and> length (cpu_fiq_r8_r12 c) = 5
     \<and> cpu_mode c \<in> valid_modes"

lemma cpu_wf_lengths:
  "cpu_wf c \<Longrightarrow> length (cpu_registers c) = 16" "cpu_wf c \<Longrightarrow> length (cpu_shared_r8_r12 c) = 5"
  "cpu_wf c \<Longrightarrow> length (cpu_fiq_r8_r12 c) = 5" "cpu_wf c \<Longrightarrow> cpu_mode c \<in> valid_modes"
  by (simp_all add: cpu_wf_def)

lemma valid_modes_cases:
  assumes "m \<in> valid_modes"
  obtains "m = mode_user" | "m = mode_fiq" | "m = mode_irq" | "m = mode_supervisor" | "m = mode_abort" | "m = mode_undefined"
    | "m = mode_system"
  using assms by (auto simp: valid_modes_def)

lemma mode_distinct [simp]:
  "mode_user \<noteq> mode_fiq" "mode_user \<noteq> mode_irq" "mode_user \<noteq> mode_supervisor" "mode_user \<noteq> mode_abort" "mode_user \<noteq> mode_undefined"
  "mode_user \<noteq> mode_system" "mode_fiq \<noteq> mode_user" "mode_fiq \<noteq> mode_irq" "mode_fiq \<noteq> mode_supervisor" "mode_fiq \<noteq> mode_abort"
  "mode_fiq \<noteq> mode_undefined" "mode_fiq \<noteq> mode_system" "mode_irq \<noteq> mode_user" "mode_irq \<noteq> mode_fiq" "mode_irq \<noteq> mode_supervisor"
  "mode_irq \<noteq> mode_abort" "mode_irq \<noteq> mode_undefined" "mode_irq \<noteq> mode_system" "mode_supervisor \<noteq> mode_user"
  "mode_supervisor \<noteq> mode_fiq" "mode_supervisor \<noteq> mode_irq" "mode_supervisor \<noteq> mode_abort" "mode_supervisor \<noteq> mode_undefined"
  "mode_supervisor \<noteq> mode_system" "mode_abort \<noteq> mode_user" "mode_abort \<noteq> mode_fiq" "mode_abort \<noteq> mode_irq"
  "mode_abort \<noteq> mode_supervisor" "mode_abort \<noteq> mode_undefined" "mode_abort \<noteq> mode_system" "mode_undefined \<noteq> mode_user"
  "mode_undefined \<noteq> mode_fiq" "mode_undefined \<noteq> mode_irq" "mode_undefined \<noteq> mode_supervisor" "mode_undefined \<noteq> mode_abort"
  "mode_undefined \<noteq> mode_system" "mode_system \<noteq> mode_user" "mode_system \<noteq> mode_fiq" "mode_system \<noteq> mode_irq"
  "mode_system \<noteq> mode_supervisor" "mode_system \<noteq> mode_abort" "mode_system \<noteq> mode_undefined"
  by (simp_all add: mode_defs)

lemma reg_in [simp]: "cpu_wf c \<Longrightarrow> unat i < 16 \<Longrightarrow> reg c i = Some (cpu_registers c ! unat i)"
  by (simp add: reg_def cpu_wf_def)

lemma set_reg_in [simp]: "cpu_wf c \<Longrightarrow> unat i < 16 \<Longrightarrow> set_reg i v c = Some (c\<lparr>cpu_registers := (cpu_registers c)[unat i := v]\<rparr>)"
  by (simp add: set_reg_def cpu_wf_def)

lemma pc_lr_index [simp]: "unat kPc = 15" "unat kLinkRegister = 14"
  by (simp_all add: kPc_def kLinkRegister_def)

text \<open>Updates of fields other than the arrays and the mode keep a state well formed.\<close>

lemma cpu_wf_update [simp]:
  "cpu_wf (c\<lparr>cpu_registers := (cpu_registers c)[i := v]\<rparr>) = cpu_wf c"
  "cpu_wf (c\<lparr>cpu_negative := b\<rparr>) = cpu_wf c" "cpu_wf (c\<lparr>cpu_zero := b\<rparr>) = cpu_wf c" "cpu_wf (c\<lparr>cpu_carry := b\<rparr>) = cpu_wf c"
  "cpu_wf (c\<lparr>cpu_overflow := b\<rparr>) = cpu_wf c" "cpu_wf (c\<lparr>cpu_thumb_state := b\<rparr>) = cpu_wf c"
  "cpu_wf (c\<lparr>cpu_irq_disabled := b\<rparr>) = cpu_wf c" "cpu_wf (c\<lparr>cpu_fiq_disabled := b\<rparr>) = cpu_wf c"
  "cpu_wf (c\<lparr>cpu_elapsed_cycles := n\<rparr>) = cpu_wf c" "cpu_wf (c\<lparr>cpu_user_sp := w\<rparr>) = cpu_wf c" "cpu_wf (c\<lparr>cpu_user_lr := w\<rparr>) = cpu_wf c"
  by (simp_all add: cpu_wf_def)

lemma cpu_wf_flags [simp]:
  "cpu_wf (set_nz r c) = cpu_wf c" "cpu_wf (set_nz64 r64 c) = cpu_wf c" "cpu_wf (set_add_flags a b r c) = cpu_wf c"
  "cpu_wf (set_adc_flags a b d r c) = cpu_wf c" "cpu_wf (set_sub_flags a b r c) = cpu_wf c" "cpu_wf (set_sbc_flags a b d r c) = cpu_wf c"
  by (simp_all add: set_nz_def set_nz64_def set_add_flags_def set_adc_flags_def set_sub_flags_def set_sbc_flags_def Let_def cpu_wf_def)

lemma cpu_registers_flags [simp]:
  "cpu_registers (set_nz r c) = cpu_registers c" "cpu_registers (set_nz64 r64 c) = cpu_registers c"
  "cpu_registers (set_add_flags a b r c) = cpu_registers c" "cpu_registers (set_adc_flags a b d r c) = cpu_registers c"
  "cpu_registers (set_sub_flags a b r c) = cpu_registers c" "cpu_registers (set_sbc_flags a b d r c) = cpu_registers c"
  by (simp_all add: set_nz_def set_nz64_def set_add_flags_def set_adc_flags_def set_sub_flags_def set_sbc_flags_def Let_def)

lemma cpu_wf_set_spsr [simp]: "cpu_wf (set_spsr_for_mode m v c) = cpu_wf c" "cpu_wf (snd (set_spsr v c)) = cpu_wf c"
  by (simp_all add: set_spsr_for_mode_def set_spsr_def cpu_wf_def)

lemma arm_reset_wf [simp]: "cpu_wf arm_reset"
  by (simp add: cpu_wf_def arm_reset_def kRegisterCount_def valid_modes_def)

section \<open>The register file behind the banks\<close>

text \<open>
  \<open>bank_view c m i\<close> is the value register \<open>i\<close> has for code that runs in mode \<open>m\<close>: the visible register when the current mode shares the
  physical register with \<open>m\<close>, the bank storage otherwise.
\<close>

definition sp_lr_bank :: "cpu_mode \<Rightarrow> cpu_mode" where
  "sp_lr_bank m = (if m = mode_system then mode_user else m)"

definition same_physical :: "cpu_mode \<Rightarrow> cpu_mode \<Rightarrow> nat \<Rightarrow> bool" where
  "same_physical m m' i \<longleftrightarrow>
     (if i < 8 \<or> i = 15 then True else if i < 13 then (m = mode_fiq) = (m' = mode_fiq) else sp_lr_bank m = sp_lr_bank m')"

definition bank_storage :: "arm7tdmi \<Rightarrow> cpu_mode \<Rightarrow> nat \<Rightarrow> u32" where
  "bank_storage c m i =
     (if i < 13 then (if m = mode_fiq then cpu_fiq_r8_r12 c else cpu_shared_r8_r12 c) ! (i - 8)
      else (if i = 13 then fst else snd) (the (banked_sp_lr m c)))"

definition bank_view :: "arm7tdmi \<Rightarrow> cpu_mode \<Rightarrow> nat \<Rightarrow> u32" where
  "bank_view c m i = (if same_physical m (cpu_mode c) i then cpu_registers c ! i else bank_storage c m i)"

text \<open>The fields a mode switch does not touch.\<close>

definition status_fields ::
  "arm7tdmi \<Rightarrow> u64 \<times> (bool \<times> bool \<times> bool \<times> bool \<times> bool \<times> bool \<times> bool) \<times> (u32 \<times> u32 \<times> u32 \<times> u32 \<times> u32)" where
  "status_fields c = (cpu_elapsed_cycles c,
     (cpu_negative c, cpu_zero c, cpu_carry c, cpu_overflow c, cpu_irq_disabled c, cpu_fiq_disabled c, cpu_thumb_state c),
     (cpu_fiq_spsr c, cpu_supervisor_spsr c, cpu_abort_spsr c, cpu_irq_spsr c, cpu_undefined_spsr c))"

lemma banked_sp_lr_update [simp]:
  "banked_sp_lr m (c\<lparr>cpu_registers := rs\<rparr>) = banked_sp_lr m c" "banked_sp_lr m (c\<lparr>cpu_mode := m'\<rparr>) = banked_sp_lr m c"
  by (simp_all add: banked_sp_lr_def)

lemma bank_storage_registers [simp]: "bank_storage (c\<lparr>cpu_registers := rs\<rparr>) m i = bank_storage c m i"
  by (simp add: bank_storage_def)

lemma save_banked_registers_in:
  assumes "cpu_wf c"
  shows "\<exists>c'. save_banked_registers (cpu_mode c) c = Some c' \<and> cpu_wf c' \<and> cpu_registers c' = cpu_registers c
    \<and> cpu_mode c' = cpu_mode c \<and> status_fields c' = status_fields c
    \<and> (\<forall>m \<in> valid_modes. \<forall>i. 8 \<le> i \<longrightarrow> i < 15 \<longrightarrow> bank_storage c' m i = bank_view c m i)"
proof -
  note l = cpu_wf_lengths [OF assms]
  let ?r = "take 5 (drop 8 (cpu_registers c))"
  have slice: "vec_slice (cpu_registers c) 8 5 = Some ?r"
    using l by (simp add: vec_slice_def)
  have r: "?r ! (i - 8) = cpu_registers c ! i" if "8 \<le> i" "i < 13" for i
    using that l by simp
  have at14: "(cpu_registers c ! 14 = cpu_registers c ! i) = True" if "i \<noteq> 13" "\<not> i < 13" "i < 15" for i
    using that by (cases "i = 14") auto
  from l(4) show ?thesis
    by (rule valid_modes_cases)
      (use assms in \<open>auto simp: save_banked_registers_def slice bank_storage_def bank_view_def same_physical_def sp_lr_bank_def
        banked_sp_lr_def cpu_wf_def valid_modes_def r at14 status_fields_def reg_def\<close>)
qed

lemma load_banked_registers_in:
  assumes "cpu_wf c" and "m \<in> valid_modes"
  shows "\<exists>rs. load_banked_registers m c = Some (c\<lparr>cpu_registers := rs\<rparr>) \<and> length rs = 16
    \<and> (\<forall>i < 16. rs ! i = (if 8 \<le> i \<and> i < 15 then bank_storage c m i else cpu_registers c ! i))"
proof -
  note l = cpu_wf_lengths [OF assms(1)]
  let ?b = "if m = mode_fiq then cpu_fiq_r8_r12 c else cpu_shared_r8_r12 c"
  let ?r = "take 8 (cpu_registers c) @ ?b @ drop 13 (cpu_registers c)"
  have blit: "vec_blit (cpu_registers c) 8 ?b = Some ?r"
    using l by (simp add: vec_blit_def)
  obtain sp lr where bank: "banked_sp_lr m c = Some (sp, lr)"
    using assms(2) by (rule valid_modes_cases) (auto simp: banked_sp_lr_def)
  define rs where "rs = ?r[13 := sp, 14 := lr]"
  have len: "length rs = 16"
    using l by (simp add: rs_def)
  have result: "load_banked_registers m c = Some (c\<lparr>cpu_registers := rs\<rparr>)"
    using l blit bank by (simp add: load_banked_registers_def set_reg_def rs_def Let_def)
  have "rs ! i = (if 8 \<le> i \<and> i < 15 then bank_storage c m i else cpu_registers c ! i)" if i: "i < 16" for i
  proof -
    consider "i < 8" | "8 \<le> i" "i < 13" "i - 8 < 5" | "i = 13" | "i = 14" | "i = 15"
      using i by linarith
    then show ?thesis
      by cases (use l bank in \<open>simp_all add: rs_def nth_append bank_storage_def\<close>)
  qed
  then show ?thesis
    using result len by blast
qed

lemma switch_mode_in:
  assumes "cpu_wf c" and "m \<in> valid_modes"
  shows "\<exists>c'. switch_mode m c = Some c' \<and> cpu_wf c' \<and> cpu_mode c' = m \<and> status_fields c' = status_fields c
    \<and> (\<forall>m' \<in> valid_modes. \<forall>i < 16. bank_view c' m' i = bank_view c m' i)"
proof (cases "cpu_mode c = m")
  case True
  then show ?thesis
    using assms by (simp add: switch_mode_def)
next
  case False
  obtain s where s: "save_banked_registers (cpu_mode c) c = Some s" "cpu_wf s" "cpu_registers s = cpu_registers c"
    "cpu_mode s = cpu_mode c" "status_fields s = status_fields c"
    and store: "\<And>m i. m \<in> valid_modes \<Longrightarrow> 8 \<le> i \<Longrightarrow> i < 15 \<Longrightarrow> bank_storage s m i = bank_view c m i"
    using save_banked_registers_in [OF assms(1)] by blast
  let ?t = "s\<lparr>cpu_mode := m\<rparr>"
  have t: "cpu_wf ?t"
    using s(2) assms(2) by (simp add: cpu_wf_def)
  obtain rs where rs: "load_banked_registers m ?t = Some (?t\<lparr>cpu_registers := rs\<rparr>)" "length rs = 16"
    and at: "\<And>i. i < 16 \<Longrightarrow> rs ! i = (if 8 \<le> i \<and> i < 15 then bank_storage ?t m i else cpu_registers ?t ! i)"
    using load_banked_registers_in [OF t assms(2)] by blast
  let ?c' = "?t\<lparr>cpu_registers := rs\<rparr>"
  have storage: "bank_storage (s\<lparr>cpu_mode := m, cpu_registers := xs\<rparr>) m' i = bank_storage s m' i"
    "bank_storage ?t m' i = bank_storage s m' i" for m' i xs
    by (simp_all add: bank_storage_def banked_sp_lr_def)
  have view: "bank_view ?c' m' i = bank_view c m' i" if m': "m' \<in> valid_modes" and i: "i < 16" for m' i
  proof (cases "8 \<le> i \<and> i < 15")
    case range: True
    show ?thesis
    proof (cases "same_physical m' m i")
      case same: True
      then have "bank_view c m' i = bank_view c m i"
        using range by (auto simp: bank_view_def same_physical_def sp_lr_bank_def bank_storage_def banked_sp_lr_def split: if_splits)
      then show ?thesis
        using same range i at [OF i] store [OF assms(2)] by (simp add: bank_view_def storage)
    next
      case False
      then show ?thesis
        using range i store [OF m'] by (simp add: bank_view_def [of ?c'] storage)
    qed
  next
    case False
    then show ?thesis
      using i at [OF i] s(3) by (auto simp: bank_view_def same_physical_def)
  qed
  have "switch_mode m c = Some ?c'"
    using False s(1) rs(1) by (simp add: switch_mode_def)
  moreover have "cpu_wf ?c'"
    using t rs(2) by (simp add: cpu_wf_def)
  moreover have "status_fields ?c' = status_fields c"
    using s(5) by (simp add: status_fields_def)
  ultimately show ?thesis
    using view by auto
qed

text \<open>C5. Register banking. A read of a visible register is the view of the current mode; a write changes exactly the views that share the
  written physical register; a mode switch to any of the seven modes changes no mode's view of any register and no status field.\<close>

theorem register_banks_refine:
  assumes "cpu_wf c"
  shows "(\<forall>i. unat i < 16 \<longrightarrow> reg c i = Some (bank_view c (cpu_mode c) (unat i)))
    \<and> (\<forall>i v. unat i < 16 \<longrightarrow> (\<exists>c'. set_reg i v c = Some c' \<and> cpu_wf c' \<and> cpu_mode c' = cpu_mode c
          \<and> (\<forall>m \<in> valid_modes. \<forall>j < 16. bank_view c' m j
              = (if j = unat i \<and> same_physical m (cpu_mode c) j then v else bank_view c m j))))
    \<and> (\<forall>m \<in> valid_modes. \<exists>c'. switch_mode m c = Some c' \<and> cpu_wf c' \<and> cpu_mode c' = m \<and> status_fields c' = status_fields c
          \<and> (\<forall>m' \<in> valid_modes. \<forall>j < 16. bank_view c' m' j = bank_view c m' j))"
proof -
  have "bank_view c (cpu_mode c) j = cpu_registers c ! j" for j
    by (simp add: bank_view_def same_physical_def)
  moreover have "bank_view (c\<lparr>cpu_registers := (cpu_registers c)[k := v]\<rparr>) m j
      = (if j = k \<and> same_physical m (cpu_mode c) j then v else bank_view c m j)" if "k < 16" for k v m j
    using assms that by (auto simp: bank_view_def cpu_wf_def nth_list_update)
  ultimately show ?thesis
    using assms switch_mode_in [OF assms] by simp
qed

theorem register_banks_refine_witness: "\<exists>c'. switch_mode mode_irq arm_reset = Some c' \<and> cpu_mode c' = mode_irq"
  using register_banks_refine [of arm_reset] by (auto simp: valid_modes_def)

section \<open>CPSR\<close>

lemma psr_flag_bits [flag_bits]:
  "v AND kNegativeFlag = 0 \<longleftrightarrow> \<not> bit v 31" "v AND kZeroFlag = 0 \<longleftrightarrow> \<not> bit v 30" "v AND kCarryFlag = 0 \<longleftrightarrow> \<not> bit v 29"
  "v AND kOverflowFlag = 0 \<longleftrightarrow> \<not> bit v 28" "v AND kThumbStateFlag = 0 \<longleftrightarrow> \<not> bit v 5" "v AND kFiqDisableFlag = 0 \<longleftrightarrow> \<not> bit v 6"
  "v AND kIrqDisableFlag = 0 \<longleftrightarrow> \<not> bit v 7"
  unfolding psr_flag_defs by (rule and_exp_flag; simp)+

lemma single_flag: "(if v AND m \<noteq> 0 then m else 0) = v AND m" if "m = 2 ^ n" for v m :: u32
  using that by (cases "bit v n") (auto intro!: bit_word_eqI simp: bit_simps and_exp_eq_0_iff_not_bit)

lemma psr_flag_selects:
  "(if v AND kNegativeFlag \<noteq> 0 then kNegativeFlag else 0) = v AND kNegativeFlag"
  "(if v AND kZeroFlag \<noteq> 0 then kZeroFlag else 0) = v AND kZeroFlag"
  "(if v AND kCarryFlag \<noteq> 0 then kCarryFlag else 0) = v AND kCarryFlag"
  "(if v AND kOverflowFlag \<noteq> 0 then kOverflowFlag else 0) = v AND kOverflowFlag"
  "(if v AND kThumbStateFlag \<noteq> 0 then kThumbStateFlag else 0) = v AND kThumbStateFlag"
  "(if v AND kFiqDisableFlag \<noteq> 0 then kFiqDisableFlag else 0) = v AND kFiqDisableFlag"
  "(if v AND kIrqDisableFlag \<noteq> 0 then kIrqDisableFlag else 0) = v AND kIrqDisableFlag"
  using single_flag [of kNegativeFlag 31] single_flag [of kZeroFlag 30] single_flag [of kCarryFlag 29]
    single_flag [of kOverflowFlag 28] single_flag [of kThumbStateFlag 5] single_flag [of kFiqDisableFlag 6]
    single_flag [of kIrqDisableFlag 7]
  by (simp_all add: psr_flag_defs)

lemma not_bit_u8: "8 \<le> n \<Longrightarrow> \<not> bit (m :: u8) n"
  by (auto dest: bit_imp_le_length)

lemma valid_mode_bits:
  assumes "m \<in> valid_modes"
  shows "\<not> bit m 5" "\<not> bit m 6" "\<not> bit m 7"
  using assms by (auto simp: valid_modes_def mode_defs)

lemma cpsr_bits:
  assumes "cpu_wf c"
  shows "bit (cpsr c) 31 = cpu_negative c" "bit (cpsr c) 30 = cpu_zero c" "bit (cpsr c) 29 = cpu_carry c"
    "bit (cpsr c) 28 = cpu_overflow c" "bit (cpsr c) 7 = cpu_irq_disabled c" "bit (cpsr c) 6 = cpu_fiq_disabled c"
    "bit (cpsr c) 5 = cpu_thumb_state c"
  using valid_mode_bits [OF cpu_wf_lengths(4) [OF assms]] 
  by (simp_all add: cpsr_def psr_flag_defs bit_simps not_bit_u8)

lemma decode_cpu_mode_valid: "decode_cpu_mode v = Some m \<Longrightarrow> m \<in> valid_modes \<and> ucast m = v AND 0x1F"
proof -
  assume "decode_cpu_mode v = Some m"
  then have m: "m = ucast (v AND 0x1F)" "m \<in> valid_modes"
    by (simp_all add: decode_cpu_mode_def Let_def kModeMask_def valid_modes_def split: if_splits)
  have "unat (v AND 0x1F) = unat v mod 32"
    using unat_and_mask [of v 5] by (simp add: mask_eq_exp_minus_1)
  then have "unat (ucast (v AND 0x1F) :: u8) = unat (v AND 0x1F)"
    by (simp add: unat_ucast_narrow)
  then show ?thesis
    using m by (simp add: word_unat_eq_iff)
qed

lemma decode_cpsr: "cpu_wf c \<Longrightarrow> decode_cpu_mode (cpsr c) = Some (cpu_mode c)"
proof -
  assume wf: "cpu_wf c"
  have "cpsr c AND kModeMask = ucast (cpu_mode c)"
    unfolding cpsr_def bit.conj_disj_distrib2
    using cpu_wf_lengths(4) [OF wf] by (auto simp: valid_modes_def mode_defs psr_flag_defs)
  moreover have "ucast (ucast (cpu_mode c) :: u32) = cpu_mode c"
    by (simp add: word_unat_eq_iff word_nat)
  ultimately show ?thesis
    using cpu_wf_lengths(4) [OF wf] by (simp add: decode_cpu_mode_def valid_modes_def)
qed

lemma set_cpsr_in:
  assumes wf: "cpu_wf c" and d: "decode_cpu_mode v = Some m"
  shows "\<exists>c'. set_cpsr v c = Some (True, c') \<and> cpu_wf c' \<and> cpu_mode c' = m \<and> cpsr c' = v AND 0xF00000FF
    \<and> cpu_elapsed_cycles c' = cpu_elapsed_cycles c
    \<and> (\<forall>m' \<in> valid_modes. \<forall>i < 16. bank_view c' m' i = bank_view c m' i)"
proof -
  note m = decode_cpu_mode_valid [OF d]
  let ?f = "c\<lparr>cpu_negative := v AND kNegativeFlag \<noteq> 0, cpu_zero := v AND kZeroFlag \<noteq> 0,
    cpu_carry := v AND kCarryFlag \<noteq> 0, cpu_overflow := v AND kOverflowFlag \<noteq> 0, cpu_thumb_state := v AND kThumbStateFlag \<noteq> 0,
    cpu_fiq_disabled := v AND kFiqDisableFlag \<noteq> 0, cpu_irq_disabled := v AND kIrqDisableFlag \<noteq> 0\<rparr>"
  have f: "cpu_wf ?f" "bank_view ?f m' i = bank_view c m' i" for m' i
    using wf by (simp_all add: cpu_wf_def bank_view_def bank_storage_def banked_sp_lr_def)
  obtain c' where c': "switch_mode m ?f = Some c'" "cpu_wf c'" "cpu_mode c' = m" "status_fields c' = status_fields ?f"
    "\<forall>m' \<in> valid_modes. \<forall>i < 16. bank_view c' m' i = bank_view ?f m' i"
    using switch_mode_in [OF f(1) conjunct1 [OF m]] by blast
  have "cpsr c' = (v AND 0x1F) OR (v AND kNegativeFlag) OR (v AND kZeroFlag) OR (v AND kCarryFlag) OR (v AND kOverflowFlag)
      OR (v AND kThumbStateFlag) OR (v AND kFiqDisableFlag) OR (v AND kIrqDisableFlag)"
    using c'(3,4) m by (simp add: cpsr_def status_fields_def psr_flag_selects split del: if_split)
  also have "\<dots> = v AND 0xF00000FF"
    by (simp add: psr_flag_defs flip: bit.conj_disj_distrib)
  finally have "cpsr c' = v AND 0xF00000FF" .
  then show ?thesis
    using c' d f(2) by (simp add: set_cpsr_def status_fields_def)
qed

text \<open>CPSR. Writing back the value read changes nothing; writing any value whose mode bits are valid succeeds, changes no mode's view
  of a register, and reads back as its defined bits; writing any other value is refused and changes nothing.\<close>

lemma cpsr_write_read:
  assumes "cpu_wf c"
  shows "set_cpsr (cpsr c) c = Some (True, c)
    \<and> (case decode_cpu_mode v of
         None \<Rightarrow> set_cpsr v c = Some (False, c)
       | Some m \<Rightarrow> \<exists>c'. set_cpsr v c = Some (True, c') \<and> cpu_wf c' \<and> cpu_mode c' = m \<and> cpsr c' = v AND 0xF00000FF
           \<and> (\<forall>m' \<in> valid_modes. \<forall>i < 16. bank_view c' m' i = bank_view c m' i))"
proof -
  have "set_cpsr (cpsr c) c = Some (True, c)"
    using assms by (simp add: set_cpsr_def decode_cpsr switch_mode_def flag_bits cpsr_bits)
  moreover have "set_cpsr v c = Some (False, c)" if "decode_cpu_mode v = None"
    using that by (simp add: set_cpsr_def)
  ultimately show ?thesis
    using set_cpsr_in [OF assms] by (cases "decode_cpu_mode v") fastforce+
qed

section \<open>Exceptions\<close>

definition link_offset_of :: "exception_kind \<Rightarrow> arm7tdmi \<Rightarrow> u32" where
  "link_offset_of kind c =
     (if cpu_thumb_state c \<and> (kind = Exc_irq \<or> kind = Exc_software_interrupt) then 2 else ev_link_offset (exception_vector kind))"

lemma exception_vector_fields:
  "ev_mode (exception_vector kind) \<in> valid_modes" "ev_mode (exception_vector kind) \<noteq> mode_user"
  "ev_mode (exception_vector kind) \<noteq> mode_system" "ev_save_cpsr (exception_vector kind) \<longleftrightarrow> kind \<noteq> Exc_reset"
  "ev_disable_irq (exception_vector kind)" "mode_has_spsr (ev_mode (exception_vector kind))"
  by (cases kind; simp add: vector_entry_def valid_modes_def mode_has_spsr_def)+

lemma spsr_set_for_mode:
  "mode_has_spsr m \<Longrightarrow> cpu_mode c = m \<Longrightarrow> spsr (set_spsr_for_mode m v c) = Some v"
  by (auto simp: mode_has_spsr_def spsr_def set_spsr_for_mode_def)

lemma spsr_updates [simp]:
  "spsr (c\<lparr>cpu_registers := rs\<rparr>) = spsr c" "spsr (c\<lparr>cpu_thumb_state := b\<rparr>) = spsr c"
  "spsr (c\<lparr>cpu_irq_disabled := b\<rparr>) = spsr c" "spsr (c\<lparr>cpu_fiq_disabled := b\<rparr>) = spsr c"
  by (simp_all add: spsr_def)

lemma set_spsr_for_mode_fields [simp]:
  "cpu_registers (set_spsr_for_mode m v c) = cpu_registers c" "cpu_mode (set_spsr_for_mode m v c) = cpu_mode c"
  "cpu_shared_r8_r12 (set_spsr_for_mode m v c) = cpu_shared_r8_r12 c" "cpu_fiq_r8_r12 (set_spsr_for_mode m v c) = cpu_fiq_r8_r12 c"
  "bank_view (set_spsr_for_mode m v c) m' i = bank_view c m' i"
  by (simp_all add: set_spsr_for_mode_def bank_view_def bank_storage_def banked_sp_lr_def)

lemma bank_view_updates [simp]:
  "bank_view (c\<lparr>cpu_thumb_state := b\<rparr>) m i = bank_view c m i" "bank_view (c\<lparr>cpu_irq_disabled := b\<rparr>) m i = bank_view c m i"
  "bank_view (c\<lparr>cpu_fiq_disabled := b\<rparr>) m i = bank_view c m i"
  by (simp_all add: bank_view_def bank_storage_def banked_sp_lr_def)

lemma bank_view_write:
  "cpu_wf c \<Longrightarrow> k < 16 \<Longrightarrow> bank_view (c\<lparr>cpu_registers := (cpu_registers c)[k := v]\<rparr>) m j
      = (if j = k \<and> same_physical m (cpu_mode c) j then v else bank_view c m j)"
  by (auto simp: bank_view_def cpu_wf_def nth_list_update)

lemma bank_view_current: "bank_view c (cpu_mode c) j = cpu_registers c ! j"
  by (simp add: bank_view_def same_physical_def)

lemma enter_exception_in:
  assumes wf: "cpu_wf c"
  shows "\<exists>c'. enter_exception kind c = Some (Executed, c') \<and> cpu_wf c' \<and> cpu_mode c' = ev_mode (exception_vector kind)
    \<and> cpu_registers c' ! 15 = ev_vector_address (exception_vector kind)
    \<and> \<not> cpu_thumb_state c' \<and> cpu_irq_disabled c' \<and> cpu_fiq_disabled c' = (cpu_fiq_disabled c \<or> ev_disable_fiq (exception_vector kind))
    \<and> (kind \<noteq> Exc_reset \<longrightarrow> spsr c' = Some (cpsr c) \<and> cpu_registers c' ! 14 = cpu_registers c ! 15 + link_offset_of kind c)
    \<and> (\<forall>m \<in> valid_modes. \<forall>i < 15. i \<noteq> 14 \<or> m \<noteq> cpu_mode c' \<or> kind = Exc_reset \<longrightarrow> bank_view c' m i = bank_view c m i)"
proof -
  note ev = exception_vector_fields [of kind]
  define mode where "mode = ev_mode (exception_vector kind)"
  obtain s where s: "switch_mode mode c = Some s" "cpu_wf s" "cpu_mode s = mode" "status_fields s = status_fields c"
    and view: "\<And>m i. m \<in> valid_modes \<Longrightarrow> i < 16 \<Longrightarrow> bank_view s m i = bank_view c m i"
    using switch_mode_in [OF wf ev(1)] unfolding mode_def by blast
  have thumb: "cpsr c AND kThumbStateFlag \<noteq> 0 \<longleftrightarrow> cpu_thumb_state c"
    using cpsr_bits [OF wf] by (simp add: flag_bits)
  let ?v = "cpu_registers c ! 15 + link_offset_of kind c"
  define t where "t = (if kind = Exc_reset then s
    else (let s' = set_spsr_for_mode mode (cpsr c) s in s'\<lparr>cpu_registers := (cpu_registers s)[14 := ?v]\<rparr>))"
  have twf: "cpu_wf t"
    using s(2) by (simp add: t_def Let_def cpu_wf_def)
  have linked: "(if ev_save_cpsr (exception_vector kind)
      then set_reg kLinkRegister (cpu_registers c ! 15 + (if cpsr c AND kThumbStateFlag \<noteq> 0 \<and> (kind = Exc_irq \<or> kind = Exc_software_interrupt)
             then 2 else ev_link_offset (exception_vector kind))) (set_spsr_for_mode mode (cpsr c) s)
      else Some s) = Some t"
    using s(2) ev(4) thumb by (simp add: t_def link_offset_of_def Let_def)
  let ?f = "t\<lparr>cpu_thumb_state := False, cpu_irq_disabled := cpu_irq_disabled t \<or> ev_disable_irq (exception_vector kind),
      cpu_fiq_disabled := cpu_fiq_disabled t \<or> ev_disable_fiq (exception_vector kind)\<rparr>"
  let ?c' = "?f\<lparr>cpu_registers := (cpu_registers t)[15 := ev_vector_address (exception_vector kind)]\<rparr>"
  have result: "enter_exception kind c = Some (Executed, ?c')"
    unfolding enter_exception_def Let_def reg_in [OF wf, of kPc, simplified] mode_def [symmetric] Option.bind_lunit s(1) linked
    using twf by simp
  have tmode: "cpu_mode t = mode"
    using s(3) by (simp add: t_def Let_def)
  have tview: "bank_view t m i = bank_view c m i"
    if "m \<in> valid_modes" "i < 15" "i \<noteq> 14 \<or> m \<noteq> mode \<or> kind = Exc_reset" for m i
  proof -
    have "\<not> same_physical m mode 14" if "m \<noteq> mode"
      using that ev(2,3) by (auto simp: same_physical_def sp_lr_bank_def mode_def)
    then show ?thesis
      using that view [of m i] bank_view_write [of "set_spsr_for_mode mode (cpsr c) s" 14 ?v m i] s(2,3)
      by (auto simp: t_def Let_def)
  qed
  have "spsr t = Some (cpsr c) \<and> cpu_registers t ! 14 = ?v" if "kind \<noteq> Exc_reset"
    using that ev(6) s(2,3) cpu_wf_lengths(1) [OF s(2)] by (simp add: t_def Let_def spsr_set_for_mode mode_def)
  moreover have "cpu_fiq_disabled t = cpu_fiq_disabled c"
    using s(4) by (simp add: t_def Let_def set_spsr_for_mode_def status_fields_def)
  moreover have "bank_view ?c' m i = bank_view t m i" if "i < 15" for m i
    using bank_view_write [of ?f 15 "ev_vector_address (exception_vector kind)" m i] twf that by simp
  moreover have "cpu_wf ?c'"
    using twf by (simp add: cpu_wf_def)
  ultimately show ?thesis
    using result tmode tview ev(5) cpu_wf_lengths(1) [OF twf] by (simp add: mode_def)
qed

text \<open>C32. Exception entry. Every exception is entered: the mode, the vector address, ARM state and the interrupt masks are those of its vector;
  an exception that saves CPSR finds the old CPSR in its SPSR and the link address in its own LR; no other register of any mode changes.\<close>

theorem exception_entry:
  assumes "cpu_wf c"
  shows "\<exists>c'. enter_exception kind c = Some (Executed, c') \<and> cpu_wf c' \<and> cpu_mode c' = ev_mode (exception_vector kind)
    \<and> cpu_registers c' ! 15 = ev_vector_address (exception_vector kind)
    \<and> \<not> cpu_thumb_state c' \<and> cpu_irq_disabled c' \<and> cpu_fiq_disabled c' = (cpu_fiq_disabled c \<or> ev_disable_fiq (exception_vector kind))
    \<and> (kind \<noteq> Exc_reset \<longrightarrow> spsr c' = Some (cpsr c) \<and> cpu_registers c' ! 14 = cpu_registers c ! 15 + link_offset_of kind c)
    \<and> (\<forall>m \<in> valid_modes. \<forall>i < 15. i \<noteq> 14 \<or> m \<noteq> cpu_mode c' \<or> kind = Exc_reset \<longrightarrow> bank_view c' m i = bank_view c m i)"
  by (rule enter_exception_in [OF assms])

theorem exception_entry_witness:
  "\<exists>c'. enter_exception Exc_irq arm_reset = Some (Executed, c') \<and> cpu_mode c' = mode_irq \<and> cpu_registers c' ! 15 = 0x18"
  using exception_entry [of arm_reset Exc_irq] by (auto simp: vector_entry_def)

text \<open>C7. Exceptions return. An exception taken from another mode, returned from with the offset that was linked, restores CPSR, the mode, the
  PC and every visible register.\<close>

theorem exception_round_trip:
  assumes "cpu_wf c" and "kind \<noteq> Exc_reset" and "cpu_mode c \<noteq> ev_mode (exception_vector kind)"
  shows "\<exists>c1 c2. enter_exception kind c = Some (Executed, c1) \<and> return_from_exception (link_offset_of kind c) c1 = Some (Executed, c2)
    \<and> cpu_registers c2 = cpu_registers c \<and> cpu_mode c2 = cpu_mode c \<and> cpsr c2 = cpsr c"
proof -
  obtain c1 where c1: "enter_exception kind c = Some (Executed, c1)" "cpu_wf c1" "cpu_mode c1 = ev_mode (exception_vector kind)"
    "spsr c1 = Some (cpsr c)" "cpu_registers c1 ! 14 = cpu_registers c ! 15 + link_offset_of kind c"
    and view1: "\<And>m i. m \<in> valid_modes \<Longrightarrow> i < 15 \<Longrightarrow> m \<noteq> cpu_mode c1 \<Longrightarrow> bank_view c1 m i = bank_view c m i"
    using enter_exception_in [OF assms(1), of kind] assms(2) by blast
  have masked: "cpsr c AND 0xF00000FF = cpsr c"
    using set_cpsr_in [OF assms(1) decode_cpsr [OF assms(1)]] assms(1)
    by (simp add: set_cpsr_def decode_cpsr switch_mode_def flag_bits cpsr_bits)
  obtain c' where c': "set_cpsr (cpsr c) c1 = Some (True, c')" "cpu_wf c'" "cpu_mode c' = cpu_mode c" "cpsr c' = cpsr c"
    and view2: "\<And>m i. m \<in> valid_modes \<Longrightarrow> i < 16 \<Longrightarrow> bank_view c' m i = bank_view c1 m i"
    using set_cpsr_in [OF c1(2) decode_cpsr [OF assms(1)]] masked by auto
  let ?c2 = "c'\<lparr>cpu_registers := (cpu_registers c')[15 := cpu_registers c ! 15]\<rparr>"
  have "return_from_exception (link_offset_of kind c) c1 = Some (Executed, ?c2)"
    using c1(2,4,5) c'(1,2) by (simp add: return_from_exception_def)
  moreover have "cpu_registers ?c2 = cpu_registers c"
  proof (rule nth_equalityI)
    fix i assume "i < length (cpu_registers ?c2)"
    then have i: "i < 16"
      using cpu_wf_lengths(1) [OF c'(2)] by simp
    have m: "cpu_mode c \<in> valid_modes" "cpu_mode c \<noteq> cpu_mode c1"
      using cpu_wf_lengths(4) [OF assms(1)] assms(3) c1(3) by simp_all
    have "cpu_registers c' ! i = cpu_registers c ! i" if "i \<noteq> 15"
      using view1 [OF m(1) _ m(2), of i] view2 [OF m(1) i] that i bank_view_current [of c i] bank_view_current [of c' i] c'(3) by simp
    then show "cpu_registers ?c2 ! i = cpu_registers c ! i"
      using i cpu_wf_lengths(1) [OF c'(2)] by (simp add: nth_list_update)
  qed (use cpu_wf_lengths(1) [OF c'(2)] cpu_wf_lengths(1) [OF assms(1)] in simp)
  moreover have "cpsr ?c2 = cpsr c"
    using c'(4) by (simp add: cpsr_def)
  ultimately show ?thesis
    using c1(1) c'(3) by auto
qed

theorem exception_round_trip_witness:
  "\<exists>c1 c2. enter_exception Exc_irq arm_reset = Some (Executed, c1) \<and> return_from_exception 4 c1 = Some (Executed, c2)
    \<and> cpu_registers c2 = cpu_registers arm_reset"
proof -
  have "cpu_mode arm_reset = mode_supervisor" "link_offset_of Exc_irq arm_reset = 4"
    by (simp_all add: arm_reset_def link_offset_of_def vector_entry_def)
  then show ?thesis
    using exception_round_trip [of arm_reset Exc_irq] by (fastforce simp: vector_entry_def)
qed

lemma mode_0x30:
  assumes "cpu_wf c"
  defines "st \<equiv> c\<lparr>cpu_mode := 0x30\<rparr>"
  shows "\<not> cpu_wf st" "cpsr st AND kThumbStateFlag \<noteq> 0"
    "decode_cpu_mode v \<noteq> None \<Longrightarrow> \<exists>c2. set_cpsr v st = Some (True, c2) \<and> cpu_wf c2 \<and> (\<forall>m. banked_sp_lr m c2 = banked_sp_lr m st)"
proof -
  show "\<not> cpu_wf st"
    by (simp add: st_def cpu_wf_def valid_modes_def mode_defs)
  have "bit (0x30 OR (x :: u32)) 5" for x
    by (simp add: bit_or_iff)
  then show "cpsr st AND kThumbStateFlag \<noteq> 0"
    by (simp add: st_def cpsr_def flag_bits or.assoc)
  have len: "length (cpu_registers c) = 16" "length (cpu_shared_r8_r12 c) = 5" "length (cpu_fiq_r8_r12 c) = 5"
    using assms(1) by (simp_all add: cpu_wf_def)
  assume "decode_cpu_mode v \<noteq> None"
  then obtain mode where m: "decode_cpu_mode v = Some mode" "mode \<in> valid_modes"
    by (auto simp: decode_cpu_mode_def Let_def valid_modes_def split: if_splits)
  have "mode \<noteq> 0x30"
    using m(2) by (auto simp: valid_modes_def mode_defs)
  with m len show "\<exists>c2. set_cpsr v st = Some (True, c2) \<and> cpu_wf c2 \<and> (\<forall>m. banked_sp_lr m c2 = banked_sp_lr m st)"
    by (elim valid_modes_cases)
      (simp_all add: st_def set_cpsr_def switch_mode_def save_banked_registers_def load_banked_registers_def banked_sp_lr_def mode_defs
        vec_slice_def vec_blit_def reg_def set_reg_def cpu_wf_def valid_modes_def Let_def)
qed

text \<open>C34. Save states. Loading a saved well-formed state gives it back. Any other state is accepted exactly when the low five bits of its
  mode byte name a mode, and is then copied with the whole byte; otherwise it is refused and the CPU keeps its state. The byte 0x30 is no
  mode but passes: the state it leaves is not well formed, its CPSR reads as Thumb state whatever the T flag says, and no register bank
  belongs to its mode, so that the next change of mode, which makes the CPU well formed again, stores r13 and r14 in no bank.\<close>

theorem cpu_load_state_mode_check:
  assumes "cpu_wf c"
  shows "arm_load_state (arm_save_state c) c' = (True, c)
    \<and> arm_load_state st c' = (if cpu_mode st AND 0x1F \<in> valid_modes then (True, st) else (False, c'))
    \<and> (let bad = c\<lparr>cpu_mode := 0x30\<rparr> in arm_load_state bad c' = (True, bad) \<and> \<not> cpu_wf bad \<and> cpsr bad AND kThumbStateFlag \<noteq> 0
        \<and> banked_sp_lr (cpu_mode bad) bad = None
        \<and> (\<forall>v. decode_cpu_mode v \<noteq> None \<longrightarrow>
              (\<exists>c2. set_cpsr v bad = Some (True, c2) \<and> cpu_wf c2 \<and> (\<forall>m. banked_sp_lr m c2 = banked_sp_lr m bad))))"
proof -
  have "ucast (ucast m AND (0x1F :: u32)) = m AND 0x1F" for m :: u8
    by (intro bit_word_eqI) (auto simp: bit_simps)
  then have decode: "decode_cpu_mode (ucast m) = None \<longleftrightarrow> m AND 0x1F \<notin> valid_modes" for m
    by (simp add: decode_cpu_mode_def kModeMask_def valid_modes_def Let_def)
  have "cpu_mode c AND 0x1F \<in> valid_modes"
    using assms unfolding cpu_wf_def by (elim conjE valid_modes_cases) (simp_all add: valid_modes_def mode_defs)
  moreover have "(16 :: u8) \<in> valid_modes"
    by (simp add: valid_modes_def mode_defs)
  moreover have "banked_sp_lr 0x30 c2 = None" for c2
    by (simp add: banked_sp_lr_def mode_defs)
  ultimately show ?thesis
    using mode_0x30 [OF assms] by (auto simp: Let_def arm_load_state_def arm_save_state_def decode simp del: not_None_eq)
qed

theorem cpu_load_state_mode_check_witness:
  "\<exists>st c2. arm_load_state st arm_reset = (True, st) \<and> \<not> cpu_wf st \<and> set_cpsr 0x13 st = Some (True, c2) \<and> cpu_wf c2"
proof -
  have "decode_cpu_mode 0x13 \<noteq> None"
    by (simp add: decode_cpu_mode_def kModeMask_def mode_defs)
  then show ?thesis
    using cpu_load_state_mode_check [OF arm_reset_wf, of arm_reset arm_reset] unfolding Let_def by blast
qed

end
