(* ===== verification/Cpu_Decode.thy ===== *)
theory Cpu_Decode
  imports Cpu_State Memory_Bus
begin

text \<open>
  The barrel shifter, the field helpers and the ARM instruction decoders of \<open>src/src/core/arm7tdmi.cpp\<close>. A decoder checks its own
  \<open>can_decode\<close> predicate and throws \<open>std::invalid_argument\<close> when it fails. \<open>((i >> n) & 1) == 1\<close> is \<^term>\<open>bit i n\<close>;
  \<open>rotate_right\<close> and \<open>align_word\<close> are the functions of the memory bus, which the CPU file repeats.
\<close>

datatype arm_opcode = Op_and | Op_eor | Op_sub | Op_rsb | Op_add | Op_adc | Op_sbc | Op_rsc
  | Op_tst | Op_teq | Op_cmp | Op_cmn | Op_orr | Op_mov | Op_bic | Op_mvn

datatype arm_shift_type = Lsl | Lsr | Asr | Ror

datatype arm_program_status_register = Psr_cpsr | Psr_spsr

text \<open>The \<open>static_cast\<close>s from a decoded field to an enumeration; the fields are in range wherever the code casts.\<close>

definition arm_condition_of :: "u8 \<Rightarrow> arm_condition" where
  "arm_condition_of v = [Cond_eq, Cond_ne, Cond_cs, Cond_cc, Cond_mi, Cond_pl, Cond_vs, Cond_vc,
     Cond_hi, Cond_ls, Cond_ge, Cond_lt, Cond_gt, Cond_le, Cond_al] ! unat v"

definition arm_opcode_of :: "u8 \<Rightarrow> arm_opcode" where
  "arm_opcode_of v = [Op_and, Op_eor, Op_sub, Op_rsb, Op_add, Op_adc, Op_sbc, Op_rsc,
     Op_tst, Op_teq, Op_cmp, Op_cmn, Op_orr, Op_mov, Op_bic, Op_mvn] ! unat v"

definition arm_shift_type_of :: "u8 \<Rightarrow> arm_shift_type" where
  "arm_shift_type_of v = [Lsl, Lsr, Asr, Ror] ! unat v"

section \<open>Fields\<close>

definition bits :: "u32 \<Rightarrow> nat \<Rightarrow> u32 \<Rightarrow> u8" where
  "bits v shift field_mask = ucast (drop_bit shift v AND field_mask)"

definition supported_condition :: "u8 \<Rightarrow> bool" where
  "supported_condition condition \<longleftrightarrow> condition \<le> 0xE"

definition supported_data_processing_opcode :: "u8 \<Rightarrow> bool" where
  "supported_data_processing_opcode opcode \<longleftrightarrow> opcode \<in> set (map of_nat [0..<16])"

definition sign_extend_branch_offset :: "u32 \<Rightarrow> int" where
  "sign_extend_branch_offset instruction =
     (let raw = instruction AND 0x00FFFFFF
      in sint (if raw AND 0x00800000 \<noteq> 0 then raw OR 0xFF000000 else raw) * 4)"

definition sign_extend8 :: "u8 \<Rightarrow> u32" where
  "sign_extend8 v = (if v AND 0x80 \<noteq> 0 then 0xFFFFFF00 OR ucast v else ucast v)"

definition sign_extend16 :: "u16 \<Rightarrow> u32" where
  "sign_extend16 v = (if v AND 0x8000 \<noteq> 0 then 0xFFFF0000 OR ucast v else ucast v)"

definition supported_transfer_addressing :: "bool \<Rightarrow> bool \<Rightarrow> bool" where
  "supported_transfer_addressing pre_index write_back \<longleftrightarrow> pre_index \<or> \<not> write_back"

definition transfer_needs_write_back :: "bool \<Rightarrow> bool \<Rightarrow> bool" where
  "transfer_needs_write_back pre_index write_back \<longleftrightarrow> \<not> pre_index \<or> write_back"

definition offset_transfer_address :: "u32 \<Rightarrow> u32 \<Rightarrow> bool \<Rightarrow> u32" where
  "offset_transfer_address base offset up = (if up then base + offset else base - offset)"

definition psr_field_mask :: "u8 \<Rightarrow> u32" where
  "psr_field_mask field_mask =
     (if field_mask AND 1 \<noteq> 0 then 0x000000FF else 0) OR (if field_mask AND 2 \<noteq> 0 then 0x0000FF00 else 0)
     OR (if field_mask AND 4 \<noteq> 0 then 0x00FF0000 else 0) OR (if field_mask AND 8 \<noteq> 0 then 0xFF000000 else 0)"

text \<open>\<open>count_registers\<close> shifts the list right until it is empty.\<close>

function count_registers_from :: "u16 \<Rightarrow> u8 \<Rightarrow> u8" where
  "count_registers_from register_list count =
     (if register_list \<noteq> 0 then count_registers_from (drop_bit 1 register_list) (count + ucast (register_list AND 1)) else count)"
  by auto
termination
  by (relation "measure (\<lambda>(register_list, count). unat register_list)") (auto simp: unat_drop_bit unat_gt_0)

declare count_registers_from.simps [simp del]

definition count_registers :: "u16 \<Rightarrow> u8" where
  "count_registers register_list = count_registers_from register_list 0"

definition register_list_contains :: "u16 \<Rightarrow> u8 \<Rightarrow> bool" where
  "register_list_contains register_list index \<longleftrightarrow> register_list AND push_bit (unat index) 1 \<noteq> 0"

definition block_transfer_has_pc :: "u16 \<Rightarrow> bool" where
  "block_transfer_has_pc register_list = register_list_contains register_list kPc"

record block_transfer_address_pair =
  ba_first :: u32
  ba_write_back :: u32

definition block_transfer_address :: "u32 \<Rightarrow> u8 \<Rightarrow> bool \<Rightarrow> bool \<Rightarrow> block_transfer_address_pair" where
  "block_transfer_address base register_count pre_index up =
     (let byte_count = ucast register_count * 4
      in if up then \<lparr>ba_first = (if pre_index then base + 4 else base), ba_write_back = base + byte_count\<rparr>
         else \<lparr>ba_first = (if pre_index then base - byte_count else base - byte_count + 4), ba_write_back = base - byte_count\<rparr>)"

section \<open>Barrel shifter\<close>

record shifter_result =
  sh_value :: u32
  sh_carry_valid :: bool
  sh_carry :: bool

definition shifted :: "u32 \<Rightarrow> bool \<Rightarrow> shifter_result" where
  "shifted v carry = \<lparr>sh_value = v, sh_carry_valid = True, sh_carry = carry\<rparr>"

definition unshifted :: "u32 \<Rightarrow> shifter_result" where
  "unshifted v = \<lparr>sh_value = v, sh_carry_valid = False, sh_carry = False\<rparr>"

text \<open>A non-zero shift by less than 32, shared by the two entry points: \<open>ASR\<close> fills with ones only when the sign bit is set.\<close>

definition asr_by :: "u32 \<Rightarrow> nat \<Rightarrow> u32" where
  "asr_by v amount =
     (if v AND 0x80000000 = 0 then drop_bit amount v else drop_bit amount v OR push_bit (32 - amount) 0xFFFFFFFF)"

primrec apply_immediate_shift :: "u32 \<Rightarrow> arm_shift_type \<Rightarrow> nat \<Rightarrow> bool \<Rightarrow> shifter_result" where
  "apply_immediate_shift v Lsl amount carry_in =
     (if amount = 0 then unshifted v else shifted (push_bit amount v) (drop_bit (32 - amount) v AND 1 = 1))"
| "apply_immediate_shift v Lsr amount carry_in =
     (if amount = 0 then shifted 0 (v AND 0x80000000 \<noteq> 0)
      else shifted (drop_bit amount v) (drop_bit (amount - 1) v AND 1 = 1))"
| "apply_immediate_shift v Asr amount carry_in =
     (if amount = 0 then shifted (if v AND 0x80000000 \<noteq> 0 then 0xFFFFFFFF else 0) (v AND 0x80000000 \<noteq> 0)
      else shifted (asr_by v amount) (drop_bit (amount - 1) v AND 1 = 1))"
| "apply_immediate_shift v Ror amount carry_in =
     (if amount = 0 then shifted ((if carry_in then 0x80000000 else 0) OR drop_bit 1 v) (v AND 1 \<noteq> 0)
      else shifted (rotate_right v amount) (rotate_right v amount AND 0x80000000 \<noteq> 0))"

primrec register_shift_by :: "arm_shift_type \<Rightarrow> u32 \<Rightarrow> nat \<Rightarrow> shifter_result" where
  "register_shift_by Lsl v amount =
     (if amount < 32 then shifted (push_bit amount v) (drop_bit (32 - amount) v AND 1 = 1)
      else if amount = 32 then shifted 0 (v AND 1 \<noteq> 0) else shifted 0 False)"
| "register_shift_by Lsr v amount =
     (if amount < 32 then shifted (drop_bit amount v) (drop_bit (amount - 1) v AND 1 = 1)
      else if amount = 32 then shifted 0 (v AND 0x80000000 \<noteq> 0) else shifted 0 False)"
| "register_shift_by Asr v amount =
     (if amount < 32 then shifted (asr_by v amount) (drop_bit (amount - 1) v AND 1 = 1)
      else shifted (if v AND 0x80000000 \<noteq> 0 then 0xFFFFFFFF else 0) (v AND 0x80000000 \<noteq> 0))"
| "register_shift_by Ror v amount =
     (let rotate = amount mod 32; result = (if rotate = 0 then v else rotate_right v rotate)
      in shifted result (result AND 0x80000000 \<noteq> 0))"

definition apply_register_shift :: "u32 \<Rightarrow> arm_shift_type \<Rightarrow> nat \<Rightarrow> shifter_result" where
  "apply_register_shift v shift_type amount = (if amount = 0 then unshifted v else register_shift_by shift_type v amount)"

section \<open>Decoded instructions\<close>

record decoded_arm =
  da_condition :: arm_condition
  da_opcode :: arm_opcode
  da_set_flags :: bool
  da_rn :: u8
  da_rd :: u8
  da_operand2 :: u32
  da_shifter_carry_valid :: bool
  da_shifter_carry :: bool

record decoded_branch =
  db_condition :: arm_condition
  db_link :: bool
  db_offset :: int

record decoded_branch_exchange =
  dx_condition :: arm_condition
  dx_rm :: u8

record decoded_multiply =
  dm_condition :: arm_condition
  dm_accumulate :: bool
  dm_set_flags :: bool
  dm_rd :: u8
  dm_rn :: u8
  dm_rs :: u8
  dm_rm :: u8

record decoded_multiply_long =
  dl_condition :: arm_condition
  dl_signed_multiply :: bool
  dl_accumulate :: bool
  dl_set_flags :: bool
  dl_rd_hi :: u8
  dl_rd_lo :: u8
  dl_rs :: u8
  dl_rm :: u8

record decoded_single_transfer =
  ds_condition :: arm_condition
  ds_load :: bool
  ds_byte :: bool
  ds_pre_index :: bool
  ds_up :: bool
  ds_write_back :: bool
  ds_rn :: u8
  ds_rd :: u8
  ds_offset :: u32

record decoded_psr_transfer =
  dp_condition :: arm_condition
  dp_write :: bool
  dp_psr :: arm_program_status_register
  dp_rd_or_rm :: u8
  dp_field_mask :: u8
  dp_operand :: u32
  dp_immediate_operand :: bool

record decoded_swap =
  dw_condition :: arm_condition
  dw_byte :: bool
  dw_rn :: u8
  dw_rd :: u8
  dw_rm :: u8

record decoded_halfword_transfer =
  dh_condition :: arm_condition
  dh_load :: bool
  dh_signed_transfer :: bool
  dh_halfword :: bool
  dh_pre_index :: bool
  dh_up :: bool
  dh_write_back :: bool
  dh_rn :: u8
  dh_rd :: u8
  dh_offset :: u32

record decoded_block_transfer =
  dk_condition :: arm_condition
  dk_load :: bool
  dk_pre_index :: bool
  dk_up :: bool
  dk_write_back :: bool
  dk_rn :: u8
  dk_register_list :: u16

section \<open>Decoders\<close>

definition instruction_condition :: "u32 \<Rightarrow> u8" where
  "instruction_condition i = bits i 28 0xF"

definition psr_mrs_shape :: "u32 \<Rightarrow> bool" where
  "psr_mrs_shape i \<longleftrightarrow> bits i 23 0x1F = 2 \<and> bits i 16 0x3F = 0x0F \<and> i AND 0xFFF = 0"

definition can_decode_psr_transfer :: "u32 \<Rightarrow> bool" where
  "can_decode_psr_transfer i \<longleftrightarrow>
     supported_condition (instruction_condition i) \<and>
     (psr_mrs_shape i
      \<or> (bits i 23 0x1F = 2 \<and> bit i 21 \<and> \<not> bit i 20 \<and> bits i 12 0xF = 0xF \<and> bits i 4 0xFF = 0 \<and> bits i 16 0xF \<noteq> 0)
      \<or> (bits i 23 0x1F = 6 \<and> bit i 21 \<and> \<not> bit i 20 \<and> bits i 12 0xF = 0xF \<and> bits i 16 0xF \<noteq> 0))"

definition decode_psr_transfer :: "u32 \<Rightarrow> decoded_psr_transfer throws" where
  "decode_psr_transfer i =
     (if \<not> can_decode_psr_transfer i then None
      else let psr = (if bit i 22 then Psr_spsr else Psr_cpsr); condition = arm_condition_of (instruction_condition i) in
        if psr_mrs_shape i then
          Some \<lparr>dp_condition = condition, dp_write = False, dp_psr = psr, dp_rd_or_rm = bits i 12 0xF, dp_field_mask = 0,
            dp_operand = 0, dp_immediate_operand = False\<rparr>
        else let immediate = bit i 25 in
          Some \<lparr>dp_condition = condition, dp_write = True, dp_psr = psr, dp_rd_or_rm = (if immediate then 0 else bits i 0 0xF),
            dp_field_mask = bits i 16 0xF,
            dp_operand = (if immediate then rotate_right (i AND 0xFF) (unat (bits i 8 0xF * 2)) else 0),
            dp_immediate_operand = immediate\<rparr>)"

definition can_decode_swap :: "u32 \<Rightarrow> bool" where
  "can_decode_swap i \<longleftrightarrow>
     bits i 23 0x1F = 2 \<and> (drop_bit 20 i AND 3 = 0 \<and> bits i 4 0xFF = 9) \<and> supported_condition (instruction_condition i)
     \<and> bits i 16 0xF \<noteq> kPc \<and> bits i 12 0xF \<noteq> kPc \<and> bits i 0 0xF \<noteq> kPc"

definition decode_swap :: "u32 \<Rightarrow> decoded_swap throws" where
  "decode_swap i =
     (if \<not> can_decode_swap i then None
      else Some \<lparr>dw_condition = arm_condition_of (instruction_condition i), dw_byte = bit i 22, dw_rn = bits i 16 0xF,
        dw_rd = bits i 12 0xF, dw_rm = bits i 0 0xF\<rparr>)"

definition can_decode_data_processing_immediate :: "u32 \<Rightarrow> bool" where
  "can_decode_data_processing_immediate i \<longleftrightarrow>
     \<not> can_decode_psr_transfer i \<and> drop_bit 26 i AND 3 = 0 \<and> bit i 25 \<and> supported_condition (instruction_condition i)
     \<and> supported_data_processing_opcode (bits i 21 0xF)"

definition data_processing_fields :: "u32 \<Rightarrow> u32 \<Rightarrow> bool \<Rightarrow> bool \<Rightarrow> decoded_arm" where
  "data_processing_fields i operand2 carry_valid carry =
     \<lparr>da_condition = arm_condition_of (instruction_condition i), da_opcode = arm_opcode_of (bits i 21 0xF), da_set_flags = bit i 20,
      da_rn = bits i 16 0xF, da_rd = bits i 12 0xF, da_operand2 = operand2, da_shifter_carry_valid = carry_valid,
      da_shifter_carry = carry\<rparr>"

definition decode_data_processing_immediate :: "u32 \<Rightarrow> decoded_arm throws" where
  "decode_data_processing_immediate i =
     (if \<not> can_decode_data_processing_immediate i then None
      else let rotate = bits i 8 0xF; operand2 = rotate_right (i AND 0xFF) (unat (rotate * 2))
        in Some (data_processing_fields i operand2 (rotate \<noteq> 0) (operand2 AND 0x80000000 \<noteq> 0)))"

definition register_shift_shape :: "u32 \<Rightarrow> bool" where
  "register_shift_shape i \<longleftrightarrow> bit i 4 \<and> \<not> bit i 7"

definition can_decode_data_processing_register_shift :: "u32 \<Rightarrow> bool" where
  "can_decode_data_processing_register_shift i \<longleftrightarrow>
     \<not> can_decode_psr_transfer i \<and> \<not> can_decode_swap i \<and> drop_bit 26 i AND 3 = 0 \<and> \<not> bit i 25
     \<and> (\<not> bit i 4 \<or> register_shift_shape i) \<and> supported_condition (instruction_condition i)
     \<and> supported_data_processing_opcode (bits i 21 0xF)"

definition decode_data_processing_immediate_shift :: "u32 \<Rightarrow> u32 \<Rightarrow> bool \<Rightarrow> decoded_arm throws" where
  "decode_data_processing_immediate_shift i rm_value carry_in =
     (if \<not> can_decode_data_processing_register_shift i \<or> bit i 4 then None
      else let shifter = apply_immediate_shift rm_value (arm_shift_type_of (bits i 5 3)) (unat (bits i 7 0x1F)) carry_in
        in Some (data_processing_fields i (sh_value shifter) (sh_carry_valid shifter) (sh_carry shifter)))"

definition decode_data_processing_register_shift :: "u32 \<Rightarrow> u32 \<Rightarrow> u32 \<Rightarrow> decoded_arm throws" where
  "decode_data_processing_register_shift i rm_value rs_value =
     (if \<not> can_decode_data_processing_register_shift i \<or> \<not> register_shift_shape i then None
      else let shifter = apply_register_shift rm_value (arm_shift_type_of (bits i 5 3)) (unat (ucast (rs_value AND 0xFF) :: u8))
        in Some (data_processing_fields i (sh_value shifter) (sh_carry_valid shifter) (sh_carry shifter)))"

definition can_decode_multiply :: "u32 \<Rightarrow> bool" where
  "can_decode_multiply i \<longleftrightarrow>
     drop_bit 22 i AND 0x3F = 0 \<and> drop_bit 4 i AND 0xF = 9 \<and> supported_condition (instruction_condition i)"

definition decode_multiply :: "u32 \<Rightarrow> decoded_multiply throws" where
  "decode_multiply i =
     (if \<not> can_decode_multiply i then None
      else Some \<lparr>dm_condition = arm_condition_of (instruction_condition i), dm_accumulate = bit i 21, dm_set_flags = bit i 20,
        dm_rd = bits i 16 0xF, dm_rn = bits i 12 0xF, dm_rs = bits i 8 0xF, dm_rm = bits i 0 0xF\<rparr>)"

definition can_decode_multiply_long :: "u32 \<Rightarrow> bool" where
  "can_decode_multiply_long i \<longleftrightarrow>
     drop_bit 23 i AND 0x1F = 1 \<and> drop_bit 4 i AND 0xF = 9 \<and> supported_condition (instruction_condition i)"

definition decode_multiply_long :: "u32 \<Rightarrow> decoded_multiply_long throws" where
  "decode_multiply_long i =
     (if \<not> can_decode_multiply_long i then None
      else Some \<lparr>dl_condition = arm_condition_of (instruction_condition i), dl_signed_multiply = bit i 22, dl_accumulate = bit i 21,
        dl_set_flags = bit i 20, dl_rd_hi = bits i 16 0xF, dl_rd_lo = bits i 12 0xF, dl_rs = bits i 8 0xF, dl_rm = bits i 0 0xF\<rparr>)"

definition can_decode_branch :: "u32 \<Rightarrow> bool" where
  "can_decode_branch i \<longleftrightarrow> drop_bit 25 i AND 7 = 5 \<and> supported_condition (instruction_condition i)"

definition decode_branch :: "u32 \<Rightarrow> decoded_branch throws" where
  "decode_branch i =
     (if \<not> can_decode_branch i then None
      else Some \<lparr>db_condition = arm_condition_of (instruction_condition i), db_link = bit i 24,
        db_offset = sign_extend_branch_offset i\<rparr>)"

definition can_decode_branch_exchange :: "u32 \<Rightarrow> bool" where
  "can_decode_branch_exchange i \<longleftrightarrow> i AND 0x0FFFFFF0 = 0x012FFF10 \<and> supported_condition (instruction_condition i)"

definition decode_branch_exchange :: "u32 \<Rightarrow> decoded_branch_exchange throws" where
  "decode_branch_exchange i =
     (if \<not> can_decode_branch_exchange i then None
      else Some \<lparr>dx_condition = arm_condition_of (instruction_condition i), dx_rm = bits i 0 0xF\<rparr>)"

definition can_decode_software_interrupt :: "u32 \<Rightarrow> bool" where
  "can_decode_software_interrupt i \<longleftrightarrow> supported_condition (instruction_condition i) \<and> drop_bit 24 i AND 0xF = 0xF"

definition single_transfer_fields :: "u32 \<Rightarrow> u32 \<Rightarrow> decoded_single_transfer" where
  "single_transfer_fields i offset =
     \<lparr>ds_condition = arm_condition_of (instruction_condition i), ds_load = bit i 20, ds_byte = bit i 22, ds_pre_index = bit i 24,
      ds_up = bit i 23, ds_write_back = bit i 21, ds_rn = bits i 16 0xF, ds_rd = bits i 12 0xF, ds_offset = offset\<rparr>"

definition can_decode_single_data_transfer_immediate :: "u32 \<Rightarrow> bool" where
  "can_decode_single_data_transfer_immediate i \<longleftrightarrow>
     drop_bit 26 i AND 3 = 1 \<and> \<not> bit i 25 \<and> supported_condition (instruction_condition i)"

definition decode_single_data_transfer_immediate :: "u32 \<Rightarrow> decoded_single_transfer throws" where
  "decode_single_data_transfer_immediate i =
     (if \<not> can_decode_single_data_transfer_immediate i then None else Some (single_transfer_fields i (i AND 0xFFF)))"

definition can_decode_single_data_transfer_register :: "u32 \<Rightarrow> bool" where
  "can_decode_single_data_transfer_register i \<longleftrightarrow>
     drop_bit 26 i AND 3 = 1 \<and> bit i 25 \<and> \<not> bit i 4 \<and> supported_condition (instruction_condition i)"

definition decode_single_data_transfer_register :: "u32 \<Rightarrow> u32 \<Rightarrow> bool \<Rightarrow> decoded_single_transfer throws" where
  "decode_single_data_transfer_register i rm_value carry_in =
     (if \<not> can_decode_single_data_transfer_register i then None
      else Some (single_transfer_fields i
        (sh_value (apply_immediate_shift rm_value (arm_shift_type_of (bits i 5 3)) (unat (bits i 7 0x1F)) carry_in))))"

definition halfword_transfer_kind :: "u32 \<Rightarrow> bool" where
  "halfword_transfer_kind i \<longleftrightarrow>
     (let transfer_kind = bits i 5 3 in transfer_kind = 1 \<or> (bit i 20 \<and> (transfer_kind = 2 \<or> transfer_kind = 3)))"

definition halfword_transfer_fields :: "u32 \<Rightarrow> u32 \<Rightarrow> decoded_halfword_transfer" where
  "halfword_transfer_fields i offset =
     \<lparr>dh_condition = arm_condition_of (instruction_condition i), dh_load = bit i 20, dh_signed_transfer = bit i 6, dh_halfword = bit i 5,
      dh_pre_index = bit i 24, dh_up = bit i 23, dh_write_back = bit i 21, dh_rn = bits i 16 0xF, dh_rd = bits i 12 0xF,
      dh_offset = offset\<rparr>"

definition can_decode_halfword_data_transfer_immediate :: "u32 \<Rightarrow> bool" where
  "can_decode_halfword_data_transfer_immediate i \<longleftrightarrow>
     drop_bit 25 i AND 7 = 0 \<and> bit i 22 \<and> (bit i 7 \<and> bit i 4) \<and> halfword_transfer_kind i
     \<and> supported_condition (instruction_condition i)"

definition decode_halfword_data_transfer_immediate :: "u32 \<Rightarrow> decoded_halfword_transfer throws" where
  "decode_halfword_data_transfer_immediate i =
     (if \<not> can_decode_halfword_data_transfer_immediate i then None
      else Some (halfword_transfer_fields i (push_bit 4 (ucast (bits i 8 0xF)) OR ucast (bits i 0 0xF))))"

definition can_decode_halfword_data_transfer_register :: "u32 \<Rightarrow> bool" where
  "can_decode_halfword_data_transfer_register i \<longleftrightarrow>
     drop_bit 25 i AND 7 = 0 \<and> \<not> bit i 22 \<and> (bit i 7 \<and> bit i 4) \<and> bits i 8 0xF = 0 \<and> halfword_transfer_kind i
     \<and> supported_condition (instruction_condition i)"

definition decode_halfword_data_transfer_register :: "u32 \<Rightarrow> u32 \<Rightarrow> decoded_halfword_transfer throws" where
  "decode_halfword_data_transfer_register i rm_value =
     (if \<not> can_decode_halfword_data_transfer_register i then None else Some (halfword_transfer_fields i rm_value))"

definition can_decode_block_data_transfer :: "u32 \<Rightarrow> bool" where
  "can_decode_block_data_transfer i \<longleftrightarrow>
     drop_bit 25 i AND 7 = 4 \<and> (ucast (i AND 0xFFFF) :: u16) \<noteq> 0 \<and> bits i 16 0xF \<noteq> kPc
     \<and> supported_condition (instruction_condition i)"

definition decode_block_data_transfer :: "u32 \<Rightarrow> decoded_block_transfer throws" where
  "decode_block_data_transfer i =
     (if \<not> can_decode_block_data_transfer i then None
      else Some \<lparr>dk_condition = arm_condition_of (instruction_condition i), dk_load = bit i 20, dk_pre_index = bit i 24, dk_up = bit i 23,
        dk_write_back = bit i 21, dk_rn = bits i 16 0xF, dk_register_list = ucast (i AND 0xFFFF)\<rparr>)"

end
