(* ===== verification/Thumb_Decode.thy ===== *)
theory Thumb_Decode
  imports Cpu_Decode
begin

text \<open>
  The Thumb instruction decoders of \<open>src/src/core/arm7tdmi.cpp\<close>. A 16-bit instruction is promoted to 32 bits where the code passes
  it to \<open>bits\<close>.
\<close>

datatype thumb_opcode = Thumb_mov | Thumb_cmp | Thumb_add | Thumb_sub

datatype thumb_high_register_opcode = High_add | High_cmp | High_mov | High_bx

datatype thumb_alu_opcode = Alu_and | Alu_eor | Alu_lsl | Alu_lsr | Alu_asr | Alu_adc | Alu_sbc | Alu_ror
  | Alu_tst | Alu_neg | Alu_cmp | Alu_cmn | Alu_orr | Alu_mul | Alu_bic | Alu_mvn

datatype thumb_transfer_kind = Transfer_word | Transfer_byte | Transfer_halfword | Transfer_signed_byte | Transfer_signed_halfword

definition thumb_alu_opcode_of :: "u8 \<Rightarrow> thumb_alu_opcode" where
  "thumb_alu_opcode_of v = [Alu_and, Alu_eor, Alu_lsl, Alu_lsr, Alu_asr, Alu_adc, Alu_sbc, Alu_ror,
     Alu_tst, Alu_neg, Alu_cmp, Alu_cmn, Alu_orr, Alu_mul, Alu_bic, Alu_mvn] ! unat v"

section \<open>Decoded instructions\<close>

record decoded_thumb =
  dt_opcode :: thumb_opcode
  dt_rd :: u8
  dt_rs :: u8
  dt_operand :: u32
  dt_operand_is_register :: bool

record decoded_thumb_shift =
  dts_type :: arm_shift_type
  dts_rd :: u8
  dts_rs :: u8
  dts_amount :: u8

record decoded_thumb_alu =
  dta_opcode :: thumb_alu_opcode
  dta_rd :: u8
  dta_rs :: u8

record decoded_thumb_branch =
  dtb_conditional :: bool
  dtb_condition :: arm_condition
  dtb_offset :: int

record decoded_thumb_long_branch =
  dtl_second_half :: bool
  dtl_offset :: int

record decoded_thumb_high_register =
  dth_opcode :: thumb_high_register_opcode
  dth_rd :: u8
  dth_rs :: u8

record decoded_thumb_memory =
  dtm_load :: bool
  dtm_kind :: thumb_transfer_kind
  dtm_rd :: u8
  dtm_rb :: u8
  dtm_offset :: u32
  dtm_offset_is_register :: bool

record decoded_thumb_block =
  dtk_load :: bool
  dtk_rb :: u8
  dtk_register_list :: u8

record decoded_thumb_stack =
  dtp_load :: bool
  dtp_extra_register :: bool
  dtp_register_list :: u8

record decoded_thumb_stack_pointer =
  dtsp_subtract :: bool
  dtsp_offset :: u32

record decoded_thumb_load_address =
  dtla_base_is_sp :: bool
  dtla_rd :: u8
  dtla_offset :: u32

section \<open>Offsets\<close>

definition supported_thumb_branch_condition :: "u8 \<Rightarrow> bool" where
  "supported_thumb_branch_condition condition \<longleftrightarrow> condition \<le> 0xD"

definition sign_extend_thumb_offset :: "u16 \<Rightarrow> nat \<Rightarrow> int" where
  "sign_extend_thumb_offset raw width =
     (let the_sign = push_bit (width - 1) 1 :: u16;
          the_mask = push_bit width 1 - 1 :: u16;
          extended = ucast (raw AND the_mask) :: u32
      in sint (if extended AND ucast the_sign \<noteq> 0 then extended OR NOT (ucast the_mask) else extended) * 2)"

definition sign_extend_thumb_bl_prefix :: "u16 \<Rightarrow> int" where
  "sign_extend_thumb_bl_prefix raw =
     (let extended = ucast raw AND 0x07FF :: u32
      in sint (if extended AND 0x0400 \<noteq> 0 then extended OR NOT 0x07FF else extended) * 4096)"

definition tbits :: "u16 \<Rightarrow> nat \<Rightarrow> u32 \<Rightarrow> u8" where
  "tbits i = bits (ucast i)"

section \<open>Decoders\<close>

definition can_decode_thumb_add_subtract :: "u16 \<Rightarrow> bool" where
  "can_decode_thumb_add_subtract i \<longleftrightarrow> drop_bit 11 i AND 0x1F = 3"

definition decode_thumb_add_subtract :: "u16 \<Rightarrow> decoded_thumb throws" where
  "decode_thumb_add_subtract i =
     (if \<not> can_decode_thumb_add_subtract i then None
      else Some \<lparr>dt_opcode = (if bit i 9 then Thumb_sub else Thumb_add), dt_rd = tbits i 0 7, dt_rs = tbits i 3 7,
        dt_operand = ucast (tbits i 6 7), dt_operand_is_register = (\<not> bit i 10)\<rparr>)"

definition can_decode_thumb_shift_immediate :: "u16 \<Rightarrow> bool" where
  "can_decode_thumb_shift_immediate i \<longleftrightarrow> drop_bit 13 i AND 7 = 0 \<and> drop_bit 11 i AND 3 \<noteq> 3"

definition decode_thumb_shift_immediate :: "u16 \<Rightarrow> decoded_thumb_shift throws" where
  "decode_thumb_shift_immediate i =
     (if \<not> can_decode_thumb_shift_immediate i then None
      else let opcode = tbits i 11 3 in
        Some \<lparr>dts_type = (if opcode = 1 then Lsr else if opcode = 2 then Asr else Lsl),
          dts_rd = tbits i 0 7, dts_rs = tbits i 3 7, dts_amount = tbits i 6 0x1F\<rparr>)"

definition can_decode_thumb_alu :: "u16 \<Rightarrow> bool" where
  "can_decode_thumb_alu i \<longleftrightarrow> drop_bit 10 i AND 0x3F = 0x10"

definition decode_thumb_alu :: "u16 \<Rightarrow> decoded_thumb_alu throws" where
  "decode_thumb_alu i =
     (if \<not> can_decode_thumb_alu i then None
      else Some \<lparr>dta_opcode = thumb_alu_opcode_of (tbits i 6 0xF), dta_rd = tbits i 0 7, dta_rs = tbits i 3 7\<rparr>)"

definition can_decode_thumb_immediate :: "u16 \<Rightarrow> bool" where
  "can_decode_thumb_immediate i \<longleftrightarrow> drop_bit 13 i AND 7 = 1"

definition decode_thumb_immediate :: "u16 \<Rightarrow> decoded_thumb throws" where
  "decode_thumb_immediate i =
     (if \<not> can_decode_thumb_immediate i then None
      else let opcode = tbits i 11 3; rd = tbits i 8 7 in
        Some \<lparr>dt_opcode = (if opcode = 0 then Thumb_mov else if opcode = 1 then Thumb_cmp else if opcode = 2 then Thumb_add
            else if opcode = 3 then Thumb_sub else Thumb_mov),
          dt_rd = rd, dt_rs = rd, dt_operand = ucast (i AND 0xFF), dt_operand_is_register = False\<rparr>)"

definition can_decode_thumb_unconditional_branch :: "u16 \<Rightarrow> bool" where
  "can_decode_thumb_unconditional_branch i \<longleftrightarrow> drop_bit 11 i AND 0x1F = 0x1C"

definition decode_thumb_unconditional_branch :: "u16 \<Rightarrow> decoded_thumb_branch throws" where
  "decode_thumb_unconditional_branch i =
     (if \<not> can_decode_thumb_unconditional_branch i then None
      else Some \<lparr>dtb_conditional = False, dtb_condition = Cond_al, dtb_offset = sign_extend_thumb_offset (i AND 0x7FF) 11\<rparr>)"

definition can_decode_thumb_conditional_branch :: "u16 \<Rightarrow> bool" where
  "can_decode_thumb_conditional_branch i \<longleftrightarrow>
     (if drop_bit 12 i AND 0xF \<noteq> 0xD then False else supported_thumb_branch_condition (tbits i 8 0xF))"

definition decode_thumb_conditional_branch :: "u16 \<Rightarrow> decoded_thumb_branch throws" where
  "decode_thumb_conditional_branch i =
     (if \<not> can_decode_thumb_conditional_branch i then None
      else Some \<lparr>dtb_conditional = True, dtb_condition = arm_condition_of (tbits i 8 0xF),
        dtb_offset = sign_extend_thumb_offset (i AND 0xFF) 8\<rparr>)"

definition can_decode_thumb_long_branch_link :: "u16 \<Rightarrow> bool" where
  "can_decode_thumb_long_branch_link i \<longleftrightarrow> i AND 0xF800 = 0xF000 \<or> i AND 0xF800 = 0xF800"

definition decode_thumb_long_branch_link :: "u16 \<Rightarrow> decoded_thumb_long_branch throws" where
  "decode_thumb_long_branch_link i =
     (if \<not> can_decode_thumb_long_branch_link i then None
      else let second_half = (i AND 0x0800 \<noteq> 0); raw = i AND 0x07FF in
        Some \<lparr>dtl_second_half = second_half, dtl_offset = (if second_half then uint raw * 2 else sign_extend_thumb_bl_prefix raw)\<rparr>)"

definition can_decode_thumb_high_register :: "u16 \<Rightarrow> bool" where
  "can_decode_thumb_high_register i \<longleftrightarrow> (if drop_bit 10 i AND 0x3F \<noteq> 0x11 then False else True)"

definition decode_thumb_high_register :: "u16 \<Rightarrow> decoded_thumb_high_register throws" where
  "decode_thumb_high_register i =
     (if \<not> can_decode_thumb_high_register i then None
      else let opcode = tbits i 8 3 in
        Some \<lparr>dth_opcode = (if opcode = 0 then High_add else if opcode = 1 then High_cmp else if opcode = 2 then High_mov
            else if opcode = 3 then High_bx else High_add),
          dth_rd = tbits i 0 7 OR push_bit 3 (tbits i 7 1), dth_rs = tbits i 3 7 OR push_bit 3 (tbits i 6 1)\<rparr>)"

definition can_decode_thumb_memory_transfer :: "u16 \<Rightarrow> bool" where
  "can_decode_thumb_memory_transfer i \<longleftrightarrow>
     (let top_nibble = tbits i 12 0xF in
      drop_bit 11 i AND 0x1F = 9 \<or> top_nibble = 5 \<or> drop_bit 13 i AND 7 = 3 \<or> top_nibble = 8 \<or> top_nibble = 9)"

text \<open>The kind of a register-offset transfer, from its three opcode bits.\<close>

definition register_offset_kind :: "u8 \<Rightarrow> thumb_transfer_kind" where
  "register_offset_kind op =
     (if op = 0 then Transfer_word else if op = 1 then Transfer_halfword else if op = 2 then Transfer_byte
      else if op = 3 then Transfer_signed_byte else if op = 4 then Transfer_word else if op = 5 then Transfer_halfword
      else if op = 6 then Transfer_byte else if op = 7 then Transfer_signed_halfword else Transfer_word)"

definition thumb_memory_fields :: "bool \<Rightarrow> thumb_transfer_kind \<Rightarrow> u8 \<Rightarrow> u8 \<Rightarrow> u32 \<Rightarrow> bool \<Rightarrow> decoded_thumb_memory" where
  "thumb_memory_fields load kind rd rb offset offset_is_register =
     \<lparr>dtm_load = load, dtm_kind = kind, dtm_rd = rd, dtm_rb = rb, dtm_offset = offset,
      dtm_offset_is_register = offset_is_register\<rparr>"

definition decode_thumb_memory_transfer :: "u16 \<Rightarrow> decoded_thumb_memory throws" where
  "decode_thumb_memory_transfer i =
     (if \<not> can_decode_thumb_memory_transfer i then None
      else let top_nibble = tbits i 12 0xF in
        if drop_bit 11 i AND 0x1F = 9 then
          Some (thumb_memory_fields True Transfer_word (tbits i 8 7) kPc (ucast (i AND 0xFF) * 4) False)
        else if top_nibble = 5 then
          (let op = tbits i 9 7 in
           Some (thumb_memory_fields (op \<ge> 4 \<or> op = 3) (register_offset_kind op) (tbits i 0 7) (tbits i 3 7) (ucast (tbits i 6 7)) True))
        else if drop_bit 13 i AND 7 = 3 then
          (let byte = bit i 12; raw_offset = ucast (tbits i 6 0x1F) in
           Some (thumb_memory_fields (bit i 11) (if byte then Transfer_byte else Transfer_word) (tbits i 0 7) (tbits i 3 7)
             (if byte then raw_offset else raw_offset * 4) False))
        else if top_nibble = 8 then
          Some (thumb_memory_fields (bit i 11) Transfer_halfword (tbits i 0 7) (tbits i 3 7) (ucast (tbits i 6 0x1F) * 2) False)
        else
          Some (thumb_memory_fields (bit i 11) Transfer_word (tbits i 8 7) 13 (ucast (i AND 0xFF) * 4) False))"

definition can_decode_thumb_block_transfer :: "u16 \<Rightarrow> bool" where
  "can_decode_thumb_block_transfer i \<longleftrightarrow> drop_bit 12 i AND 0xF = 0xC \<and> (ucast (i AND 0xFF) :: u8) \<noteq> 0"

definition decode_thumb_block_transfer :: "u16 \<Rightarrow> decoded_thumb_block throws" where
  "decode_thumb_block_transfer i =
     (if \<not> can_decode_thumb_block_transfer i then None
      else Some \<lparr>dtk_load = bit i 11, dtk_rb = tbits i 8 7, dtk_register_list = ucast (i AND 0xFF)\<rparr>)"

definition can_decode_thumb_stack_transfer :: "u16 \<Rightarrow> bool" where
  "can_decode_thumb_stack_transfer i \<longleftrightarrow> i AND 0xFE00 = 0xB400 \<or> i AND 0xFE00 = 0xBC00"

definition decode_thumb_stack_transfer :: "u16 \<Rightarrow> decoded_thumb_stack throws" where
  "decode_thumb_stack_transfer i =
     (if \<not> can_decode_thumb_stack_transfer i then None
      else Some \<lparr>dtp_load = (i AND 0x0800 \<noteq> 0), dtp_extra_register = (i AND 0x0100 \<noteq> 0), dtp_register_list = ucast (i AND 0x00FF)\<rparr>)"

definition can_decode_thumb_stack_pointer_adjust :: "u16 \<Rightarrow> bool" where
  "can_decode_thumb_stack_pointer_adjust i \<longleftrightarrow> i AND 0xFF00 = 0xB000"

definition decode_thumb_stack_pointer_adjust :: "u16 \<Rightarrow> decoded_thumb_stack_pointer throws" where
  "decode_thumb_stack_pointer_adjust i =
     (if \<not> can_decode_thumb_stack_pointer_adjust i then None
      else Some \<lparr>dtsp_subtract = (i AND 0x0080 \<noteq> 0), dtsp_offset = ucast (i AND 0x007F) * 4\<rparr>)"

definition can_decode_thumb_load_address :: "u16 \<Rightarrow> bool" where
  "can_decode_thumb_load_address i \<longleftrightarrow> i AND 0xF000 = 0xA000"

definition decode_thumb_load_address :: "u16 \<Rightarrow> decoded_thumb_load_address throws" where
  "decode_thumb_load_address i =
     (if \<not> can_decode_thumb_load_address i then None
      else Some \<lparr>dtla_base_is_sp = (i AND 0x0800 \<noteq> 0), dtla_rd = tbits i 8 7, dtla_offset = ucast (i AND 0x00FF) * 4\<rparr>)"

definition can_decode_thumb_software_interrupt :: "u16 \<Rightarrow> bool" where
  "can_decode_thumb_software_interrupt i \<longleftrightarrow> i AND 0xFF00 = 0xDF00"

end
