(* ===== verification/Cpu_Multiply.thy ===== *)
theory Cpu_Multiply
  imports Cpu_State
begin

text \<open>
  The multiplier array of the ARM7TDMI in \<open>src/src/core/arm7tdmi.cpp\<close>, which \<open>execute_multiply_long\<close> runs for the carry flag of a
  flag-setting long multiply: radix-4 Booth recoding, four carry-save additions a cycle, early termination, and the final addition of the
  partial sums. \<open>multiply_loop\<close> is the \<open>do ... while\<close> loop. Its multiplier is a 33-bit value shifted right by eight every time round, so it
  ends after at most five rounds; the recursion takes the bound 8 as fuel and throws when it is exhausted, which \<open>Cpu_Multiply_Correct\<close>
  shows never to happen.
\<close>

section \<open>64-bit helpers\<close>

definition bit64 :: "u64 \<Rightarrow> nat \<Rightarrow> bool" where
  "bit64 v n \<longleftrightarrow> drop_bit n v AND 1 \<noteq> 0"

definition mask64_range :: "nat \<Rightarrow> nat \<Rightarrow> u64" where
  "mask64_range low high =
     (if high \<le> low then 0
      else if high \<ge> 64 then (if low = 0 then NOT 0 else push_bit low (NOT 0))
      else push_bit low (push_bit (high - low) 1 - 1))"

definition sign_extend64 :: "u64 \<Rightarrow> nat \<Rightarrow> nat \<Rightarrow> u64" where
  "sign_extend64 v from_bits to_bits =
     (let v = (if bit64 v (from_bits - 1) then v OR mask64_range from_bits to_bits else v)
      in if to_bits \<ge> 64 then v else v AND mask64_range 0 to_bits)"

definition arithmetic_shift_right :: "u64 \<Rightarrow> nat \<Rightarrow> nat \<Rightarrow> u64" where
  "arithmetic_shift_right v shift width = signed_drop_bit shift (sign_extend64 v width 64) AND mask64_range 0 width"

record u128_pair =
  lo :: u64
  hi :: u64

definition rotate_right_128 :: "u128_pair \<Rightarrow> nat \<Rightarrow> u128_pair" where
  "rotate_right_128 v shift =
     \<lparr>lo = drop_bit shift (lo v) OR push_bit (64 - shift) (hi v), hi = drop_bit shift (hi v) OR push_bit (64 - shift) (lo v)\<rparr>"

definition add32 :: "u64 \<Rightarrow> u64 \<Rightarrow> bool \<Rightarrow> u32 \<times> bool" where
  "add32 left right carry_in =
     (let sum = (left AND 0xFFFFFFFF) + (right AND 0xFFFFFFFF) + (if carry_in then 1 else 0) in (ucast sum, sum > 0xFFFFFFFF))"

section \<open>One cycle\<close>

text \<open>Booth chunks are three bits; the pair is the addend and whether the complement needs a carry.\<close>

definition booth_recode :: "u64 \<Rightarrow> u8 \<Rightarrow> u64 \<times> bool" where
  "booth_recode input booth_chunk =
     (let output =
        (if booth_chunk = 0 \<or> booth_chunk = 7 then (0, False)
         else if booth_chunk = 1 \<or> booth_chunk = 2 then (input, False)
         else if booth_chunk = 3 then (2 * input, False)
         else if booth_chunk = 4 then (NOT (2 * input), True)
         else if booth_chunk = 5 \<or> booth_chunk = 6 then (NOT input, True)
         else (0, False))
      in (fst output AND 0x3FFFFFFFF, snd output))"

record carry_save =
  csa_output :: u64
  csa_carry :: u64

definition carry_save_add :: "u64 \<Rightarrow> u64 \<Rightarrow> u64 \<Rightarrow> carry_save" where
  "carry_save_add a b c = \<lparr>csa_output = a XOR b XOR c, csa_carry = (a AND b) OR (b AND c) OR (c AND a)\<rparr>"

definition flag64 :: "bool \<Rightarrow> u64" where
  "flag64 b = (if b then 1 else 0)"

text \<open>Iteration \<open>i\<close> of the loop of \<open>multiply_csa_cycle\<close> on \<open>(csa, final, acc_shift)\<close>.\<close>

definition csa_step :: "u64 \<Rightarrow> u64 \<Rightarrow> nat \<Rightarrow> carry_save \<times> carry_save \<times> u64 \<Rightarrow> carry_save \<times> carry_save \<times> u64" where
  "csa_step multiplicand multiplier i = (\<lambda>(csa, final, acc_shift).
     let csa = \<lparr>csa_output = csa_output csa AND 0x1FFFFFFFF, csa_carry = csa_carry csa AND 0x1FFFFFFFF\<rparr>;
         addend = booth_recode multiplicand (ucast (drop_bit (2 * i) multiplier AND 7));
         added = carry_save_add (csa_output csa) (fst addend AND 0x1FFFFFFFF) (csa_carry csa);
         carry = push_bit 1 (csa_carry added) OR flag64 (snd addend);
         final = \<lparr>csa_output = csa_output final OR push_bit (2 * i) (csa_output added AND 3),
                  csa_carry = csa_carry final OR push_bit (2 * i) (carry AND 3)\<rparr>;
         sign_extension_fix = flag64 (bit64 acc_shift 0) + flag64 (\<not> bit64 (csa_carry csa) 32) + flag64 (\<not> bit64 (fst addend) 33)
     in (\<lparr>csa_output = drop_bit 2 (csa_output added) OR push_bit 31 sign_extension_fix,
          csa_carry = drop_bit 2 carry OR push_bit 32 (flag64 (\<not> bit64 acc_shift 1))\<rparr>,
         final, drop_bit 2 acc_shift))"

definition multiply_csa_cycle :: "carry_save \<Rightarrow> u64 \<Rightarrow> u64 \<Rightarrow> u64 \<Rightarrow> carry_save \<times> u64" where
  "multiply_csa_cycle previous multiplicand multiplier acc_shift =
     (let (csa, final, acc_shift) = fold (csa_step multiplicand multiplier) [0..<4] (previous, \<lparr>csa_output = 0, csa_carry = 0\<rparr>, acc_shift)
      in (\<lparr>csa_output = csa_output final OR push_bit 8 (csa_output csa), csa_carry = csa_carry final OR push_bit 8 (csa_carry csa)\<rparr>,
          acc_shift))"

definition multiply_should_terminate :: "u64 \<Rightarrow> bool \<Rightarrow> bool" where
  "multiply_should_terminate multiplier signed_multiply =
     (if signed_multiply then multiplier = 0x1FFFFFFFF \<or> multiplier = 0 else multiplier = 0)"

section \<open>Long multiplication\<close>

record multiply_state =
  ms_csa :: carry_save
  ms_acc_shift :: u64
  ms_partial_sum :: u128_pair
  ms_partial_carry :: u128_pair
  ms_multiplier :: u64
  ms_iterations :: nat

definition multiply_round :: "u64 \<Rightarrow> multiply_state \<Rightarrow> multiply_state" where
  "multiply_round multiplicand s =
     (let (csa, acc_shift) = multiply_csa_cycle (ms_csa s) multiplicand (ms_multiplier s) (ms_acc_shift s);
          partial_sum = ms_partial_sum s; partial_carry = ms_partial_carry s
      in \<lparr>ms_csa = \<lparr>csa_output = drop_bit 8 (csa_output csa), csa_carry = drop_bit 8 (csa_carry csa)\<rparr>,
          ms_acc_shift = acc_shift,
          ms_partial_sum = rotate_right_128 (partial_sum\<lparr>lo := lo partial_sum OR (csa_output csa AND 0xFF)\<rparr>) 8,
          ms_partial_carry = rotate_right_128 (partial_carry\<lparr>lo := lo partial_carry OR (csa_carry csa AND 0xFF)\<rparr>) 8,
          ms_multiplier = arithmetic_shift_right (ms_multiplier s) 8 33,
          ms_iterations = ms_iterations s + 1\<rparr>)"

fun multiply_loop :: "nat \<Rightarrow> bool \<Rightarrow> u64 \<Rightarrow> multiply_state \<Rightarrow> multiply_state throws" where
  "multiply_loop 0 signed_multiply multiplicand s = None"
| "multiply_loop (Suc fuel) signed_multiply multiplicand s =
     (let s = multiply_round multiplicand s
      in if multiply_should_terminate (ms_multiplier s) signed_multiply then Some s
         else multiply_loop fuel signed_multiply multiplicand s)"

definition multiply_start :: "bool \<Rightarrow> u32 \<Rightarrow> u32 \<Rightarrow> u64 \<Rightarrow> u64 \<times> multiply_state" where
  "multiply_start signed_multiply rm rs accumulator =
     (let multiplier = (if signed_multiply then sign_extend64 (ucast rs) 32 34 else ucast rs AND 0x1FFFFFFFF);
          multiplicand = (if signed_multiply then sign_extend64 (ucast rm) 32 34 else ucast rm AND 0x1FFFFFFFF);
          carry = (if multiplier AND 1 \<noteq> 0 then NOT multiplicand else 0)
      in (multiplicand,
          \<lparr>ms_csa = \<lparr>csa_output = drop_bit 1 accumulator, csa_carry = drop_bit 1 carry\<rparr>,
           ms_acc_shift = drop_bit 34 accumulator,
           ms_partial_sum = rotate_right_128 \<lparr>lo = accumulator AND 1, hi = 0\<rparr> 1,
           ms_partial_carry = rotate_right_128 \<lparr>lo = carry AND 1, hi = 0\<rparr> 1,
           ms_multiplier = multiplier, ms_iterations = 0\<rparr>))"

definition multiply_correction :: "nat \<Rightarrow> nat" where
  "multiply_correction iterations = (if iterations = 1 then 23 else if iterations = 2 then 15 else if iterations = 3 then 7 else 31)"

definition multiply_finish :: "bool \<Rightarrow> multiply_state \<Rightarrow> u64 \<times> bool" where
  "multiply_finish alu_carry_in s =
     (let partial_sum = ms_partial_sum s; partial_carry = ms_partial_carry s;
          partial_sum = partial_sum\<lparr>lo := lo partial_sum OR csa_output (ms_csa s)\<rparr>;
          partial_carry = partial_carry\<lparr>lo := lo partial_carry OR csa_carry (ms_csa s)\<rparr>;
          correction_ror = multiply_correction (ms_iterations s);
          partial_sum = rotate_right_128 partial_sum correction_ror;
          partial_carry = rotate_right_128 partial_carry correction_ror
      in if ms_iterations s = 4 then
           (let (low, low_carry) = add32 (hi partial_sum) (hi partial_carry) alu_carry_in;
                (high, high_carry) = add32 (drop_bit 32 (hi partial_sum)) (drop_bit 32 (hi partial_carry)) low_carry
            in (push_bit 32 (ucast high) OR ucast low, bit64 (hi partial_carry) 63))
         else
           (let (low, low_carry) = add32 (drop_bit 32 (hi partial_sum)) (drop_bit 32 (hi partial_carry)) alu_carry_in;
                shift_amount = 2 + 8 * ms_iterations s;
                partial_carry = partial_carry\<lparr>lo := sign_extend64 (lo partial_carry) shift_amount 64\<rparr>;
                partial_sum = partial_sum\<lparr>lo := lo partial_sum OR push_bit shift_amount (ms_acc_shift s)\<rparr>;
                (high, high_carry) = add32 (lo partial_sum) (lo partial_carry) low_carry
            in (push_bit 32 (ucast high) OR ucast low, bit64 (hi partial_carry) 63)))"

definition arm7tdmi_multiply_long_output :: "bool \<Rightarrow> u32 \<Rightarrow> u32 \<Rightarrow> u64 \<Rightarrow> (u64 \<times> bool) throws" where
  "arm7tdmi_multiply_long_output signed_multiply rm rs accumulator =
     (let (multiplicand, s) = multiply_start signed_multiply rm rs accumulator in do {
        s \<leftarrow> multiply_loop 8 signed_multiply multiplicand s;
        Some (multiply_finish (rs AND 1 \<noteq> 0) s)})"

end
