(* ===== verification/Cpu_Execute.thy ===== *)
theory Cpu_Execute
  imports Thumb_Decode Cpu_Multiply
begin

text \<open>
  The instructions of \<open>src/src/core/arm7tdmi.cpp\<close> that touch no memory: data processing, PSR transfers, multiplies, branches, the Thumb
  arithmetic formats and the two dispatchers without a bus. An instruction is a function from the processor to the pair of its status
  and the processor after it. A conversion of a negative offset to \<open>std::uint32_t\<close> is \<^const>\<open>word_of_int\<close>.
\<close>

type_synonym step = "arm7tdmi \<Rightarrow> (execute_status \<times> arm7tdmi) throws"

text \<open>\<open>registers_.at(index) = v; return ExecuteStatus::executed;\<close>\<close>

definition write_executed :: "u8 \<Rightarrow> u32 \<Rightarrow> step" where
  "write_executed index v c = do {c \<leftarrow> set_reg index v c; Some (Executed, c)}"

section \<open>ARM data processing\<close>

definition set_logical_flags :: "u32 \<Rightarrow> decoded_arm \<Rightarrow> arm7tdmi \<Rightarrow> arm7tdmi" where
  "set_logical_flags result d c =
     (let c = set_nz result c in if da_shifter_carry_valid d then c\<lparr>cpu_carry := da_shifter_carry d\<rparr> else c)"

text \<open>
  The lambda \<open>write_result\<close>: with \<open>S\<close> set and \<open>rd\<close> the PC in a mode with an SPSR, CPSR is restored from it (whatever \<open>set_cpsr\<close> answers)
  and the PC is word aligned.
\<close>

definition spsr_restore_to_pc :: "decoded_arm \<Rightarrow> arm7tdmi \<Rightarrow> bool" where
  "spsr_restore_to_pc d c \<longleftrightarrow> da_rd d = kPc \<and> da_set_flags d \<and> has_spsr c"

definition write_result :: "decoded_arm \<Rightarrow> u32 \<Rightarrow> arm7tdmi \<Rightarrow> arm7tdmi throws" where
  "write_result d result c =
     (if \<not> spsr_restore_to_pc d c then set_reg (da_rd d) result c
      else do {
        saved \<leftarrow> spsr c;
        (accepted, c) \<leftarrow> set_cpsr saved c;
        set_reg kPc (result AND NOT 3) c})"

text \<open>The result of an opcode that writes one, and the flags it sets when it is asked to.\<close>

definition write_and_flag :: "decoded_arm \<Rightarrow> u32 \<Rightarrow> (arm7tdmi \<Rightarrow> arm7tdmi) \<Rightarrow> step" where
  "write_and_flag d result flags c =
     (let restore = spsr_restore_to_pc d c in do {
        c \<leftarrow> write_result d result c;
        Some (Executed, if da_set_flags d \<and> \<not> restore then flags c else c)})"

definition logical_result :: "decoded_arm \<Rightarrow> u32 \<Rightarrow> step" where
  "logical_result d result = write_and_flag d result (set_logical_flags result d)"

definition execute_data_processing :: "decoded_arm \<Rightarrow> u32 \<Rightarrow> step" where
  "execute_data_processing d pc_offset c = do {
     rn \<leftarrow> reg c (da_rn d);
     let left = (if da_rn d = kPc then rn + pc_offset else rn);
     let operand = da_operand2 d;
     let carry_in = cpu_carry c;
     case da_opcode d of
       Op_and \<Rightarrow> logical_result d (left AND operand) c
     | Op_eor \<Rightarrow> logical_result d (left XOR operand) c
     | Op_mov \<Rightarrow> logical_result d operand c
     | Op_orr \<Rightarrow> logical_result d (left OR operand) c
     | Op_bic \<Rightarrow> logical_result d (left AND NOT operand) c
     | Op_mvn \<Rightarrow> logical_result d (NOT operand) c
     | Op_add \<Rightarrow> let result = left + operand in write_and_flag d result (set_add_flags left operand result) c
     | Op_sub \<Rightarrow> let result = left - operand in write_and_flag d result (set_sub_flags left operand result) c
     | Op_rsb \<Rightarrow> let result = operand - left in write_and_flag d result (set_sub_flags operand left result) c
     | Op_adc \<Rightarrow> let result = left + operand + (if carry_in then 1 else 0)
         in write_and_flag d result (set_adc_flags left operand carry_in result) c
     | Op_sbc \<Rightarrow> let result = left - operand - (if carry_in then 0 else 1)
         in write_and_flag d result (set_sbc_flags left operand carry_in result) c
     | Op_rsc \<Rightarrow> let result = operand - left - (if carry_in then 0 else 1)
         in write_and_flag d result (set_sbc_flags operand left carry_in result) c
     | Op_cmp \<Rightarrow> Some (Executed, set_sub_flags left operand (left - operand) c)
     | Op_cmn \<Rightarrow> Some (Executed, set_add_flags left operand (left + operand) c)
     | Op_tst \<Rightarrow> Some (Executed, set_logical_flags (left AND operand) d c)
     | Op_teq \<Rightarrow> Some (Executed, set_logical_flags (left XOR operand) d c)}"

section \<open>PSR transfers and multiplies\<close>

definition status_of :: "bool \<Rightarrow> execute_status" where
  "status_of ok = (if ok then Executed else Unsupported)"

definition execute_psr_transfer :: "decoded_psr_transfer \<Rightarrow> step" where
  "execute_psr_transfer d c =
     (if \<not> dp_write d then
        (if dp_psr d = Psr_spsr then
           (case spsr c of None \<Rightarrow> Some (Unsupported, c) | Some v \<Rightarrow> write_executed (dp_rd_or_rm d) v c)
         else write_executed (dp_rd_or_rm d) (cpsr c) c)
      else let field_mask = psr_field_mask (dp_field_mask d) in
        if field_mask = 0 then Some (Unsupported, c)
        else do {
          operand \<leftarrow> (if dp_immediate_operand d then Some (dp_operand d) else arm_visible_register_value c (dp_rd_or_rm d));
          if dp_psr d = Psr_spsr then
            (case spsr c of
               None \<Rightarrow> Some (Unsupported, c)
             | Some old_value \<Rightarrow>
                 let (ok, c) = set_spsr ((old_value AND NOT field_mask) OR (operand AND field_mask)) c in Some (status_of ok, c))
          else do {
            let effective = (if cpu_mode c = mode_user \<and> field_mask AND kControlByteMask \<noteq> 0
              then field_mask AND NOT kControlByteMask else field_mask);
            (ok, c) \<leftarrow> set_cpsr ((cpsr c AND NOT effective) OR (operand AND effective)) c;
            Some (status_of ok, c)}})"

definition execute_multiply :: "decoded_multiply \<Rightarrow> step" where
  "execute_multiply d c = do {
     rm \<leftarrow> reg c (dm_rm d);
     rs \<leftarrow> reg c (dm_rs d);
     let product = (ucast rm * ucast rs :: u64);
     accumulator \<leftarrow> (if dm_accumulate d then reg c (dm_rn d) else Some 0);
     let result = ucast product + accumulator;
     c \<leftarrow> set_reg (dm_rd d) result c;
     Some (Executed, if dm_set_flags d then set_nz result c else c)}"

definition long_product :: "bool \<Rightarrow> u32 \<Rightarrow> u32 \<Rightarrow> u64" where
  "long_product signed_multiply rm rs = (if signed_multiply then word_of_int (sint rm * sint rs) else ucast rm * ucast rs)"

definition execute_multiply_long :: "decoded_multiply_long \<Rightarrow> step" where
  "execute_multiply_long d c = do {
     rm \<leftarrow> reg c (dl_rm d);
     rs \<leftarrow> reg c (dl_rs d);
     accumulator \<leftarrow> (if dl_accumulate d
       then do {high \<leftarrow> reg c (dl_rd_hi d); low \<leftarrow> reg c (dl_rd_lo d); Some (push_bit 32 (ucast high) OR ucast low :: u64)}
       else Some 0);
     let result = long_product (dl_signed_multiply d) rm rs + accumulator;
     c \<leftarrow> set_reg (dl_rd_lo d) (ucast (result AND 0xFFFFFFFF)) c;
     c \<leftarrow> set_reg (dl_rd_hi d) (ucast (drop_bit 32 result)) c;
     if dl_set_flags d then do {
       (output, carry) \<leftarrow> arm7tdmi_multiply_long_output (dl_signed_multiply d) rm rs accumulator;
       Some (Executed, (set_nz64 result c)\<lparr>cpu_carry := carry\<rparr>)}
     else Some (Executed, c)}"

section \<open>The ARM dispatcher without memory\<close>

definition conditionally :: "arm_condition \<Rightarrow> step \<Rightarrow> step" where
  "conditionally condition f c = (if condition_passed c condition then f c else Some (Skipped_condition, c))"

definition execute_branch :: "decoded_branch \<Rightarrow> step" where
  "execute_branch d c = do {
     pc \<leftarrow> reg c kPc;
     c \<leftarrow> (if db_link d then set_reg kLinkRegister (pc + 4) c else Some c);
     write_executed kPc (word_of_int (uint pc + 8 + db_offset d)) c}"

definition execute_branch_exchange :: "decoded_branch_exchange \<Rightarrow> step" where
  "execute_branch_exchange d c = do {
     target \<leftarrow> (if dx_rm d = kPc then arm_visible_register_value c kPc else reg c (dx_rm d));
     write_executed kPc (target AND NOT 1) (c\<lparr>cpu_thumb_state := target AND 1 \<noteq> 0\<rparr>)}"

definition register_shift_visible_value :: "arm7tdmi \<Rightarrow> u8 \<Rightarrow> u32 throws" where
  "register_shift_visible_value c index = do {v \<leftarrow> reg c index; Some (if index = kPc then v + 12 else v)}"

definition execute_shifted_operand :: "u32 \<Rightarrow> step" where
  "execute_shifted_operand i c =
     (let rm = bits i 0 0xF; register_shift = register_shift_shape i in do {
        d \<leftarrow> (if register_shift
          then do {rm_value \<leftarrow> register_shift_visible_value c rm; rs_value \<leftarrow> register_shift_visible_value c (bits i 8 0xF);
                   decode_data_processing_register_shift i rm_value rs_value}
          else do {rm_value \<leftarrow> arm_visible_register_value c rm; decode_data_processing_immediate_shift i rm_value (cpu_carry c)});
        conditionally (da_condition d) (execute_data_processing d (if register_shift then 12 else 8)) c})"

text \<open>Software interrupts and the coprocessor space, the common head of the two ARM dispatchers; \<^const>\<open>None\<close> goes on with the rest.\<close>

definition execute_arm_head :: "u32 \<Rightarrow> step option" where
  "execute_arm_head i =
     (if instruction_condition i = 0xF then Some (\<lambda>c. Some (Skipped_condition, c))
      else if can_decode_software_interrupt i then
        Some (conditionally (arm_condition_of (instruction_condition i)) (enter_exception Exc_software_interrupt))
      else if drop_bit 24 i AND 0xF = 0xE \<or> drop_bit 24 i AND 0xF = 0xF then
        Some (conditionally (arm_condition_of (instruction_condition i)) (\<lambda>c. Some (Executed, c)))
      else None)"

definition execute_arm :: "u32 \<Rightarrow> step" where
  "execute_arm i c =
     (case execute_arm_head i of
        Some f \<Rightarrow> f c
      | None \<Rightarrow>
        if can_decode_psr_transfer i then
          do {d \<leftarrow> decode_psr_transfer i; conditionally (dp_condition d) (execute_psr_transfer d) c}
        else if can_decode_branch i then
          do {d \<leftarrow> decode_branch i; conditionally (db_condition d) (execute_branch d) c}
        else if can_decode_branch_exchange i then
          do {d \<leftarrow> decode_branch_exchange i; conditionally (dx_condition d) (execute_branch_exchange d) c}
        else if can_decode_multiply_long i then
          do {d \<leftarrow> decode_multiply_long i; conditionally (dl_condition d) (execute_multiply_long d) c}
        else if can_decode_multiply i then
          do {d \<leftarrow> decode_multiply i; conditionally (dm_condition d) (execute_multiply d) c}
        else if \<not> can_decode_data_processing_immediate i then
          (if \<not> can_decode_data_processing_register_shift i then Some (Unsupported, c) else execute_shifted_operand i c)
        else do {d \<leftarrow> decode_data_processing_immediate i; conditionally (da_condition d) (execute_data_processing d 8) c})"

section \<open>Thumb\<close>

text \<open>\<open>static_cast<std::int32_t>(v) >> amount\<close>.\<close>

definition signed_shift_right :: "u32 \<Rightarrow> nat \<Rightarrow> u32" where
  "signed_shift_right v amount = signed_drop_bit amount v"

definition execute_thumb_shift :: "decoded_thumb_shift \<Rightarrow> step" where
  "execute_thumb_shift d c = do {
     v \<leftarrow> reg c (dts_rs d);
     let amount = unat (dts_amount d);
     let amount32 = (if amount = 0 then 32 else amount);
     let finish = (\<lambda>result update_carry carry_out. do {
       c \<leftarrow> set_reg (dts_rd d) result c;
       let c = set_nz result c;
       Some (Executed, if update_carry then c\<lparr>cpu_carry := carry_out\<rparr> else c)});
     case dts_type d of
       Lsl \<Rightarrow> if amount = 0 then finish v False False
              else finish (push_bit amount v) True (drop_bit (32 - amount) v AND 1 \<noteq> 0)
     | Lsr \<Rightarrow> finish (if amount32 = 32 then 0 else drop_bit amount32 v) True (drop_bit (amount32 - 1) v AND 1 \<noteq> 0)
     | Asr \<Rightarrow> finish (if amount32 = 32 then if v AND 0x80000000 \<noteq> 0 then 0xFFFFFFFF else 0 else signed_shift_right v amount32)
                True (drop_bit (amount32 - 1) v AND 1 \<noteq> 0)
     | Ror \<Rightarrow> Some (Unsupported, c)}"

text \<open>The register shifts of the Thumb ALU format: the result and the carry when it changes.\<close>

definition thumb_lsl :: "u32 \<Rightarrow> nat \<Rightarrow> u32 \<times> bool option" where
  "thumb_lsl left amount =
     (if amount = 0 then (left, None)
      else if amount < 32 then (push_bit amount left, Some (drop_bit (32 - amount) left AND 1 \<noteq> 0))
      else if amount = 32 then (0, Some (left AND 1 \<noteq> 0)) else (0, Some False))"

definition thumb_lsr :: "u32 \<Rightarrow> nat \<Rightarrow> u32 \<times> bool option" where
  "thumb_lsr left amount =
     (if amount = 0 then (left, None)
      else if amount < 32 then (drop_bit amount left, Some (drop_bit (amount - 1) left AND 1 \<noteq> 0))
      else if amount = 32 then (0, Some (left AND 0x80000000 \<noteq> 0)) else (0, Some False))"

definition thumb_asr :: "u32 \<Rightarrow> nat \<Rightarrow> u32 \<times> bool option" where
  "thumb_asr left amount =
     (if amount = 0 then (left, None)
      else if amount < 32 then (signed_shift_right left amount, Some (drop_bit (amount - 1) left AND 1 \<noteq> 0))
      else let carry_out = (left AND 0x80000000 \<noteq> 0) in (if carry_out then 0xFFFFFFFF else 0, Some carry_out))"

definition thumb_ror :: "u32 \<Rightarrow> nat \<Rightarrow> u32 \<times> bool option" where
  "thumb_ror left amount =
     (if amount = 0 then (left, None)
      else let shift = amount mod 32; result = (if shift = 0 then left else rotate_right left shift)
        in (result, Some (result AND 0x80000000 \<noteq> 0)))"

definition execute_thumb_alu :: "decoded_thumb_alu \<Rightarrow> step" where
  "execute_thumb_alu d c = do {
     left \<leftarrow> reg c (dta_rd d);
     right \<leftarrow> reg c (dta_rs d);
     let amount = unat (ucast (right AND 0xFF) :: u8);
     let logical = (\<lambda>result. do {c \<leftarrow> set_reg (dta_rd d) result c; Some (Executed, set_nz result c)});
     let shift = (\<lambda>(result, carry). do {
       c \<leftarrow> set_reg (dta_rd d) result c;
       let c = set_nz result c;
       Some (Executed, case carry of None \<Rightarrow> c | Some carry_out \<Rightarrow> c\<lparr>cpu_carry := carry_out\<rparr>)});
     let arithmetic = (\<lambda>result c. write_executed (dta_rd d) result c);
     case dta_opcode d of
       Alu_and \<Rightarrow> logical (left AND right)
     | Alu_eor \<Rightarrow> logical (left XOR right)
     | Alu_lsl \<Rightarrow> shift (thumb_lsl left amount)
     | Alu_lsr \<Rightarrow> shift (thumb_lsr left amount)
     | Alu_asr \<Rightarrow> shift (thumb_asr left amount)
     | Alu_adc \<Rightarrow> let result = left + right + (if cpu_carry c then 1 else 0)
         in arithmetic result (set_adc_flags left right (cpu_carry c) result c)
     | Alu_sbc \<Rightarrow> let result = left - right - (if cpu_carry c then 0 else 1)
         in arithmetic result (set_sbc_flags left right (cpu_carry c) result c)
     | Alu_ror \<Rightarrow> shift (thumb_ror left amount)
     | Alu_tst \<Rightarrow> Some (Executed, set_nz (left AND right) c)
     | Alu_neg \<Rightarrow> arithmetic (0 - right) (set_sub_flags 0 right (0 - right) c)
     | Alu_cmp \<Rightarrow> Some (Executed, set_sub_flags left right (left - right) c)
     | Alu_cmn \<Rightarrow> Some (Executed, set_add_flags left right (left + right) c)
     | Alu_orr \<Rightarrow> logical (left OR right)
     | Alu_mul \<Rightarrow> logical (left * right)
     | Alu_bic \<Rightarrow> logical (left AND NOT right)
     | Alu_mvn \<Rightarrow> logical (NOT right)}"

definition execute_thumb_data_processing :: "decoded_thumb \<Rightarrow> step" where
  "execute_thumb_data_processing d c = do {
     operand \<leftarrow> (if dt_operand_is_register d then vec_at (cpu_registers c) (unat (dt_operand d)) else Some (dt_operand d));
     case dt_opcode d of
       Thumb_mov \<Rightarrow> do {c \<leftarrow> set_reg (dt_rd d) operand c; Some (Executed, set_nz operand c)}
     | Thumb_cmp \<Rightarrow> do {left \<leftarrow> reg c (dt_rd d); Some (Executed, set_sub_flags left operand (left - operand) c)}
     | Thumb_add \<Rightarrow> do {
         left \<leftarrow> reg c (dt_rs d);
         c \<leftarrow> set_reg (dt_rd d) (left + operand) c;
         Some (Executed, set_add_flags left operand (left + operand) c)}
     | Thumb_sub \<Rightarrow> do {
         left \<leftarrow> reg c (dt_rs d);
         c \<leftarrow> set_reg (dt_rd d) (left - operand) c;
         Some (Executed, set_sub_flags left operand (left - operand) c)}}"

definition execute_thumb_branch :: "decoded_thumb_branch \<Rightarrow> step" where
  "execute_thumb_branch d c =
     (if dtb_conditional d \<and> \<not> condition_passed c (dtb_condition d) then Some (Skipped_condition, c)
      else do {
        pc \<leftarrow> thumb_visible_register_value c kPc;
        write_executed kPc (pc + word_of_int (dtb_offset d)) c})"

definition execute_thumb_long_branch_link :: "decoded_thumb_long_branch \<Rightarrow> step" where
  "execute_thumb_long_branch_link d c =
     (if \<not> dtl_second_half d then do {
        pc \<leftarrow> thumb_visible_register_value c kPc;
        write_executed kLinkRegister (pc + word_of_int (dtl_offset d)) c}
      else do {
        lr \<leftarrow> reg c kLinkRegister;
        let target = lr + word_of_int (dtl_offset d);
        pc \<leftarrow> reg c kPc;
        c \<leftarrow> set_reg kLinkRegister ((pc + 2) OR 1) c;
        c \<leftarrow> set_reg kPc (target AND NOT 1) c;
        Some (Executed, c\<lparr>cpu_thumb_state := True\<rparr>)})"

definition execute_thumb_high_register :: "decoded_thumb_high_register \<Rightarrow> step" where
  "execute_thumb_high_register d c = do {
     source \<leftarrow> thumb_visible_register_value c (dth_rs d);
     case dth_opcode d of
       High_add \<Rightarrow> do {
         left \<leftarrow> thumb_visible_register_value c (dth_rd d);
         let result = left + source;
         write_executed (dth_rd d) (if dth_rd d = kPc then result AND NOT 1 else result) c}
     | High_cmp \<Rightarrow> do {
         left \<leftarrow> thumb_visible_register_value c (dth_rd d);
         Some (Executed, set_sub_flags left source (left - source) c)}
     | High_mov \<Rightarrow> write_executed (dth_rd d) (if dth_rd d = kPc then source AND NOT 1 else source) c
     | High_bx \<Rightarrow> write_executed kPc (source AND NOT 1) (c\<lparr>cpu_thumb_state := source AND 1 \<noteq> 0\<rparr>)}"

definition execute_thumb_stack_pointer_adjust :: "decoded_thumb_stack_pointer \<Rightarrow> step" where
  "execute_thumb_stack_pointer_adjust d c = do {
     sp \<leftarrow> reg c 13;
     write_executed 13 (if dtsp_subtract d then sp - dtsp_offset d else sp + dtsp_offset d) c}"

definition execute_thumb_load_address :: "decoded_thumb_load_address \<Rightarrow> step" where
  "execute_thumb_load_address d c = do {
     base \<leftarrow> (if dtla_base_is_sp d then reg c 13 else map_option align_word (thumb_visible_register_value c kPc));
     write_executed (dtla_rd d) (base + dtla_offset d) c}"

definition execute_thumb :: "u16 \<Rightarrow> step" where
  "execute_thumb i c =
     (if can_decode_thumb_software_interrupt i then enter_exception Exc_software_interrupt c
      else if can_decode_thumb_high_register i then do {d \<leftarrow> decode_thumb_high_register i; execute_thumb_high_register d c}
      else if can_decode_thumb_conditional_branch i then do {d \<leftarrow> decode_thumb_conditional_branch i; execute_thumb_branch d c}
      else if can_decode_thumb_unconditional_branch i then do {d \<leftarrow> decode_thumb_unconditional_branch i; execute_thumb_branch d c}
      else if can_decode_thumb_long_branch_link i then do {d \<leftarrow> decode_thumb_long_branch_link i; execute_thumb_long_branch_link d c}
      else if can_decode_thumb_shift_immediate i then do {d \<leftarrow> decode_thumb_shift_immediate i; execute_thumb_shift d c}
      else if can_decode_thumb_alu i then do {d \<leftarrow> decode_thumb_alu i; execute_thumb_alu d c}
      else if can_decode_thumb_stack_pointer_adjust i then
        do {d \<leftarrow> decode_thumb_stack_pointer_adjust i; execute_thumb_stack_pointer_adjust d c}
      else if can_decode_thumb_load_address i then do {d \<leftarrow> decode_thumb_load_address i; execute_thumb_load_address d c}
      else if can_decode_thumb_add_subtract i then do {d \<leftarrow> decode_thumb_add_subtract i; execute_thumb_data_processing d c}
      else if can_decode_thumb_immediate i then do {d \<leftarrow> decode_thumb_immediate i; execute_thumb_data_processing d c}
      else Some (Unsupported, c))"

end
