(* ===== verification/Cpu_Alu.thy ===== *)
theory Cpu_Alu
  imports Cpu_Banks Cpu_Execute
begin

text \<open>
  Correctness of the arithmetic: the flags of additions and subtractions against the architecture's \<open>AddWithCarry\<close> on integers, data
  processing instructions against a reference ALU, comparisons against the conditions that follow them, and the barrel shifter of both
  instruction sets against shifts of integers.
\<close>

section \<open>Add with carry\<close>

text \<open>The result, the carry (the unsigned sum does not fit) and the overflow (the signed sum does not fit).\<close>

definition add_with_carry :: "u32 \<Rightarrow> u32 \<Rightarrow> bool \<Rightarrow> u32 \<times> bool \<times> bool" where
  "add_with_carry x y carry_in =
     (let unsigned_sum = uint x + uint y + of_bool carry_in; signed_sum = sint x + sint y + of_bool carry_in;
          result = word_of_int unsigned_sum
      in (result, uint result \<noteq> unsigned_sum, sint result \<noteq> signed_sum))"

definition set_nzcv :: "u32 \<times> bool \<times> bool \<Rightarrow> arm7tdmi \<Rightarrow> arm7tdmi" where
  "set_nzcv r c = c\<lparr>cpu_negative := sint (fst r) < 0, cpu_zero := fst r = 0, cpu_carry := fst (snd r), cpu_overflow := snd (snd r)\<rparr>"

lemma sign_bit_iff: "sign_bit v \<longleftrightarrow> 2 ^ 31 \<le> uint v"
proof -
  have "sign_bit v \<longleftrightarrow> bit v 31"
    using and_exp_flag [of "0x80000000" 31 v] by (simp add: sign_bit_def)
  also have "\<dots> \<longleftrightarrow> bit (uint v) 31"
    by (simp add: bit_uint_iff)
  also have "\<dots> \<longleftrightarrow> odd (uint v div 2 ^ 31)"
    by (rule bit_iff_odd)
  also have "\<dots> \<longleftrightarrow> 2 ^ 31 \<le> uint v"
  proof -
    have "uint v < 2 ^ 32"
      using uint_lt2p [of v] by simp
    then have "uint v div 2 ^ 31 = (if 2 ^ 31 \<le> uint v then 1 else 0)"
      by (auto simp: div_pos_pos_trivial intro!: div_pos_geq [THEN trans] )
    then show ?thesis
      by simp
  qed
  finally show ?thesis .
qed

lemma sint_value: "sint v = uint v - (if sign_bit v then 2 ^ 32 else 0)" for v :: u32
proof -
  have b: "0 \<le> uint v" "uint v < 2 ^ 32"
    using uint_lt2p [of v] by simp_all
  have "sint v = signed_take_bit 31 (uint v)"
    by (simp add: signed_take_bit_eq sint_uint)
  also have "\<dots> = (uint v + 2 ^ 31) mod 2 ^ 32 - 2 ^ 31"
    by (simp add: signed_take_bit_eq_take_bit_shift take_bit_eq_mod)
  also have "\<dots> = uint v - (if sign_bit v then 2 ^ 32 else 0)"
  proof (cases "sign_bit v")
    case True
    then have "(uint v + 2 ^ 31) mod 2 ^ 32 = uint v + 2 ^ 31 - 2 ^ 32"
      using b by (simp add: sign_bit_iff mod_pos_geq mod_pos_pos_trivial)
    then show ?thesis
      using True by simp
  next
    case False
    then have "(uint v + 2 ^ 31) mod 2 ^ 32 = uint v + 2 ^ 31"
      using b by (simp add: sign_bit_iff mod_pos_pos_trivial)
    then show ?thesis
      using False by simp
  qed
  finally show ?thesis .
qed

lemma uint_bounds: "0 \<le> uint v" "uint v < 4294967296" for v :: u32
  using uint_lt2p [of v] by simp_all

lemma uint_of_sum:
  assumes "0 \<le> s" "s < 2 * 4294967296"
  shows "uint (word_of_int s :: u32) = (if s < 4294967296 then s else s - 4294967296)"
  using assms mod_pos_pos_trivial [of s 4294967296] mod_pos_pos_trivial [of "s - 4294967296" 4294967296] minus_mod_self2 [of s 4294967296]
  by (simp add: uint_word_of_int)

lemma uint_not: "uint (NOT v) = 4294967295 - uint v" for v :: u32
proof -
  have "NOT v = word_of_int (- uint v - 1)"
    by (simp add: not_eq_complement)
  then have "uint (NOT v) = (- uint v - 1) mod 4294967296"
    by (simp only: uint_word_of_int) simp
  also have "\<dots> = (4294967295 - uint v) mod 4294967296"
    using mod_add_self2 [of "- uint v - 1" 4294967296] by simp
  finally show ?thesis
    using uint_bounds [of v] by (simp add: mod_pos_pos_trivial)
qed

text \<open>The carry and overflow of a sum, by signs.\<close>

definition as_signed :: "int \<Rightarrow> int" where
  "as_signed v = (if 2147483648 \<le> v then v - 4294967296 else v)"

lemma sint_as_signed: "sint v = as_signed (uint v)" for v :: u32
  by (simp add: sint_value sign_bit_iff as_signed_def)

lemma sum_arithmetic:
  fixes X Y B S :: int
  assumes "0 \<le> X" "X < 4294967296" "0 \<le> Y" "Y < 4294967296" "B = 0 \<or> B = 1"
    and S: "S = (if X + Y + B < 4294967296 then X + Y + B else X + Y + B - 4294967296)"
  shows "S \<noteq> X + Y + B \<longleftrightarrow> 4294967296 \<le> X + Y + B"
    and "as_signed S \<noteq> as_signed X + as_signed Y + B \<longleftrightarrow>
      (2147483648 \<le> X) = (2147483648 \<le> Y) \<and> (2147483648 \<le> X) \<noteq> (2147483648 \<le> S)"
  using assms(1-5) unfolding S as_signed_def by (auto split: if_splits)

lemma awc_flags:
  "add_with_carry x y b = (x + y + of_bool b, 4294967296 \<le> uint x + uint y + of_bool b,
     sign_bit x = sign_bit y \<and> sign_bit x \<noteq> sign_bit (x + y + of_bool b))"
proof -
  let ?s = "uint x + uint y + of_bool b"
  have r: "word_of_int ?s = x + y + of_bool b"
    by simp
  have u: "uint (x + y + of_bool b) = (if ?s < 4294967296 then ?s else ?s - 4294967296)"
    unfolding r [symmetric] by (rule uint_of_sum) (use uint_bounds [of x] uint_bounds [of y] in auto)
  note a = sum_arithmetic [OF uint_bounds [of x] uint_bounds [of y] _ u]
  have "of_bool b = (0::int) \<or> of_bool b = (1::int)"
    by simp
  from a(1) [OF this] a(2) [OF this] show ?thesis
    by (simp add: add_with_carry_def Let_def r sint_as_signed sign_bit_iff)
qed

lemma add_flags: "set_add_flags l r (l + r) c = set_nzcv (add_with_carry l r False) c"
proof -
  have "uint (l + r) = (if uint l + uint r < 4294967296 then uint l + uint r else uint l + uint r - 4294967296)"
    using uint_of_sum [of "uint l + uint r"] uint_bounds [of l] uint_bounds [of r] by simp
  then have "l + r < l \<longleftrightarrow> 4294967296 \<le> uint l + uint r"
    using uint_bounds [of l] uint_bounds [of r] by (auto simp: word_less_def)
  moreover have "sint v < 0 \<longleftrightarrow> sign_bit v" for v :: u32
    using uint_bounds [of v] by (simp add: sint_value)
  ultimately show ?thesis
    by (simp add: set_add_flags_def set_nz_def set_nzcv_def awc_flags)
qed

lemma negative_flag: "sint v < 0 \<longleftrightarrow> sign_bit v" for v :: u32
  using uint_bounds [of v] by (simp add: sint_value)

lemma adc_flags: "set_adc_flags l r b (l + r + (if b then 1 else 0)) c = set_nzcv (add_with_carry l r b) c"
proof -
  have "uint (ucast l + ucast r + (if b then 1 else 0) :: u64) = uint l + uint r + of_bool b"
    using uint_bounds [of l] uint_bounds [of r]
    by (simp add: uint_word_ariths unsigned_ucast_eq mod_pos_pos_trivial uint_word_of_int take_bit_int_eq_self)
  moreover have "(4294967295 < n) = (4294967296 \<le> n)" for n :: int
    by linarith
  ultimately show ?thesis
    by (simp add: set_adc_flags_def Let_def set_nz_def set_nzcv_def awc_flags negative_flag word_less_def of_bool_def)
qed

lemma sign_bit_not [simp]: "sign_bit (NOT v) \<longleftrightarrow> \<not> sign_bit v"
  using uint_bounds [of v] by (auto simp: sign_bit_iff uint_not)

lemma awc_not:
  "add_with_carry l (NOT r) b = (l - r - (if b then 0 else 1), uint r + (if b then 0 else 1) \<le> uint l,
     sign_bit l \<noteq> sign_bit r \<and> sign_bit l \<noteq> sign_bit (l - r - (if b then 0 else 1)))"
proof -
  have result: "l + NOT r + of_bool b = l - r - (if b then 0 else 1)"
    by (simp add: not_eq_complement)
  have "(4294967296 \<le> uint l + uint (NOT r) + of_bool b) = (uint r + (if b then 0 else 1) \<le> uint l)"
    by (auto simp: uint_not)
  then show ?thesis
    unfolding awc_flags result by auto
qed

lemma sub_flags: "set_sub_flags l r (l - r) c = set_nzcv (add_with_carry l (NOT r) True) c"
  by (simp add: set_sub_flags_def set_nz_def set_nzcv_def awc_not negative_flag word_le_def)

lemma sbc_flags: "set_sbc_flags l r b (l - r - (if b then 0 else 1)) c = set_nzcv (add_with_carry l (NOT r) b) c"
proof -
  have "uint (ucast r + (if b then 0 else 1) :: u64) = uint r + (if b then 0 else 1)" "uint (ucast l :: u64) = uint l"
    using uint_bounds [of l] uint_bounds [of r]
    by (simp_all add: uint_word_ariths unsigned_ucast_eq mod_pos_pos_trivial uint_word_of_int take_bit_int_eq_self)
  then show ?thesis
    by (simp add: set_sbc_flags_def Let_def set_nz_def set_nzcv_def awc_not negative_flag word_le_def)
qed

section \<open>Data processing against a reference ALU\<close>

text \<open>The result of an opcode and, for the arithmetic ones, its carry and overflow.\<close>

definition alu_reference :: "arm_opcode \<Rightarrow> u32 \<Rightarrow> u32 \<Rightarrow> bool \<Rightarrow> u32 \<times> (bool \<times> bool) option" where
  "alu_reference opcode x y carry =
     (let arithmetic = (\<lambda>r. (fst r, Some (snd r))); logical = (\<lambda>r. (r, None)) in
      case opcode of
        Op_and \<Rightarrow> logical (x AND y) | Op_tst \<Rightarrow> logical (x AND y)
      | Op_eor \<Rightarrow> logical (x XOR y) | Op_teq \<Rightarrow> logical (x XOR y)
      | Op_orr \<Rightarrow> logical (x OR y) | Op_mov \<Rightarrow> logical y | Op_bic \<Rightarrow> logical (x AND NOT y) | Op_mvn \<Rightarrow> logical (NOT y)
      | Op_add \<Rightarrow> arithmetic (add_with_carry x y False) | Op_cmn \<Rightarrow> arithmetic (add_with_carry x y False)
      | Op_adc \<Rightarrow> arithmetic (add_with_carry x y carry)
      | Op_sub \<Rightarrow> arithmetic (add_with_carry x (NOT y) True) | Op_cmp \<Rightarrow> arithmetic (add_with_carry x (NOT y) True)
      | Op_sbc \<Rightarrow> arithmetic (add_with_carry x (NOT y) carry)
      | Op_rsb \<Rightarrow> arithmetic (add_with_carry y (NOT x) True)
      | Op_rsc \<Rightarrow> arithmetic (add_with_carry y (NOT x) carry))"

definition writes_register :: "arm_opcode \<Rightarrow> bool" where
  "writes_register opcode \<longleftrightarrow> opcode \<notin> {Op_tst, Op_teq, Op_cmp, Op_cmn}"

text \<open>Logical opcodes take the carry of the shifter when it has one.\<close>

definition alu_flags :: "decoded_arm \<Rightarrow> u32 \<times> (bool \<times> bool) option \<Rightarrow> arm7tdmi \<Rightarrow> arm7tdmi" where
  "alu_flags d r c =
     (case snd r of
        Some carry_overflow \<Rightarrow> set_nzcv (fst r, carry_overflow) c
      | None \<Rightarrow> set_nzcv (fst r, if da_shifter_carry_valid d then da_shifter_carry d else cpu_carry c, cpu_overflow c) c)"

lemma logical_flags: "set_logical_flags r d c = alu_flags d (r, None) c"
  by (simp add: set_logical_flags_def alu_flags_def set_nzcv_def set_nz_def negative_flag Let_def)

lemma arithmetic_flags: "alu_flags d (fst r, Some (snd r)) = set_nzcv r"
  by (simp add: alu_flags_def fun_eq_iff)

lemma awc_result: "fst (add_with_carry x y b) = x + y + of_bool b"
  by (simp only: awc_flags fst_conv)

lemma execute_data_processing_reference:
  fixes d :: decoded_arm and pc_offset :: u32
  assumes "cpu_wf c" and "unat (da_rn d) < 16"
  defines "left \<equiv> cpu_registers c ! unat (da_rn d) + (if da_rn d = kPc then pc_offset else 0)"
  defines "r \<equiv> alu_reference (da_opcode d) left (da_operand2 d) (cpu_carry c)"
  shows "execute_data_processing d pc_offset c =
    (if writes_register (da_opcode d) then write_and_flag d (fst r) (alu_flags d r) c else Some (Executed, alu_flags d r c))"
proof -
  have rn: "reg c (da_rn d) = Some (cpu_registers c ! unat (da_rn d))"
    using assms(1,2) by simp
  have flags: "set_logical_flags x d = alu_flags d (x, None)" "set_add_flags x y (x + y) = set_nzcv (add_with_carry x y False)"
    "set_sub_flags x y (x - y) = set_nzcv (add_with_carry x (NOT y) True)"
    "set_adc_flags x y b (x + y + (if b then 1 else 0)) = set_nzcv (add_with_carry x y b)"
    "set_sbc_flags x y b (x - y - (if b then 0 else 1)) = set_nzcv (add_with_carry x (NOT y) b)" for x y b
    by (simp_all only: fun_eq_iff logical_flags add_flags sub_flags adc_flags sbc_flags simp_thms)
  have l: "(if da_rn d = kPc then cpu_registers c ! unat (da_rn d) + pc_offset else cpu_registers c ! unat (da_rn d)) = left"
    by (simp add: left_def)
  show ?thesis
    unfolding execute_data_processing_def rn Option.bind_lunit Let_def l r_def
    by (cases "da_opcode d"; simp only: arm_opcode.case alu_reference_def writes_register_def logical_result_def flags Let_def
        arithmetic_flags insert_iff empty_iff arm_opcode.distinct if_True if_False simp_thms fst_conv;
        simp add: awc_result not_eq_complement add_diff_eq)
qed

lemma decode_cpu_mode_cases: "decode_cpu_mode v = None \<or> (\<exists>m. decode_cpu_mode v = Some m)"
  by (cases "decode_cpu_mode v") auto

lemma write_and_flag_plain:
  assumes "cpu_wf c" and "unat (da_rd d) < 16" and "\<not> spsr_restore_to_pc d c"
  shows "write_and_flag d v flags c
    = Some (Executed, (if da_set_flags d then flags else id) (c\<lparr>cpu_registers := (cpu_registers c)[unat (da_rd d) := v]\<rparr>))"
  using assms by (simp add: write_and_flag_def write_result_def Let_def)

lemma has_spsr_value: "has_spsr c \<Longrightarrow> \<exists>v. spsr c = Some v"
  by (auto simp: has_spsr_def mode_has_spsr_def spsr_def)

lemma write_and_flag_restore:
  assumes "cpu_wf c" and "spsr_restore_to_pc d c"
  shows "\<exists>saved c'. spsr c = Some saved \<and> write_and_flag d v flags c = Some (Executed, c') \<and> cpu_wf c'
    \<and> cpu_registers c' ! 15 = v AND NOT 3
    \<and> (case decode_cpu_mode saved of None \<Rightarrow> cpsr c' = cpsr c | Some m \<Rightarrow> cpu_mode c' = m \<and> cpsr c' = saved AND 0xF00000FF)"
proof -
  obtain saved where saved: "spsr c = Some saved"
    using assms(2) has_spsr_value by (auto simp: spsr_restore_to_pc_def)
  obtain ok c1 where c1: "set_cpsr saved c = Some (ok, c1)" "cpu_wf c1"
    "case decode_cpu_mode saved of None \<Rightarrow> cpsr c1 = cpsr c | Some m \<Rightarrow> cpu_mode c1 = m \<and> cpsr c1 = saved AND 0xF00000FF"
  proof (cases "decode_cpu_mode saved")
    case None
    then show ?thesis
      using that [of False c] assms(1) by (simp add: set_cpsr_def)
  next
    case (Some m)
    show ?thesis
      using set_cpsr_in [OF assms(1) Some] that [of True] Some by fastforce
  qed
  have "cpsr (c1\<lparr>cpu_registers := rs\<rparr>) = cpsr c1" for rs
    by (simp add: cpsr_def)
  then show ?thesis
    using saved c1 assms cpu_wf_lengths(1) [OF c1(2)]
    by (simp add: write_and_flag_def write_result_def Let_def split: option.splits)
qed

text \<open>C6. Data processing. Every opcode computes the result and the flags of the reference ALU from its first operand (the PC plus the offset
  when it is the PC) and the shifter operand. A comparison writes only flags; any other opcode writes its destination and, with S, the flags.
  With S and the PC as destination in a mode with an SPSR it branches to the aligned result and restores CPSR from the SPSR instead.\<close>

theorem data_processing_spec:
  fixes d :: decoded_arm and pc_offset :: u32
  assumes "cpu_wf c" and "unat (da_rn d) < 16" and "unat (da_rd d) < 16"
    and "r = alu_reference (da_opcode d) (cpu_registers c ! unat (da_rn d) + (if da_rn d = kPc then pc_offset else 0))
      (da_operand2 d) (cpu_carry c)"
  shows "(\<not> writes_register (da_opcode d) \<longrightarrow> execute_data_processing d pc_offset c = Some (Executed, alu_flags d r c))
    \<and> (writes_register (da_opcode d) \<and> \<not> spsr_restore_to_pc d c \<longrightarrow>
        execute_data_processing d pc_offset c = Some (Executed,
          (if da_set_flags d then alu_flags d r else id) (c\<lparr>cpu_registers := (cpu_registers c)[unat (da_rd d) := fst r]\<rparr>)))
    \<and> (writes_register (da_opcode d) \<and> spsr_restore_to_pc d c \<longrightarrow>
        (\<exists>saved c'. spsr c = Some saved \<and> execute_data_processing d pc_offset c = Some (Executed, c') \<and> cpu_wf c'
          \<and> cpu_registers c' ! 15 = fst r AND NOT 3
          \<and> (case decode_cpu_mode saved of
               None \<Rightarrow> cpsr c' = cpsr c
             | Some m \<Rightarrow> cpu_mode c' = m \<and> cpsr c' = saved AND 0xF00000FF)))"
  using execute_data_processing_reference [OF assms(1,2), of pc_offset] write_and_flag_plain [OF assms(1,3)]
    write_and_flag_restore [OF assms(1)] assms(4)
  by simp

theorem data_processing_spec_witness:
  "execute_data_processing (data_processing_fields 0xE2900001 1 False False) 8 arm_reset
    = Some (Executed, set_nzcv (1, False, False) (arm_reset\<lparr>cpu_registers := (cpu_registers arm_reset)[0 := 1]\<rparr>))"
proof -
  let ?d = "data_processing_fields 0xE2900001 1 False False"
  have d: "da_opcode ?d = Op_add" "da_rn ?d = 0" "da_rd ?d = 0" "da_set_flags ?d" "da_operand2 ?d = 1"
    by (simp_all add: data_processing_fields_def arm_opcode_of_def bits_def)
  moreover have "cpu_registers arm_reset ! 0 = 0"
    by (simp add: arm_reset_def kRegisterCount_def)
  moreover have "alu_reference Op_add 0 1 c = (1, Some (False, False))" for c
    by (simp add: alu_reference_def awc_flags sign_bit_def)
  ultimately show ?thesis
    using data_processing_spec [OF arm_reset_wf, of ?d _ 8, OF _ _ refl]
    by (simp add: writes_register_def spsr_restore_to_pc_def kPc_def alu_flags_def)
qed

lemma difference_arithmetic:
  fixes X Y D :: int
  assumes "0 \<le> X" "X < 4294967296" "0 \<le> Y" "Y < 4294967296" and D: "D = (if Y \<le> X then X - Y else X - Y + 4294967296)"
  shows "((2147483648 \<le> D) = ((2147483648 \<le> X) \<noteq> (2147483648 \<le> Y) \<and> (2147483648 \<le> X) \<noteq> (2147483648 \<le> D)))
      = (as_signed Y \<le> as_signed X)"
    and "((2147483648 \<le> X) \<noteq> (2147483648 \<le> Y) \<and> (2147483648 \<le> X) \<noteq> (2147483648 \<le> D)) = (as_signed D \<noteq> as_signed X - as_signed Y)"
  using assms(1-4) unfolding D as_signed_def by (auto split: if_splits)

text \<open>Comparisons. After CMP every condition holds exactly when the order it names holds between the operands, as unsigned or as signed
  numbers.\<close>

lemma compare_conditions:
  assumes "cpu_wf c" and "unat (da_rn d) < 16" and "da_opcode d = Op_cmp"
    and "x = cpu_registers c ! unat (da_rn d) + (if da_rn d = kPc then pc_offset else 0)" and "y = da_operand2 d"
  shows "\<exists>c'. execute_data_processing d pc_offset c = Some (Executed, c')
    \<and> condition_passed c' Cond_eq = (x = y) \<and> condition_passed c' Cond_ne = (x \<noteq> y)
    \<and> condition_passed c' Cond_cs = (uint x \<ge> uint y) \<and> condition_passed c' Cond_cc = (uint x < uint y)
    \<and> condition_passed c' Cond_hi = (uint x > uint y) \<and> condition_passed c' Cond_ls = (uint x \<le> uint y)
    \<and> condition_passed c' Cond_ge = (sint x \<ge> sint y) \<and> condition_passed c' Cond_lt = (sint x < sint y)
    \<and> condition_passed c' Cond_gt = (sint x > sint y) \<and> condition_passed c' Cond_le = (sint x \<le> sint y)
    \<and> condition_passed c' Cond_mi = (sint (x - y) < 0) \<and> condition_passed c' Cond_vs = (sint (x - y) \<noteq> sint x - sint y)"
proof -
  have e: "execute_data_processing d pc_offset c = Some (Executed, set_nzcv (add_with_carry x (NOT y) True) c)"
    using execute_data_processing_reference [OF assms(1,2), of pc_offset] assms(3-5)
    by (simp add: writes_register_def alu_reference_def Let_def arithmetic_flags)
  have r: "add_with_carry x (NOT y) True = (x - y, uint y \<le> uint x, sign_bit x \<noteq> sign_bit y \<and> sign_bit x \<noteq> sign_bit (x - y))"
    by (simp add: awc_not)
  have diff: "uint (x - y) = (if uint y \<le> uint x then uint x - uint y else uint x - uint y + 4294967296)"
    using uint_sub_if' [of x y] by simp
  have eq: "x = y \<longleftrightarrow> uint x = uint y"
    by (simp add: word_uint_eq_iff)
  note a = difference_arithmetic [OF uint_bounds [of x] uint_bounds [of y] diff]
  have ge: "(sign_bit (x - y) = (sign_bit x \<noteq> sign_bit y \<and> sign_bit x \<noteq> sign_bit (x - y))) = (sint y \<le> sint x)"
    using a(1) by (simp add: sint_as_signed sign_bit_iff)
  have overflow: "(sign_bit x \<noteq> sign_bit y \<and> sign_bit x \<noteq> sign_bit (x - y)) = (sint (x - y) \<noteq> sint x - sint y)"
    using a(2) by (simp add: sint_as_signed sign_bit_iff)
  have seq: "x = y \<longleftrightarrow> sint x = sint y"
    by (auto dest: signed_word_eqI)
  show ?thesis
    unfolding e r using ge overflow eq seq by (auto simp: set_nzcv_def negative_flag)
qed

end
