(* ===== verification/Cpu_Shifter.thy ===== *)
theory Cpu_Shifter
  imports Cpu_Execute Cpu_Banks
begin

text \<open>
  The barrel shifter of the ARM decoder and the separately written shifts of the Thumb instructions against one reference on integers: a
  multiplication or a division by a power of two (rounding down, of the signed value for ASR) or a rotation, with the last bit shifted out
  as the carry.
\<close>

definition shift_reference :: "arm_shift_type \<Rightarrow> u32 \<Rightarrow> nat \<Rightarrow> u32 \<times> bool" where
  "shift_reference shift_type x n =
     (case shift_type of
        Lsl \<Rightarrow> (word_of_int (uint x * 2 ^ n), bit (uint x * 2 ^ n) 32)
      | Lsr \<Rightarrow> (word_of_int (uint x div 2 ^ n), bit (uint x) (n - 1))
      | Asr \<Rightarrow> (word_of_int (sint x div 2 ^ n), bit (sint x) (n - 1))
      | Ror \<Rightarrow> (word_rotr n x, bit (word_rotr n x) 31))"

definition shifted_by :: "u32 \<times> bool \<Rightarrow> shifter_result" where
  "shifted_by r = shifted (fst r) (snd r)"

lemma low_bit: "drop_bit n v AND 1 = 1 \<longleftrightarrow> bit v n" "drop_bit n v AND 1 = 0 \<longleftrightarrow> \<not> bit v n" for v :: u32
  by (simp_all add: and_one_eq mod_2_eq_odd bit_iff_odd_drop_bit of_bool_def)

lemma top_bit: "v AND 0x80000000 = 0 \<longleftrightarrow> \<not> bit v 31" "v AND 1 = 0 \<longleftrightarrow> \<not> bit v 0" for v :: u32
  by (rule and_exp_flag; simp)+

lemma not_bit_u32: "32 \<le> n \<Longrightarrow> \<not> bit (v :: u32) n"
  by (auto dest: bit_imp_le_length)

lemma bit_lt_u32: "bit (v :: u32) n \<Longrightarrow> n < 32"
  by (auto dest: bit_imp_le_length)

lemma bit_ones: "bit (0xFFFFFFFF :: int) k \<longleftrightarrow> k < 32"
proof -
  have "(0xFFFFFFFF :: int) = mask 32"
    by (simp add: mask_eq_exp_minus_1)
  then show ?thesis
    by (simp only: bit_mask_iff) simp
qed

lemma bit_sint_u32: "bit (sint (x :: u32)) k \<longleftrightarrow> bit x (if k < 31 then k else 31)"
  by (cases "k = 31") (auto simp: bit_sint_iff not_less dest: bit_lt_u32)

lemma asr_bits: "bit (word_of_int (sint x div 2 ^ n) :: u32) k \<longleftrightarrow> k < 32 \<and> bit x (if n + k < 31 then n + k else 31)" for x :: u32
proof -
  have "bit (sint x div 2 ^ n) k = bit (sint x) (n + k)"
    by (simp add: bit_drop_bit_eq flip: drop_bit_eq_div)
  then show ?thesis
    by (simp only: bit_word_of_int_iff bit_sint_u32) simp
qed

lemma asr_by_reference:
  assumes "0 < n" "n < 32"
  shows "asr_by x n = word_of_int (sint x div 2 ^ n)" "signed_shift_right x n = word_of_int (sint x div 2 ^ n)"
proof -
  have asr: "bit (asr_by x n) k \<longleftrightarrow> bit x (if n + k < 31 then n + k else 31)" if "k < 32" for k
  proof -
    consider "n + k < 31" | "n + k = 31" | "31 < n + k"
      by linarith
    then show ?thesis
      by cases (use assms \<open>k < 32\<close> in \<open>auto simp: asr_by_def top_bit bit_or_iff bit_drop_bit_eq bit_push_bit_iff bit_ones not_bit_u32\<close>)
  qed
  have "bit (signed_shift_right x n) k \<longleftrightarrow> bit x (if n + k < 31 then n + k else 31)" if "k < 32" for k
    using assms that by (cases "n + k = 31") (auto simp: signed_shift_right_def bit_signed_drop_bit_iff)
  with asr show "asr_by x n = word_of_int (sint x div 2 ^ n)" "signed_shift_right x n = word_of_int (sint x div 2 ^ n)"
    by (auto intro!: bit_word_eqI simp: asr_bits)
qed

lemma asr_saturated:
  assumes "32 \<le> n"
  shows "word_of_int (sint (x :: u32) div 2 ^ n) = (if bit x 31 then 0xFFFFFFFF else (0 :: u32))"
  by (rule bit_word_eqI) (use assms in \<open>simp add: asr_bits bit_ones\<close>)

lemma rotate_right_rotr: "rotate_right x n = word_rotr n x"
proof (rule bit_word_eqI)
  fix k assume "k < LENGTH(32)"
  then have k: "k < 32"
    by simp
  define s where "s = n mod 32"
  have s: "s < 32"
    by (simp add: s_def)
  have "(k + n) mod 32 = (k + s) mod 32"
    by (simp add: s_def mod_simps)
  also have "\<dots> = (if k + s < 32 then k + s else k + s - 32)"
    using k s by (simp add: mod_if)
  finally have m: "(k + n) mod 32 = (if k + s < 32 then k + s else k + s - 32)" .
  have r: "bit (word_rotr n x) k = bit x ((k + n) mod 32)"
    using k by (simp add: bit_word_rotr_iff)
  show "bit (rotate_right x n) k = bit (word_rotr n x) k"
    unfolding r m using k s
    by (auto simp: rotate_right_def Let_def bit_or_iff bit_drop_bit_eq bit_push_bit_iff add.commute simp flip: s_def dest: bit_lt_u32)
qed

lemma lsr_reference: "drop_bit n x = word_of_int (uint x div 2 ^ n)" for x :: u32
proof (rule bit_word_eqI)
  fix k assume "k < LENGTH(32)"
  have "bit (uint x div 2 ^ n) k = bit (uint x) (n + k)"
    by (simp add: bit_drop_bit_eq flip: drop_bit_eq_div)
  then show "bit (drop_bit n x) k = bit (word_of_int (uint x div 2 ^ n) :: u32) k"
    using \<open>k < LENGTH(32)\<close> by (auto simp: bit_drop_bit_eq bit_word_of_int_iff bit_uint_iff dest: bit_lt_u32)
qed

lemma lsl_carry: "bit (uint x * 2 ^ n) 32 \<longleftrightarrow> n \<le> 32 \<and> 0 < n \<and> bit x (32 - n)" for x :: u32
proof -
  have "bit (uint x * 2 ^ n) 32 = bit (push_bit n (uint x)) 32"
    by (simp only: push_bit_eq_mult)
  then show ?thesis
    by (auto simp: bit_push_bit_iff bit_uint_iff not_bit_u32)
qed

lemma lsr_carry: "bit (uint x) k \<longleftrightarrow> bit x k" for x :: u32
  by (auto simp: bit_uint_iff dest: bit_lt_u32)

lemma register_shift_reference:
  assumes "0 < n"
  shows "apply_register_shift x shift_type n = shifted_by (shift_reference shift_type x n)"
proof (cases shift_type)
  case Lsl
  have "push_bit n x = word_of_int (uint x * 2 ^ n)"
    by (simp add: push_bit_eq_mult)
  moreover have "push_bit n x = 0" if "32 \<le> n"
    using that by (intro bit_word_eqI) (auto simp: bit_push_bit_iff)
  ultimately show ?thesis
    unfolding shift_reference_def Lsl arm_shift_type.case lsl_carry shifted_by_def fst_conv snd_conv
    using assms by (simp add: apply_register_shift_def low_bit top_bit)
next
  case Lsr
  have "drop_bit n x = 0" if "32 \<le> n"
    using that by (intro bit_word_eqI) (auto simp: bit_drop_bit_eq not_bit_u32)
  with Lsr show ?thesis
    using assms by (auto simp: apply_register_shift_def shifted_by_def shift_reference_def low_bit top_bit lsr_carry not_bit_u32
        lsr_reference [symmetric])
next
  case Asr
  then show ?thesis
    using assms by (auto simp: apply_register_shift_def shifted_by_def shift_reference_def low_bit top_bit bit_sint_u32
        asr_by_reference asr_saturated)
next
  case Ror
  have "word_rotr (n mod 32) x = word_rotr n x" "n mod 32 = 0 \<Longrightarrow> word_rotr n x = x"
    by (simp_all flip: rotate_right_rotr add: rotate_right_def)
  with Ror show ?thesis
    using assms by (auto simp: apply_register_shift_def shifted_by_def shift_reference_def Let_def top_bit rotate_right_rotr)
qed

text \<open>C8. The barrel shifter. A register-specified shift by a non-zero amount, up to 255, is the reference shift, carry included; an immediate
  shift by 1 to 31 is the same, an immediate amount of zero is no shift for LSL, a shift by 32 for LSR and ASR, and a rotation by one through
  the carry for ROR; a register amount of zero changes neither the value nor the carry.\<close>

theorem barrel_shifter_spec:
  "apply_register_shift x shift_type 0 = unshifted x
    \<and> (0 < n \<longrightarrow> apply_register_shift x shift_type n = shifted_by (shift_reference shift_type x n))
    \<and> (0 < n \<and> n < 32 \<longrightarrow> apply_immediate_shift x shift_type n carry_in = shifted_by (shift_reference shift_type x n))
    \<and> apply_immediate_shift x Lsl 0 carry_in = unshifted x
    \<and> apply_immediate_shift x Lsr 0 carry_in = shifted_by (shift_reference Lsr x 32)
    \<and> apply_immediate_shift x Asr 0 carry_in = shifted_by (shift_reference Asr x 32)
    \<and> (\<exists>v. apply_immediate_shift x Ror 0 carry_in = shifted v (bit x 0) \<and> unat v = of_bool carry_in * 2 ^ 31 + unat x div 2)"
proof -
  have imm: "apply_immediate_shift x shift_type n carry_in = apply_register_shift x shift_type n" if "0 < n" "n < 32"
    using that by (cases shift_type) (simp_all add: apply_register_shift_def Let_def)
  have "apply_immediate_shift x Lsr 0 carry_in = apply_register_shift x Lsr 32"
    "apply_immediate_shift x Asr 0 carry_in = apply_register_shift x Asr 32"
    by (simp_all add: apply_register_shift_def)
  then have zero: "apply_immediate_shift x Lsr 0 carry_in = shifted_by (shift_reference Lsr x 32)"
    "apply_immediate_shift x Asr 0 carry_in = shifted_by (shift_reference Asr x 32)"
    by (simp_all add: register_shift_reference del: apply_immediate_shift.simps)
  have none: "apply_register_shift x shift_type 0 = unshifted x"
    by (simp add: apply_register_shift_def)
  have "unat ((if carry_in then 0x80000000 else 0) OR drop_bit 1 x) = of_bool carry_in * 2 ^ 31 + unat x div 2"
  proof -
    have half: "unat (drop_bit 1 x) = unat x div 2"
      by (simp add: unat_drop_bit)
    have "2 ^ 31 AND drop_bit 1 x = 0"
      by (auto intro!: bit_word_eqI simp: and_exp_eq_0_iff_not_bit bit_and_iff bit_exp_iff bit_drop_bit_eq not_bit_u32 simp del: power_numeral)
    then have "0x80000000 AND drop_bit 1 x = 0"
      by simp
    then have "0x80000000 OR drop_bit 1 x = 0x80000000 + drop_bit 1 x"
      using word_plus_and_or [of "0x80000000" "drop_bit 1 x"] by simp
    moreover have "unat (0x80000000 + drop_bit 1 x) = 2 ^ 31 + unat x div 2"
      using half unat_u32_less [of x] less_mult_imp_div_less [of "unat x" "2 ^ 31" 2] by (simp add: unat_word_ariths)
    ultimately show ?thesis
      using half by simp
  qed
  then show ?thesis
    using imm zero none register_shift_reference [of n x shift_type]
    by (intro conjI impI exI; (elim conjE)?) (simp_all add: top_bit del: apply_immediate_shift.simps(2,3))
qed

theorem barrel_shifter_spec_witness: "apply_register_shift 0x80000001 Asr 40 = shifted_by (shift_reference Asr 0x80000001 40)"
  using barrel_shifter_spec [where x = "0x80000001" and shift_type = Asr and n = 40] by simp

section \<open>The Thumb shifts\<close>

definition shifter_outcome :: "shifter_result \<Rightarrow> u32 \<times> bool option" where
  "shifter_outcome r = (sh_value r, if sh_carry_valid r then Some (sh_carry r) else None)"

lemma shifter_outcome_simps:
  "shifter_outcome (shifted v b) = (v, Some b)" "shifter_outcome (unshifted v) = (v, None)"
  by (simp_all add: shifter_outcome_def shifted_def unshifted_def)

lemma signed_shift_right_asr: "0 < n \<Longrightarrow> n < 32 \<Longrightarrow> signed_shift_right x n = asr_by x n"
  by (simp add: asr_by_reference)

lemma thumb_alu_shifts:
  "thumb_lsl x n = shifter_outcome (apply_register_shift x Lsl n)" "thumb_lsr x n = shifter_outcome (apply_register_shift x Lsr n)"
  "thumb_asr x n = shifter_outcome (apply_register_shift x Asr n)" "thumb_ror x n = shifter_outcome (apply_register_shift x Ror n)"
  by (simp_all add: thumb_lsl_def thumb_lsr_def thumb_asr_def thumb_ror_def apply_register_shift_def shifter_outcome_simps Let_def
      low_bit top_bit bit_drop_bit_eq signed_shift_right_asr)

text \<open>The state after a shift of register \<open>rs\<close> into \<open>rd\<close> with the flags of the shifter.\<close>

definition shift_into :: "u8 \<Rightarrow> u32 \<times> bool option \<Rightarrow> arm7tdmi \<Rightarrow> arm7tdmi" where
  "shift_into rd r c =
     (let c = set_nz (fst r) (c\<lparr>cpu_registers := (cpu_registers c)[unat rd := fst r]\<rparr>)
      in case snd r of None \<Rightarrow> c | Some carry \<Rightarrow> c\<lparr>cpu_carry := carry\<rparr>)"

text \<open>C33. Thumb shifts. The shift-immediate format and the four shifts of the Thumb ALU format, which are written separately, shift exactly as
  the ARM shifter does with the same amount: same result, same carry, and the carry flag untouched exactly when the shifter has none.\<close>

theorem thumb_shifts_agree:
  assumes "cpu_wf c"
  shows "(\<forall>d. unat (dts_rd d) < 16 \<and> unat (dts_rs d) < 16 \<and> unat (dts_amount d) < 32 \<and> dts_type d \<noteq> Ror \<longrightarrow>
      execute_thumb_shift d c = Some (Executed, shift_into (dts_rd d)
        (shifter_outcome (apply_immediate_shift (cpu_registers c ! unat (dts_rs d)) (dts_type d) (unat (dts_amount d)) False)) c))
    \<and> (\<forall>d. unat (dta_rd d) < 16 \<and> unat (dta_rs d) < 16 \<longrightarrow>
      (\<forall>(opcode, shift_type) \<in> {(Alu_lsl, Lsl), (Alu_lsr, Lsr), (Alu_asr, Asr), (Alu_ror, Ror)}. dta_opcode d = opcode \<longrightarrow>
        execute_thumb_alu d c = Some (Executed, shift_into (dta_rd d)
          (shifter_outcome (apply_register_shift (cpu_registers c ! unat (dta_rd d)) shift_type
            (unat (ucast (cpu_registers c ! unat (dta_rs d) AND 0xFF) :: u8)))) c)))"
proof -
  have imm: "execute_thumb_shift d c = Some (Executed, shift_into (dts_rd d)
        (shifter_outcome (apply_immediate_shift (cpu_registers c ! unat (dts_rs d)) (dts_type d) (unat (dts_amount d)) False)) c)"
    if "unat (dts_rd d) < 16" "unat (dts_rs d) < 16" "unat (dts_amount d) < 32" "dts_type d \<noteq> Ror" for d
    using assms that
    by (cases "dts_type d")
      (simp_all add: execute_thumb_shift_def Let_def shift_into_def shifter_outcome_simps low_bit top_bit bit_drop_bit_eq signed_shift_right_asr)
  have alu: "execute_thumb_alu d c = Some (Executed, shift_into (dta_rd d) r c)"
    if "unat (dta_rd d) < 16" "unat (dta_rs d) < 16"
      "(dta_opcode d, r) \<in> (let x = cpu_registers c ! unat (dta_rd d); n = unat (ucast (cpu_registers c ! unat (dta_rs d) AND 0xFF) :: u8)
        in {(Alu_lsl, thumb_lsl x n), (Alu_lsr, thumb_lsr x n), (Alu_asr, thumb_asr x n), (Alu_ror, thumb_ror x n)})" for d r
    using assms that
    by (auto simp: execute_thumb_alu_def Let_def shift_into_def split: prod.splits option.splits)
  show ?thesis
    using imm alu by (auto simp: Let_def thumb_alu_shifts)
qed

theorem thumb_shifts_agree_witness:
  "\<exists>r. execute_thumb_shift \<lparr>dts_type = Asr, dts_rd = 1, dts_rs = 0, dts_amount = 0\<rparr> arm_reset = Some (Executed, shift_into 1 r arm_reset)"
proof -
  let ?d = "\<lparr>dts_type = Asr, dts_rd = 1, dts_rs = 0, dts_amount = 0\<rparr>"
  have "unat (dts_rd ?d) < 16 \<and> unat (dts_rs ?d) < 16 \<and> unat (dts_amount ?d) < 32 \<and> dts_type ?d \<noteq> Ror" "dts_rd ?d = 1"
    by simp_all
  then show ?thesis
    using thumb_shifts_agree [OF arm_reset_wf, THEN conjunct1, rule_format, of ?d] by metis
qed

end
