(* ===== verification/Cpu_Memory.thy ===== *)
theory Cpu_Memory
  imports Cpu_Execute Memory_Access
begin

text \<open>
  The instructions of \<open>src/src/core/arm7tdmi.cpp\<close> that load and store, over the model of the memory bus: single, halfword, block and
  swap transfers of both instruction sets, the open bus values an unmapped load takes from the pipeline, and the two dispatchers with a
  bus. The bus state is the bus and the context of the I/O callbacks, for any callbacks \<open>io\<close>. A load that finds nothing or a store the bus
  refuses ends the instruction with \<open>Unsupported\<close>, and what it changed so far stays changed.
\<close>

type_synonym 'c bus = "memory_bus \<times> 'c"
type_synonym 'c bus_step = "arm7tdmi \<Rightarrow> 'c bus \<Rightarrow> (execute_status \<times> arm7tdmi \<times> 'c bus) throws"

section \<open>Bus accesses\<close>

definition bus_read8 :: "'c io_callbacks \<Rightarrow> 'c bus \<Rightarrow> u32 \<Rightarrow> u8 option throws" where
  "bus_read8 io m address = mb_read8 io (snd m) (fst m) address"

definition bus_read16 :: "'c io_callbacks \<Rightarrow> 'c bus \<Rightarrow> u32 \<Rightarrow> u16 option throws" where
  "bus_read16 io m address = mb_read16 io (snd m) (fst m) address"

definition bus_read32 :: "'c io_callbacks \<Rightarrow> 'c bus \<Rightarrow> u32 \<Rightarrow> u32 option throws" where
  "bus_read32 io m address = mb_read32 io (snd m) (fst m) address"

text \<open>A value, or else one made of the open bus word \<open>fallback\<close> reads.\<close>

definition or_open_bus :: "'a option throws \<Rightarrow> ('b \<Rightarrow> 'a) \<Rightarrow> 'b option throws \<Rightarrow> 'a option throws" where
  "or_open_bus value_read convert fallback = do {
     v \<leftarrow> value_read;
     case v of
       Some w \<Rightarrow> Some (Some w)
     | None \<Rightarrow> do {open_bus \<leftarrow> fallback; Some (map_option convert open_bus)}}"

definition read_arm_pipeline_open_bus_word :: "'c io_callbacks \<Rightarrow> 'c bus \<Rightarrow> u32 \<Rightarrow> u32 option throws" where
  "read_arm_pipeline_open_bus_word io m pc = bus_read32 io m (pc + 8)"

definition read_thumb_pipeline_open_bus_word :: "'c io_callbacks \<Rightarrow> 'c bus \<Rightarrow> u32 \<Rightarrow> u32 option throws" where
  "read_thumb_pipeline_open_bus_word io m pc = bus_read32 io m (pc + 4)"

definition open_bus_byte :: "u32 \<Rightarrow> u32 \<Rightarrow> u8" where
  "open_bus_byte address w = ucast (drop_bit (unat ((address AND 3) * 8)) w AND 0xFF)"

definition open_bus_rotated :: "u32 \<Rightarrow> u32 \<Rightarrow> u32" where
  "open_bus_rotated address w = rotate_right w (unat (ucast ((address AND 3) * 8) :: u8))"

definition read8_or_arm_pipeline_open_bus :: "'c io_callbacks \<Rightarrow> 'c bus \<Rightarrow> u32 \<Rightarrow> u32 \<Rightarrow> u8 option throws" where
  "read8_or_arm_pipeline_open_bus io m address pc =
     or_open_bus (bus_read8 io m address) (open_bus_byte address) (read_arm_pipeline_open_bus_word io m pc)"

definition read8_or_thumb_pipeline_open_bus :: "'c io_callbacks \<Rightarrow> 'c bus \<Rightarrow> u32 \<Rightarrow> u32 \<Rightarrow> u8 option throws" where
  "read8_or_thumb_pipeline_open_bus io m address pc =
     or_open_bus (bus_read8 io m address) (open_bus_byte address) (read_thumb_pipeline_open_bus_word io m pc)"

definition read16_or_arm_pipeline_open_bus :: "'c io_callbacks \<Rightarrow> 'c bus \<Rightarrow> u32 \<Rightarrow> u32 \<Rightarrow> u16 option throws" where
  "read16_or_arm_pipeline_open_bus io m address pc =
     or_open_bus (bus_read16 io m address)
       (\<lambda>w. ucast (drop_bit (unat (ucast ((address AND 2) * 8) :: u8)) w AND 0xFFFF)) (read_arm_pipeline_open_bus_word io m pc)"

definition read16_or_thumb_pipeline_open_bus :: "'c io_callbacks \<Rightarrow> 'c bus \<Rightarrow> u32 \<Rightarrow> u32 \<Rightarrow> u16 option throws" where
  "read16_or_thumb_pipeline_open_bus io m address pc =
     or_open_bus (bus_read16 io m address) (\<lambda>w. ucast (drop_bit 16 w AND 0xFFFF)) (read_thumb_pipeline_open_bus_word io m pc)"

definition read32_or_arm_pipeline_open_bus :: "'c io_callbacks \<Rightarrow> 'c bus \<Rightarrow> u32 \<Rightarrow> u32 \<Rightarrow> u32 option throws" where
  "read32_or_arm_pipeline_open_bus io m address pc =
     or_open_bus (bus_read32 io m address) (open_bus_rotated address) (read_arm_pipeline_open_bus_word io m pc)"

definition duplicated_halfword :: "u16 \<Rightarrow> u32" where
  "duplicated_halfword half = ucast half OR push_bit 16 (ucast half)"

definition read32_or_thumb_pipeline_open_bus :: "'c io_callbacks \<Rightarrow> 'c bus \<Rightarrow> u32 \<Rightarrow> u32 \<Rightarrow> u32 option throws" where
  "read32_or_thumb_pipeline_open_bus io m address pc =
     or_open_bus (bus_read32 io m address) (\<lambda>half. open_bus_rotated address (duplicated_halfword half)) (bus_read16 io m (pc + 4))"

definition read32_or_thumb_block_open_bus :: "'c io_callbacks \<Rightarrow> 'c bus \<Rightarrow> u32 \<Rightarrow> u32 \<Rightarrow> u32 option throws" where
  "read32_or_thumb_block_open_bus io m address pc =
     or_open_bus (bus_read32 io m address) (open_bus_rotated address)
       (case get_open_bus_latch (fst m) of
          Some latched \<Rightarrow> Some (Some latched)
        | None \<Rightarrow> map_option (map_option duplicated_halfword) (bus_read16 io m (pc + 4)))"

section \<open>Outcomes\<close>

definition ends :: "execute_status \<Rightarrow> arm7tdmi \<Rightarrow> 'c bus \<Rightarrow> (execute_status \<times> arm7tdmi \<times> 'c bus) throws" where
  "ends status c m = Some (status, c, m)"

text \<open>An instruction without memory, run beside an untouched bus.\<close>

definition without_bus :: "step \<Rightarrow> 'c bus_step" where
  "without_bus f c m = map_option (\<lambda>(status, c). (status, c, m)) (f c)"

text \<open>\<open>if (!value.has_value()) return unsupported;\<close> and \<open>if (!memory.write...(...)) return unsupported;\<close>\<close>

definition loaded :: "'a option throws \<Rightarrow> ('a \<Rightarrow> arm7tdmi \<Rightarrow> arm7tdmi throws) \<Rightarrow> 'c bus_step" where
  "loaded value_read f c m = do {
     v \<leftarrow> value_read;
     case v of None \<Rightarrow> ends Unsupported c m | Some w \<Rightarrow> do {c \<leftarrow> f w c; ends Executed c m}}"

definition stored :: "('c bus \<Rightarrow> (bool \<times> 'c bus) throws) \<Rightarrow> (arm7tdmi \<Rightarrow> arm7tdmi throws) \<Rightarrow> 'c bus_step" where
  "stored store f c m = do {
     (ok, m) \<leftarrow> store m;
     if \<not> ok then ends Unsupported c m else do {c \<leftarrow> f c; ends Executed c m}}"

definition conditionally_with_bus :: "arm_condition \<Rightarrow> 'c bus_step \<Rightarrow> 'c bus_step" where
  "conditionally_with_bus condition f c m = (if \<not> condition_passed c condition then ends Skipped_condition c m else f c m)"

section \<open>Swap\<close>

definition execute_swap :: "'c io_callbacks \<Rightarrow> decoded_swap \<Rightarrow> 'c bus_step" where
  "execute_swap io d = conditionally_with_bus (dw_condition d) (\<lambda>c m. do {
     address \<leftarrow> reg c (dw_rn d);
     rm \<leftarrow> reg c (dw_rm d);
     if dw_byte d then do {
       old_value \<leftarrow> bus_read8 io m address;
       case old_value of
         None \<Rightarrow> ends Unsupported c m
       | Some v \<Rightarrow> stored (mb_write8 io address (ucast (rm AND 0xFF))) (set_reg (dw_rd d) (ucast v)) c m}
     else do {
       old_value \<leftarrow> bus_read32 io m address;
       case old_value of
         None \<Rightarrow> ends Unsupported c m
       | Some v \<Rightarrow> stored (mb_write32 io address rm) (set_reg (dw_rd d) v) c m}})"

section \<open>Block transfers\<close>

text \<open>
  The loops over the register list, in index order: loads into the array \<open>loaded\<close>, stores of \<open>value_of\<close> every index, and the copy of the
  loaded words into the registers. \<open>None\<close> inside is an address nothing answers at.
\<close>

primrec load_listed :: "(u32 \<Rightarrow> u32 option throws) \<Rightarrow> u16 \<Rightarrow> nat list \<Rightarrow> u32 \<Rightarrow> u32 list \<Rightarrow> u32 list option throws" where
  "load_listed read register_list [] address words = Some (Some words)"
| "load_listed read register_list (index # indices) address words =
     (if \<not> register_list_contains register_list (of_nat index) then load_listed read register_list indices address words
      else do {
        v \<leftarrow> read address;
        case v of
          None \<Rightarrow> Some None
        | Some w \<Rightarrow> do {
            words \<leftarrow> vec_put words index w;
            load_listed read register_list indices (address + 4) words}})"

primrec store_listed ::
  "'c io_callbacks \<Rightarrow> (nat \<Rightarrow> u32 throws) \<Rightarrow> u16 \<Rightarrow> nat list \<Rightarrow> u32 \<Rightarrow> 'c bus \<Rightarrow> (bool \<times> u32 \<times> 'c bus) throws" where
  "store_listed io value_of register_list [] address m = Some (True, address, m)"
| "store_listed io value_of register_list (index # indices) address m =
     (if \<not> register_list_contains register_list (of_nat index) then store_listed io value_of register_list indices address m
      else do {
        v \<leftarrow> value_of index;
        (ok, m) \<leftarrow> mb_write32 io address v m;
        if \<not> ok then Some (False, address, m) else store_listed io value_of register_list indices (address + 4) m})"

definition put_listed :: "(u8 \<Rightarrow> u32 \<Rightarrow> arm7tdmi \<Rightarrow> arm7tdmi throws) \<Rightarrow> u16 \<Rightarrow> u32 list \<Rightarrow> nat list \<Rightarrow> arm7tdmi \<Rightarrow> arm7tdmi throws" where
  "put_listed put register_list words =
     foldM (\<lambda>index c. if register_list_contains register_list (of_nat index)
       then do {w \<leftarrow> vec_at words index; put (of_nat index) w c} else Some c)"

definition user_bank_value :: "arm7tdmi \<Rightarrow> u8 \<Rightarrow> u32 throws" where
  "user_bank_value c index =
     (if index = 13 then Some (cpu_user_sp c) else if index = 14 then Some (cpu_user_lr c) else reg c index)"

definition write_user_bank_value :: "u8 \<Rightarrow> u32 \<Rightarrow> arm7tdmi \<Rightarrow> arm7tdmi throws" where
  "write_user_bank_value index v c =
     (if index = 13 then Some (c\<lparr>cpu_user_sp := v\<rparr>) else if index = 14 then Some (c\<lparr>cpu_user_lr := v\<rparr>) else set_reg index v c)"

text \<open>CPSR with the T bit a loaded PC selects.\<close>

definition interworking_cpsr :: "u32 \<Rightarrow> arm7tdmi \<Rightarrow> u32" where
  "interworking_cpsr loaded_pc c =
     (if loaded_pc AND 1 \<noteq> 0 then cpsr c OR kThumbStateFlag else cpsr c AND NOT kThumbStateFlag)"

definition block_write_back :: "decoded_block_transfer \<Rightarrow> u32 \<Rightarrow> 'c bus_step" where
  "block_write_back d v c m =
     (if dk_write_back d then do {c \<leftarrow> set_reg (dk_rn d) v c; ends Executed c m} else ends Executed c m)"

text \<open>The PC of a load, after the other registers; the boolean is false when \<open>set_cpsr\<close> refuses.\<close>

definition block_load_pc :: "bool \<Rightarrow> u32 \<Rightarrow> arm7tdmi \<Rightarrow> (bool \<times> arm7tdmi) throws" where
  "block_load_pc force_user_bank loaded_pc c =
     (if force_user_bank then do {c \<leftarrow> set_reg kPc (loaded_pc AND NOT 3) c; Some (True, c)}
      else do {c \<leftarrow> set_reg kPc (loaded_pc AND NOT 1) c; set_cpsr (interworking_cpsr loaded_pc c) c})"

definition block_load :: "'c io_callbacks \<Rightarrow> decoded_block_transfer \<Rightarrow> bool \<Rightarrow> block_transfer_address_pair \<Rightarrow> 'c bus_step" where
  "block_load io d force_user_bank transfer c m = do {
     words \<leftarrow> load_listed (bus_read32 io m) (dk_register_list d) [0..<kRegisterCount] (ba_first transfer) (vec_fill kRegisterCount 0);
     case words of
       None \<Rightarrow> ends Unsupported c m
     | Some words \<Rightarrow> do {
         let has_pc = register_list_contains (dk_register_list d) kPc;
         (ok, c) \<leftarrow> (if force_user_bank \<and> has_pc then do {saved \<leftarrow> spsr c; set_cpsr saved c} else Some (True, c));
         if \<not> ok then ends Unsupported c m
         else do {
           c \<leftarrow> put_listed (if force_user_bank then write_user_bank_value else set_reg) (dk_register_list d) words [0..<15] c;
           (ok, c) \<leftarrow> (if has_pc then do {loaded_pc \<leftarrow> vec_at words 15; block_load_pc force_user_bank loaded_pc c}
                      else Some (True, c));
           if \<not> ok then ends Unsupported c m else block_write_back d (ba_write_back transfer) c m}}}"

definition block_store :: "'c io_callbacks \<Rightarrow> decoded_block_transfer \<Rightarrow> bool \<Rightarrow> block_transfer_address_pair \<Rightarrow> 'c bus_step" where
  "block_store io d force_user_bank transfer c m = do {
     (ok, address, m) \<leftarrow> store_listed io
       (\<lambda>index. do {raw \<leftarrow> (if force_user_bank then user_bank_value c (of_nat index) else reg c (of_nat index));
                    Some (if index = 15 then raw + 12 else raw)})
       (dk_register_list d) [0..<kRegisterCount] (ba_first transfer) m;
     if \<not> ok then ends Unsupported c m else block_write_back d (ba_write_back transfer) c m}"

definition execute_block_transfer :: "'c io_callbacks \<Rightarrow> u32 \<Rightarrow> decoded_block_transfer \<Rightarrow> 'c bus_step" where
  "execute_block_transfer io i d = conditionally_with_bus (dk_condition d) (\<lambda>c m.
     if dk_load d \<and> dk_write_back d \<and> register_list_contains (dk_register_list d) (dk_rn d) then ends Unsupported c m
     else let force_user_bank = bit i 22 in
       if force_user_bank \<and> \<not> has_spsr c then ends Unsupported c m
       else if \<not> dk_load d \<and> force_user_bank \<and> register_list_contains (dk_register_list d) kPc then ends Unsupported c m
       else do {
         base \<leftarrow> reg c (dk_rn d);
         let transfer = block_transfer_address base (count_registers (dk_register_list d)) (dk_pre_index d) (dk_up d);
         if dk_load d then block_load io d force_user_bank transfer c m else block_store io d force_user_bank transfer c m})"

section \<open>Halfword transfers\<close>

text \<open>The data is written before the base.\<close>

definition put_with_write_back :: "bool \<Rightarrow> u8 \<Rightarrow> u32 \<Rightarrow> u8 \<Rightarrow> u32 \<Rightarrow> arm7tdmi \<Rightarrow> arm7tdmi throws" where
  "put_with_write_back needs_write_back rn write_back_address rd v c = do {
     c \<leftarrow> set_reg rd v c;
     if needs_write_back then set_reg rn write_back_address c else Some c}"

definition write_back_only :: "bool \<Rightarrow> u8 \<Rightarrow> u32 \<Rightarrow> arm7tdmi \<Rightarrow> arm7tdmi throws" where
  "write_back_only needs_write_back rn write_back_address c =
     (if needs_write_back then set_reg rn write_back_address c else Some c)"

definition halfword_access_address :: "u32 \<Rightarrow> u32" where
  "halfword_access_address address = (if ai_region (classify address) = Game_pak_save then address else address AND NOT 1)"

definition execute_halfword_transfer :: "'c io_callbacks \<Rightarrow> decoded_halfword_transfer \<Rightarrow> 'c bus_step" where
  "execute_halfword_transfer io d = conditionally_with_bus (dh_condition d) (\<lambda>c m.
     if \<not> supported_transfer_addressing (dh_pre_index d) (dh_write_back d) then ends Unsupported c m
     else do {
       base \<leftarrow> arm_visible_register_value c (dh_rn d);
       pc \<leftarrow> reg c kPc;
       let write_back_address = offset_transfer_address base (dh_offset d) (dh_up d);
       let address = (if dh_pre_index d then write_back_address else base);
       let needs_write_back = transfer_needs_write_back (dh_pre_index d) (dh_write_back d);
       let put = put_with_write_back needs_write_back (dh_rn d) write_back_address (dh_rd d);
       if needs_write_back \<and> dh_load d \<and> dh_rn d = dh_rd d then ends Unsupported c m
       else if dh_load d then
         (if dh_signed_transfer d \<and> (\<not> dh_halfword d \<or> address AND 1 \<noteq> 0) then
            loaded (read8_or_arm_pipeline_open_bus io m address pc) (\<lambda>v. put (sign_extend8 v)) c m
          else loaded (read16_or_arm_pipeline_open_bus io m (halfword_access_address address) pc)
            (\<lambda>v. put (if dh_signed_transfer d then sign_extend16 v
                      else if address AND 1 \<noteq> 0 then rotate_right (ucast v) 8 else ucast v)) c m)
       else if dh_signed_transfer d \<or> \<not> dh_halfword d then ends Unsupported c m
       else do {
         rd \<leftarrow> reg c (dh_rd d);
         stored (mb_write16 io (halfword_access_address address) (ucast (rd AND 0xFFFF)))
           (write_back_only needs_write_back (dh_rn d) write_back_address) c m}})"

section \<open>Single transfers\<close>

definition word_store_address :: "u32 \<Rightarrow> u32" where
  "word_store_address address =
     (let region = ai_region (classify address) in if region = Game_pak_save \<or> region = Io then address else address AND NOT 3)"

definition execute_single_transfer :: "'c io_callbacks \<Rightarrow> decoded_single_transfer \<Rightarrow> 'c bus_step" where
  "execute_single_transfer io d = conditionally_with_bus (ds_condition d) (\<lambda>c m.
     if \<not> supported_transfer_addressing (ds_pre_index d) (ds_write_back d) then ends Unsupported c m
     else do {
       base \<leftarrow> arm_visible_register_value c (ds_rn d);
       pc \<leftarrow> reg c kPc;
       let write_back_address = offset_transfer_address base (ds_offset d) (ds_up d);
       let address = (if ds_pre_index d then write_back_address else base);
       let needs_write_back = transfer_needs_write_back (ds_pre_index d) (ds_write_back d);
       let put = put_with_write_back needs_write_back (ds_rn d) write_back_address (ds_rd d);
       if needs_write_back \<and> ds_load d \<and> ds_rn d = ds_rd d then ends Unsupported c m
       else if ds_load d then
         (if ds_byte d then loaded (read8_or_arm_pipeline_open_bus io m address pc) (\<lambda>v. put (ucast v)) c m
          else loaded (read32_or_arm_pipeline_open_bus io m address pc) put c m)
       else do {
         rd \<leftarrow> reg c (ds_rd d);
         let write_back = write_back_only needs_write_back (ds_rn d) write_back_address;
         if ds_byte d then stored (mb_write8 io address (ucast (rd AND 0xFF))) write_back c m
         else stored (mb_write32 io (word_store_address address) (if ds_rd d = kPc then pc + 12 else rd)) write_back c m}})"

section \<open>The ARM dispatcher\<close>

definition decode_halfword_operands :: "u32 \<Rightarrow> arm7tdmi \<Rightarrow> decoded_halfword_transfer throws" where
  "decode_halfword_operands i c =
     (if can_decode_halfword_data_transfer_register i
      then do {rm \<leftarrow> arm_visible_register_value c (bits i 0 0xF); decode_halfword_data_transfer_register i rm}
      else decode_halfword_data_transfer_immediate i)"

definition decode_single_operands :: "u32 \<Rightarrow> arm7tdmi \<Rightarrow> decoded_single_transfer throws" where
  "decode_single_operands i c =
     (if can_decode_single_data_transfer_register i
      then do {rm \<leftarrow> arm_visible_register_value c (bits i 0 0xF); decode_single_data_transfer_register i rm (cpu_carry c)}
      else decode_single_data_transfer_immediate i)"

definition execute_arm_bus :: "'c io_callbacks \<Rightarrow> u32 \<Rightarrow> 'c bus_step" where
  "execute_arm_bus io i c m =
     (case execute_arm_head i of
        Some f \<Rightarrow> without_bus f c m
      | None \<Rightarrow>
        if can_decode_swap i then do {d \<leftarrow> decode_swap i; execute_swap io d c m}
        else if can_decode_block_data_transfer i then do {d \<leftarrow> decode_block_data_transfer i; execute_block_transfer io i d c m}
        else if can_decode_halfword_data_transfer_immediate i \<or> can_decode_halfword_data_transfer_register i then
          do {d \<leftarrow> decode_halfword_operands i c; execute_halfword_transfer io d c m}
        else if \<not> can_decode_single_data_transfer_immediate i \<and> \<not> can_decode_single_data_transfer_register i then
          without_bus (execute_arm i) c m
        else do {d \<leftarrow> decode_single_operands i c; execute_single_transfer io d c m})"

section \<open>Thumb transfers\<close>

definition thumb_transfer_address :: "decoded_thumb_memory \<Rightarrow> arm7tdmi \<Rightarrow> u32 throws" where
  "thumb_transfer_address d c = do {
     base \<leftarrow> reg c (dtm_rb d);
     offset \<leftarrow> (if dtm_offset_is_register d then vec_at (cpu_registers c) (unat (dtm_offset d)) else Some (dtm_offset d));
     Some ((if dtm_rb d = kPc then align_word (base + 4) else base) + offset)}"

definition thumb_halfword_store_address :: "u32 \<Rightarrow> u32" where
  "thumb_halfword_store_address address =
     (let region = ai_region (classify address) in if region = Game_pak_save \<or> region = Io then address else address AND NOT 1)"

definition execute_thumb_memory_transfer :: "'c io_callbacks \<Rightarrow> decoded_thumb_memory \<Rightarrow> 'c bus_step" where
  "execute_thumb_memory_transfer io d c m = do {
     address \<leftarrow> thumb_transfer_address d c;
     pc \<leftarrow> reg c kPc;
     rd \<leftarrow> reg c (dtm_rd d);
     let put = set_reg (dtm_rd d);
     if dtm_load d then
       (case dtm_kind d of
          Transfer_word \<Rightarrow> loaded (read32_or_thumb_pipeline_open_bus io m address pc) put c m
        | Transfer_byte \<Rightarrow> loaded (read8_or_thumb_pipeline_open_bus io m address pc) (\<lambda>v. put (ucast v)) c m
        | Transfer_halfword \<Rightarrow> loaded (read16_or_thumb_pipeline_open_bus io m address pc) (\<lambda>v. put (ucast v)) c m
        | Transfer_signed_byte \<Rightarrow> loaded (read8_or_thumb_pipeline_open_bus io m address pc) (\<lambda>v. put (sign_extend8 v)) c m
        | Transfer_signed_halfword \<Rightarrow> loaded (read16_or_thumb_pipeline_open_bus io m address pc) (\<lambda>v. put (sign_extend16 v)) c m)
     else
       (case dtm_kind d of
          Transfer_word \<Rightarrow> stored (mb_write32 io (word_store_address address) rd) Some c m
        | Transfer_byte \<Rightarrow> stored (mb_write8 io address (ucast (rd AND 0xFF))) Some c m
        | Transfer_halfword \<Rightarrow> stored (mb_write16 io (thumb_halfword_store_address address) (ucast (rd AND 0xFFFF))) Some c m
        | Transfer_signed_byte \<Rightarrow> ends Unsupported c m
        | Transfer_signed_halfword \<Rightarrow> ends Unsupported c m)}"

definition execute_thumb_block_transfer :: "'c io_callbacks \<Rightarrow> decoded_thumb_block \<Rightarrow> 'c bus_step" where
  "execute_thumb_block_transfer io d c m =
     (let register_list = ucast (dtk_register_list d) :: u16; register_count = count_registers register_list in
      if register_count = 0 then ends Unsupported c m
      else do {
        old_base \<leftarrow> reg c (dtk_rb d);
        pc \<leftarrow> reg c kPc;
        let new_base = old_base + ucast register_count * 4;
        if dtk_load d then do {
          words \<leftarrow> load_listed (\<lambda>address. read32_or_thumb_block_open_bus io m address pc) register_list [0..<8] old_base (vec_fill 8 0);
          case words of
            None \<Rightarrow> ends Unsupported c m
          | Some words \<Rightarrow> do {
              c \<leftarrow> put_listed set_reg register_list words [0..<8] c;
              c \<leftarrow> set_reg (dtk_rb d) new_base c;
              ends Executed c m}}
        else do {
          (ok, address, m) \<leftarrow> store_listed io (\<lambda>index. reg c (of_nat index)) register_list [0..<8] old_base m;
          if \<not> ok then ends Unsupported c m
          else do {c \<leftarrow> set_reg (dtk_rb d) new_base c; ends Executed c m}}})"

text \<open>PUSH stores the low registers and then LR; POP collects the words in order and then deals them out, the last one to the PC.\<close>

definition push_registers :: "'c io_callbacks \<Rightarrow> decoded_thumb_stack \<Rightarrow> u32 \<Rightarrow> u8 \<Rightarrow> 'c bus_step" where
  "push_registers io d old_sp register_count c m =
     (let new_sp = old_sp - ucast register_count * 4 in do {
      (ok, address, m) \<leftarrow> store_listed io (\<lambda>index. reg c (of_nat index)) (ucast (dtp_register_list d)) [0..<8] new_sp m;
      if \<not> ok then ends Unsupported c m
      else do {
        lr \<leftarrow> reg c kLinkRegister;
        (ok, m) \<leftarrow> (if dtp_extra_register d then mb_write32 io address lr m else Some (True, m));
        if \<not> ok then ends Unsupported c m
        else do {c \<leftarrow> set_reg 13 new_sp c; ends Executed c m}}})"

text \<open>
  \<open>loaded.at(loaded_count++) = value; address += 4\<close> on the state \<open>(loaded, loaded_count, address)\<close>, for one word and for the words of the
  register list.
\<close>

type_synonym popped = "u32 list \<times> nat \<times> u32"

definition pop_word :: "(u32 \<Rightarrow> u32 option throws) \<Rightarrow> popped \<Rightarrow> popped option throws" where
  "pop_word read = (\<lambda>(words, loaded_count, address). do {
     v \<leftarrow> read address;
     case v of
       None \<Rightarrow> Some None
     | Some w \<Rightarrow> do {
         words \<leftarrow> vec_put words loaded_count w;
         Some (Some (words, loaded_count + 1, address + 4))}})"

primrec pop_listed :: "(u32 \<Rightarrow> u32 option throws) \<Rightarrow> u16 \<Rightarrow> nat list \<Rightarrow> popped \<Rightarrow> popped option throws" where
  "pop_listed read register_list [] s = Some (Some s)"
| "pop_listed read register_list (index # indices) s =
     (if \<not> register_list_contains register_list (of_nat index) then pop_listed read register_list indices s
      else do {
        popped \<leftarrow> pop_word read s;
        case popped of None \<Rightarrow> Some None | Some s \<Rightarrow> pop_listed read register_list indices s})"

primrec deal_words :: "u16 \<Rightarrow> u32 list \<Rightarrow> nat list \<Rightarrow> arm7tdmi \<times> nat \<Rightarrow> (arm7tdmi \<times> nat) throws" where
  "deal_words register_list words [] s = Some s"
| "deal_words register_list words (index # indices) s =
     (if register_list_contains register_list (of_nat index) then do {
        w \<leftarrow> vec_at words (snd s);
        c \<leftarrow> set_reg (of_nat index) w (fst s);
        deal_words register_list words indices (c, snd s + 1)}
      else deal_words register_list words indices s)"

definition pop_registers :: "'c io_callbacks \<Rightarrow> decoded_thumb_stack \<Rightarrow> u32 \<Rightarrow> u8 \<Rightarrow> 'c bus_step" where
  "pop_registers io d old_sp register_count c m =
     (let register_list = ucast (dtp_register_list d) in do {
      low_words \<leftarrow> pop_listed (bus_read32 io m) register_list [0..<8] (vec_fill 9 0, 0, old_sp);
      popped \<leftarrow> (case low_words of
          None \<Rightarrow> Some None
        | Some s \<Rightarrow> if dtp_extra_register d then pop_word (bus_read32 io m) s else Some (Some s));
      case popped of
        None \<Rightarrow> ends Unsupported c m
      | Some (words, loaded_count, address) \<Rightarrow> do {
          (c, read_index) \<leftarrow> deal_words register_list words [0..<8] (c, 0);
          (ok, c) \<leftarrow> (if dtp_extra_register d then do {
              loaded_pc \<leftarrow> vec_at words read_index;
              c \<leftarrow> set_reg kPc (loaded_pc AND NOT 1) c;
              set_cpsr (interworking_cpsr loaded_pc c) c}
            else Some (True, c));
          if \<not> ok then ends Unsupported c m
          else do {c \<leftarrow> set_reg 13 (old_sp + ucast register_count * 4) c; ends Executed c m}}})"

definition execute_thumb_stack_transfer :: "'c io_callbacks \<Rightarrow> decoded_thumb_stack \<Rightarrow> 'c bus_step" where
  "execute_thumb_stack_transfer io d c m =
     (let low_register_count = count_registers (ucast (dtp_register_list d));
          register_count = low_register_count + (if dtp_extra_register d then 1 else 0) in
      if register_count = 0 then ends Unsupported c m
      else do {
        old_sp \<leftarrow> reg c 13;
        if \<not> dtp_load d then push_registers io d old_sp register_count c m
        else pop_registers io d old_sp register_count c m})"

definition execute_thumb_bus :: "'c io_callbacks \<Rightarrow> u16 \<Rightarrow> 'c bus_step" where
  "execute_thumb_bus io i c m =
     (if can_decode_thumb_block_transfer i then do {d \<leftarrow> decode_thumb_block_transfer i; execute_thumb_block_transfer io d c m}
      else if can_decode_thumb_stack_transfer i then do {d \<leftarrow> decode_thumb_stack_transfer i; execute_thumb_stack_transfer io d c m}
      else if can_decode_thumb_memory_transfer i then do {d \<leftarrow> decode_thumb_memory_transfer i; execute_thumb_memory_transfer io d c m}
      else without_bus (execute_thumb i) c m)"

end
