(* ===== verification/Cpu_Timing.thy ===== *)
theory Cpu_Timing
  imports Cpu_Memory
begin

text \<open>
  The cycle estimates of \<open>src/src/core/arm7tdmi.cpp\<close> and the step functions, which execute one instruction and add its estimate to the
  elapsed cycles. A null \<open>waitcnt\<close> pointer is \<^const>\<open>None\<close>. The step functions take the wait state control by reference, and the
  instruction they execute may write WAITCNT, so it is a function \<open>wait_states\<close> of the bus, read again where the code reads it.
  Cycle counts are 32-bit words.
\<close>

record arm_cycle_estimate =
  ce_sequential :: u8
  ce_nonsequential :: u8
  ce_internal :: u8
  ce_data_dependent :: bool

record arm_elapsed_cycle_estimate =
  ee_cycles :: u32
  ee_data_dependent :: bool
  ee_memory_timing_applied :: bool

record arm_step_result =
  sr_status :: execute_status
  sr_elapsed_cycles :: u32
  sr_total_elapsed_cycles :: u64
  sr_data_dependent :: bool
  sr_memory_timing_applied :: bool

definition kOamMirrorBankStart :: u32 where "kOamMirrorBankStart = 0x07000000"
definition kGamePakRomStart :: u32 where "kGamePakRomStart = 0x08000000"
definition kArmSkippedConditionElapsedCycles :: u32 where "kArmSkippedConditionElapsedCycles = 0"
definition kThumbSkippedConditionElapsedCycles :: u32 where "kThumbSkippedConditionElapsedCycles = 1"
definition kMirroredOamArmPrefetchFastRomCycles :: u32 where "kMirroredOamArmPrefetchFastRomCycles = 5"
definition kMirroredOamArmPrefetchSlowRomCycles :: u32 where "kMirroredOamArmPrefetchSlowRomCycles = 3"
definition kMirroredOamThumbPrefetchFastRomCycles :: u32 where "kMirroredOamThumbPrefetchFastRomCycles = 7"
definition kMirroredOamThumbPrefetchSlowRomCycles :: u32 where "kMirroredOamThumbPrefetchSlowRomCycles = 6"

definition cycles_of :: "u8 \<Rightarrow> u8 \<Rightarrow> u8 \<Rightarrow> bool \<Rightarrow> arm_cycle_estimate" where
  "cycles_of sequential nonsequential internal data_dependent =
     \<lparr>ce_sequential = sequential, ce_nonsequential = nonsequential, ce_internal = internal, ce_data_dependent = data_dependent\<rparr>"

definition elapsed_of :: "u32 \<Rightarrow> bool \<Rightarrow> bool \<Rightarrow> arm_elapsed_cycle_estimate" where
  "elapsed_of cycles data_dependent memory_timing_applied =
     \<lparr>ee_cycles = cycles, ee_data_dependent = data_dependent, ee_memory_timing_applied = memory_timing_applied\<rparr>"

section \<open>Cycle counts of the instruction classes\<close>

definition data_processing_cycle_estimate :: "u32 \<Rightarrow> arm_cycle_estimate" where
  "data_processing_cycle_estimate i =
     (let writes_pc = (bits i 12 0xF = kPc) in
      cycles_of (if writes_pc then 2 else 1) (if writes_pc then 1 else 0) (if register_shift_shape i then 1 else 0) False)"

definition branch_cycle_estimate :: arm_cycle_estimate where
  "branch_cycle_estimate = cycles_of 2 1 0 False"

definition single_transfer_cycle_estimate :: "u32 \<Rightarrow> arm_cycle_estimate" where
  "single_transfer_cycle_estimate i =
     (let load = bit i 20; loads_pc = (load \<and> bits i 12 0xF = kPc) in
      if load then cycles_of (if loads_pc then 2 else 1) (if loads_pc then 2 else 1) 1 False else cycles_of 1 1 0 False)"

definition block_transfer_cycle_estimate :: "u32 \<Rightarrow> arm_cycle_estimate" where
  "block_transfer_cycle_estimate i =
     (let register_list = ucast (i AND 0xFFFF); register_count = count_registers register_list; load = bit i 20;
          loads_pc = (load \<and> block_transfer_has_pc register_list) in
      if load then cycles_of (register_count + (if loads_pc then 1 else 0)) (1 + (if loads_pc then 1 else 0)) 1 False
      else cycles_of (register_count - 1) 2 0 False)"

definition multiply_cycle_estimate :: "bool \<Rightarrow> bool \<Rightarrow> arm_cycle_estimate" where
  "multiply_cycle_estimate accumulate_or_long long_accumulate =
     cycles_of 1 0 (if accumulate_or_long then if long_accumulate then 2 else 1 else 0) True"

definition signed_multiply_iterations :: "u32 \<Rightarrow> u32" where
  "signed_multiply_iterations v =
     (if v AND 0xFFFFFF00 = 0 \<or> v AND 0xFFFFFF00 = 0xFFFFFF00 then 1
      else if v AND 0xFFFF0000 = 0 \<or> v AND 0xFFFF0000 = 0xFFFF0000 then 2
      else if v AND 0xFF000000 = 0 \<or> v AND 0xFF000000 = 0xFF000000 then 3
      else 4)"

definition unsigned_multiply_iterations :: "u32 \<Rightarrow> u32" where
  "unsigned_multiply_iterations v =
     (if v AND 0xFFFFFF00 = 0 then 1 else if v AND 0xFFFF0000 = 0 then 2 else if v AND 0xFF000000 = 0 then 3 else 4)"

definition estimate_arm_cycles :: "u32 \<Rightarrow> arm_cycle_estimate option" where
  "estimate_arm_cycles i =
     (if can_decode_software_interrupt i then Some branch_cycle_estimate
      else if can_decode_swap i then Some (cycles_of 0 2 1 False)
      else if can_decode_psr_transfer i then Some (cycles_of 1 0 0 False)
      else if can_decode_branch i then Some branch_cycle_estimate
      else if can_decode_branch_exchange i then Some branch_cycle_estimate
      else if can_decode_multiply_long i then Some (multiply_cycle_estimate True (bit i 21))
      else if can_decode_multiply i then Some (multiply_cycle_estimate (bit i 21) False)
      else if can_decode_block_data_transfer i then Some (block_transfer_cycle_estimate i)
      else if can_decode_single_data_transfer_immediate i \<or> can_decode_single_data_transfer_register i
        \<or> can_decode_halfword_data_transfer_immediate i \<or> can_decode_halfword_data_transfer_register i
      then Some (single_transfer_cycle_estimate i)
      else if can_decode_data_processing_immediate i \<or> can_decode_data_processing_register_shift i
      then Some (data_processing_cycle_estimate i)
      else None)"

section \<open>Memory timing\<close>

definition can_estimate_memory_elapsed_cycles :: "u32 \<Rightarrow> bool" where
  "can_estimate_memory_elapsed_cycles i \<longleftrightarrow>
     can_decode_single_data_transfer_immediate i \<or> can_decode_single_data_transfer_register i
     \<or> can_decode_halfword_data_transfer_immediate i \<or> can_decode_halfword_data_transfer_register i
     \<or> can_decode_block_data_transfer i \<or> can_decode_swap i"

definition transfer_access_width :: "u32 \<Rightarrow> access_width" where
  "transfer_access_width i =
     (if can_decode_swap i then if bit i 22 then Width_byte else Width_word
      else if can_decode_block_data_transfer i then Width_word
      else if can_decode_single_data_transfer_immediate i \<or> can_decode_single_data_transfer_register i
      then if bit i 22 then Width_byte else Width_word
      else if can_decode_halfword_data_transfer_immediate i \<or> can_decode_halfword_data_transfer_register i
      then if bits i 5 3 = 2 then Width_byte else Width_halfword
      else Width_word)"

primrec thumb_transfer_access_width :: "thumb_transfer_kind \<Rightarrow> access_width" where
  "thumb_transfer_access_width Transfer_word = Width_word"
| "thumb_transfer_access_width Transfer_halfword = Width_halfword"
| "thumb_transfer_access_width Transfer_signed_halfword = Width_halfword"
| "thumb_transfer_access_width Transfer_byte = Width_byte"
| "thumb_transfer_access_width Transfer_signed_byte = Width_byte"

definition thumb_memory_cycles :: "decoded_thumb_memory \<Rightarrow> memory_access_timing \<Rightarrow> u32" where
  "thumb_memory_cycles d timing =
     (if dtm_load d then ucast (mt_nonsequential timing) + ucast (mt_sequential timing) + 1
      else ucast (mt_sequential timing) + ucast (mt_nonsequential timing))"

definition region_of :: "u32 \<Rightarrow> region" where
  "region_of address = ai_region (classify address)"

definition iwram_single_transfer_cycles :: "u32 \<Rightarrow> u32 \<Rightarrow> access_width \<Rightarrow> bool \<Rightarrow> wait_state_control \<Rightarrow> u32 option" where
  "iwram_single_transfer_cycles fetch_address data_address width load waitcnt =
     (if region_of fetch_address \<noteq> Iwram then None
      else let data_region = region_of data_address in
        if width \<noteq> Width_byte \<and> data_region \<noteq> Iwram then None
        else let timing = mb_timing_waitcnt data_address width waitcnt in
          if mt_nonsequential timing = 0 then None
          else Some (1 + ucast (mt_nonsequential timing)
            + (if data_region = Game_pak_rom \<or> data_region = Game_pak_save then 1 else 0) + (if load then 1 else 0)))"

definition thumb_prefetch_overlaps_internal_data_load_cycle :: "decoded_thumb_memory \<Rightarrow> u32 \<Rightarrow> bool \<Rightarrow> bool" where
  "thumb_prefetch_overlaps_internal_data_load_cycle d address waitcnt_prefetch_enabled =
     (if \<not> waitcnt_prefetch_enabled \<or> \<not> dtm_load d then False
      else region_of address = Ewram \<or> region_of address = Iwram)"

definition compose_elapsed_cycles :: "arm_cycle_estimate \<Rightarrow> memory_access_timing \<Rightarrow> arm_elapsed_cycle_estimate" where
  "compose_elapsed_cycles cycles timing =
     elapsed_of (ucast (ce_sequential cycles) * ucast (mt_sequential timing)
         + ucast (ce_nonsequential cycles) * ucast (mt_nonsequential timing) + ucast (ce_internal cycles))
       (ce_data_dependent cycles) True"

definition timing_for_elapsed_estimate :: "u32 \<Rightarrow> access_width \<Rightarrow> wait_state_control option \<Rightarrow> memory_access_timing" where
  "timing_for_elapsed_estimate address width waitcnt =
     (case waitcnt of Some w \<Rightarrow> mb_timing_waitcnt address width w | None \<Rightarrow> mb_timing address width)"

text \<open>
  Block loads from the OAM mirror that run into the game pak. The three corrections of the ROM part are separate definitions: the slow
  first access, the missing prefetch and the prefetch.
\<close>

definition slow_first_access_correction :: "u32 \<Rightarrow> u32" where
  "slow_first_access_correction mirrored_words =
     (if mirrored_words = 2 then 2 else if mirrored_words = 3 then 1 else if mirrored_words = 4 then 0 else 3)"

definition no_prefetch_correction :: "u32 \<Rightarrow> u32 \<Rightarrow> u32" where
  "no_prefetch_correction mirrored_words elapsed =
     (if mirrored_words = 4 then elapsed + 1
      else elapsed - (if mirrored_words = 2 then 1 else if mirrored_words = 3 then 0 else 2))"

definition prefetch_correction :: "u32 \<Rightarrow> bool \<Rightarrow> bool \<Rightarrow> u32" where
  "prefetch_correction mirrored_words nonsequential_is_3 sequential_is_1 =
     (if mirrored_words = 2 then
        if nonsequential_is_3 then if sequential_is_1 then 2 else 3
        else if sequential_is_1 then 3 else 4
      else if mirrored_words \<ge> 3 \<and> \<not> nonsequential_is_3 \<and> sequential_is_1 then 5
      else if mirrored_words \<ge> 3 \<and> nonsequential_is_3 \<and> sequential_is_1 then 4
      else if nonsequential_is_3 then 2 else 3)"

definition mirrored_oam_cross_rom_block_load_elapsed_cycles ::
  "u32 \<Rightarrow> u32 \<Rightarrow> wait_state_control option \<Rightarrow> bool \<Rightarrow> u32 \<times> u32 \<Rightarrow> u32 \<Rightarrow> u32 option" where
  "mirrored_oam_cross_rom_block_load_elapsed_cycles data_address register_count waitcnt prefetch tuning trailing_internal_cycles =
     (let first = classify data_address in
      if ai_region first \<noteq> Oam \<or> \<not> ai_mirrored first \<or> data_address < kOamMirrorBankStart \<or> data_address \<ge> kGamePakRomStart then None
      else let
        words_until_rom = max ((kGamePakRomStart - data_address) div 4) 1;
        mirrored_words = min register_count words_until_rom;
        rom_words = register_count - mirrored_words;
        rom_timing = timing_for_elapsed_estimate kGamePakRomStart Width_word waitcnt;
        fast = (mt_sequential rom_timing = 1);
        slow_first = (mt_nonsequential rom_timing = 3)
      in if rom_words = 0 \<and> prefetch then Some (if fast then fst tuning else snd tuning)
         else let
           elapsed = 1 + mirrored_words;
           elapsed = (if rom_words \<noteq> 0 then let
               elapsed = elapsed + rom_words * (ucast (mt_nonsequential rom_timing) + ucast (mt_sequential rom_timing))
                 + ucast (mt_sequential rom_timing);
               elapsed = (if slow_first then elapsed + slow_first_access_correction mirrored_words else elapsed);
               elapsed = (if \<not> prefetch \<and> fast then no_prefetch_correction mirrored_words elapsed else elapsed)
             in if prefetch then elapsed + prefetch_correction mirrored_words slow_first fast else elapsed
             else elapsed)
         in Some (elapsed + trailing_internal_cycles))"

definition thumb_mirrored_oam_block_load_elapsed_cycles :: "decoded_thumb_block \<Rightarrow> u32 \<Rightarrow> wait_state_control \<Rightarrow> u32 option" where
  "thumb_mirrored_oam_block_load_elapsed_cycles d data_address waitcnt =
     (if \<not> dtk_load d then None
      else mirrored_oam_cross_rom_block_load_elapsed_cycles data_address (ucast (count_registers (ucast (dtk_register_list d))))
        (Some waitcnt) (wsc_prefetch_enabled waitcnt)
        (kMirroredOamThumbPrefetchFastRomCycles, kMirroredOamThumbPrefetchSlowRomCycles) 1)"

definition mirrored_oam_block_load_elapsed_cycles ::
  "u32 \<Rightarrow> u32 \<Rightarrow> arm_cycle_estimate \<Rightarrow> wait_state_control option \<Rightarrow> bool \<Rightarrow> u32 option throws" where
  "mirrored_oam_block_load_elapsed_cycles i data_address cycles waitcnt prefetch =
     (if \<not> can_decode_block_data_transfer i then Some None
      else do {
        d \<leftarrow> decode_block_data_transfer i;
        Some (if \<not> dk_load d then None
          else mirrored_oam_cross_rom_block_load_elapsed_cycles data_address (ucast (count_registers (dk_register_list d))) waitcnt prefetch
            (kMirroredOamArmPrefetchFastRomCycles, kMirroredOamArmPrefetchSlowRomCycles) (ucast (ce_internal cycles)))})"

definition has_elapsed_timing_for_estimate :: "u32 \<Rightarrow> memory_access_timing \<Rightarrow> bool \<Rightarrow> bool" where
  "has_elapsed_timing_for_estimate address timing waitcnt_aware =
     (if mt_readable timing \<or> mt_writable timing then True
      else let r = region_of address; timed = (mt_nonsequential timing \<noteq> 0 \<and> mt_sequential timing \<noteq> 0) in
        if (r = Io \<or> r = Unknown \<or> r = Bios) \<and> timed then True
        else if \<not> waitcnt_aware \<or> \<not> timed then False
        else r = Bios \<or> r = Game_pak_rom \<or> r = Game_pak_save)"

definition arm_data_load_has_internal_cycle :: "u32 \<Rightarrow> bool" where
  "arm_data_load_has_internal_cycle i =
     (if can_decode_single_data_transfer_immediate i \<or> can_decode_single_data_transfer_register i
        \<or> can_decode_halfword_data_transfer_immediate i \<or> can_decode_halfword_data_transfer_register i
        \<or> can_decode_block_data_transfer i then bit i 20 else False)"

definition prefetch_internal_data_load_overlap_cycles :: "u32 \<Rightarrow> u32 \<Rightarrow> arm_cycle_estimate \<Rightarrow> bool \<Rightarrow> bool \<Rightarrow> u32 throws" where
  "prefetch_internal_data_load_overlap_cycles i data_address cycles prefetch fast_rom =
     (if \<not> prefetch \<or> ce_internal cycles = 0 \<or> \<not> arm_data_load_has_internal_cycle i then Some 0
      else if region_of data_address \<noteq> Ewram \<and> region_of data_address \<noteq> Iwram then Some 0
      else if can_decode_block_data_transfer i then do {
        d \<leftarrow> decode_block_data_transfer i;
        Some (if dk_load d then min (ucast (count_registers (dk_register_list d))) (if fast_rom then 2 else 4) else 1)}
      else Some 1)"

definition prefetch_block_store_overlap_cycles :: "u32 \<Rightarrow> u32 \<Rightarrow> bool \<Rightarrow> bool \<Rightarrow> u32 throws" where
  "prefetch_block_store_overlap_cycles i data_address prefetch fast_rom =
     (if \<not> prefetch \<or> \<not> can_decode_block_data_transfer i then Some 0
      else if region_of data_address \<noteq> Ewram \<and> region_of data_address \<noteq> Iwram then Some 0
      else do {
        d \<leftarrow> decode_block_data_transfer i;
        Some (let register_count = ucast (count_registers (dk_register_list d)) in
          if dk_load d then 0 else if register_count < 2 then 0
          else min (register_count - 1) (if fast_rom then 2 else 4))})"

definition arm_single_word_load_from_game_pak_rom :: "u32 \<Rightarrow> u32 \<Rightarrow> bool" where
  "arm_single_word_load_from_game_pak_rom i data_address =
     (if \<not> can_decode_single_data_transfer_immediate i \<and> \<not> can_decode_single_data_transfer_register i then False
      else bit i 20 \<and> \<not> bit i 22 \<and> region_of data_address = Game_pak_rom)"

definition thumb_word_load_from_game_pak_rom :: "decoded_thumb_memory \<Rightarrow> u32 \<Rightarrow> bool" where
  "thumb_word_load_from_game_pak_rom d data_address \<longleftrightarrow>
     dtm_load d \<and> dtm_kind d = Transfer_word \<and> region_of data_address = Game_pak_rom"

section \<open>Elapsed cycles\<close>

definition estimate_arm_elapsed_cycles_with_timing ::
  "u32 \<Rightarrow> u32 \<Rightarrow> memory_access_timing \<Rightarrow> bool \<Rightarrow> bool \<Rightarrow> bool \<Rightarrow> wait_state_control option \<Rightarrow> arm_elapsed_cycle_estimate option throws"
where
  "estimate_arm_elapsed_cycles_with_timing i data_address timing waitcnt_aware prefetch fast_rom waitcnt =
     (case estimate_arm_cycles i of
        None \<Rightarrow> Some None
      | Some cycles \<Rightarrow>
        if \<not> can_estimate_memory_elapsed_cycles i then
          Some (Some (elapsed_of (ucast (ce_sequential cycles) + ucast (ce_nonsequential cycles) + ucast (ce_internal cycles))
            (ce_data_dependent cycles) False))
        else if \<not> has_elapsed_timing_for_estimate data_address timing waitcnt_aware then Some None
        else do {
          mirrored_oam_elapsed \<leftarrow> mirrored_oam_block_load_elapsed_cycles i data_address cycles waitcnt prefetch;
          let elapsed = (case mirrored_oam_elapsed of
              Some mirrored \<Rightarrow> elapsed_of mirrored (ce_data_dependent cycles) True
            | None \<Rightarrow> compose_elapsed_cycles cycles timing);
          let total = (if waitcnt_aware \<and> arm_single_word_load_from_game_pak_rom i data_address
            then ee_cycles elapsed + 3 else ee_cycles elapsed);
          load_overlap \<leftarrow> prefetch_internal_data_load_overlap_cycles i data_address cycles prefetch fast_rom;
          store_overlap \<leftarrow> prefetch_block_store_overlap_cycles i data_address prefetch fast_rom;
          let overlap = load_overlap + store_overlap;
          Some (Some (elapsed\<lparr>ee_cycles := (if overlap \<noteq> 0 then total - min total overlap else total)\<rparr>))})"

definition estimate_arm_elapsed_cycles :: "u32 \<Rightarrow> u32 \<Rightarrow> arm_elapsed_cycle_estimate option throws" where
  "estimate_arm_elapsed_cycles i data_address =
     estimate_arm_elapsed_cycles_with_timing i data_address (mb_timing data_address (transfer_access_width i)) False False False None"

definition estimate_arm_elapsed_cycles_waitcnt :: "u32 \<Rightarrow> u32 \<Rightarrow> wait_state_control \<Rightarrow> arm_elapsed_cycle_estimate option throws" where
  "estimate_arm_elapsed_cycles_waitcnt i data_address waitcnt =
     estimate_arm_elapsed_cycles_with_timing i data_address (mb_timing_waitcnt data_address (transfer_access_width i) waitcnt) True
       (wsc_prefetch_enabled waitcnt) (ws_sequential (wsc_rom_wait_states Window_rom_wait0 waitcnt) \<le> 1) (Some waitcnt)"

definition estimate_with :: "wait_state_control option \<Rightarrow> u32 \<Rightarrow> u32 \<Rightarrow> arm_elapsed_cycle_estimate option throws" where
  "estimate_with waitcnt i data_address =
     (case waitcnt of
        None \<Rightarrow> estimate_arm_elapsed_cycles i data_address
      | Some w \<Rightarrow> estimate_arm_elapsed_cycles_waitcnt i data_address w)"

definition runtime_multiply_elapsed_cycles :: "u32 \<Rightarrow> arm7tdmi \<Rightarrow> arm_elapsed_cycle_estimate option throws" where
  "runtime_multiply_elapsed_cycles i c =
     (if can_decode_multiply_long i then do {
        d \<leftarrow> decode_multiply_long i;
        multiplier \<leftarrow> reg c (dl_rs d);
        let iterations = (if dl_signed_multiply d then signed_multiply_iterations multiplier else unsigned_multiply_iterations multiplier);
        Some (Some (elapsed_of (iterations + (if dl_accumulate d then 3 else 2)) True False))}
      else if can_decode_multiply i then do {
        d \<leftarrow> decode_multiply i;
        multiplier \<leftarrow> reg c (dm_rs d);
        Some (Some (elapsed_of (signed_multiply_iterations multiplier + (if dm_accumulate d then 2 else 1)) True False))}
      else Some None)"

definition runtime_thumb_elapsed_cycles :: "u16 \<Rightarrow> arm7tdmi \<Rightarrow> arm_elapsed_cycle_estimate option throws" where
  "runtime_thumb_elapsed_cycles i c =
     (if \<not> can_decode_thumb_alu i then Some None
      else do {
        d \<leftarrow> decode_thumb_alu i;
        if dta_opcode d \<noteq> Alu_mul then Some None
        else do {
          rd \<leftarrow> reg c (dta_rd d);
          Some (Some (elapsed_of (signed_multiply_iterations rd + 1) True False))}})"

section \<open>The address and condition a step needs before it executes\<close>

definition first_data_address :: "u32 \<Rightarrow> arm7tdmi \<Rightarrow> u32 option throws" where
  "first_data_address i c =
     (if can_decode_swap i then map_option Some (reg c (bits i 16 0xF))
      else if can_decode_block_data_transfer i then do {
        d \<leftarrow> decode_block_data_transfer i;
        base \<leftarrow> reg c (dk_rn d);
        Some (Some (ba_first (block_transfer_address base (count_registers (dk_register_list d)) (dk_pre_index d) (dk_up d))))}
      else if can_decode_halfword_data_transfer_immediate i \<or> can_decode_halfword_data_transfer_register i then do {
        d \<leftarrow> decode_halfword_operands i c;
        base \<leftarrow> arm_visible_register_value c (dh_rn d);
        Some (Some (if dh_pre_index d then offset_transfer_address base (dh_offset d) (dh_up d) else base))}
      else if can_decode_single_data_transfer_immediate i \<or> can_decode_single_data_transfer_register i then do {
        d \<leftarrow> decode_single_operands i c;
        base \<leftarrow> arm_visible_register_value c (ds_rn d);
        Some (Some (if ds_pre_index d then offset_transfer_address base (ds_offset d) (ds_up d) else base))}
      else Some None)"

definition memory_condition_passed :: "u32 \<Rightarrow> arm7tdmi \<Rightarrow> bool throws" where
  "memory_condition_passed i c =
     (if can_decode_swap i then do {d \<leftarrow> decode_swap i; Some (condition_passed c (dw_condition d))}
      else if can_decode_block_data_transfer i then do {d \<leftarrow> decode_block_data_transfer i; Some (condition_passed c (dk_condition d))}
      else if can_decode_halfword_data_transfer_immediate i \<or> can_decode_halfword_data_transfer_register i then do {
        d \<leftarrow> (if can_decode_halfword_data_transfer_register i
              then do {rm \<leftarrow> reg c (bits i 0 0xF); decode_halfword_data_transfer_register i rm}
              else decode_halfword_data_transfer_immediate i);
        Some (condition_passed c (dh_condition d))}
      else if can_decode_single_data_transfer_immediate i \<or> can_decode_single_data_transfer_register i then do {
        d \<leftarrow> (if can_decode_single_data_transfer_register i
              then do {rm \<leftarrow> reg c (bits i 0 0xF); decode_single_data_transfer_register i rm (cpu_carry c)}
              else decode_single_data_transfer_immediate i);
        Some (condition_passed c (ds_condition d))}
      else Some True)"

section \<open>Steps\<close>

definition step_result :: "execute_status \<Rightarrow> u32 \<Rightarrow> bool \<Rightarrow> bool \<Rightarrow> arm7tdmi \<Rightarrow> arm_step_result" where
  "step_result status elapsed data_dependent memory_timing_applied c =
     \<lparr>sr_status = status, sr_elapsed_cycles = elapsed, sr_total_elapsed_cycles = cpu_elapsed_cycles c,
      sr_data_dependent = data_dependent, sr_memory_timing_applied = memory_timing_applied\<rparr>"

definition add_elapsed :: "u32 \<Rightarrow> arm7tdmi \<Rightarrow> arm7tdmi" where
  "add_elapsed cycles c = c\<lparr>cpu_elapsed_cycles := cpu_elapsed_cycles c + ucast cycles\<rparr>"

definition finish_with :: "execute_status \<Rightarrow> arm_elapsed_cycle_estimate \<Rightarrow> arm7tdmi \<Rightarrow> arm_step_result \<times> arm7tdmi" where
  "finish_with status e c =
     (let c = add_elapsed (ee_cycles e) c
      in (step_result status (ee_cycles e) (ee_data_dependent e) (ee_memory_timing_applied e) c, c))"

definition finish_step ::
  "u32 \<Rightarrow> u32 option \<Rightarrow> execute_status \<Rightarrow> wait_state_control option \<Rightarrow> arm_elapsed_cycle_estimate option \<Rightarrow> arm7tdmi
   \<Rightarrow> (arm_step_result \<times> arm7tdmi) throws" where
  "finish_step i data_address status waitcnt elapsed_override c =
     (case status of
        Skipped_condition \<Rightarrow>
          (let c = add_elapsed kArmSkippedConditionElapsedCycles c
           in Some (step_result status kArmSkippedConditionElapsedCycles False False c, c))
      | Unsupported \<Rightarrow> Some (step_result status 0 False False c, c)
      | Executed \<Rightarrow> do {
          estimate \<leftarrow> (if elapsed_override \<noteq> None then Some elapsed_override
            else estimate_with waitcnt i (case data_address of Some a \<Rightarrow> a | None \<Rightarrow> 0));
          Some (case estimate of None \<Rightarrow> (step_result status 0 False False c, c) | Some e \<Rightarrow> finish_with status e c)})"

definition step_arm :: "u32 \<Rightarrow> arm7tdmi \<Rightarrow> (arm_step_result \<times> arm7tdmi) throws" where
  "step_arm i c = do {
     elapsed_override \<leftarrow> runtime_multiply_elapsed_cycles i c;
     (status, c) \<leftarrow> execute_arm i c;
     finish_step i None status None elapsed_override c}"

text \<open>The guard of the steps with a bus: a transfer that would execute but has no estimate is not started.\<close>

definition transfer_unestimated :: "wait_state_control option \<Rightarrow> u32 \<Rightarrow> u32 option \<Rightarrow> arm7tdmi \<Rightarrow> bool throws" where
  "transfer_unestimated waitcnt i data_address c =
     (case data_address of
        None \<Rightarrow> Some False
      | Some a \<Rightarrow> do {
          passed \<leftarrow> memory_condition_passed i c;
          if passed then do {estimate \<leftarrow> estimate_with waitcnt i a; Some (estimate = None)} else Some False})"

definition step_arm_bus :: "'c io_callbacks \<Rightarrow> u32 \<Rightarrow> arm7tdmi \<Rightarrow> 'c bus \<Rightarrow> (arm_step_result \<times> arm7tdmi \<times> 'c bus) throws" where
  "step_arm_bus io i c m = do {
     data_address \<leftarrow> first_data_address i c;
     refused \<leftarrow> transfer_unestimated None i data_address c;
     if refused then Some (step_result Unsupported 0 False False c, c, m)
     else do {
       elapsed_override \<leftarrow> runtime_multiply_elapsed_cycles i c;
       (status, c, m) \<leftarrow> execute_arm_bus io i c m;
       (result, c) \<leftarrow> finish_step i data_address status None elapsed_override c;
       Some (result, c, m)}}"

definition iwram_transfer_override ::
  "u32 \<Rightarrow> u32 option \<Rightarrow> wait_state_control \<Rightarrow> arm7tdmi \<Rightarrow> arm_elapsed_cycle_estimate option throws" where
  "iwram_transfer_override i data_address waitcnt c =
     (case data_address of
        None \<Rightarrow> Some None
      | Some a \<Rightarrow>
        if \<not> can_decode_swap i \<and> (can_decode_single_data_transfer_immediate i \<or> can_decode_single_data_transfer_register i
            \<or> can_decode_halfword_data_transfer_immediate i \<or> can_decode_halfword_data_transfer_register i) \<and> bits i 12 0xF \<noteq> kPc
        then do {
          pc \<leftarrow> reg c kPc;
          Some (map_option (\<lambda>cycles. elapsed_of cycles False True)
            (iwram_single_transfer_cycles pc a (transfer_access_width i) (i AND push_bit 20 1 \<noteq> 0) waitcnt))}
        else Some None)"

definition step_arm_waitcnt ::
  "'c io_callbacks \<Rightarrow> ('c bus \<Rightarrow> wait_state_control) \<Rightarrow> u32 \<Rightarrow> arm_elapsed_cycle_estimate option \<Rightarrow> arm7tdmi \<Rightarrow> 'c bus
   \<Rightarrow> (arm_step_result \<times> arm7tdmi \<times> 'c bus) throws" where
  "step_arm_waitcnt io wait_states i elapsed_override c m = do {
     data_address \<leftarrow> first_data_address i c;
     refused \<leftarrow> transfer_unestimated (Some (wait_states m)) i data_address c;
     if refused then Some (step_result Unsupported 0 False False c, c, m)
     else do {
       runtime_override \<leftarrow> (if elapsed_override \<noteq> None then Some elapsed_override else runtime_multiply_elapsed_cycles i c);
       runtime_override \<leftarrow> (if runtime_override = None then iwram_transfer_override i data_address (wait_states m) c
         else Some runtime_override);
       (status, c, m) \<leftarrow> execute_arm_bus io i c m;
       (result, c) \<leftarrow> finish_step i data_address status (Some (wait_states m)) runtime_override c;
       Some (result, c, m)}}"

definition kSeedThumbElapsedCycles :: u32 where "kSeedThumbElapsedCycles = 1"

text \<open>The common tail of the Thumb steps.\<close>

definition finish_thumb_step :: "execute_status \<Rightarrow> arm_elapsed_cycle_estimate option \<Rightarrow> arm7tdmi \<Rightarrow> arm_step_result \<times> arm7tdmi" where
  "finish_thumb_step status elapsed c =
     (case status of
        Skipped_condition \<Rightarrow>
          (let c = add_elapsed kThumbSkippedConditionElapsedCycles c
           in (step_result status kThumbSkippedConditionElapsedCycles False False c, c))
      | Unsupported \<Rightarrow> (step_result status 0 False False c, c)
      | Executed \<Rightarrow> finish_with status (case elapsed of Some e \<Rightarrow> e | None \<Rightarrow> elapsed_of kSeedThumbElapsedCycles False False) c)"

definition step_thumb :: "u16 \<Rightarrow> arm7tdmi \<Rightarrow> (arm_step_result \<times> arm7tdmi) throws" where
  "step_thumb i c = do {
     elapsed_override \<leftarrow> runtime_thumb_elapsed_cycles i c;
     (status, c) \<leftarrow> execute_thumb i c;
     Some (finish_thumb_step status elapsed_override c)}"

definition step_thumb_bus :: "'c io_callbacks \<Rightarrow> u16 \<Rightarrow> arm7tdmi \<Rightarrow> 'c bus \<Rightarrow> (arm_step_result \<times> arm7tdmi \<times> 'c bus) throws" where
  "step_thumb_bus io i c m = do {
     elapsed_override \<leftarrow> runtime_thumb_elapsed_cycles i c;
     (status, c, m) \<leftarrow> execute_thumb_bus io i c m;
     let (result, c) = finish_thumb_step status elapsed_override c;
     Some (result, c, m)}"

definition thumb_transfer_estimate ::
  "wait_state_control \<Rightarrow> bool \<Rightarrow> u16 \<Rightarrow> arm7tdmi \<Rightarrow> arm_elapsed_cycle_estimate option throws" where
  "thumb_transfer_estimate waitcnt prefetch_internal_load_overlap i c = do {
     d \<leftarrow> decode_thumb_memory_transfer i;
     address \<leftarrow> thumb_transfer_address d c;
     let width = thumb_transfer_access_width (dtm_kind d);
     let timing = mb_timing_waitcnt address width waitcnt;
     if \<not> has_elapsed_timing_for_estimate address timing True then Some None
     else do {
       pc \<leftarrow> reg c kPc;
       let iwram_cycles = iwram_single_transfer_cycles pc address width (dtm_load d) waitcnt;
       let cycles = (case iwram_cycles of Some n \<Rightarrow> n | None \<Rightarrow> thumb_memory_cycles d timing);
       let cycles = (if thumb_word_load_from_game_pak_rom d address then cycles + 3 else cycles);
       let cycles = (if iwram_cycles = None \<and> thumb_prefetch_overlaps_internal_data_load_cycle d address
           (wsc_prefetch_enabled waitcnt \<and> prefetch_internal_load_overlap) then cycles - 1 else cycles);
       Some (Some (elapsed_of cycles False True))}}"

definition thumb_block_estimate ::
  "wait_state_control \<Rightarrow> u16 \<Rightarrow> arm_elapsed_cycle_estimate option \<Rightarrow> arm7tdmi \<Rightarrow> arm_elapsed_cycle_estimate option throws" where
  "thumb_block_estimate waitcnt i estimate c = do {
     d \<leftarrow> decode_thumb_block_transfer i;
     address \<leftarrow> reg c (dtk_rb d);
     Some (case thumb_mirrored_oam_block_load_elapsed_cycles d address waitcnt of
         Some mirrored \<Rightarrow> Some (elapsed_of mirrored False True)
       | None \<Rightarrow>
         let register_count = ucast (count_registers (ucast (dtk_register_list d))); timing = mb_timing_waitcnt address Width_word waitcnt in
         if has_elapsed_timing_for_estimate address timing True then
           Some (elapsed_of
             (if dtk_load d then 1 + register_count * (ucast (mt_nonsequential timing) + ucast (mt_sequential timing))
              else register_count * ucast (mt_sequential timing)) False True)
         else estimate)}"

definition step_thumb_waitcnt ::
  "'c io_callbacks \<Rightarrow> ('c bus \<Rightarrow> wait_state_control) \<Rightarrow> u16 \<Rightarrow> bool \<Rightarrow> arm_elapsed_cycle_estimate option \<Rightarrow> arm7tdmi \<Rightarrow> 'c bus
   \<Rightarrow> (arm_step_result \<times> arm7tdmi \<times> 'c bus) throws" where
  "step_thumb_waitcnt io wait_states i prefetch_internal_load_overlap elapsed_override c m = do {
     estimate \<leftarrow> (if can_decode_thumb_memory_transfer i
       then thumb_transfer_estimate (wait_states m) prefetch_internal_load_overlap i c else Some None);
     estimate \<leftarrow> (if can_decode_thumb_block_transfer i then thumb_block_estimate (wait_states m) i estimate c else Some estimate);
     runtime_override \<leftarrow> (if elapsed_override \<noteq> None then Some elapsed_override else runtime_thumb_elapsed_cycles i c);
     (status, c, m) \<leftarrow> execute_thumb_bus io i c m;
     let (result, c) = finish_thumb_step status (if runtime_override \<noteq> None then runtime_override else estimate) c;
     Some (result, c, m)}"

end
