(* ===== verification/Cpu_Multiply_Correct.thy ===== *)
theory Cpu_Multiply_Correct
  imports Cpu_Multiply
begin

text \<open>
  The multiplier array of \<open>Cpu_Multiply\<close> ends after at most four rounds.
\<close>

section \<open>Masks and shifts as bits\<close>

lemma bit64_bit: "bit64 v n \<longleftrightarrow> bit v n"
  by (simp add: bit64_def and_one_eq mod_2_eq_odd bit_iff_odd_drop_bit)

lemma bit_lt_u64: "bit (v :: u64) n \<Longrightarrow> n < 64"
  by (auto dest: bit_imp_le_length)

lemma mask64_range_bits: "bit (mask64_range low high) k \<longleftrightarrow> low \<le> k \<and> k < high \<and> k < 64"
proof -
  have "push_bit n 1 - 1 = (mask n :: u64)" for n
    by (simp add: mask_eq_exp_minus_1 push_bit_eq_mult)
  then show ?thesis
    by (auto simp: mask64_range_def bit_push_bit_iff bit_mask_iff bit_not_iff)
qed

lemma sign_extend64_bits:
  assumes "0 < from_bits" "from_bits \<le> to_bits"
  shows "bit (sign_extend64 v from_bits to_bits) k \<longleftrightarrow>
    k < to_bits \<and> k < 64 \<and> (bit v k \<or> from_bits \<le> k \<and> bit v (from_bits - 1))"
  using assms by (auto simp: sign_extend64_def Let_def bit64_bit bit_or_iff bit_and_iff mask64_range_bits dest: bit_lt_u64)

lemma arithmetic_shift_right_bits:
  assumes "\<And>k. bit v k \<Longrightarrow> k < 33 \<or> bit v 32"
  shows "bit (arithmetic_shift_right v 8 33) k \<longleftrightarrow> k < 33 \<and> bit v (min 32 (k + 8))"
proof -
  have "bit (sign_extend64 v 33 64) j \<longleftrightarrow> j < 64 \<and> bit v (min 32 j)" for j
    using assms [of j] by (cases "j = 32") (auto simp: sign_extend64_bits min_def)
  then show ?thesis
    by (cases "k < 33") (simp_all add: arithmetic_shift_right_def bit_and_iff mask64_range_bits bit_signed_drop_bit_iff add.commute)
qed

section \<open>Termination\<close>

text \<open>After \<open>r\<close> rounds the multiplier is the first one shifted right by \<open>8 * r\<close>, with its bit 32 as the sign.\<close>

definition multiplier_after :: "u64 \<Rightarrow> nat \<Rightarrow> u64 \<Rightarrow> bool" where
  "multiplier_after start r v \<longleftrightarrow> (if r = 0 then v = start else \<forall>k. bit v k \<longleftrightarrow> k < 33 \<and> bit start (min 32 (k + 8 * r)))"

definition multiplier_start_ok :: "u64 \<Rightarrow> bool" where
  "multiplier_start_ok v \<longleftrightarrow> (\<forall>k. bit v k \<longrightarrow> k < 33 \<or> bit v 32)"

lemma ms_multiplier_round: "ms_multiplier (multiply_round multiplicand s) = arithmetic_shift_right (ms_multiplier s) 8 33"
  by (simp add: multiply_round_def Let_def split: prod.splits)

lemma multiplier_after_round:
  assumes "multiplier_start_ok start" and "multiplier_after start r (ms_multiplier s)"
  shows "multiplier_after start (Suc r) (ms_multiplier (multiply_round multiplicand s))"
proof -
  have ok: "bit (ms_multiplier s) k \<Longrightarrow> k < 33 \<or> bit (ms_multiplier s) 32" for k
    using assms by (auto simp: multiplier_after_def multiplier_start_ok_def split: if_splits)
  have round: "bit (arithmetic_shift_right (ms_multiplier s) 8 33) k \<longleftrightarrow> k < 33 \<and> bit (ms_multiplier s) (min 32 (k + 8))" for k
    by (rule arithmetic_shift_right_bits) (rule ok)
  have "min 32 (min 32 (k + 8) + 8 * r) = min 32 (k + (8 + 8 * r))" for k
    by (simp add: min_def)
  then show ?thesis
    using assms(2) unfolding ms_multiplier_round multiplier_after_def round by (auto simp: add.commute split: if_splits)
qed

lemma multiplier_terminates:
  assumes "multiplier_after start r v" "4 \<le> r" "signed_multiply \<or> \<not> bit start 32"
  shows "multiply_should_terminate v signed_multiply"
proof -
  have b: "bit v k \<longleftrightarrow> k < 33 \<and> bit start 32" for k
    using assms(1,2) by (simp add: multiplier_after_def min_def)
  have "v = (if bit start 32 then mask 33 else 0)"
    by (rule bit_word_eqI) (simp add: b bit_mask_iff)
  then show ?thesis
    using assms(3) by (auto simp: multiply_should_terminate_def mask_eq_exp_minus_1)
qed

lemma multiply_loop_returns:
  assumes "multiplier_start_ok start" and "signed_multiply \<or> \<not> bit start 32"
    and "multiplier_after start r (ms_multiplier s)" and "4 \<le> r + fuel" and "0 < fuel"
  shows "multiply_loop fuel signed_multiply multiplicand s \<noteq> None"
  using assms(3-5)
proof (induction fuel arbitrary: r s)
  case (Suc fuel)
  note next_round = multiplier_after_round [OF assms(1) Suc.prems(1), of multiplicand]
  show ?case
  proof (cases "fuel = 0")
    case True
    then show ?thesis
      using multiplier_terminates [OF next_round _ assms(2)] Suc.prems(2) by (simp add: Let_def)
  next
    case False
    then show ?thesis
      using Suc.IH [OF next_round] Suc.prems(2) by (simp add: Let_def)
  qed
qed simp

lemma multiply_start_ok:
  "multiplier_start_ok (ms_multiplier (snd (multiply_start signed_multiply rm rs accumulator)))"
  "signed_multiply \<or> \<not> bit (ms_multiplier (snd (multiply_start signed_multiply rm rs accumulator))) 32"
proof -
  have mask33: "(0x1FFFFFFFF :: u64) = mask 33"
    by (simp add: mask_eq_exp_minus_1)
  have hi: "bit (ucast rs :: u64) k \<longleftrightarrow> bit rs k" for k
    by (auto simp: bit_ucast_iff dest: bit_imp_le_length)
  have lt: "bit rs k \<Longrightarrow> k < 32" for k
    by (auto dest: bit_imp_le_length)
  have m: "ms_multiplier (snd (multiply_start signed_multiply rm rs accumulator))
      = (if signed_multiply then sign_extend64 (ucast rs) 32 34 else ucast rs AND mask 33)"
    by (simp add: multiply_start_def Let_def mask33)
  show "multiplier_start_ok (ms_multiplier (snd (multiply_start signed_multiply rm rs accumulator)))"
    unfolding m multiplier_start_ok_def by (auto simp: sign_extend64_bits bit_and_iff bit_mask_iff hi dest: lt)
  show "signed_multiply \<or> \<not> bit (ms_multiplier (snd (multiply_start signed_multiply rm rs accumulator))) 32"
    unfolding m by (auto simp: bit_and_iff hi dest: lt)
qed

lemma multiply_long_output_returns: "arm7tdmi_multiply_long_output signed_multiply rm rs accumulator \<noteq> None"
proof -
  obtain multiplicand s where s: "multiply_start signed_multiply rm rs accumulator = (multiplicand, s)"
    by (cases "multiply_start signed_multiply rm rs accumulator") auto
  have "multiply_loop 8 signed_multiply multiplicand s \<noteq> None"
    by (rule multiply_loop_returns [where start = "ms_multiplier s" and r = 0])
      (use multiply_start_ok [of signed_multiply rm rs accumulator] s in \<open>simp_all add: multiplier_after_def\<close>)
  then show ?thesis
    using s by (auto simp: arm7tdmi_multiply_long_output_def)
qed

end
