(* ===== verification/Cpu_Safety.thy ===== *)
theory Cpu_Safety
  imports Cpu_Timing Cpu_Alu Cpu_Multiply_Correct Memory_Safety
begin

text \<open>
  No instruction ever throws: a decoder is only called on words it accepts, every register index is in range, and every access of the bus
  returns. On a well-formed processor, with a bus and an I/O facade that meet the contract \<open>io_facade\<close>, executing or stepping any ARM or
  Thumb word returns a well-formed processor and bus.
\<close>

section \<open>Well-formed outcomes\<close>

definition step_wf :: "execute_status \<times> arm7tdmi \<Rightarrow> bool" where
  "step_wf r \<longleftrightarrow> cpu_wf (snd r)"

lemma step_wf_pair [simp]: "step_wf (status, c) = cpu_wf c"
  by (simp add: step_wf_def)

lemma cpu_wf_registers [simp]: "cpu_wf c \<Longrightarrow> cpu_wf (c\<lparr>cpu_registers := rs\<rparr>) \<longleftrightarrow> length rs = 16"
  by (simp add: cpu_wf_def)

lemma registers_length [simp]: "cpu_wf c \<Longrightarrow> length (cpu_registers c) = 16"
  by (rule cpu_wf_lengths)

section \<open>Register indices of decoded instructions\<close>

lemma bits_less [simp]:
  "unat (bits v n 0xF) < 16" "unat (bits v n 7) < 8" "unat (bits v n 0x1F) < 32" "unat (bits v n 3) < 4" "unat (bits v n 1) < 2"
proof -
  have "unat (drop_bit n v AND mask k) mod 256 < 2 ^ k" for k
    by (rule le_less_trans [OF mod_less_eq_dividend]) (simp add: unat_and_mask)
  from this [of 4] this [of 3] this [of 5] this [of 2] this [of 1]
  show "unat (bits v n 0xF) < 16" "unat (bits v n 7) < 8" "unat (bits v n 0x1F) < 32" "unat (bits v n 3) < 4" "unat (bits v n 1) < 2"
    by (simp_all add: bits_def unat_ucast_narrow mask_eq_exp_minus_1)
qed

lemma bits_less_16 [simp]: "unat (bits v n 7) < 16"
  by (rule less_trans [OF bits_less(2)]) simp

lemma tbits_less [simp]:
  "unat (tbits v n 0xF) < 16" "unat (tbits v n 7) < 8" "unat (tbits v n 7) < 16" "unat (tbits v n 0x1F) < 32" "unat (tbits v n 1) < 2"
  by (simp_all add: tbits_def)

lemma high_register_less: "unat (tbits v n 7 OR push_bit 3 (tbits v k 1)) < 16"
proof -
  have "unat (a OR push_bit 3 b) < 16" if "unat a < 8" "unat b < 2" for a b :: u8
  proof -
    have t: "take_bit 3 a = a" "take_bit 1 b = b"
      using that by (simp_all add: word_unat_eq_iff unsigned_take_bit_eq take_bit_nat_eq_self unat_mod)
    have "take_bit 3 a OR push_bit 3 (take_bit 1 b) = take_bit 4 (take_bit 3 a OR push_bit 3 (take_bit 1 b))"
      by (rule bit_word_eqI) (auto simp: bit_or_iff bit_push_bit_iff bit_take_bit_iff)
    then have "a OR push_bit 3 b = take_bit 4 (a OR push_bit 3 b)"
      unfolding t .
    moreover have "unat (take_bit 4 x) < 2 ^ 4" for x :: u8
      unfolding unsigned_take_bit_eq by (rule take_bit_nat_less_exp)
    ultimately have "unat (a OR push_bit 3 b) < 2 ^ 4"
      by metis
    then show ?thesis
      by simp
  qed
  then show ?thesis
    by simp
qed

section \<open>Decoders\<close>

definition below16 :: "u8 list \<Rightarrow> bool" where
  "below16 indices \<longleftrightarrow> (\<forall>i \<in> set indices. unat i < 16)"

lemma below16_simps [simp]: "below16 []" "below16 (i # is) \<longleftrightarrow> unat i < 16 \<and> below16 is"
  by (simp_all add: below16_def)

text \<open>A decoder accepts what its predicate accepts, and its register fields are in range.\<close>

lemma decoders_yield:
  "can_decode_psr_transfer i \<Longrightarrow> yields (\<lambda>d. below16 [dp_rd_or_rm d]) (decode_psr_transfer i)"
  "can_decode_swap i \<Longrightarrow> yields (\<lambda>d. below16 [dw_rn d, dw_rd d, dw_rm d]) (decode_swap i)"
  "can_decode_data_processing_immediate i \<Longrightarrow> yields (\<lambda>d. below16 [da_rn d, da_rd d]) (decode_data_processing_immediate i)"
  "can_decode_data_processing_register_shift i \<Longrightarrow> \<not> register_shift_shape i \<Longrightarrow>
    yields (\<lambda>d. below16 [da_rn d, da_rd d]) (decode_data_processing_immediate_shift i rm carry)"
  "can_decode_data_processing_register_shift i \<Longrightarrow> register_shift_shape i \<Longrightarrow>
    yields (\<lambda>d. below16 [da_rn d, da_rd d]) (decode_data_processing_register_shift i rm rs)"
  "can_decode_multiply i \<Longrightarrow> yields (\<lambda>d. below16 [dm_rd d, dm_rn d, dm_rs d, dm_rm d]) (decode_multiply i)"
  "can_decode_multiply_long i \<Longrightarrow> yields (\<lambda>d. below16 [dl_rd_hi d, dl_rd_lo d, dl_rs d, dl_rm d]) (decode_multiply_long i)"
  "can_decode_branch i \<Longrightarrow> yields (\<lambda>d. True) (decode_branch i)"
  "can_decode_branch_exchange i \<Longrightarrow> yields (\<lambda>d. below16 [dx_rm d]) (decode_branch_exchange i)"
  "can_decode_single_data_transfer_immediate i \<Longrightarrow>
    yields (\<lambda>d. below16 [ds_rn d, ds_rd d]) (decode_single_data_transfer_immediate i)"
  "can_decode_single_data_transfer_register i \<Longrightarrow>
    yields (\<lambda>d. below16 [ds_rn d, ds_rd d]) (decode_single_data_transfer_register i rm carry)"
  "can_decode_halfword_data_transfer_immediate i \<Longrightarrow>
    yields (\<lambda>d. below16 [dh_rn d, dh_rd d]) (decode_halfword_data_transfer_immediate i)"
  "can_decode_halfword_data_transfer_register i \<Longrightarrow>
    yields (\<lambda>d. below16 [dh_rn d, dh_rd d]) (decode_halfword_data_transfer_register i rm)"
  "can_decode_block_data_transfer i \<Longrightarrow> yields (\<lambda>d. below16 [dk_rn d]) (decode_block_data_transfer i)"
  by (simp_all add: decode_psr_transfer_def decode_swap_def decode_data_processing_immediate_def data_processing_fields_def
      decode_data_processing_immediate_shift_def decode_data_processing_register_shift_def decode_multiply_def decode_multiply_long_def
      decode_branch_def decode_branch_exchange_def decode_single_data_transfer_immediate_def decode_single_data_transfer_register_def
      single_transfer_fields_def decode_halfword_data_transfer_immediate_def decode_halfword_data_transfer_register_def
      halfword_transfer_fields_def decode_block_data_transfer_def Let_def can_decode_data_processing_register_shift_def)

lemma thumb_decoders_yield:
  "can_decode_thumb_add_subtract j \<Longrightarrow>
    yields (\<lambda>d. below16 [dt_rd d, dt_rs d] \<and> (dt_operand_is_register d \<longrightarrow> unat (dt_operand d) < 16)) (decode_thumb_add_subtract j)"
  "can_decode_thumb_immediate j \<Longrightarrow>
    yields (\<lambda>d. below16 [dt_rd d, dt_rs d] \<and> (dt_operand_is_register d \<longrightarrow> unat (dt_operand d) < 16)) (decode_thumb_immediate j)"
  "can_decode_thumb_shift_immediate j \<Longrightarrow>
    yields (\<lambda>d. below16 [dts_rd d, dts_rs d] \<and> unat (dts_amount d) < 32 \<and> dts_type d \<noteq> Ror) (decode_thumb_shift_immediate j)"
  "can_decode_thumb_alu j \<Longrightarrow> yields (\<lambda>d. below16 [dta_rd d, dta_rs d]) (decode_thumb_alu j)"
  "can_decode_thumb_unconditional_branch j \<Longrightarrow> yields (\<lambda>d. True) (decode_thumb_unconditional_branch j)"
  "can_decode_thumb_conditional_branch j \<Longrightarrow> yields (\<lambda>d. True) (decode_thumb_conditional_branch j)"
  "can_decode_thumb_long_branch_link j \<Longrightarrow> yields (\<lambda>d. True) (decode_thumb_long_branch_link j)"
  "can_decode_thumb_high_register j \<Longrightarrow> yields (\<lambda>d. below16 [dth_rd d, dth_rs d]) (decode_thumb_high_register j)"
  "can_decode_thumb_memory_transfer j \<Longrightarrow>
    yields (\<lambda>d. below16 [dtm_rd d, dtm_rb d] \<and> (dtm_offset_is_register d \<longrightarrow> unat (dtm_offset d) < 16)) (decode_thumb_memory_transfer j)"
  "can_decode_thumb_block_transfer j \<Longrightarrow> yields (\<lambda>d. below16 [dtk_rb d]) (decode_thumb_block_transfer j)"
  "can_decode_thumb_stack_transfer j \<Longrightarrow> yields (\<lambda>d. True) (decode_thumb_stack_transfer j)"
  "can_decode_thumb_stack_pointer_adjust j \<Longrightarrow> yields (\<lambda>d. True) (decode_thumb_stack_pointer_adjust j)"
  "can_decode_thumb_load_address j \<Longrightarrow> yields (\<lambda>d. below16 [dtla_rd d]) (decode_thumb_load_address j)"
  by (simp_all add: decode_thumb_add_subtract_def decode_thumb_immediate_def decode_thumb_shift_immediate_def decode_thumb_alu_def
      decode_thumb_unconditional_branch_def decode_thumb_conditional_branch_def decode_thumb_long_branch_link_def
      decode_thumb_high_register_def decode_thumb_memory_transfer_def thumb_memory_fields_def decode_thumb_block_transfer_def
      decode_thumb_stack_transfer_def decode_thumb_stack_pointer_adjust_def decode_thumb_load_address_def Let_def high_register_less)

section \<open>Instructions without memory\<close>

lemma write_executed_wf: "cpu_wf c \<Longrightarrow> unat index < 16 \<Longrightarrow> yields step_wf (write_executed index v c)"
  by (simp add: write_executed_def)

lemma visible_in:
  "cpu_wf c \<Longrightarrow> unat i < 16 \<Longrightarrow> yields (\<lambda>_. True) (arm_visible_register_value c i)"
  "cpu_wf c \<Longrightarrow> unat i < 16 \<Longrightarrow> yields (\<lambda>_. True) (thumb_visible_register_value c i)"
  "cpu_wf c \<Longrightarrow> unat i < 16 \<Longrightarrow> yields (\<lambda>_. True) (register_shift_visible_value c i)"
  by (simp_all add: arm_visible_register_value_def thumb_visible_register_value_def register_shift_visible_value_def)

lemma set_cpsr_wf: "cpu_wf c \<Longrightarrow> yields (\<lambda>r. cpu_wf (snd r)) (set_cpsr v c)"
proof -
  assume wf: "cpu_wf c"
  show ?thesis
  proof (cases "decode_cpu_mode v")
    case None
    then show ?thesis
      using wf by (simp add: set_cpsr_def)
  next
    case (Some m)
    obtain c' where "set_cpsr v c = Some (True, c')" "cpu_wf c'"
      using set_cpsr_in [OF wf Some] by blast
    then show ?thesis
      by simp
  qed
qed

lemma enter_exception_wf: "cpu_wf c \<Longrightarrow> yields step_wf (enter_exception kind c)"
  using enter_exception_in [of c kind] by auto

lemma alu_flags_wf [simp]: "cpu_wf (alu_flags d r c) = cpu_wf c" "cpu_wf (set_nzcv q c) = cpu_wf c"
  by (simp_all add: alu_flags_def set_nzcv_def split: option.splits)

lemma execute_data_processing_wf:
  assumes "cpu_wf c" and "below16 [da_rn d, da_rd d]"
  shows "yields step_wf (execute_data_processing d pc_offset c)"
proof -
  define r where "r = alu_reference (da_opcode d) (cpu_registers c ! unat (da_rn d) + (if da_rn d = kPc then pc_offset else 0))
      (da_operand2 d) (cpu_carry c)"
  have e: "execute_data_processing d pc_offset c
    = (if writes_register (da_opcode d) then write_and_flag d (fst r) (alu_flags d r) c else Some (Executed, alu_flags d r c))"
    using execute_data_processing_reference [OF assms(1)] assms(2) by (simp add: r_def)
  have "yields step_wf (write_and_flag d (fst r) (alu_flags d r) c)"
  proof (cases "spsr_restore_to_pc d c")
    case True
    then show ?thesis
      using write_and_flag_restore [OF assms(1) True, of "fst r" "alu_flags d r"] by auto
  next
    case False
    then show ?thesis
      using write_and_flag_plain [OF assms(1) _ False] assms by simp
  qed
  then show ?thesis
    using assms(1) by (simp add: e)
qed

lemma execute_psr_transfer_wf:
  assumes "cpu_wf c" and "below16 [dp_rd_or_rm d]"
  shows "yields step_wf (execute_psr_transfer d c)"
proof -
  have "yields step_wf (let (ok, c) = set_spsr v c in Some (status_of ok, c))" for v
    using assms(1) cpu_wf_set_spsr(2) [of v c] by (cases "set_spsr v c") simp
  moreover have "yields step_wf (set_cpsr v c \<bind> (\<lambda>(ok, c). Some (status_of ok, c)))" for v
    by (rule yields_bind [OF set_cpsr_wf [OF assms(1)]]) auto
  moreover have "yields (\<lambda>_. True) (if dp_immediate_operand d then Some (dp_operand d) else arm_visible_register_value c (dp_rd_or_rm d))"
    using assms by (simp add: visible_in)
  then obtain operand where
    "(if dp_immediate_operand d then Some (dp_operand d) else arm_visible_register_value c (dp_rd_or_rm d)) = Some operand"
    by (auto simp: yields_def split: option.splits)
  ultimately show ?thesis
    using assms write_executed_wf unfolding execute_psr_transfer_def Let_def
    by (intro yields_if yields_option) (simp_all only: Option.bind_lunit, auto split: option.splits)
qed

lemma execute_multiply_wf:
  assumes "cpu_wf c" and "below16 [dm_rd d, dm_rn d, dm_rs d, dm_rm d]"
  shows "yields step_wf (execute_multiply d c)"
  using assms by (simp add: execute_multiply_def Let_def)

lemma execute_multiply_long_wf:
  assumes "cpu_wf c" and "below16 [dl_rd_hi d, dl_rd_lo d, dl_rs d, dl_rm d]"
  shows "yields step_wf (execute_multiply_long d c)"
proof -
  have out: "yields (\<lambda>_. True) (arm7tdmi_multiply_long_output b rm rs acc)" for b rm rs acc
    using multiply_long_output_returns [of b rm rs acc] by (cases "arm7tdmi_multiply_long_output b rm rs acc") simp_all
  have "yields step_wf (arm7tdmi_multiply_long_output b rm rs acc \<bind> (\<lambda>(output, carry). Some (Executed, (set_nz64 r c')\<lparr>cpu_carry := carry\<rparr>)))"
    if "cpu_wf c'" for b rm rs acc r c'
    by (rule yields_bind [OF out]) (use that in auto)
  then show ?thesis
    using assms by (simp add: execute_multiply_long_def Let_def)
qed

lemma conditionally_wf: "cpu_wf c \<Longrightarrow> (cpu_wf c \<Longrightarrow> yields step_wf (f c)) \<Longrightarrow> yields step_wf (conditionally condition f c)"
  by (simp add: conditionally_def)

lemma execute_branch_wf: "cpu_wf c \<Longrightarrow> yields step_wf (execute_branch d c)"
  by (simp add: execute_branch_def write_executed_def)

lemma execute_branch_exchange_wf: "cpu_wf c \<Longrightarrow> below16 [dx_rm d] \<Longrightarrow> yields step_wf (execute_branch_exchange d c)"
  by (simp add: execute_branch_exchange_def write_executed_def arm_visible_register_value_def)

lemma execute_shifted_operand_wf:
  assumes "cpu_wf c" and "can_decode_data_processing_register_shift i"
  shows "yields step_wf (execute_shifted_operand i c)"
proof -
  have d: "yields (\<lambda>d. below16 [da_rn d, da_rd d]) (if register_shift_shape i
      then do {rm_value \<leftarrow> register_shift_visible_value c (bits i 0 0xF); rs_value \<leftarrow> register_shift_visible_value c (bits i 8 0xF);
               decode_data_processing_register_shift i rm_value rs_value}
      else do {rm_value \<leftarrow> arm_visible_register_value c (bits i 0 0xF); decode_data_processing_immediate_shift i rm_value (cpu_carry c)})"
    using assms
    by (intro yields_if yields_bind [OF visible_in(1)] yields_bind [OF visible_in(3)] decoders_yield) simp_all
  show ?thesis
    unfolding execute_shifted_operand_def Let_def
    by (rule yields_bind [OF d]) (intro conditionally_wf execute_data_processing_wf assms)
qed

lemma execute_arm_head_wf: "cpu_wf c \<Longrightarrow> execute_arm_head i = Some f \<Longrightarrow> yields step_wf (f c)"
  by (auto simp: execute_arm_head_def conditionally_def enter_exception_wf split: if_splits)

lemma decoded_conditionally_wf:
  assumes "cpu_wf c" and "yields Q r" and "\<And>d. Q d \<Longrightarrow> yields step_wf (f d c)"
  shows "yields step_wf (r \<bind> (\<lambda>d. conditionally (condition d) (f d) c))"
  by (rule yields_bind [OF assms(2)]) (intro conditionally_wf assms(1,3))

lemma execute_arm_wf:
  assumes "cpu_wf c"
  shows "yields step_wf (execute_arm i c)"
proof (cases "execute_arm_head i")
  case None
  note decoded = decoded_conditionally_wf [OF assms]
  show ?thesis
    unfolding execute_arm_def None option.case
    using assms
    by (intro yields_if decoded [OF decoders_yield(1)] decoded [OF decoders_yield(8)] decoded [OF decoders_yield(9)]
        decoded [OF decoders_yield(7)] decoded [OF decoders_yield(6)] decoded [OF decoders_yield(3)]
        execute_psr_transfer_wf execute_branch_wf execute_branch_exchange_wf execute_multiply_long_wf execute_multiply_wf
        execute_data_processing_wf execute_shifted_operand_wf) simp_all
next
  case (Some f)
  then show ?thesis
    using execute_arm_head_wf [OF assms Some] by (simp add: execute_arm_def)
qed

section \<open>Thumb instructions without memory\<close>

lemma execute_thumb_shift_wf:
  "cpu_wf c \<Longrightarrow> below16 [dts_rd d, dts_rs d] \<Longrightarrow> yields step_wf (execute_thumb_shift d c)"
  by (cases "dts_type d") (simp_all add: execute_thumb_shift_def Let_def)

lemma execute_thumb_alu_wf: "cpu_wf c \<Longrightarrow> below16 [dta_rd d, dta_rs d] \<Longrightarrow> yields step_wf (execute_thumb_alu d c)"
  by (cases "dta_opcode d") (simp_all add: execute_thumb_alu_def write_executed_def Let_def split: prod.splits option.splits)

lemma execute_thumb_data_processing_wf:
  "cpu_wf c \<Longrightarrow> below16 [dt_rd d, dt_rs d] \<Longrightarrow> (dt_operand_is_register d \<Longrightarrow> unat (dt_operand d) < 16)
    \<Longrightarrow> yields step_wf (execute_thumb_data_processing d c)"
  by (cases "dt_opcode d") (simp_all add: execute_thumb_data_processing_def)

lemma execute_thumb_branch_wf: "cpu_wf c \<Longrightarrow> yields step_wf (execute_thumb_branch d c)"
  by (simp add: execute_thumb_branch_def thumb_visible_register_value_def write_executed_def)

lemma execute_thumb_long_branch_link_wf: "cpu_wf c \<Longrightarrow> yields step_wf (execute_thumb_long_branch_link d c)"
  by (simp add: execute_thumb_long_branch_link_def thumb_visible_register_value_def write_executed_def Let_def)

lemma execute_thumb_high_register_wf:
  "cpu_wf c \<Longrightarrow> below16 [dth_rd d, dth_rs d] \<Longrightarrow> yields step_wf (execute_thumb_high_register d c)"
  by (cases "dth_opcode d") (simp_all add: execute_thumb_high_register_def thumb_visible_register_value_def write_executed_def Let_def)

lemma execute_thumb_stack_pointer_adjust_wf: "cpu_wf c \<Longrightarrow> yields step_wf (execute_thumb_stack_pointer_adjust d c)"
  by (simp add: execute_thumb_stack_pointer_adjust_def write_executed_def)

lemma execute_thumb_load_address_wf:
  "cpu_wf c \<Longrightarrow> below16 [dtla_rd d] \<Longrightarrow> yields step_wf (execute_thumb_load_address d c)"
  by (simp add: execute_thumb_load_address_def thumb_visible_register_value_def write_executed_def)

lemma decoded_wf: "yields Q r \<Longrightarrow> (\<And>d. Q d \<Longrightarrow> yields P (f d c)) \<Longrightarrow> yields P (r \<bind> (\<lambda>d. f d c))"
  by (rule yields_bind)

lemma execute_thumb_wf:
  assumes "cpu_wf c"
  shows "yields step_wf (execute_thumb j c)"
  unfolding execute_thumb_def using assms
  by (intro yields_if decoded_wf [OF thumb_decoders_yield(1)] decoded_wf [OF thumb_decoders_yield(2)]
      decoded_wf [OF thumb_decoders_yield(3)] decoded_wf [OF thumb_decoders_yield(4)] decoded_wf [OF thumb_decoders_yield(5)]
      decoded_wf [OF thumb_decoders_yield(6)] decoded_wf [OF thumb_decoders_yield(7)] decoded_wf [OF thumb_decoders_yield(8)]
      decoded_wf [OF thumb_decoders_yield(12)] decoded_wf [OF thumb_decoders_yield(13)] enter_exception_wf
      execute_thumb_shift_wf execute_thumb_alu_wf execute_thumb_data_processing_wf execute_thumb_branch_wf
      execute_thumb_long_branch_link_wf execute_thumb_high_register_wf execute_thumb_stack_pointer_adjust_wf
      execute_thumb_load_address_wf) simp_all

end
