(* ===== verification/Cpu_Bus_Safety.thy ===== *)
theory Cpu_Bus_Safety
  imports Cpu_Safety Io_Facade
begin

text \<open>
  Instructions with memory never throw, over any I/O facade that meets the contract \<open>io_facade\<close>, and leave a well-formed processor and bus;
  the same for the step functions. The instance is the register facade of the machine.
\<close>

section \<open>Loops over the register list\<close>

lemma load_listed_yields:
  assumes "\<And>a. yields (\<lambda>_. True) (read a)" and "\<forall>k \<in> set indices. k < length words"
  shows "yields (\<lambda>r. \<forall>ws. r = Some ws \<longrightarrow> length ws = length words) (load_listed read register_list indices address words)"
  using assms(2)
proof (induction indices arbitrary: address words)
  case (Cons k ks)
  have step: "yields (\<lambda>r. \<forall>ws. r = Some ws \<longrightarrow> length ws = length words)
      (case v of None \<Rightarrow> Some None
        | Some w \<Rightarrow> do {words \<leftarrow> vec_put words k w; load_listed read register_list ks (address + 4) words})" for v
    using Cons.prems Cons.IH [where words = "words[k := the v]"] by (cases v) simp_all
  show ?case
    using Cons.prems Cons.IH [of words] by (auto intro: yields_bind [OF assms(1)] step)
qed simp

lemma put_listed_yields:
  assumes "cpu_wf c" and "\<forall>k \<in> set indices. k < length words \<and> k < 16"
    and put: "\<And>k v c. cpu_wf c \<Longrightarrow> unat k < 16 \<Longrightarrow> yields cpu_wf (put k v c)"
  shows "yields cpu_wf (put_listed put register_list words indices c)"
  using assms(1,2) unfolding put_listed_def
proof (induction indices arbitrary: c)
  case (Cons k ks)
  have "unat (of_nat k :: u8) < 16"
    using Cons.prems(2) by (simp add: unat_of_nat)
  then have "yields cpu_wf (if register_list_contains register_list (of_nat k)
      then do {w \<leftarrow> vec_at words k; put (of_nat k) w c} else Some c)"
    using Cons.prems put by simp
  then show ?case
    unfolding foldM.simps by (rule yields_bind) (use Cons.IH Cons.prems(2) in simp)
qed simp

lemma deal_words_yields:
  assumes "cpu_wf (fst s)" and "\<forall>k \<in> set indices. k < 16" and "snd s + length indices \<le> length words"
  shows "yields (\<lambda>(c, n). cpu_wf c \<and> n \<le> snd s + length indices) (deal_words register_list words indices s)"
  using assms
proof (induction indices arbitrary: s)
  case (Cons k ks)
  have k: "unat (of_nat k :: u8) < 16"
    using Cons.prems(2) by (simp add: unat_of_nat)
  show ?case
  proof (cases "register_list_contains register_list (of_nat k)")
    case True
    let ?t = "((fst s)\<lparr>cpu_registers := (cpu_registers (fst s))[unat (of_nat k :: u8) := words ! snd s]\<rparr>, snd s + 1)"
    have "yields (\<lambda>(c, n). cpu_wf c \<and> n \<le> snd ?t + length ks) (deal_words register_list words ks ?t)"
      using Cons.prems by (intro Cons.IH) simp_all
    then show ?thesis
      using True k Cons.prems by simp
  next
    case False
    have "yields (\<lambda>(c, n). cpu_wf c \<and> n \<le> snd s + length ks) (deal_words register_list words ks s)"
      using Cons.prems by (intro Cons.IH) simp_all
    then show ?thesis
      using False by (auto elim!: yields_mono)
  qed
qed auto

lemma pop_word_yields:
  assumes "\<And>a. yields (\<lambda>_. True) (read a)" and "fst (snd s) < length (fst s)"
  shows "yields (\<lambda>r. \<forall>t. r = Some t \<longrightarrow> length (fst t) = length (fst s) \<and> fst (snd t) = fst (snd s) + 1) (pop_word read s)"
  unfolding pop_word_def
  by (cases s; simp; rule yields_bind [OF assms(1)]) (use assms(2) in \<open>auto split: option.splits\<close>)

lemma pop_listed_yields:
  assumes read: "\<And>a. yields (\<lambda>_. True) (read a)" and "fst (snd s) + length indices \<le> length (fst s)"
  shows "yields (\<lambda>r. \<forall>t. r = Some t \<longrightarrow> length (fst t) = length (fst s) \<and> fst (snd t) \<le> fst (snd s) + length indices)
    (pop_listed read register_list indices s)"
  using assms(2)
proof (induction indices arbitrary: s)
  case (Cons k ks)
  show ?case
  proof (cases "register_list_contains register_list (of_nat k)")
    case True
    have p: "yields (\<lambda>r. \<forall>t. r = Some t \<longrightarrow> length (fst t) = length (fst s) \<and> fst (snd t) = fst (snd s) + 1) (pop_word read s)"
      using Cons.prems by (intro pop_word_yields read) simp
    have "yields (\<lambda>r. \<forall>t. r = Some t \<longrightarrow> length (fst t) = length (fst s) \<and> fst (snd t) \<le> fst (snd s) + length (k # ks))
        (case r of None \<Rightarrow> Some None | Some s \<Rightarrow> pop_listed read register_list ks s)"
      if "\<forall>t. r = Some t \<longrightarrow> length (fst t) = length (fst s) \<and> fst (snd t) = fst (snd s) + 1" for r
      using that Cons.IH [of "the r"] Cons.prems by (cases r) (auto elim!: yields_mono)
    with p True show ?thesis
      by (auto intro: yields_bind)
  next
    case False
    then show ?thesis
      using Cons.IH [of s] Cons.prems by (auto elim!: yields_mono)
  qed
qed auto

lemma decode_operands_yield:
  "cpu_wf c \<Longrightarrow> can_decode_halfword_data_transfer_immediate i \<or> can_decode_halfword_data_transfer_register i \<Longrightarrow>
    yields (\<lambda>d. below16 [dh_rn d, dh_rd d]) (decode_halfword_operands i c)"
  "cpu_wf c \<Longrightarrow> can_decode_single_data_transfer_immediate i \<or> can_decode_single_data_transfer_register i \<Longrightarrow>
    yields (\<lambda>d. below16 [ds_rn d, ds_rd d]) (decode_single_operands i c)"
  unfolding decode_halfword_operands_def decode_single_operands_def
  by (intro yields_if yields_bind [OF visible_in(1)] decoders_yield; simp)+

lemma thumb_transfer_address_yields:
  "cpu_wf c \<Longrightarrow> below16 [dtm_rd d, dtm_rb d] \<Longrightarrow> dtm_offset_is_register d \<longrightarrow> unat (dtm_offset d) < 16 \<Longrightarrow>
    yields (\<lambda>_. True) (thumb_transfer_address d c)"
  by (simp add: thumb_transfer_address_def)

section \<open>Cycle estimates\<close>

lemma decoders_return:
  "can_decode_swap i \<Longrightarrow> yields (\<lambda>_. True) (decode_swap i)"
  "can_decode_block_data_transfer i \<Longrightarrow> yields (\<lambda>_. True) (decode_block_data_transfer i)"
  "can_decode_halfword_data_transfer_register i \<Longrightarrow> yields (\<lambda>_. True) (decode_halfword_data_transfer_register i rm)"
  "can_decode_halfword_data_transfer_immediate i \<Longrightarrow> yields (\<lambda>_. True) (decode_halfword_data_transfer_immediate i)"
  "can_decode_single_data_transfer_register i \<Longrightarrow> yields (\<lambda>_. True) (decode_single_data_transfer_register i rm carry)"
  "can_decode_single_data_transfer_immediate i \<Longrightarrow> yields (\<lambda>_. True) (decode_single_data_transfer_immediate i)"
  by (rule yields_mono, erule decoders_yield, rule TrueI)+

lemma estimates_yield:
  "yields (\<lambda>_. True) (mirrored_oam_block_load_elapsed_cycles i a cycles waitcnt prefetch)"
  "yields (\<lambda>_. True) (prefetch_internal_data_load_overlap_cycles i a cycles prefetch fast_rom)"
  "yields (\<lambda>_. True) (prefetch_block_store_overlap_cycles i a prefetch fast_rom)"
  unfolding mirrored_oam_block_load_elapsed_cycles_def prefetch_internal_data_load_overlap_cycles_def
    prefetch_block_store_overlap_cycles_def
  by (intro yields_if yields_any_bind decoders_return; simp)+

lemma estimate_with_yields: "yields (\<lambda>_. True) (estimate_with waitcnt i a)"
proof -
  have "yields (\<lambda>_. True) (estimate_arm_elapsed_cycles_with_timing i a timing waitcnt_aware prefetch fast_rom w)" for timing waitcnt_aware prefetch fast_rom w
    unfolding estimate_arm_elapsed_cycles_with_timing_def Let_def
    by (intro yields_option yields_if yields_any_bind estimates_yield) simp_all
  then show ?thesis
    by (cases waitcnt) (simp_all add: estimate_with_def estimate_arm_elapsed_cycles_def estimate_arm_elapsed_cycles_waitcnt_def)
qed

lemma runtime_cycles_yield:
  assumes "cpu_wf c"
  shows "yields (\<lambda>_. True) (runtime_multiply_elapsed_cycles i c)" "yields (\<lambda>_. True) (runtime_thumb_elapsed_cycles j c)"
  unfolding runtime_multiply_elapsed_cycles_def runtime_thumb_elapsed_cycles_def Let_def
  by (intro yields_if decoded_wf [OF decoders_yield(7)] decoded_wf [OF decoders_yield(6)] decoded_wf [OF thumb_decoders_yield(4)];
      use assms in simp)+

lemma first_data_address_yields:
  assumes "cpu_wf c"
  shows "yields (\<lambda>_. True) (first_data_address i c)"
  unfolding first_data_address_def
  by (intro yields_if decoded_wf [OF decoders_yield(14)] decoded_wf [OF decode_operands_yield(1) [OF assms]]
      decoded_wf [OF decode_operands_yield(2) [OF assms]] yields_any_bind [OF visible_in(1) [OF assms]]; use assms in simp)

lemma memory_condition_yields:
  assumes "cpu_wf c"
  shows "yields (\<lambda>_. True) (memory_condition_passed i c)"
  unfolding memory_condition_passed_def
  by (intro yields_if yields_any_bind decoders_return; use assms in simp)

lemma transfer_unestimated_yields:
  assumes "cpu_wf c"
  shows "yields (\<lambda>_. True) (transfer_unestimated waitcnt i a c)"
  unfolding transfer_unestimated_def
  by (intro yields_option yields_if yields_any_bind memory_condition_yields estimate_with_yields assms) simp_all

lemma iwram_transfer_override_yields: "cpu_wf c \<Longrightarrow> yields (\<lambda>_. True) (iwram_transfer_override i a w c)"
  by (simp add: iwram_transfer_override_def split: option.splits)

text \<open>A finished step reports the cycle counter it leaves.\<close>

definition reported :: "arm_step_result \<times> arm7tdmi \<Rightarrow> bool" where
  "reported r \<longleftrightarrow> cpu_wf (snd r) \<and> sr_total_elapsed_cycles (fst r) = cpu_elapsed_cycles (snd r)"

lemma finish_reported:
  assumes "cpu_wf c"
  shows "yields reported (finish_step i a status waitcnt ov c)" "reported (finish_thumb_step status e c)"
proof -
  have w: "reported (finish_with s e c)" "reported (step_result s 0 x y c, c)" "cpu_wf (add_elapsed n c)" for s e x y n
    using assms by (simp_all add: reported_def finish_with_def step_result_def add_elapsed_def)
  have e: "yields (\<lambda>_. True) (if ov \<noteq> None then Some ov else estimate_with waitcnt i d)" for d
    by (simp add: estimate_with_yields)
  have tail: "yields reported (Some (case estimate of None \<Rightarrow> (step_result status 0 False False c, c) | Some e \<Rightarrow> finish_with status e c))" for estimate
    by (cases estimate) (simp_all add: w)
  show "yields reported (finish_step i a status waitcnt ov c)"
  proof (cases status)
    case Executed
    show ?thesis
      unfolding finish_step_def Executed execute_status.case by (rule yields_any_bind [OF e]) (rule tail [unfolded Executed])
  qed (use assms w in \<open>simp_all add: finish_step_def Let_def reported_def step_result_def\<close>)
  show "reported (finish_thumb_step status e c)"
    using w assms by (cases status) (simp_all add: finish_thumb_step_def Let_def reported_def step_result_def)
qed

lemma thumb_transfer_estimate_yields:
  assumes "cpu_wf c" and "can_decode_thumb_memory_transfer j"
  shows "yields (\<lambda>_. True) (thumb_transfer_estimate w p j c)"
  unfolding thumb_transfer_estimate_def
  by (rule decoded_wf [OF thumb_decoders_yield(9) [OF assms(2)]], rule yields_any_bind [OF thumb_transfer_address_yields])
    (use assms in \<open>simp_all add: Let_def\<close>)

lemma thumb_block_estimate_yields:
  assumes "cpu_wf c" and "can_decode_thumb_block_transfer j"
  shows "yields (\<lambda>_. True) (thumb_block_estimate w j e c)"
  unfolding thumb_block_estimate_def
  by (rule decoded_wf [OF thumb_decoders_yield(10) [OF assms(2)]]) (use assms in \<open>simp add: Let_def\<close>)

section \<open>Instructions over a safe bus\<close>

lemma conditionally_with_bus_yields:
  "cpu_wf c \<Longrightarrow> P m \<Longrightarrow> (cpu_wf c \<Longrightarrow> P m \<Longrightarrow> yields (\<lambda>(status, c, m). cpu_wf c \<and> P m) (f c m))
    \<Longrightarrow> yields (\<lambda>(status, c, m). cpu_wf c \<and> P m) (conditionally_with_bus condition f c m)"
  by (simp add: conditionally_with_bus_def ends_def)

lemma yields_ends: "yields P (ends status c m) = P (status, c, m)"
  by (simp add: ends_def)

lemma put_with_write_back_wf:
  "cpu_wf c \<Longrightarrow> unat rn < 16 \<Longrightarrow> unat rd < 16 \<Longrightarrow> yields cpu_wf (put_with_write_back needs rn address rd v c)"
  "cpu_wf c \<Longrightarrow> unat rn < 16 \<Longrightarrow> yields cpu_wf (write_back_only needs rn address c)"
  by (simp_all add: put_with_write_back_def write_back_only_def)

lemma set_reg_wf: "cpu_wf c \<Longrightarrow> unat i < 16 \<Longrightarrow> yields cpu_wf (set_reg i v c)"
  by simp

lemma write_user_bank_value_wf: "cpu_wf c \<Longrightarrow> unat i < 16 \<Longrightarrow> yields cpu_wf (write_user_bank_value i v c)"
  by (simp add: write_user_bank_value_def)

context io_facade
begin

abbreviation bus_ok :: "execute_status \<times> arm7tdmi \<times> memory_bus \<times> 'c \<Rightarrow> bool" where
  "bus_ok \<equiv> \<lambda>(status, c, m). cpu_wf c \<and> fine_bus m"

lemma reads_yield:
  assumes "fine_bus m"
  shows "yields (\<lambda>_. True) (bus_read8 io m a)" "yields (\<lambda>_. True) (bus_read16 io m a)" "yields (\<lambda>_. True) (bus_read32 io m a)"
  using memory_reads_yield [OF assms] by (simp_all add: bus_read8_def bus_read16_def bus_read32_def)

lemma or_open_bus_yields:
  "yields (\<lambda>_. True) r \<Longrightarrow> yields (\<lambda>_. True) r' \<Longrightarrow> yields (\<lambda>_. True) (or_open_bus r f r')"
  unfolding or_open_bus_def by (intro yields_bind [where Q = "\<lambda>_. True"] yields_option) (auto split: option.splits elim: yields_bind)

lemmas open_bus_defs = read8_or_arm_pipeline_open_bus_def read8_or_thumb_pipeline_open_bus_def read16_or_arm_pipeline_open_bus_def
  read16_or_thumb_pipeline_open_bus_def read32_or_arm_pipeline_open_bus_def read32_or_thumb_pipeline_open_bus_def
  read32_or_thumb_block_open_bus_def read_arm_pipeline_open_bus_word_def read_thumb_pipeline_open_bus_word_def

lemma open_bus_reads_yield:
  assumes "fine_bus m"
  shows "yields (\<lambda>_. True) (read8_or_arm_pipeline_open_bus io m a pc)" "yields (\<lambda>_. True) (read8_or_thumb_pipeline_open_bus io m a pc)"
    "yields (\<lambda>_. True) (read16_or_arm_pipeline_open_bus io m a pc)" "yields (\<lambda>_. True) (read16_or_thumb_pipeline_open_bus io m a pc)"
    "yields (\<lambda>_. True) (read32_or_arm_pipeline_open_bus io m a pc)" "yields (\<lambda>_. True) (read32_or_thumb_pipeline_open_bus io m a pc)"
    "yields (\<lambda>_. True) (read32_or_thumb_block_open_bus io m a pc)"
  unfolding open_bus_defs
  by (intro or_open_bus_yields reads_yield assms yields_option; simp add: yields_map_option reads_yield assms)+

lemma loaded_ok:
  assumes "cpu_wf c" "fine_bus m" "yields (\<lambda>_. True) r" "\<And>v. yields cpu_wf (f v c)"
  shows "yields bus_ok (loaded r f c m)"
proof -
  have "yields bus_ok (f v c \<bind> (\<lambda>c. ends Executed c m))" for v
    by (rule yields_bind [OF assms(4)]) (simp add: ends_def assms(2))
  then show ?thesis
    unfolding loaded_def using assms(1,2) by (intro yields_bind [OF assms(3)] yields_option) (simp_all add: ends_def)
qed

lemma stored_ok:
  assumes "cpu_wf c" "yields (\<lambda>(ok, m). fine_bus m) (store m)" "yields cpu_wf (f c)"
  shows "yields bus_ok (stored store f c m)"
proof -
  have "yields bus_ok (f c \<bind> (\<lambda>c. ends Executed c m'))" if "fine_bus m'" for m'
    by (rule yields_bind [OF assms(3)]) (simp add: ends_def that)
  then show ?thesis
    unfolding stored_def using assms(1) by (intro yields_bind [OF assms(2)]) (auto simp: ends_def)
qed

lemma store_listed_yields:
  assumes "fine_bus m" and "\<And>k. k \<in> set indices \<Longrightarrow> yields (\<lambda>_. True) (value_of k)"
  shows "yields (\<lambda>(ok, address, m). fine_bus m) (store_listed io value_of register_list indices address m)"
  using assms
proof (induction indices arbitrary: address m)
  case (Cons k ks)
  have rest: "yields (\<lambda>(ok, address, m). fine_bus m) (store_listed io value_of register_list ks address m)" if "fine_bus m" for address m
    using that Cons.prems(2) by (intro Cons.IH) auto
  have store: "yields (\<lambda>(ok, address, m). fine_bus m)
      (mb_write32 io address v m \<bind> (\<lambda>(ok, m). if \<not> ok then Some (False, address, m)
        else store_listed io value_of register_list ks (address + 4) m))" for v
    by (rule yields_bind [OF writes_yield(3) [OF Cons.prems(1)]]) (use rest in auto)
  have "yields (\<lambda>_. True) (value_of k)"
    using Cons.prems(2) by simp
  then have "yields (\<lambda>(ok, address, m). fine_bus m)
      (value_of k \<bind> (\<lambda>v. mb_write32 io address v m \<bind> (\<lambda>(ok, m). if \<not> ok then Some (False, address, m)
        else store_listed io value_of register_list ks (address + 4) m)))"
    by (rule yields_bind) (rule store)
  then show ?case
    using rest [OF Cons.prems(1)] by simp
qed simp

lemma execute_swap_ok:
  assumes "cpu_wf c" "fine_bus m" "below16 [dw_rn d, dw_rd d, dw_rm d]"
  shows "yields bus_ok (execute_swap io d c m)"
proof -
  have "yields bus_ok (stored (mb_write8 io a v8) (set_reg (dw_rd d) v) c m)" "yields bus_ok (stored (mb_write32 io a v32) (set_reg (dw_rd d) v) c m)"
    for a v8 v32 v
    using assms by (intro stored_ok writes_yield; simp)+
  then show ?thesis
    unfolding execute_swap_def using assms
    by (intro conditionally_with_bus_yields)
      (auto simp: ends_def intro!: yields_bind [OF reads_yield(1)] yields_bind [OF reads_yield(3)] split: option.splits)
qed

lemma block_write_back_ok: "cpu_wf c \<Longrightarrow> fine_bus m \<Longrightarrow> unat (dk_rn d) < 16 \<Longrightarrow> yields bus_ok (block_write_back d v c m)"
  by (simp add: block_write_back_def ends_def)

lemma block_load_ok:
  assumes "cpu_wf c" "fine_bus m" "unat (dk_rn d) < 16" "force \<longrightarrow> has_spsr c"
  shows "yields bus_ok (block_load io d force transfer c m)"
proof -
  have words: "yields (\<lambda>r. \<forall>ws. r = Some ws \<longrightarrow> length ws = 16)
      (load_listed (bus_read32 io m) (dk_register_list d) [0..<kRegisterCount] (ba_first transfer) (vec_fill kRegisterCount 0))"
    using load_listed_yields [OF reads_yield(3) [OF assms(2)], of "[0..<kRegisterCount]" "vec_fill kRegisterCount 0"]
    by (simp add: kRegisterCount_def)
  have restore: "yields (\<lambda>r. cpu_wf (snd r)) (if force \<and> pc then do {saved \<leftarrow> spsr c; set_cpsr saved c} else Some (True, c))" for pc
    using assms has_spsr_value [of c] set_cpsr_wf [OF assms(1)] by auto
  have put: "yields cpu_wf (put_listed (if force then write_user_bank_value else set_reg) (dk_register_list d) ws [0..<15] c')"
    if "cpu_wf c'" "length ws = 16" for c' ws
    using that by (intro put_listed_yields) (auto simp: write_user_bank_value_wf)
  have pc: "yields (\<lambda>r. cpu_wf (snd r)) (if has_pc then do {loaded_pc \<leftarrow> vec_at ws 15; block_load_pc force loaded_pc c'} else Some (True, c'))"
    if "cpu_wf c'" "length ws = 16" for c' ws has_pc
    using that set_cpsr_wf [of "c'\<lparr>cpu_registers := (cpu_registers c')[15 := ws ! 15 AND NOT 1]\<rparr>"]
    by (simp add: block_load_pc_def interworking_cpsr_def)
  have finish: "yields bus_ok (do {c \<leftarrow> put_listed (if force then write_user_bank_value else set_reg) (dk_register_list d) ws [0..<15] c';
      (ok, c) \<leftarrow> (if has_pc then do {loaded_pc \<leftarrow> vec_at ws 15; block_load_pc force loaded_pc c} else Some (True, c));
      if \<not> ok then ends Unsupported c m else block_write_back d (ba_write_back transfer) c m})"
    if "cpu_wf c'" "length ws = 16" for c' ws has_pc
    by (rule yields_bind [OF put [OF that]], rule yields_bind [OF pc], assumption, rule that(2))
      (use assms in \<open>auto simp: ends_def intro!: block_write_back_ok\<close>)
  show ?thesis
    unfolding block_load_def Let_def
  proof (rule yields_bind [OF words], rule yields_option)
    fix r and ws :: "u32 list"
    assume "\<forall>ws. r = Some ws \<longrightarrow> length ws = 16" and "r = Some ws"
    then show "yields bus_ok (do {
        (ok, c) \<leftarrow> (if force \<and> register_list_contains (dk_register_list d) kPc then do {saved \<leftarrow> spsr c; set_cpsr saved c} else Some (True, c));
        if \<not> ok then ends Unsupported c m
        else do {
          c \<leftarrow> put_listed (if force then write_user_bank_value else set_reg) (dk_register_list d) ws [0..<15] c;
          (ok, c) \<leftarrow> (if register_list_contains (dk_register_list d) kPc then do {loaded_pc \<leftarrow> vec_at ws 15; block_load_pc force loaded_pc c}
            else Some (True, c));
          if \<not> ok then ends Unsupported c m else block_write_back d (ba_write_back transfer) c m}})"
      using finish [where ws = ws and has_pc = "register_list_contains (dk_register_list d) kPc"]
      by (intro yields_bind [OF restore]) (auto simp: split_beta ends_def assms split del: if_split intro!: yields_if)
  qed (simp add: ends_def assms)
qed

lemma block_store_ok:
  assumes "cpu_wf c" "fine_bus m" "unat (dk_rn d) < 16"
  shows "yields bus_ok (block_store io d force transfer c m)"
proof -
  have "yields (\<lambda>_. True) (do {raw \<leftarrow> (if force then user_bank_value c (of_nat k) else reg c (of_nat k)); Some (if k = 15 then raw + 12 else raw)})"
    if "k < 16" for k
    using assms(1) that by (simp add: user_bank_value_def unat_of_nat)
  then show ?thesis
    unfolding block_store_def using assms
    by (auto simp: ends_def kRegisterCount_def intro!: yields_bind [OF store_listed_yields] block_write_back_ok)
qed

lemma execute_block_transfer_ok:
  assumes "cpu_wf c" "fine_bus m" "below16 [dk_rn d]"
  shows "yields bus_ok (execute_block_transfer io i d c m)"
  unfolding execute_block_transfer_def using assms
  by (intro conditionally_with_bus_yields) (auto simp: ends_def Let_def intro!: block_load_ok block_store_ok)

lemma execute_halfword_transfer_ok:
  assumes "cpu_wf c" "fine_bus m" "below16 [dh_rn d, dh_rd d]"
  shows "yields bus_ok (execute_halfword_transfer io d c m)"
  unfolding execute_halfword_transfer_def using assms
  by (intro conditionally_with_bus_yields)
    (auto simp: Let_def ends_def intro!: yields_bind [OF visible_in(1)] loaded_ok open_bus_reads_yield put_with_write_back_wf stored_ok
      writes_yield)

lemma execute_single_transfer_ok:
  assumes "cpu_wf c" "fine_bus m" "below16 [ds_rn d, ds_rd d]"
  shows "yields bus_ok (execute_single_transfer io d c m)"
  unfolding execute_single_transfer_def using assms
  by (intro conditionally_with_bus_yields)
    (auto simp: Let_def ends_def intro!: yields_bind [OF visible_in(1)] loaded_ok open_bus_reads_yield put_with_write_back_wf stored_ok
      writes_yield)

lemma without_bus_ok: "yields step_wf (f c) \<Longrightarrow> fine_bus m \<Longrightarrow> yields bus_ok (without_bus f c m)"
  by (cases "f c") (auto simp: without_bus_def)

lemma execute_arm_bus_ok:
  assumes "cpu_wf c" "fine_bus m"
  shows "yields bus_ok (execute_arm_bus io i c m)"
proof (cases "execute_arm_head i")
  case None
  then show ?thesis
    unfolding execute_arm_bus_def None option.case using assms
    by (intro yields_if decoded_wf [OF decoders_yield(2)] decoded_wf [OF decoders_yield(14)] decoded_wf [OF decode_operands_yield(1)]
        decoded_wf [OF decode_operands_yield(2)] execute_swap_ok execute_block_transfer_ok execute_halfword_transfer_ok
        execute_single_transfer_ok without_bus_ok execute_arm_wf) blast+
next
  case (Some f)
  then show ?thesis
    using execute_arm_head_wf [OF assms(1) Some] assms(2) by (simp add: execute_arm_bus_def without_bus_ok)
qed

lemma execute_thumb_memory_transfer_ok:
  assumes "cpu_wf c" "fine_bus m" "below16 [dtm_rd d, dtm_rb d] \<and> (dtm_offset_is_register d \<longrightarrow> unat (dtm_offset d) < 16)"
  shows "yields bus_ok (execute_thumb_memory_transfer io d c m)"
  unfolding execute_thumb_memory_transfer_def
  by (rule yields_bind [OF thumb_transfer_address_yields])
    (use assms in \<open>auto simp: Let_def ends_def intro!: loaded_ok open_bus_reads_yield stored_ok writes_yield split: thumb_transfer_kind.splits\<close>)

lemma small_indices: "k \<in> set [0..<n] \<Longrightarrow> n \<le> 16 \<Longrightarrow> k < 16" "k < 16 \<Longrightarrow> unat (of_nat k :: u8) < 16"
  by (simp_all add: unat_of_nat)

lemma execute_thumb_block_transfer_ok:
  assumes "cpu_wf c" "fine_bus m" "below16 [dtk_rb d]"
  shows "yields bus_ok (execute_thumb_block_transfer io d c m)"
proof -
  let ?list = "ucast (dtk_register_list d) :: u16"
  have words: "yields (\<lambda>r. \<forall>ws. r = Some ws \<longrightarrow> length ws = 8)
      (load_listed (\<lambda>a. read32_or_thumb_block_open_bus io m a pc) ?list [0..<8] a (vec_fill 8 0))" for a pc
    using load_listed_yields [OF open_bus_reads_yield(7) [OF assms(2)], of "[0..<8]" "vec_fill 8 0"] by simp
  have put: "yields bus_ok (do {c \<leftarrow> put_listed set_reg ?list ws [0..<8] c; c \<leftarrow> set_reg (dtk_rb d) base c; ends Executed c m})"
    if "length ws = 8" for ws base
    by (rule yields_bind [where Q = cpu_wf], rule put_listed_yields) (use assms that in \<open>auto simp: ends_def\<close>)
  have load: "yields bus_ok (do {
      words \<leftarrow> load_listed (\<lambda>a. read32_or_thumb_block_open_bus io m a pc) ?list [0..<8] a (vec_fill 8 0);
      case words of None \<Rightarrow> ends Unsupported c m
      | Some words \<Rightarrow> do {c \<leftarrow> put_listed set_reg ?list words [0..<8] c; c \<leftarrow> set_reg (dtk_rb d) base c; ends Executed c m}})" for a pc base
    by (rule yields_bind [OF words], rule yields_option) (use assms put in \<open>auto simp: ends_def\<close>)
  have listed: "yields (\<lambda>_. True) (reg c (of_nat k))" if "k \<in> set [0..<8]" for k
    using assms(1) that by (simp add: unat_of_nat)
  have store: "yields bus_ok (do {
      (ok, address, m) \<leftarrow> store_listed io (\<lambda>index. reg c (of_nat index)) ?list [0..<8] a m;
      if \<not> ok then ends Unsupported c m else do {c \<leftarrow> set_reg (dtk_rb d) base c; ends Executed c m}})" for a base
    by (rule yields_bind [OF store_listed_yields [OF assms(2) listed]]) (use assms in \<open>auto simp: ends_def\<close>)
  show ?thesis
    unfolding execute_thumb_block_transfer_def Let_def using assms load store by (simp add: yields_ends)
qed

lemma push_registers_ok:
  assumes "cpu_wf c" "fine_bus m"
  shows "yields bus_ok (push_registers io d old_sp n c m)"
proof -
  have listed: "yields (\<lambda>_. True) (reg c (of_nat k))" if "k \<in> set [0..<8]" for k
    using assms(1) that by (simp add: unat_of_nat)
  have link: "yields bus_ok (do {
      (ok, m) \<leftarrow> (if dtp_extra_register d then mb_write32 io a lr m else Some (True, m));
      if \<not> ok then ends Unsupported c m else do {c \<leftarrow> set_reg 13 sp c; ends Executed c m}})" if "fine_bus m" for a lr sp m
    by (rule yields_bind [where Q = "\<lambda>(ok, m). fine_bus m"]) (use assms writes_yield(3) that in \<open>auto simp: ends_def\<close>)
  show ?thesis
    unfolding push_registers_def Let_def
    by (rule yields_bind [OF store_listed_yields [OF assms(2) listed]]) (use assms link in \<open>auto simp: ends_def kLinkRegister_def\<close>)
qed

lemma pop_pc_wf:
  assumes "cpu_wf c" and "extra \<longrightarrow> n < length ws"
  shows "yields (\<lambda>r. cpu_wf (snd r)) (if extra then do {
      loaded_pc \<leftarrow> vec_at ws n; c \<leftarrow> set_reg kPc (loaded_pc AND NOT 1) c; set_cpsr (interworking_cpsr loaded_pc c) c} else Some (True, c))"
  using assms set_cpsr_wf [of "c\<lparr>cpu_registers := (cpu_registers c)[15 := ws ! n AND NOT 1]\<rparr>"] by simp

lemma pop_words_yield:
  assumes "fine_bus m"
  shows "yields (\<lambda>r. \<forall>t. r = Some t \<longrightarrow> length (fst t) = 9) (do {
      low_words \<leftarrow> pop_listed (bus_read32 io m) list [0..<8] (vec_fill 9 0, 0, sp);
      case low_words of None \<Rightarrow> Some None | Some s \<Rightarrow> if extra then pop_word (bus_read32 io m) s else Some (Some s)})"
proof -
  have low: "yields (\<lambda>r. \<forall>t. r = Some t \<longrightarrow> length (fst t) = 9 \<and> fst (snd t) \<le> 8)
      (pop_listed (bus_read32 io m) list [0..<8] (vec_fill 9 0, 0, sp))"
    using pop_listed_yields [OF reads_yield(3) [OF assms], where s = "(vec_fill 9 0, 0, sp)" and indices = "[0..<8]" and register_list = list] by simp
  have "yields (\<lambda>r. \<forall>t. r = Some t \<longrightarrow> length (fst t) = 9) (pop_word (bus_read32 io m) s)" if "length (fst s) = 9" "fst (snd s) \<le> 8" for s
    by (rule yields_mono [OF pop_word_yields [OF reads_yield(3) [OF assms]]]) (use that in auto)
  then show ?thesis
    by (intro yields_bind [OF low] yields_option yields_if) auto
qed

lemma pop_registers_ok:
  assumes "cpu_wf c" "fine_bus m"
  shows "yields bus_ok (pop_registers io d old_sp n c m)"
proof -
  have rest: "yields bus_ok (do {
      (c, read_index) \<leftarrow> deal_words list ws [0..<8] (c, 0);
      (ok, c) \<leftarrow> (if dtp_extra_register d then do {
          loaded_pc \<leftarrow> vec_at ws read_index; c \<leftarrow> set_reg kPc (loaded_pc AND NOT 1) c; set_cpsr (interworking_cpsr loaded_pc c) c}
        else Some (True, c));
      if \<not> ok then ends Unsupported c m else do {c \<leftarrow> set_reg 13 sp c; ends Executed c m}})" if "length ws = 9" for ws list sp
  proof (rule yields_bind [OF deal_words_yields])
    fix x :: "arm7tdmi \<times> nat"
    assume "case x of (c', k) \<Rightarrow> cpu_wf c' \<and> k \<le> snd (c, 0 :: nat) + length [0..<8]"
    then show "yields bus_ok (case x of (c, read_index) \<Rightarrow> do {
        (ok, c) \<leftarrow> (if dtp_extra_register d then do {
            loaded_pc \<leftarrow> vec_at ws read_index; c \<leftarrow> set_reg kPc (loaded_pc AND NOT 1) c; set_cpsr (interworking_cpsr loaded_pc c) c}
          else Some (True, c));
        if \<not> ok then ends Unsupported c m else do {c \<leftarrow> set_reg 13 sp c; ends Executed c m}})"
      unfolding split_beta using that assms(2) by (intro yields_bind [OF pop_pc_wf]) (auto simp: ends_def)
  qed (use assms that in auto)
  have "pop_registers io d old_sp n c m = (do {
      popped \<leftarrow> (do {
        low_words \<leftarrow> pop_listed (bus_read32 io m) (ucast (dtp_register_list d)) [0..<8] (vec_fill 9 0, 0, old_sp);
        case low_words of None \<Rightarrow> Some None | Some s \<Rightarrow> if dtp_extra_register d then pop_word (bus_read32 io m) s else Some (Some s)});
      case popped of
        None \<Rightarrow> ends Unsupported c m
      | Some (words, loaded_count, address) \<Rightarrow> do {
          (c, read_index) \<leftarrow> deal_words (ucast (dtp_register_list d)) words [0..<8] (c, 0);
          (ok, c) \<leftarrow> (if dtp_extra_register d then do {
              loaded_pc \<leftarrow> vec_at words read_index; c \<leftarrow> set_reg kPc (loaded_pc AND NOT 1) c; set_cpsr (interworking_cpsr loaded_pc c) c}
            else Some (True, c));
          if \<not> ok then ends Unsupported c m else do {c \<leftarrow> set_reg 13 (old_sp + ucast n * 4) c; ends Executed c m}}})"
    by (simp add: pop_registers_def Let_def bind_assoc)
  also have "yields bus_ok \<dots>"
    by (rule yields_bind [OF pop_words_yield [OF assms(2)]], rule yields_option) (use assms rest in \<open>auto simp: yields_ends\<close>)
  finally show ?thesis .
qed

lemma execute_thumb_stack_transfer_ok:
  "cpu_wf c \<Longrightarrow> fine_bus m \<Longrightarrow> yields bus_ok (execute_thumb_stack_transfer io d c m)"
  by (simp add: execute_thumb_stack_transfer_def Let_def yields_ends push_registers_ok pop_registers_ok)

lemma execute_thumb_bus_ok:
  assumes "cpu_wf c" "fine_bus m"
  shows "yields bus_ok (execute_thumb_bus io j c m)"
  unfolding execute_thumb_bus_def using assms
  by (intro yields_if decoded_wf [OF thumb_decoders_yield(10)] decoded_wf [OF thumb_decoders_yield(11)] decoded_wf [OF thumb_decoders_yield(9)]
      execute_thumb_block_transfer_ok execute_thumb_stack_transfer_ok execute_thumb_memory_transfer_ok without_bus_ok execute_thumb_wf)

section \<open>Steps\<close>

abbreviation step_ok :: "arm_step_result \<times> arm7tdmi \<times> memory_bus \<times> 'c \<Rightarrow> bool" where
  "step_ok \<equiv> \<lambda>(result, c, m). reported (result, c) \<and> fine_bus m"

lemma arm_step_ok:
  assumes "cpu_wf c" "fine_bus m"
  shows "yields step_ok (step_arm_waitcnt io wait_states i ov c m)"
proof -
  have finish: "yields step_ok (case r of (status, c, m) \<Rightarrow>
      finish_step i a status (Some (wait_states m)) e c \<bind> (\<lambda>(result, c). Some (result, c, m)))" if "bus_ok r" for r a e
    using that by (cases r; simp; intro yields_bind [OF finish_reported(1)]; simp add: split_beta)
  have override: "yields (\<lambda>_. True) (if ov \<noteq> None then Some ov else runtime_multiply_elapsed_cycles i c)"
    using assms(1) by (intro yields_if runtime_cycles_yield) simp_all
  show ?thesis
    unfolding step_arm_waitcnt_def
    by (rule yields_any_bind [OF first_data_address_yields [OF assms(1)]], rule yields_any_bind [OF transfer_unestimated_yields [OF assms(1)]],
        rule yields_if, simp add: reported_def step_result_def assms, rule yields_any_bind [OF override], rule yields_any_bind,
        simp add: iwram_transfer_override_yields assms, rule yields_bind [OF execute_arm_bus_ok [OF assms]], rule finish)
qed

lemma thumb_step_ok:
  assumes "cpu_wf c" "fine_bus m"
  shows "yields step_ok (step_thumb_waitcnt io wait_states j overlap ov c m)"
proof -
  have finish: "yields step_ok (case r of (status, c, m) \<Rightarrow>
      let (result, c) = finish_thumb_step status e c in Some (result, c, m))" if "bus_ok r" for r e
    using that finish_reported(2) by (cases r) (simp add: split_beta)
  have override: "yields (\<lambda>_. True) (if ov \<noteq> None then Some ov else runtime_thumb_elapsed_cycles j c)"
    using assms(1) by (intro yields_if runtime_cycles_yield) simp_all
  show ?thesis
    unfolding step_thumb_waitcnt_def
    by (rule yields_any_bind, simp add: thumb_transfer_estimate_yields assms, rule yields_any_bind, simp add: thumb_block_estimate_yields assms,
        rule yields_any_bind [OF override], rule yields_bind [OF execute_thumb_bus_ok [OF assms]], rule finish)
qed

end

section \<open>The machine of the emulator\<close>

text \<open>C9. Stepping is safe. Over the real register facade, every ARM word and every Thumb halfword steps: whatever the instruction, its
  operands and the memory hold, no decoder refuses, no index is out of range and no access of the bus throws; the processor, the bus and
  all devices stay well formed, and the step reports the value the cycle counter then has.\<close>

theorem cpu_step_safe:
  assumes "cpu_wf c" and "mb_wf b" and "devices_wf d"
  shows "(\<exists>r c' b' d'. step_arm_waitcnt device_callbacks (\<lambda>m. dev_waitcnt (snd m)) i ov c (b, d) = Some (r, c', b', d')
      \<and> cpu_wf c' \<and> mb_wf b' \<and> devices_wf d' \<and> sr_total_elapsed_cycles r = cpu_elapsed_cycles c')
    \<and> (\<exists>r c' b' d'. step_thumb_waitcnt device_callbacks (\<lambda>m. dev_waitcnt (snd m)) j overlap ov c (b, d) = Some (r, c', b', d')
      \<and> cpu_wf c' \<and> mb_wf b' \<and> devices_wf d' \<and> sr_total_elapsed_cycles r = cpu_elapsed_cycles c')"
proof -
  have fine: "registers.fine_bus (b, d)"
    using assms(2,3) by (simp add: registers.fine_bus_def)
  have out: "\<exists>r c' b' d'. res = Some (r, c', b', d') \<and> cpu_wf c' \<and> mb_wf b' \<and> devices_wf d'
      \<and> sr_total_elapsed_cycles r = cpu_elapsed_cycles c'"
    if "yields registers.step_ok res" for res :: "(arm_step_result \<times> arm7tdmi \<times> memory_bus \<times> devices) throws"
    using that by (cases res) (auto simp: reported_def registers.fine_bus_def)
  show ?thesis
    by (intro conjI out registers.arm_step_ok registers.thumb_step_ok assms(1) fine)
qed

theorem cpu_step_safe_witness:
  "\<exists>r c' b' d'. step_arm_waitcnt device_callbacks (\<lambda>m. dev_waitcnt (snd m)) 0xE8BDFFFF None arm_reset (new_memory_bus, reset_devices)
     = Some (r, c', b', d') \<and> cpu_wf c'"
  using cpu_step_safe [OF arm_reset_wf new_memory_bus_wf devices_wf_reset] by blast

end
