(* ===== verification/Ppu_Fetch.thy ===== *)
theory Ppu_Fetch
  imports Memory_Bus Ppu_Timing
begin

text \<open>
  The pixel fetchers, \<open>src/src/core/ppu_background.cpp\<close> and \<open>src/src/core/ppu_sprites.cpp\<close>: one pixel of a text or affine background, the
  attributes of a sprite and one of its pixels, all read through the memory bus. Widths below 32 bits are words; the signed coordinates of
  sprites and textures are on \<open>int\<close>.
\<close>

type_synonym 'c video_bus = "memory_bus \<times> 'c"

definition video_read8 :: "'c io_callbacks \<Rightarrow> 'c video_bus \<Rightarrow> u32 \<Rightarrow> u8 option throws" where
  "video_read8 io m address = mb_read8 io (snd m) (fst m) address"

definition video_read16 :: "'c io_callbacks \<Rightarrow> 'c video_bus \<Rightarrow> u32 \<Rightarrow> u16 option throws" where
  "video_read16 io m address = mb_read16 io (snd m) (fst m) address"

definition read_video16 :: "'c io_callbacks \<Rightarrow> 'c video_bus \<Rightarrow> u32 \<Rightarrow> u16 option throws" where
  "read_video16 io m address = mb_read_video16 io (snd m) (fst m) address"

section \<open>Backgrounds\<close>

datatype bg_color_mode = Bg_bpp4 | Bg_bpp8

record bg_control =
  bgc_raw :: u16
  bgc_priority :: u8
  bgc_charblock :: u8
  bgc_screenblock :: u8
  bgc_color_mode :: bg_color_mode
  bgc_screen_size :: u8

record bg_pixel =
  bgp_map_entry :: u16
  bgp_tile_id :: u16
  bgp_palette_bank :: u8
  bgp_color_index :: u8
  bgp_color :: u16
  bgp_transparent :: bool
  bgp_hflip :: bool
  bgp_vflip :: bool

record affine_pixel =
  afp_tile_index :: u8
  afp_color_index :: u8
  afp_color :: u16
  afp_transparent :: bool

definition kVramBase :: u32 where "kVramBase = 0x06000000"
definition kPaletteBase :: u32 where "kPaletteBase = 0x05000000"
definition kTilePixels :: u16 where "kTilePixels = 8"
definition kScreenblockBytes :: u16 where "kScreenblockBytes = 0x800"
definition kCharblockBytes :: u16 where "kCharblockBytes = 0x4000"

definition text_map_width_tiles :: "bg_control \<Rightarrow> u16" where
  "text_map_width_tiles control = (if bgc_screen_size control AND 1 \<noteq> 0 then 64 else 32)"

definition text_map_height_tiles :: "bg_control \<Rightarrow> u16" where
  "text_map_height_tiles control = (if bgc_screen_size control AND 2 \<noteq> 0 then 64 else 32)"

definition screenblock_base :: "u8 \<Rightarrow> u32" where
  "screenblock_base screenblock = kVramBase + ucast (screenblock AND 0x1F) * ucast kScreenblockBytes"

definition charblock_base :: "u8 \<Rightarrow> u32" where
  "charblock_base charblock = kVramBase + ucast (charblock AND 3) * ucast kCharblockBytes"

definition screenblock_for_tile :: "bg_control \<Rightarrow> u16 \<Rightarrow> u16 \<Rightarrow> u8" where
  "screenblock_for_tile control tile_x tile_y =
     (let block_x = ucast (tile_x div 32); block_y = ucast (tile_y div 32);
          block_offset = (if text_map_width_tiles control = 64 then block_x + block_y * 2 else block_y)
      in (bgc_screenblock control + block_offset) AND 0x1F)"

definition decode_bg_control :: "u16 \<Rightarrow> bg_control" where
  "decode_bg_control control =
     \<lparr>bgc_raw = control, bgc_priority = ucast (control AND 3), bgc_charblock = ucast (drop_bit 2 control AND 3),
      bgc_screenblock = ucast (drop_bit 8 control AND 0x1F),
      bgc_color_mode = (if control AND 0x0080 \<noteq> 0 then Bg_bpp8 else Bg_bpp4),
      bgc_screen_size = ucast (drop_bit 14 control AND 3)\<rparr>"

definition text_width_pixels :: "bg_control \<Rightarrow> u16" where
  "text_width_pixels control = text_map_width_tiles control * kTilePixels"

definition text_height_pixels :: "bg_control \<Rightarrow> u16" where
  "text_height_pixels control = text_map_height_tiles control * kTilePixels"

definition affine_map_pixels :: "bg_control \<Rightarrow> u32" where
  "affine_map_pixels control = push_bit (unat (bgc_screen_size control AND 3)) 128"

text \<open>The low or high nibble of a packed byte, or the byte itself, and its palette entry.\<close>

definition color_index_of :: "bool \<Rightarrow> u8 \<Rightarrow> u8 \<Rightarrow> u8" where
  "color_index_of bpp8 pixel_x packed =
     (if bpp8 then packed else if pixel_x AND 1 \<noteq> 0 then drop_bit 4 packed else packed AND 0xF)"

definition palette_offset :: "bool \<Rightarrow> u8 \<Rightarrow> u8 \<Rightarrow> u32" where
  "palette_offset bpp8 palette_bank color_index =
     (if bpp8 then ucast color_index * 2 else ucast palette_bank * 32 + ucast color_index * 2)"

definition fetch_text_pixel :: "'c io_callbacks \<Rightarrow> 'c video_bus \<Rightarrow> bg_control \<Rightarrow> u16 \<Rightarrow> u16 \<Rightarrow> bg_pixel option throws" where
  "fetch_text_pixel io m control x y =
     (let wrapped_x = x mod text_width_pixels control; wrapped_y = y mod text_height_pixels control;
          tile_x = wrapped_x div kTilePixels; tile_y = wrapped_y div kTilePixels;
          local_x = (ucast (wrapped_x mod kTilePixels) :: u8); local_y = (ucast (wrapped_y mod kTilePixels) :: u8);
          block = screenblock_for_tile control tile_x tile_y;
          block_tile_x = tile_x mod 32; block_tile_y = tile_y mod 32;
          map_entry_address = screenblock_base block + (ucast block_tile_y * 32 + ucast block_tile_x) * 2
      in do {
        map_entry \<leftarrow> read_video16 io m map_entry_address;
        case map_entry of
          None \<Rightarrow> Some None
        | Some entry \<Rightarrow>
            let tile_id = entry AND 0x03FF;
                hflip = (entry AND 0x0400 \<noteq> 0); vflip = (entry AND 0x0800 \<noteq> 0);
                palette_bank = (ucast (drop_bit 12 entry AND 0xF) :: u8);
                pixel_x = (if hflip then 7 - local_x else local_x);
                pixel_y = (if vflip then 7 - local_y else local_y);
                bpp8 = (bgc_color_mode control = Bg_bpp8);
                tile_bytes = (if bpp8 then 64 else 32);
                tile_address = charblock_base (bgc_charblock control) + ucast tile_id * tile_bytes;
                pixel_address = tile_address
                  + (if bpp8 then ucast pixel_y * 8 + ucast pixel_x else ucast pixel_y * 4 + ucast pixel_x div 2)
            in do {
              packed_pixel \<leftarrow> video_read8 io m pixel_address;
              case packed_pixel of
                None \<Rightarrow> Some None
              | Some packed \<Rightarrow>
                  let color_index = color_index_of bpp8 pixel_x packed in do {
                  color \<leftarrow> read_video16 io m (kPaletteBase + palette_offset bpp8 palette_bank color_index);
                  Some (map_option (\<lambda>color. \<lparr>bgp_map_entry = entry, bgp_tile_id = tile_id, bgp_palette_bank = palette_bank,
                    bgp_color_index = color_index, bgp_color = color, bgp_transparent = (color_index = 0), bgp_hflip = hflip,
                    bgp_vflip = vflip\<rparr>) color)}}})"

definition fetch_affine_pixel :: "'c io_callbacks \<Rightarrow> 'c video_bus \<Rightarrow> bg_control \<Rightarrow> int \<Rightarrow> int \<Rightarrow> affine_pixel option throws" where
  "fetch_affine_pixel io m control tex_x tex_y =
     (let map_pixels = affine_map_pixels control; map_tiles = map_pixels div ucast kTilePixels;
          wraparound = (bgc_raw control AND 0x2000 \<noteq> 0);
          outside = (tex_x < 0 \<or> tex_y < 0 \<or> tex_x \<ge> uint map_pixels \<or> tex_y \<ge> uint map_pixels)
      in if outside \<and> \<not> wraparound then
           Some (Some \<lparr>afp_tile_index = 0, afp_color_index = 0, afp_color = 0, afp_transparent = True\<rparr>)
         else
           let masked_x = word_of_int tex_x AND (map_pixels - 1); masked_y = word_of_int tex_y AND (map_pixels - 1);
               tile_index_address = screenblock_base (bgc_screenblock control) + (masked_y div ucast kTilePixels) * map_tiles
                 + masked_x div ucast kTilePixels
           in do {
             tile_index \<leftarrow> video_read8 io m tile_index_address;
             case tile_index of
               None \<Rightarrow> Some None
             | Some tile \<Rightarrow>
                 let in_tile_x = (ucast (masked_x mod ucast kTilePixels) :: u8);
                     in_tile_y = (ucast (masked_y mod ucast kTilePixels) :: u8);
                     pixel_address = charblock_base (bgc_charblock control) + ucast tile * 64 + ucast in_tile_y * 8 + ucast in_tile_x
                 in do {
                   packed_pixel \<leftarrow> video_read8 io m pixel_address;
                   case packed_pixel of
                     None \<Rightarrow> Some None
                   | Some color_index \<Rightarrow> do {
                       color \<leftarrow> read_video16 io m (kPaletteBase + ucast color_index * 2);
                       Some (map_option (\<lambda>color. \<lparr>afp_tile_index = tile, afp_color_index = color_index, afp_color = color,
                         afp_transparent = (color_index = 0)\<rparr>) color)}}})"

section \<open>Sprites\<close>

datatype sprite_color_mode = Sprite_bpp4 | Sprite_bpp8

record sprite_attributes =
  sp_attr0 :: u16
  sp_attr1 :: u16
  sp_attr2 :: u16
  sp_x :: int
  sp_y :: int
  sp_shape :: u8
  sp_size :: u8
  sp_width :: u8
  sp_height :: u8
  sp_tile_id :: u16
  sp_priority :: u8
  sp_palette_bank :: u8
  sp_color_mode :: sprite_color_mode
  sp_affine_matrix_index :: u8
  sp_affine :: bool
  sp_double_size :: bool
  sp_disabled :: bool
  sp_hflip :: bool
  sp_vflip :: bool
  sp_semi_transparent :: bool
  sp_obj_window :: bool
  sp_mosaic_enabled :: bool

record sprite_pixel =
  spp_color_index :: u8
  spp_palette_bank :: u8
  spp_color :: u16
  spp_transparent :: bool

definition kOamBase :: u32 where "kOamBase = 0x07000000"
definition kObjTileBase :: u32 where "kObjTileBase = 0x06010000"
definition kObjPaletteBase :: u32 where "kObjPaletteBase = 0x05000200"
definition kSpriteCount :: nat where "kSpriteCount = 128"

text \<open>Width and height by shape and size.\<close>

definition kSpriteSizes :: "(u8 \<times> u8) list list" where
  "kSpriteSizes = [[(8, 8), (16, 16), (32, 32), (64, 64)], [(16, 8), (32, 8), (32, 16), (64, 32)],
     [(8, 16), (8, 32), (16, 32), (32, 64)], [(0, 0), (0, 0), (0, 0), (0, 0)]]"

definition signed_obj_x :: "u16 \<Rightarrow> int" where
  "signed_obj_x attr1 = (let raw = attr1 AND 0x01FF in if raw \<ge> 256 then sint (raw - 512) else uint raw)"

definition obj_tile_row_stride :: "sprite_attributes \<Rightarrow> bool \<Rightarrow> bool \<Rightarrow> u16" where
  "obj_tile_row_stride sprite bpp8 character_mapping_1d =
     (if \<not> character_mapping_1d then 32 else ucast (sp_width sprite) div 8 * (if bpp8 then 2 else 1))"

definition affine_param_address :: "u8 \<Rightarrow> u8 \<Rightarrow> u16" where
  "affine_param_address matrix_index component = ucast matrix_index * 32 + 6 + ucast component * 8"

definition read_affine_param :: "'c io_callbacks \<Rightarrow> 'c video_bus \<Rightarrow> u8 \<Rightarrow> u8 \<Rightarrow> int option throws" where
  "read_affine_param io m matrix_index component =
     map_option (map_option sint) (video_read16 io m (kOamBase + ucast (affine_param_address matrix_index component)))"

text \<open>The texture pixel under a pixel of the drawing area of an affine sprite; \<open>None\<close> inside when it lies outside the texture.\<close>

definition affine_texture_coordinates ::
  "'c io_callbacks \<Rightarrow> 'c video_bus \<Rightarrow> sprite_attributes \<Rightarrow> u8 \<Rightarrow> u8 \<Rightarrow> (u8 \<times> u8) option throws" where
  "affine_texture_coordinates io m sprite local_x local_y = do {
     pa \<leftarrow> read_affine_param io m (sp_affine_matrix_index sprite) 0;
     pb \<leftarrow> read_affine_param io m (sp_affine_matrix_index sprite) 1;
     pc \<leftarrow> read_affine_param io m (sp_affine_matrix_index sprite) 2;
     pd \<leftarrow> read_affine_param io m (sp_affine_matrix_index sprite) 3;
     Some (case (pa, pb, pc, pd) of
         (Some pa, Some pb, Some pc, Some pd) \<Rightarrow>
           let width = uint (sp_width sprite); height = uint (sp_height sprite);
               screen_width = (if sp_double_size sprite then width * 2 else width);
               screen_height = (if sp_double_size sprite then height * 2 else height);
               dx = uint local_x - screen_width div 2; dy = uint local_y - screen_height div 2;
               texture_x = width div 2 + (pa * dx + pb * dy) div 256;
               texture_y = height div 2 + (pc * dx + pd * dy) div 256
           in if texture_x < 0 \<or> texture_x \<ge> width \<or> texture_y < 0 \<or> texture_y \<ge> height then None
              else Some (word_of_int texture_x, word_of_int texture_y)
       | _ \<Rightarrow> None)}"

definition read_sprite :: "'c io_callbacks \<Rightarrow> 'c video_bus \<Rightarrow> nat \<Rightarrow> sprite_attributes option throws" where
  "read_sprite io m index =
     (if index \<ge> kSpriteCount then Some None
      else let base = kOamBase + of_nat index * 8 in do {
        attr0 \<leftarrow> video_read16 io m base;
        attr1 \<leftarrow> video_read16 io m (base + 2);
        attr2 \<leftarrow> video_read16 io m (base + 4);
        case (attr0, attr1, attr2) of
          (Some attr0, Some attr1, Some attr2) \<Rightarrow>
            let shape = (ucast (drop_bit 14 attr0 AND 3) :: u8); size = (ucast (drop_bit 14 attr1 AND 3) :: u8);
                affine = (attr0 AND 0x0100 \<noteq> 0);
                double_size = (affine \<and> attr0 AND 0x0200 \<noteq> 0);
                object_disabled = (\<not> affine \<and> attr0 AND 0x0200 \<noteq> 0);
                graphics_mode = (ucast (drop_bit 10 attr0 AND 3) :: u8)
            in do {
              row \<leftarrow> vec_at kSpriteSizes (unat shape);
              (width, height) \<leftarrow> vec_at row (unat size);
              Some (Some \<lparr>sp_attr0 = attr0, sp_attr1 = attr1, sp_attr2 = attr2, sp_x = signed_obj_x attr1, sp_y = uint (attr0 AND 0x00FF),
                sp_shape = shape, sp_size = size, sp_width = width, sp_height = height, sp_tile_id = attr2 AND 0x03FF,
                sp_priority = ucast (drop_bit 10 attr2 AND 3), sp_palette_bank = ucast (drop_bit 12 attr2 AND 0xF),
                sp_color_mode = (if attr0 AND 0x2000 \<noteq> 0 then Sprite_bpp8 else Sprite_bpp4),
                sp_affine_matrix_index = ucast (drop_bit 9 attr1 AND 0x1F), sp_affine = affine, sp_double_size = double_size,
                sp_disabled = (object_disabled \<or> width = 0 \<or> height = 0 \<or> graphics_mode = 3),
                sp_hflip = (\<not> affine \<and> attr1 AND 0x1000 \<noteq> 0), sp_vflip = (\<not> affine \<and> attr1 AND 0x2000 \<noteq> 0),
                sp_semi_transparent = (graphics_mode = 1), sp_obj_window = (graphics_mode = 2),
                sp_mosaic_enabled = (attr0 AND 0x1000 \<noteq> 0)\<rparr>)}
        | _ \<Rightarrow> Some None})"

definition sprite_texel_address :: "sprite_attributes \<Rightarrow> bool \<Rightarrow> bool \<Rightarrow> u8 \<Rightarrow> u8 \<Rightarrow> u32" where
  "sprite_texel_address sprite bpp8 character_mapping_1d pixel_x pixel_y =
     (let tile_x = ucast pixel_x div 8; tile_y = ucast pixel_y div 8;
          in_tile_x = ucast (pixel_x mod 8); in_tile_y = ucast (pixel_y mod 8);
          tile_number = sp_tile_id sprite + tile_y * obj_tile_row_stride sprite bpp8 character_mapping_1d + tile_x * (if bpp8 then 2 else 1);
          tile_address = kObjTileBase + ucast tile_number * 32
      in tile_address + (if bpp8 then in_tile_y * 8 + in_tile_x else in_tile_y * 4 + in_tile_x div 2))"

definition fetch_sprite_pixel ::
  "'c io_callbacks \<Rightarrow> 'c video_bus \<Rightarrow> sprite_attributes \<Rightarrow> u8 \<Rightarrow> u8 \<Rightarrow> bool \<Rightarrow> sprite_pixel option throws" where
  "fetch_sprite_pixel io m sprite local_x local_y character_mapping_1d =
     (let screen_width = (if sp_double_size sprite then sp_width sprite * 2 else sp_width sprite);
          screen_height = (if sp_double_size sprite then sp_height sprite * 2 else sp_height sprite)
      in if sp_disabled sprite \<or> local_x \<ge> screen_width \<or> local_y \<ge> screen_height then Some None
      else let bpp8 = (sp_color_mode sprite = Sprite_bpp8) in do {
        texel \<leftarrow> (if sp_affine sprite then affine_texture_coordinates io m sprite local_x local_y
          else Some (Some (if sp_hflip sprite then sp_width sprite - 1 - local_x else local_x,
                           if sp_vflip sprite then sp_height sprite - 1 - local_y else local_y)));
        case texel of
          None \<Rightarrow> Some None
        | Some (pixel_x, pixel_y) \<Rightarrow>
            let pixel_address = sprite_texel_address sprite bpp8 character_mapping_1d pixel_x pixel_y in do {
              packed_word \<leftarrow> read_video16 io m (pixel_address AND NOT 1);
              case packed_word of
                None \<Rightarrow> Some None
              | Some w \<Rightarrow>
                  let packed_pixel = (ucast (drop_bit (unat ((pixel_address AND 1) * 8)) w) :: u8);
                      color_index = color_index_of bpp8 (pixel_x mod 8) packed_pixel in do {
                    color \<leftarrow> read_video16 io m (kObjPaletteBase + palette_offset bpp8 (sp_palette_bank sprite) color_index);
                    Some (map_option (\<lambda>color. \<lparr>spp_color_index = color_index, spp_palette_bank = sp_palette_bank sprite,
                      spp_color = color, spp_transparent = (color_index = 0)\<rparr>) color)}}})"

end
