(* ===== verification/Ppu_Renderer.thy ===== *)
theory Ppu_Renderer
  imports Ppu_Fetch
begin

text \<open>
  The scanline renderer, \<open>src/src/core/ppu_renderer.cpp\<close>: sprite admission under the per-line work allowance, the resolution of the sprite
  row, and for every pixel the window mask, the layers in evaluation order with the two best candidates, and the colour effects.
\<close>

definition kScreenWidth :: nat where "kScreenWidth = 240"
definition kScreenHeight :: nat where "kScreenHeight = 160"
definition kFramebufferPixels :: nat where "kFramebufferPixels = kScreenWidth * kScreenHeight"
definition kBgEnableBase :: u16 where "kBgEnableBase = 0x0100"
definition kObjEnable :: u16 where "kObjEnable = 0x1000"
definition kWin0Enable :: u16 where "kWin0Enable = 0x2000"
definition kWin1Enable :: u16 where "kWin1Enable = 0x4000"
definition kObjWindowEnable :: u16 where "kObjWindowEnable = 0x8000"
definition kCharacterMapping1D :: u16 where "kCharacterMapping1D = 0x0040"
definition kHblankIntervalFree :: u16 where "kHblankIntervalFree = 0x0020"
definition kWindowLayerMask :: u16 where "kWindowLayerMask = 0x003F"
definition kWindowEffectsBit :: u16 where "kWindowEffectsBit = 0x0020"
definition kBackdropLayerBit :: u8 where "kBackdropLayerBit = 5"
definition kForcedBlank :: u16 where "kForcedBlank = 0x0080"
definition kDisplayFrameSelect :: u16 where "kDisplayFrameSelect = 0x0010"
definition kVideoModeMask :: u16 where "kVideoModeMask = 0x0007"
definition kBgMosaicEnable :: u16 where "kBgMosaicEnable = 0x0040"
definition kBackdropColorAddress :: u32 where "kBackdropColorAddress = 0x05000000"
definition kBitmapBaseAddress :: u32 where "kBitmapBaseAddress = 0x06000000"
definition kBitmapPageSize :: u32 where "kBitmapPageSize = 0xA000"
definition kMode5Width :: u16 where "kMode5Width = 160"
definition kEffectAlpha :: u16 where "kEffectAlpha = 0x0040"
definition kEffectBrightnessIncrease :: u16 where "kEffectBrightnessIncrease = 0x0080"
definition kEffectBrightnessDecrease :: u16 where "kEffectBrightnessDecrease = 0x00C0"
definition kColorMask :: u16 where "kColorMask = 0x7FFF"

lemmas ppu_render_consts = kScreenWidth_def kScreenHeight_def kFramebufferPixels_def kBgEnableBase_def kObjEnable_def kWin0Enable_def
  kWin1Enable_def kObjWindowEnable_def kCharacterMapping1D_def kHblankIntervalFree_def kWindowLayerMask_def kWindowEffectsBit_def
  kBackdropLayerBit_def kForcedBlank_def kDisplayFrameSelect_def kVideoModeMask_def kBgMosaicEnable_def kBackdropColorAddress_def
  kBitmapBaseAddress_def kBitmapPageSize_def kMode5Width_def kEffectAlpha_def kEffectBrightnessIncrease_def kEffectBrightnessDecrease_def
  kColorMask_def

record ppu_render_stats =
  prs_scanline :: u16
  prs_bg_pixels :: u16
  prs_obj_pixels :: u16
  prs_supported_mode :: bool
  prs_forced_blank :: bool
  prs_bitmap_pixels :: u16
  prs_window_masked_pixels :: u16
  prs_blend_pixels :: u16

definition render_stats :: "u16 \<Rightarrow> bool \<Rightarrow> bool \<Rightarrow> ppu_render_stats" where
  "render_stats scanline supported forced_blank =
     \<lparr>prs_scanline = scanline, prs_bg_pixels = 0, prs_obj_pixels = 0, prs_supported_mode = supported, prs_forced_blank = forced_blank,
      prs_bitmap_pixels = 0, prs_window_masked_pixels = 0, prs_blend_pixels = 0\<rparr>"

section \<open>Colours, windows and layers\<close>

definition normalize_color :: "u16 \<Rightarrow> u16" where
  "normalize_color color = color AND kColorMask"

definition sprite_screen_width :: "sprite_attributes \<Rightarrow> int" where
  "sprite_screen_width sprite = (if sp_affine sprite \<and> sp_double_size sprite then uint (sp_width sprite) * 2 else uint (sp_width sprite))"

definition sprite_screen_height :: "sprite_attributes \<Rightarrow> int" where
  "sprite_screen_height sprite = (if sp_affine sprite \<and> sp_double_size sprite then uint (sp_height sprite) * 2 else uint (sp_height sprite))"

definition line_intersects_sprite :: "sprite_attributes \<Rightarrow> u16 \<Rightarrow> bool" where
  "line_intersects_sprite sprite scanline =
     (let delta = (word_of_int (uint scanline - uint (word_of_int (sp_y sprite) :: u16)) :: u32)
      in uint (delta AND 0xFF) < sprite_screen_height sprite)"

definition bg_enabled :: "u16 \<Rightarrow> nat \<Rightarrow> bool" where
  "bg_enabled dispcnt bg_index \<longleftrightarrow> dispcnt AND push_bit bg_index kBgEnableBase \<noteq> 0"

definition text_bg_available_in_mode :: "u8 \<Rightarrow> nat \<Rightarrow> bool" where
  "text_bg_available_in_mode mode bg_index = (if mode = 0 then bg_index < 4 else if mode = 1 then bg_index < 2 else False)"

definition affine_bg_available_in_mode :: "u8 \<Rightarrow> nat \<Rightarrow> bool" where
  "affine_bg_available_in_mode mode bg_index =
     (if mode = 1 then bg_index = 2 else if mode = 2 then bg_index = 2 \<or> bg_index = 3 else False)"

definition inside_window_rect :: "u16 \<Rightarrow> u16 \<Rightarrow> u16 \<Rightarrow> u16 \<Rightarrow> bool" where
  "inside_window_rect horizontal vertical x y =
     (let x1 = drop_bit 8 horizontal AND 0xFF; x2 = horizontal AND 0xFF; y1 = drop_bit 8 vertical AND 0xFF; y2 = vertical AND 0xFF;
          x_inside = (if x1 \<le> x2 then x \<ge> x1 \<and> x < x2 else x \<ge> x1 \<or> x < x2);
          y_inside = (if y1 \<le> y2 then y \<ge> y1 \<and> y < y2 else y \<ge> y1 \<or> y < y2)
      in x_inside \<and> y_inside)"

definition window_layer_mask :: "ppu_render_control \<Rightarrow> u16 \<Rightarrow> u16 \<Rightarrow> bool \<Rightarrow> u16" where
  "window_layer_mask control x y obj_window_hit =
     (let win0_on = (rc_dispcnt control AND kWin0Enable \<noteq> 0); win1_on = (rc_dispcnt control AND kWin1Enable \<noteq> 0);
          obj_window_on = (rc_dispcnt control AND kObjWindowEnable \<noteq> 0)
      in if \<not> win0_on \<and> \<not> win1_on \<and> \<not> obj_window_on then kWindowLayerMask
         else if win0_on \<and> inside_window_rect (rc_win0h control) (rc_win0v control) x y then rc_winin control AND kWindowLayerMask
         else if win1_on \<and> inside_window_rect (rc_win1h control) (rc_win1v control) x y
         then drop_bit 8 (rc_winin control) AND kWindowLayerMask
         else if obj_window_on \<and> obj_window_hit then drop_bit 8 (rc_winout control) AND kWindowLayerMask
         else rc_winout control AND kWindowLayerMask)"

definition mosaic_block :: "u16 \<Rightarrow> u16 \<Rightarrow> u16" where
  "mosaic_block coord block_size = (if block_size \<le> 1 then coord else coord div block_size * block_size)"

definition alpha_blend_channel :: "u16 \<Rightarrow> u16 \<Rightarrow> u16 \<Rightarrow> u16 \<Rightarrow> u16" where
  "alpha_blend_channel first second eva evb =
     (let blended = drop_bit 4 (ucast first * ucast eva + ucast second * ucast evb) :: u32 in if blended > 31 then 31 else ucast blended)"

definition alpha_blend :: "u16 \<Rightarrow> u16 \<Rightarrow> u16 \<Rightarrow> u16 \<Rightarrow> u16" where
  "alpha_blend top_color bottom_color eva evb =
     (let first = normalize_color top_color; second = normalize_color bottom_color
      in fold (\<lambda>shift result. result
           OR push_bit shift (alpha_blend_channel (drop_bit shift first AND 0x1F) (drop_bit shift second AND 0x1F) eva evb)) [0, 5, 10] 0)"

text \<open>One channel; the increase subtracts on 32 bits before it adds on 16.\<close>

definition brightness_channel :: "u16 \<Rightarrow> bool \<Rightarrow> u16 \<Rightarrow> u16" where
  "brightness_channel amount increase channel =
     (if increase then ucast (ucast channel + drop_bit 4 ((31 - ucast channel) * ucast amount) :: u32)
      else word_of_int (uint channel - uint channel * uint amount div 16))"

definition brightness_blend :: "u16 \<Rightarrow> u16 \<Rightarrow> bool \<Rightarrow> u16" where
  "brightness_blend color amount increase =
     (let color = normalize_color color;
          red = color AND 0x1F; green = drop_bit 5 color AND 0x1F; blue = drop_bit 10 color AND 0x1F;
          red = brightness_channel amount increase red;
          green = brightness_channel amount increase green;
          blue = brightness_channel amount increase blue
      in red OR push_bit 5 green OR push_bit 10 blue)"

definition fetch_bitmap_pixel :: "'c io_callbacks \<Rightarrow> 'c video_bus \<Rightarrow> ppu_render_control \<Rightarrow> u8 \<Rightarrow> u16 \<Rightarrow> u16 \<Rightarrow> u16 option throws" where
  "fetch_bitmap_pixel io m control mode x y =
     (let page = (if rc_dispcnt control AND kDisplayFrameSelect \<noteq> 0 then kBitmapPageSize else 0) in
      if mode = 3 then video_read16 io m (kBitmapBaseAddress + (ucast y * 240 + ucast x) * 2)
      else if mode = 4 then do {
        color_index \<leftarrow> video_read8 io m (kBitmapBaseAddress + page + ucast y * 240 + ucast x);
        case color_index of
          None \<Rightarrow> Some None
        | Some index \<Rightarrow> if index = 0 then Some None else video_read16 io m (kBackdropColorAddress + ucast index * 2)}
      else if mode = 5 then video_read16 io m (kBitmapBaseAddress + page + (ucast y * ucast kMode5Width + ucast x) * 2)
      else Some None)"

record pixel_candidate =
  pc_color :: u16
  pc_layer_bit :: u8
  pc_priority :: u8

definition layer_order :: "pixel_candidate \<Rightarrow> u32" where
  "layer_order candidate = (if pc_layer_bit candidate = 4 then 0 else ucast (pc_layer_bit candidate) + 1)"

definition precedes :: "pixel_candidate \<Rightarrow> pixel_candidate \<Rightarrow> bool" where
  "precedes candidate other =
     (if pc_priority candidate \<noteq> pc_priority other then pc_priority candidate < pc_priority other
      else layer_order candidate < layer_order other)"

record affine_params =
  ap_present :: bool
  ap_pa :: int
  ap_pb :: int
  ap_pc :: int
  ap_pd :: int
  ap_reference_x :: int
  ap_reference_y :: int

definition no_affine_params :: affine_params where
  "no_affine_params = \<lparr>ap_present = False, ap_pa = 0, ap_pb = 0, ap_pc = 0, ap_pd = 0, ap_reference_x = 0, ap_reference_y = 0\<rparr>"

definition sign_extend_reference :: "u32 \<Rightarrow> int" where
  "sign_extend_reference raw28 = sint (push_bit 4 raw28) div 16"

definition sign_extend_affine_param :: "u16 \<Rightarrow> int" where
  "sign_extend_affine_param raw = sint raw"

section \<open>Sprites of a line\<close>

text \<open>
  The part of a sprite that is drawn: the invisible left prefix, the columns to fetch, their cost, and how many of them the remaining
  allowance admits.
\<close>

definition sprite_left_prefix :: "sprite_attributes \<Rightarrow> u16 \<Rightarrow> u16" where
  "sprite_left_prefix sprite width =
     (if sp_x sprite < 0 then
        let offscreen = word_of_int (- sp_x sprite); left_prefix = (if offscreen < width then offscreen else width)
        in if \<not> sp_affine sprite then left_prefix AND 0xFFFE else left_prefix
      else 0)"

definition sprite_cycles :: "sprite_attributes \<Rightarrow> u16 \<Rightarrow> u16" where
  "sprite_cycles sprite fetch_width = (if sp_affine sprite then 10 + fetch_width * 2 else fetch_width)"

definition sprite_admitted_width :: "sprite_attributes \<Rightarrow> u16 \<Rightarrow> u16 \<Rightarrow> u16" where
  "sprite_admitted_width sprite fetch_width remaining =
     (if sprite_cycles sprite fetch_width > remaining then
        if sp_affine sprite then if remaining > 10 then (remaining - 10) div 2 else 0 else remaining
      else fetch_width)"

primrec admit_sprites ::
  "'c io_callbacks \<Rightarrow> 'c video_bus \<Rightarrow> u16 \<Rightarrow> nat list \<Rightarrow> u16 \<Rightarrow> (sprite_attributes \<times> u16) list \<Rightarrow> (sprite_attributes \<times> u16) list throws" where
  "admit_sprites io m scanline [] remaining active = Some active"
| "admit_sprites io m scanline (index # indices) remaining active = do {
     sprite \<leftarrow> read_sprite io m index;
     case sprite of
       None \<Rightarrow> admit_sprites io m scanline indices remaining active
     | Some s \<Rightarrow>
         if sp_disabled s \<or> \<not> line_intersects_sprite s scanline then admit_sprites io m scanline indices remaining active
         else if remaining = 0 then Some active
         else let width = word_of_int (sprite_screen_width s); left_prefix = sprite_left_prefix s width; fetch_width = width - left_prefix in
           if fetch_width = 0 then admit_sprites io m scanline indices remaining active
           else let cycles = sprite_cycles s fetch_width; admitted_width = sprite_admitted_width s fetch_width remaining in
             if admitted_width = 0 then Some active
             else admit_sprites io m scanline indices (if cycles \<ge> remaining then 0 else remaining - cycles)
               (active @ [(s, left_prefix + admitted_width)])}"

record obj_rows =
  or_candidate :: "pixel_candidate option list"
  or_semi :: "bool list"
  or_window :: "bool list"

definition no_obj_rows :: obj_rows where
  "no_obj_rows = \<lparr>or_candidate = vec_fill kScreenWidth None, or_semi = vec_fill kScreenWidth False, or_window = vec_fill kScreenWidth False\<rparr>"

definition color_mosaic :: "sprite_attributes \<Rightarrow> bool" where
  "color_mosaic sprite \<longleftrightarrow> sp_mosaic_enabled sprite \<and> \<not> sp_obj_window sprite"

definition obj_mosaic_w :: "ppu_render_control \<Rightarrow> u16" where
  "obj_mosaic_w control = (drop_bit 8 (rc_mosaic control) AND 0xF) + 1"

definition obj_mosaic_h :: "ppu_render_control \<Rightarrow> u16" where
  "obj_mosaic_h control = (drop_bit 12 (rc_mosaic control) AND 0xF) + 1"

definition sprite_local_y :: "ppu_render_control \<Rightarrow> sprite_attributes \<Rightarrow> u16 \<Rightarrow> u8" where
  "sprite_local_y control sprite scanline =
     (let local_y = (ucast ((ucast scanline - ucast (word_of_int (sp_y sprite) :: u16) :: u32) AND 0xFF) :: u8)
      in if color_mosaic sprite then ucast (mosaic_block (ucast local_y) (obj_mosaic_h control)) else local_y)"

definition sprite_local_x :: "ppu_render_control \<Rightarrow> sprite_attributes \<Rightarrow> nat \<Rightarrow> u8" where
  "sprite_local_x control sprite x =
     (let local_x = (word_of_int (int x - sp_x sprite) :: u8)
      in if color_mosaic sprite then ucast (mosaic_block (ucast local_x) (obj_mosaic_w control)) else local_x)"

definition character_mapping_1d :: "ppu_render_control \<Rightarrow> bool" where
  "character_mapping_1d control \<longleftrightarrow> rc_dispcnt control AND kCharacterMapping1D \<noteq> 0"

definition draw_sprite_column ::
  "'c io_callbacks \<Rightarrow> 'c video_bus \<Rightarrow> ppu_render_control \<Rightarrow> u16 \<Rightarrow> sprite_attributes \<Rightarrow> nat \<Rightarrow> obj_rows \<Rightarrow> obj_rows throws" where
  "draw_sprite_column io m control scanline sprite x rows = do {
     taken \<leftarrow> (if sp_obj_window sprite then vec_at (or_window rows) x
       else map_option (\<lambda>candidate. candidate \<noteq> None) (vec_at (or_candidate rows) x));
     if taken then Some rows
     else do {
       pixel \<leftarrow> fetch_sprite_pixel io m sprite (sprite_local_x control sprite x) (sprite_local_y control sprite scanline)
         (character_mapping_1d control);
       case pixel of
         None \<Rightarrow> Some rows
       | Some p \<Rightarrow>
           if spp_transparent p then Some rows
           else if sp_obj_window sprite then do {
             window \<leftarrow> vec_put (or_window rows) x True;
             Some (rows\<lparr>or_window := window\<rparr>)}
           else do {
             candidates \<leftarrow> vec_put (or_candidate rows) x
               (Some \<lparr>pc_color = normalize_color (spp_color p), pc_layer_bit = 4, pc_priority = sp_priority sprite\<rparr>);
             semi \<leftarrow> vec_put (or_semi rows) x (sp_semi_transparent sprite);
             Some (rows\<lparr>or_candidate := candidates, or_semi := semi\<rparr>)}}}"

definition draw_sprite ::
  "'c io_callbacks \<Rightarrow> 'c video_bus \<Rightarrow> ppu_render_control \<Rightarrow> u16 \<Rightarrow> sprite_attributes \<times> u16 \<Rightarrow> obj_rows \<Rightarrow> obj_rows throws" where
  "draw_sprite io m control scanline active rows =
     (let (sprite, sprite_end) = active in
      if sp_obj_window sprite \<and> rc_dispcnt control AND kObjWindowEnable = 0 then Some rows
      else let start_x = (if sp_x sprite < 0 then 0 else sp_x sprite);
               right = sp_x sprite + uint sprite_end;
               end_x = (if right < int kScreenWidth then right else int kScreenWidth)
           in foldM (draw_sprite_column io m control scanline sprite) [nat start_x..<nat end_x] rows)"

section \<open>Layers of a pixel\<close>

definition decoded_bg :: "ppu_render_control \<Rightarrow> bg_control list" where
  "decoded_bg control = map decode_bg_control (rc_bg_control control)"

definition bg_mosaic_w :: "ppu_render_control \<Rightarrow> u16" where
  "bg_mosaic_w control = (rc_mosaic control AND 0xF) + 1"

definition bg_mosaic_h :: "ppu_render_control \<Rightarrow> u16" where
  "bg_mosaic_h control = (drop_bit 4 (rc_mosaic control) AND 0xF) + 1"

definition affine_params_of :: "ppu_render_control \<Rightarrow> nat \<Rightarrow> affine_params throws" where
  "affine_params_of control bg_index = do {
     pa \<leftarrow> vec_at (rc_bg_affine_pa control) bg_index;
     pb \<leftarrow> vec_at (rc_bg_affine_pb control) bg_index;
     pc \<leftarrow> vec_at (rc_bg_affine_pc control) bg_index;
     pd \<leftarrow> vec_at (rc_bg_affine_pd control) bg_index;
     reference_x \<leftarrow> vec_at (rc_bg_reference_x control) bg_index;
     reference_y \<leftarrow> vec_at (rc_bg_reference_y control) bg_index;
     Some \<lparr>ap_present = True, ap_pa = sign_extend_affine_param pa, ap_pb = sign_extend_affine_param pb,
       ap_pc = sign_extend_affine_param pc, ap_pd = sign_extend_affine_param pd,
       ap_reference_x = sign_extend_reference reference_x, ap_reference_y = sign_extend_reference reference_y\<rparr>}"

definition line_affine_params :: "ppu_render_control \<Rightarrow> u8 \<Rightarrow> affine_params list throws" where
  "line_affine_params control mode =
     (if mode = 1 \<or> mode = 2 then
        foldM (\<lambda>bg_index params. if mode = 1 \<and> bg_index \<noteq> 2 then Some params
          else do {p \<leftarrow> affine_params_of control bg_index; vec_put params bg_index p}) [2, 3] (vec_fill 4 no_affine_params)
      else Some (vec_fill 4 no_affine_params))"

definition layer_visible :: "ppu_render_control \<Rightarrow> u16 \<Rightarrow> nat \<Rightarrow> bool" where
  "layer_visible control layer_mask bg_index \<longleftrightarrow> bg_enabled (rc_dispcnt control) bg_index \<and> layer_mask AND push_bit bg_index 1 \<noteq> 0"

text \<open>The candidate a layer offers for the pixel, if it is visible and opaque there.\<close>

definition text_candidate ::
  "'c io_callbacks \<Rightarrow> 'c video_bus \<Rightarrow> ppu_render_control \<Rightarrow> u8 \<Rightarrow> u16 \<Rightarrow> u16 \<Rightarrow> u16 \<Rightarrow> nat \<Rightarrow> pixel_candidate option throws" where
  "text_candidate io m control mode layer_mask x scanline bg_index =
     (if \<not> text_bg_available_in_mode mode bg_index \<or> \<not> layer_visible control layer_mask bg_index then Some None
      else do {
        bg \<leftarrow> vec_at (decoded_bg control) bg_index;
        scroll_x \<leftarrow> vec_at (rc_bg_scroll_x control) bg_index;
        scroll_y \<leftarrow> vec_at (rc_bg_scroll_y control) bg_index;
        let mosaic = (bgc_raw bg AND kBgMosaicEnable \<noteq> 0);
        let sample_x = (if mosaic then mosaic_block x (bg_mosaic_w control) else x);
        let sample_y = (if mosaic then mosaic_block scanline (bg_mosaic_h control) else scanline);
        bg_pixel \<leftarrow> fetch_text_pixel io m bg (sample_x + scroll_x) (sample_y + scroll_y);
        Some (case bg_pixel of
            None \<Rightarrow> None
          | Some p \<Rightarrow> if bgp_transparent p then None
              else Some \<lparr>pc_color = normalize_color (bgp_color p), pc_layer_bit = of_nat bg_index, pc_priority = bgc_priority bg\<rparr>)})"

definition affine_candidate ::
  "'c io_callbacks \<Rightarrow> 'c video_bus \<Rightarrow> ppu_render_control \<Rightarrow> u8 \<Rightarrow> affine_params list \<Rightarrow> u16 \<Rightarrow> u16 \<Rightarrow> u16 \<Rightarrow> nat \<Rightarrow> pixel_candidate option throws" where
  "affine_candidate io m control mode affine layer_mask x scanline bg_index = do {
     params \<leftarrow> vec_at affine bg_index;
     if \<not> ap_present params \<or> \<not> affine_bg_available_in_mode mode bg_index \<or> \<not> layer_visible control layer_mask bg_index then Some None
     else do {
       bg \<leftarrow> vec_at (decoded_bg control) bg_index;
       let mosaic = (bgc_raw bg AND kBgMosaicEnable \<noteq> 0);
       let dx = uint (if mosaic then mosaic_block x (bg_mosaic_w control) else x);
       let dy = uint (if mosaic then mosaic_block scanline (bg_mosaic_h control) else scanline);
       let tex_x_raw = ap_reference_x params + ap_pa params * dx + ap_pb params * dy;
       let tex_y_raw = ap_reference_y params + ap_pc params * dx + ap_pd params * dy;
       affine_pixel \<leftarrow> fetch_affine_pixel io m bg (tex_x_raw div 256) (tex_y_raw div 256);
       Some (case affine_pixel of
           None \<Rightarrow> None
         | Some p \<Rightarrow> if afp_transparent p then None
             else Some \<lparr>pc_color = normalize_color (afp_color p), pc_layer_bit = of_nat bg_index, pc_priority = bgc_priority bg\<rparr>)}}"

definition bitmap_candidate ::
  "'c io_callbacks \<Rightarrow> 'c video_bus \<Rightarrow> ppu_render_control \<Rightarrow> u8 \<Rightarrow> u16 \<Rightarrow> u16 \<Rightarrow> u16 \<Rightarrow> pixel_candidate option throws" where
  "bitmap_candidate io m control mode layer_mask x scanline =
     (if mode \<ge> 3 \<and> layer_mask AND push_bit 2 1 \<noteq> 0 then
        map_option (map_option (\<lambda>color. \<lparr>pc_color = normalize_color color, pc_layer_bit = 2, pc_priority = 0\<rparr>))
          (fetch_bitmap_pixel io m control mode x scanline)
      else Some None)"

definition obj_candidate :: "ppu_render_control \<Rightarrow> u16 \<Rightarrow> obj_rows \<Rightarrow> nat \<Rightarrow> pixel_candidate option throws" where
  "obj_candidate control layer_mask rows x =
     (if rc_dispcnt control AND kObjEnable \<noteq> 0 \<and> layer_mask AND push_bit 4 1 \<noteq> 0 then vec_at (or_candidate rows) x else Some None)"

section \<open>Composition\<close>

text \<open>The two best candidates so far, and \<open>consider\<close>, which tells whether the candidate became the best.\<close>

record pixel_mix =
  mix_best :: pixel_candidate
  mix_second :: pixel_candidate

definition consider_candidate :: "pixel_candidate \<Rightarrow> pixel_mix \<Rightarrow> bool \<times> pixel_mix" where
  "consider_candidate candidate mix =
     (if precedes candidate (mix_best mix) then (True, \<lparr>mix_best = candidate, mix_second = mix_best mix\<rparr>)
      else if precedes candidate (mix_second mix) then (False, mix\<lparr>mix_second := candidate\<rparr>)
      else (False, mix))"

definition backdrop_candidate :: "u16 \<Rightarrow> pixel_candidate" where
  "backdrop_candidate backdrop = \<lparr>pc_color = backdrop, pc_layer_bit = kBackdropLayerBit, pc_priority = 4\<rparr>"

record pixel_counters =
  cnt_bg_pixels :: u16
  cnt_obj_pixels :: u16
  cnt_bitmap_pixels :: u16
  cnt_window_masked_pixels :: u16
  cnt_blend_pixels :: u16

definition mix_background :: "pixel_candidate option \<Rightarrow> pixel_mix \<times> pixel_counters \<Rightarrow> pixel_mix \<times> pixel_counters" where
  "mix_background candidate s =
     (case candidate of
        None \<Rightarrow> s
      | Some c \<Rightarrow> let (won, mix) = consider_candidate c (fst s) in
          (mix, if won then (snd s)\<lparr>cnt_bg_pixels := cnt_bg_pixels (snd s) + 1\<rparr> else snd s))"

definition mix_bitmap :: "pixel_candidate option \<Rightarrow> pixel_mix \<times> pixel_counters \<Rightarrow> pixel_mix \<times> pixel_counters" where
  "mix_bitmap candidate s =
     (case candidate of
        None \<Rightarrow> s
      | Some c \<Rightarrow> (snd (consider_candidate c (fst s)), (snd s)\<lparr>cnt_bitmap_pixels := cnt_bitmap_pixels (snd s) + 1\<rparr>))"

text \<open>The object is considered last; its semi-transparency counts only when it wins.\<close>

definition mix_object :: "pixel_candidate option \<Rightarrow> bool \<Rightarrow> pixel_mix \<times> pixel_counters \<Rightarrow> (pixel_mix \<times> pixel_counters) \<times> bool" where
  "mix_object candidate semi_transparent s =
     (case candidate of
        None \<Rightarrow> (s, False)
      | Some c \<Rightarrow> let (won, mix) = consider_candidate c (fst s) in
          ((mix, if won then (snd s)\<lparr>cnt_obj_pixels := cnt_obj_pixels (snd s) + 1\<rparr> else snd s), won \<and> semi_transparent))"

text \<open>The layers in the order of the code; nothing is looked at where every layer is masked.\<close>

definition mix_layers ::
  "'c io_callbacks \<Rightarrow> 'c video_bus \<Rightarrow> ppu_render_control \<Rightarrow> u8 \<Rightarrow> affine_params list \<Rightarrow> obj_rows \<Rightarrow> u16 \<Rightarrow> nat \<Rightarrow> u16
   \<Rightarrow> pixel_mix \<times> pixel_counters \<Rightarrow> ((pixel_mix \<times> pixel_counters) \<times> bool) throws" where
  "mix_layers io m control mode affine rows layer_mask x scanline s =
     (if layer_mask = 0 then Some (s, False)
      else do {
        s \<leftarrow> (if text_bg_available_in_mode mode 0 then
            foldM (\<lambda>bg_index s. map_option (\<lambda>c. mix_background c s) (text_candidate io m control mode layer_mask (of_nat x) scanline bg_index))
              [0, 1, 2, 3] s
          else Some s);
        s \<leftarrow> (if mode = 1 \<or> mode = 2 then
            foldM (\<lambda>bg_index s. map_option (\<lambda>c. mix_background c s)
              (affine_candidate io m control mode affine layer_mask (of_nat x) scanline bg_index)) [2, 3] s
          else Some s);
        bitmap \<leftarrow> bitmap_candidate io m control mode layer_mask (of_nat x) scanline;
        let s = mix_bitmap bitmap s;
        object \<leftarrow> obj_candidate control layer_mask rows x;
        semi_transparent \<leftarrow> vec_at (or_semi rows) x;
        Some (mix_object object semi_transparent s)})"

text \<open>The colour effects on the winning and the second candidate; the boolean tells whether an effect was applied.\<close>

definition apply_color_effect :: "ppu_render_control \<Rightarrow> u16 \<Rightarrow> pixel_mix \<Rightarrow> bool \<Rightarrow> u16 \<times> bool" where
  "apply_color_effect control layer_mask mix winner_is_semi_transparent =
     (let best = mix_best mix; second = mix_second mix;
          color = normalize_color (pc_color best);
          effect = rc_bldcnt control AND 0x00C0;
          effects_allowed = (layer_mask AND kWindowEffectsBit \<noteq> 0);
          first_target = (rc_bldcnt control AND push_bit (unat (pc_layer_bit best)) 1 \<noteq> 0);
          second_target = (rc_bldcnt control AND push_bit (unat (pc_layer_bit second) + 8) 1 \<noteq> 0);
          forced_obj_alpha = (pc_layer_bit best = 4 \<and> winner_is_semi_transparent);
          do_alpha = (effects_allowed \<and> second_target \<and> (forced_obj_alpha \<or> effect = kEffectAlpha \<and> first_target));
          do_brightness = (effects_allowed \<and> \<not> do_alpha \<and> (effect = kEffectBrightnessIncrease \<or> effect = kEffectBrightnessDecrease)
            \<and> first_target)
      in if do_alpha then
           (alpha_blend (pc_color best) (pc_color second) (rc_bldalpha control AND 0x1F) (drop_bit 8 (rc_bldalpha control) AND 0x1F), True)
         else if do_brightness then
           let amount = rc_bldy control AND 0x1F
           in if amount \<noteq> 0 then (brightness_blend color amount (effect = kEffectBrightnessIncrease), True) else (color, False)
         else (color, False))"

definition render_pixel ::
  "'c io_callbacks \<Rightarrow> 'c video_bus \<Rightarrow> ppu_render_control \<Rightarrow> u8 \<Rightarrow> u16 \<Rightarrow> affine_params list \<Rightarrow> obj_rows \<Rightarrow> u16 \<Rightarrow> nat
   \<Rightarrow> u16 list \<times> pixel_counters \<Rightarrow> (u16 list \<times> pixel_counters) throws" where
  "render_pixel io m control mode backdrop affine rows scanline x = (\<lambda>(framebuffer, counters). do {
     obj_window_hit \<leftarrow> vec_at (or_window rows) x;
     let layer_mask = window_layer_mask control (of_nat x) scanline obj_window_hit;
     let counters = (if layer_mask = 0 then counters\<lparr>cnt_window_masked_pixels := cnt_window_masked_pixels counters + 1\<rparr> else counters);
     ((mix, counters), winner_is_semi_transparent) \<leftarrow> mix_layers io m control mode affine rows layer_mask x scanline
       (\<lparr>mix_best = backdrop_candidate backdrop, mix_second = backdrop_candidate backdrop\<rparr>, counters);
     let (color, blended) = apply_color_effect control layer_mask mix winner_is_semi_transparent;
     let counters = (if blended then counters\<lparr>cnt_blend_pixels := cnt_blend_pixels counters + 1\<rparr> else counters);
     framebuffer \<leftarrow> vec_put framebuffer (unat scanline * kScreenWidth + x) (normalize_color color);
     Some (framebuffer, counters)})"

section \<open>Scanlines\<close>

definition renderer_clear :: "u16 \<Rightarrow> u16 list" where
  "renderer_clear color = vec_fill kFramebufferPixels color"

definition white_line :: "u16 \<Rightarrow> u16 list \<Rightarrow> u16 list throws" where
  "white_line scanline = foldM (\<lambda>x framebuffer. vec_put framebuffer (unat scanline * kScreenWidth + x) 0x7FFF) [0..<kScreenWidth]"

definition obj_cycles_per_line :: "ppu_render_control \<Rightarrow> u16" where
  "obj_cycles_per_line control = (if rc_dispcnt control AND kHblankIntervalFree \<noteq> 0 then 954 else 1210)"

definition active_sprites :: "'c io_callbacks \<Rightarrow> 'c video_bus \<Rightarrow> ppu_render_control \<Rightarrow> u16 \<Rightarrow> (sprite_attributes \<times> u16) list throws" where
  "active_sprites io m control scanline =
     (if rc_dispcnt control AND kObjEnable \<noteq> 0 then admit_sprites io m scanline [0..<kSpriteCount] (obj_cycles_per_line control) []
      else Some [])"

definition video_mode :: "ppu_render_control \<Rightarrow> u8" where
  "video_mode control = ucast (rc_dispcnt control AND kVideoModeMask)"

definition read_backdrop :: "'c io_callbacks \<Rightarrow> 'c video_bus \<Rightarrow> u16 throws" where
  "read_backdrop io m = map_option (\<lambda>v. normalize_color (case v of Some color \<Rightarrow> color | None \<Rightarrow> 0)) (video_read16 io m kBackdropColorAddress)"

definition no_counters :: pixel_counters where
  "no_counters = \<lparr>cnt_bg_pixels = 0, cnt_obj_pixels = 0, cnt_bitmap_pixels = 0, cnt_window_masked_pixels = 0, cnt_blend_pixels = 0\<rparr>"

definition render_scanline ::
  "'c io_callbacks \<Rightarrow> 'c video_bus \<Rightarrow> ppu_render_control \<Rightarrow> u16 \<Rightarrow> u16 list \<Rightarrow> (ppu_render_stats \<times> u16 list) throws" where
  "render_scanline io m control scanline framebuffer =
     (if unat scanline \<ge> kScreenHeight then Some (render_stats scanline False False, framebuffer)
      else let mode = video_mode control in
        if \<not> mode \<le> 5 then do {
          framebuffer \<leftarrow> white_line scanline framebuffer;
          Some (render_stats scanline False False, framebuffer)}
        else do {
          backdrop \<leftarrow> read_backdrop io m;
          if rc_dispcnt control AND kForcedBlank \<noteq> 0 then do {
            framebuffer \<leftarrow> white_line scanline framebuffer;
            Some (render_stats scanline True True, framebuffer)}
          else do {
            active \<leftarrow> active_sprites io m control scanline;
            affine \<leftarrow> line_affine_params control mode;
            rows \<leftarrow> foldM (draw_sprite io m control scanline) active no_obj_rows;
            (framebuffer, counters) \<leftarrow> foldM (render_pixel io m control mode backdrop affine rows scanline) [0..<kScreenWidth]
              (framebuffer, no_counters);
            Some (\<lparr>prs_scanline = scanline, prs_bg_pixels = cnt_bg_pixels counters, prs_obj_pixels = cnt_obj_pixels counters,
              prs_supported_mode = True, prs_forced_blank = False, prs_bitmap_pixels = cnt_bitmap_pixels counters,
              prs_window_masked_pixels = cnt_window_masked_pixels counters, prs_blend_pixels = cnt_blend_pixels counters\<rparr>,
              framebuffer)}})"

definition renderer_pixel :: "u16 \<Rightarrow> u16 \<Rightarrow> u16 list \<Rightarrow> u16 throws" where
  "renderer_pixel x y framebuffer =
     (if unat x \<ge> kScreenWidth \<or> unat y \<ge> kScreenHeight then Some 0 else vec_at framebuffer (unat y * kScreenWidth + unat x))"

end
