(* ===== verification/Ppu_Compose.thy ===== *)
theory Ppu_Compose
  imports Ppu_Renderer Memory_Safety "HOL-Library.Multiset"
begin

text \<open>
  The renderer is correct: it never throws and writes only its scanline; every pixel is the colour a reference computes from the layers at
  that pixel alone, with the two front layers found by sorting; the resolved sprite row is the first opaque sprite in OAM order.
\<close>

section \<open>Choosing the two front candidates\<close>

text \<open>The order of \<open>precedes\<close> as a number.\<close>

definition cand_rank :: "pixel_candidate \<Rightarrow> nat" where
  "cand_rank c = unat (pc_priority c) * 2 ^ 32 + unat (layer_order c)"

lemma precedes_rank: "precedes c d \<longleftrightarrow> cand_rank c < cand_rank d"
proof -
  have lex: "p * n + a < q * n + b \<longleftrightarrow> p < q \<or> p = q \<and> a < b" if "a < n" "b < n" for p q a b n :: nat
  proof -
    have "p * n + a < q * n + b" if "p < q"
    proof -
      have "Suc p * n \<le> q * n"
        using that by (intro mult_le_mono1) simp
      then show ?thesis
        using \<open>a < n\<close> by simp
    qed
    moreover have "q * n + b < p * n + a" if "q < p"
    proof -
      have "Suc q * n \<le> p * n"
        using that by (intro mult_le_mono1) simp
      then show ?thesis
        using \<open>b < n\<close> by simp
    qed
    ultimately show ?thesis
      by (cases p q rule: linorder_cases) auto
  qed
  have "unat (layer_order x) < 2 ^ 32" for x
    using unat_u32_less [of "layer_order x"] by simp
  then show ?thesis
    unfolding cand_rank_def lex [OF \<open>unat (layer_order c) < 2 ^ 32\<close> \<open>unat (layer_order d) < 2 ^ 32\<close>]
    by (auto simp: precedes_def word_less_nat_alt word_unat_eq_iff)
qed

definition reference_mix :: "pixel_candidate \<Rightarrow> pixel_candidate list \<Rightarrow> pixel_mix" where
  "reference_mix backdrop cs =
     (let sorted_cs = sort_key cand_rank (cs @ [backdrop])
      in \<lparr>mix_best = sorted_cs ! 0, mix_second = (if cs = [] then backdrop else sorted_cs ! 1)\<rparr>)"

definition mix_all :: "pixel_candidate \<Rightarrow> pixel_candidate list \<Rightarrow> pixel_mix" where
  "mix_all backdrop cs = fold (\<lambda>c mix. snd (consider_candidate c mix)) cs \<lparr>mix_best = backdrop, mix_second = backdrop\<rparr>"

lemma mix_all_simps [simp]:
  "mix_all backdrop [] = \<lparr>mix_best = backdrop, mix_second = backdrop\<rparr>"
  "mix_all backdrop (cs @ [c]) = snd (consider_candidate c (mix_all backdrop cs))"
  by (simp_all add: mix_all_def)

lemma mix_all_least:
  assumes "\<forall>c \<in> set cs. cand_rank c < cand_rank backdrop" and "cs \<noteq> []"
  shows "\<exists>rest. mset (cs @ [backdrop]) = add_mset (mix_best (mix_all backdrop cs)) (add_mset (mix_second (mix_all backdrop cs)) (mset rest))
    \<and> cand_rank (mix_best (mix_all backdrop cs)) \<le> cand_rank (mix_second (mix_all backdrop cs))
    \<and> (\<forall>c \<in> set rest. cand_rank (mix_second (mix_all backdrop cs)) \<le> cand_rank c)"
  using assms
proof (induction cs rule: rev_induct)
  case (snoc c cs)
  show ?case
  proof (cases "cs = []")
    case True
    then show ?thesis
      using snoc.prems by (intro exI [of _ "[]"]) (simp add: mix_all_def consider_candidate_def precedes_rank)
  next
    case False
    define mix where "mix = mix_all backdrop cs"
    obtain rest where rest: "mset (cs @ [backdrop]) = add_mset (mix_best mix) (add_mset (mix_second mix) (mset rest))"
      "cand_rank (mix_best mix) \<le> cand_rank (mix_second mix)" "\<forall>c \<in> set rest. cand_rank (mix_second mix) \<le> cand_rank c"
      using snoc.IH snoc.prems False unfolding mix_def by auto
    have m: "mset ((cs @ [c]) @ [backdrop]) = add_mset c (mset (cs @ [backdrop]))"
      by simp
    consider "cand_rank c < cand_rank (mix_best mix)" | "cand_rank (mix_best mix) \<le> cand_rank c" "cand_rank c < cand_rank (mix_second mix)"
      | "cand_rank (mix_second mix) \<le> cand_rank c" "cand_rank (mix_best mix) \<le> cand_rank c"
      using rest(2) by linarith
    then show ?thesis
    proof cases
      case 1
      then show ?thesis
        using rest unfolding mix_all_simps mix_def [symmetric] m
        by (intro exI [of _ "mix_second mix # rest"]) (auto simp: consider_candidate_def precedes_rank)
    next
      case 2
      then show ?thesis
        using rest unfolding mix_all_simps mix_def [symmetric] m
        by (intro exI [of _ "mix_second mix # rest"]) (auto simp: consider_candidate_def precedes_rank)
    next
      case 3
      then show ?thesis
        using rest unfolding mix_all_simps mix_def [symmetric] m
        by (intro exI [of _ "c # rest"]) (auto simp: consider_candidate_def precedes_rank)
    qed
  qed
qed simp

lemma mix_all_reference:
  assumes "\<forall>c \<in> set cs. cand_rank c < cand_rank backdrop" and "inj_on cand_rank (set cs)"
  shows "mix_all backdrop cs = reference_mix backdrop cs"
proof (cases "cs = []")
  case False
  define mix where "mix = mix_all backdrop cs"
  obtain rest where rest: "mset (cs @ [backdrop]) = add_mset (mix_best mix) (add_mset (mix_second mix) (mset rest))"
    "cand_rank (mix_best mix) \<le> cand_rank (mix_second mix)" "\<forall>c \<in> set rest. cand_rank (mix_second mix) \<le> cand_rank c"
    using mix_all_least [OF assms(1) False] unfolding mix_def by auto
  have inj: "inj_on cand_rank (set (cs @ [backdrop]))"
    using assms by (fastforce simp: inj_on_def)
  have "sort_key cand_rank (cs @ [backdrop]) = mix_best mix # mix_second mix # sort_key cand_rank rest"
    by (rule sort_key_inj_key_eq [OF _ inj]) (use rest in auto)
  then show ?thesis
    using False unfolding reference_mix_def mix_def [symmetric] by (simp add: Let_def)
qed (simp add: reference_mix_def)

section \<open>Reads never throw\<close>

text \<open>The video fast path of the bus is the halfword read.\<close>

lemma read_video16_eq: "mb_read_video16 io ctx b a = mb_read16 io ctx b a"
proof -
  have even: "a AND 1 = 0 \<longleftrightarrow> a mod 2 = 0"
    by (simp add: and_one_eq)
  have "ai_region (classify a) = Vram \<or> ai_region (classify a) = Palette \<Longrightarrow> a \<noteq> kMgbaDebugEnable"
    using debug_ports_unknown [of a] by (auto simp: debug_const_defs)
  then show ?thesis
    unfolding mb_read_video16_def mb_read16_def Let_def even by auto
qed

context io_facade
begin

lemma video_reads_yield:
  assumes "fine_bus m"
  shows "yields (\<lambda>_. True) (video_read8 io m a)" "yields (\<lambda>_. True) (video_read16 io m a)" "yields (\<lambda>_. True) (read_video16 io m a)"
  using memory_reads_yield [OF assms] by (simp_all add: video_read8_def video_read16_def read_video16_def read_video16_eq)

lemma fetch_text_pixel_yields: "fine_bus m \<Longrightarrow> yields (\<lambda>_. True) (fetch_text_pixel io m control x y)"
  unfolding fetch_text_pixel_def Let_def
  by (intro yields_any_bind video_reads_yield yields_option) simp_all

lemma fetch_affine_pixel_yields: "fine_bus m \<Longrightarrow> yields (\<lambda>_. True) (fetch_affine_pixel io m control x y)"
  unfolding fetch_affine_pixel_def Let_def
  by (intro yields_if yields_any_bind video_reads_yield yields_option) simp_all

lemma fetch_bitmap_pixel_yields: "fine_bus m \<Longrightarrow> yields (\<lambda>_. True) (fetch_bitmap_pixel io m control mode x y)"
  unfolding fetch_bitmap_pixel_def Let_def
  by (intro yields_if yields_any_bind video_reads_yield yields_option) simp_all

lemma read_sprite_yields:
  assumes "fine_bus m"
  shows "yields (\<lambda>_. True) (read_sprite io m index)"
proof -
  have shape: "unat (ucast (drop_bit 14 v AND 3 :: u16) :: u8) < 4" for v :: u16
    by (simp add: unat_ucast_narrow unat_and_numeral)
  have row: "\<exists>row. vec_at kSpriteSizes k = Some row \<and> length row = 4" if "k < 4" for k
    using that by (auto simp: kSpriteSizes_def vec_at_def less_Suc_eq numeral_eq_Suc)
  have size: "\<exists>w h. vec_at row k = Some (w, h)" if "length row = 4" "k < 4" for row :: "(u8 \<times> u8) list" and k
    using that by (cases "row ! k") (auto simp: vec_at_def)
  have sizes: "yields (\<lambda>_. True) (do {row \<leftarrow> vec_at kSpriteSizes (unat (ucast (drop_bit 14 v AND 3 :: u16) :: u8));
      (width, height) \<leftarrow> vec_at row (unat (ucast (drop_bit 14 w AND 3 :: u16) :: u8)); Some (f width height)})" for v w f
    using row [OF shape [of v]] size [OF _ shape [of w]] by fastforce
  show ?thesis
    unfolding read_sprite_def Let_def
    by (intro yields_if yields_any_bind video_reads_yield [OF assms]; simp split: option.splits split del: if_split; intro allI impI sizes)
qed

lemma affine_texture_yields: "fine_bus m \<Longrightarrow> yields (\<lambda>_. True) (affine_texture_coordinates io m sprite x y)"
  unfolding affine_texture_coordinates_def read_affine_param_def
  by (intro yields_any_bind) (simp_all add: yields_map_option video_reads_yield)

lemma fetch_sprite_pixel_yields:
  assumes "fine_bus m"
  shows "yields (\<lambda>_. True) (fetch_sprite_pixel io m sprite x y mapping)"
  unfolding fetch_sprite_pixel_def Let_def
  by (intro yields_if yields_any_bind yields_option affine_texture_yields video_reads_yield assms;
      simp add: split_beta; intro yields_any_bind yields_option video_reads_yield assms; simp)

end

section \<open>The sprite row\<close>

text \<open>What a sprite shows at a column, without regard to other sprites.\<close>

definition shown_pixel ::
  "'c io_callbacks \<Rightarrow> 'c video_bus \<Rightarrow> ppu_render_control \<Rightarrow> u16 \<Rightarrow> nat \<Rightarrow> sprite_attributes \<times> u16 \<Rightarrow> sprite_pixel option" where
  "shown_pixel io m control scanline x active =
     (let (sprite, sprite_end) = active in
      if (sp_obj_window sprite \<and> rc_dispcnt control AND kObjWindowEnable = 0)
         \<or> int x < max 0 (sp_x sprite) \<or> int x \<ge> min (sp_x sprite + uint sprite_end) (int kScreenWidth) then None
      else case fetch_sprite_pixel io m sprite (sprite_local_x control sprite x) (sprite_local_y control sprite scanline)
             (character_mapping_1d control) of
        Some (Some p) \<Rightarrow> if spp_transparent p then None else Some p
      | _ \<Rightarrow> None)"

definition object_at ::
  "'c io_callbacks \<Rightarrow> 'c video_bus \<Rightarrow> ppu_render_control \<Rightarrow> u16 \<Rightarrow> (sprite_attributes \<times> u16) list \<Rightarrow> nat \<Rightarrow> (pixel_candidate \<times> bool) option" where
  "object_at io m control scanline active x =
     (case find (\<lambda>a. \<not> sp_obj_window (fst a) \<and> shown_pixel io m control scanline x a \<noteq> None) active of
        None \<Rightarrow> None
      | Some a \<Rightarrow> map_option (\<lambda>p. (\<lparr>pc_color = normalize_color (spp_color p), pc_layer_bit = 4, pc_priority = sp_priority (fst a)\<rparr>,
          sp_semi_transparent (fst a))) (shown_pixel io m control scanline x a))"

definition window_at :: "'c io_callbacks \<Rightarrow> 'c video_bus \<Rightarrow> ppu_render_control \<Rightarrow> u16 \<Rightarrow> (sprite_attributes \<times> u16) list \<Rightarrow> nat \<Rightarrow> bool" where
  "window_at io m control scanline active x \<longleftrightarrow>
     (\<exists>a \<in> set active. sp_obj_window (fst a) \<and> shown_pixel io m control scanline x a \<noteq> None)"

text \<open>The rows hold exactly this for the sprites drawn so far.\<close>

definition rows_hold ::
  "'c io_callbacks \<Rightarrow> 'c video_bus \<Rightarrow> ppu_render_control \<Rightarrow> u16 \<Rightarrow> (sprite_attributes \<times> u16) list \<Rightarrow> obj_rows \<Rightarrow> bool" where
  "rows_hold io m control scanline active rows \<longleftrightarrow>
     length (or_candidate rows) = kScreenWidth \<and> length (or_semi rows) = kScreenWidth \<and> length (or_window rows) = kScreenWidth
     \<and> (\<forall>x < kScreenWidth. or_candidate rows ! x = map_option fst (object_at io m control scanline active x)
         \<and> or_semi rows ! x = (case object_at io m control scanline active x of None \<Rightarrow> False | Some (c, semi) \<Rightarrow> semi)
         \<and> or_window rows ! x = window_at io m control scanline active x)"

lemma object_at_snoc:
  "object_at io m control scanline (active @ [a]) x =
     (case object_at io m control scanline active x of
        Some r \<Rightarrow> Some r
      | None \<Rightarrow> object_at io m control scanline [a] x)"
proof -
  have f: "find P (xs @ ys) = (case find P xs of Some y \<Rightarrow> Some y | None \<Rightarrow> find P ys)" for P and xs ys :: "(sprite_attributes \<times> u16) list"
    by (induction xs) simp_all
  have "shown_pixel io m control scanline x b \<noteq> None" if "find (\<lambda>a. \<not> sp_obj_window (fst a) \<and> shown_pixel io m control scanline x a \<noteq> None) active = Some b" for b
    using that by (auto simp: find_Some_iff)
  then show ?thesis
    unfolding object_at_def f by (auto split: option.splits)
qed

lemma window_at_snoc: "window_at io m control scanline (active @ [a]) x \<longleftrightarrow> window_at io m control scanline active x \<or> window_at io m control scanline [a] x"
  by (auto simp: window_at_def)

text \<open>A column that a sprite does not show is unchanged; one that it shows is set unless an earlier sprite has it.\<close>

definition row_column :: "obj_rows \<Rightarrow> nat \<Rightarrow> pixel_candidate option \<times> bool \<times> bool" where
  "row_column rows x = (or_candidate rows ! x, or_semi rows ! x, or_window rows ! x)"

definition rows_wf :: "obj_rows \<Rightarrow> bool" where
  "rows_wf rows \<longleftrightarrow> length (or_candidate rows) = kScreenWidth \<and> length (or_semi rows) = kScreenWidth \<and> length (or_window rows) = kScreenWidth"

definition after_sprite :: "'c io_callbacks \<Rightarrow> 'c video_bus \<Rightarrow> ppu_render_control \<Rightarrow> u16 \<Rightarrow> sprite_attributes \<times> u16 \<Rightarrow> nat \<Rightarrow>
    pixel_candidate option \<times> bool \<times> bool \<Rightarrow> pixel_candidate option \<times> bool \<times> bool" where
  "after_sprite io m control scanline a x = (\<lambda>(candidate, semi, window).
     case object_at io m control scanline [a] x of
       Some (c, s) \<Rightarrow> if candidate = None then (Some c, s, window) else (candidate, semi, window)
     | None \<Rightarrow> (candidate, semi, window \<or> window_at io m control scanline [a] x))"

lemma after_sprite_unseen: "shown_pixel io m control scanline x a = None \<Longrightarrow> after_sprite io m control scanline a x = id"
  by (auto simp: after_sprite_def object_at_def window_at_def)

lemma row_column_update:
  "x < kScreenWidth \<Longrightarrow> rows_wf rows \<Longrightarrow>
    row_column (rows\<lparr>or_window := (or_window rows)[x := w]\<rparr>) y = (if y = x then (or_candidate rows ! x, or_semi rows ! x, w) else row_column rows y)"
  "x < kScreenWidth \<Longrightarrow> rows_wf rows \<Longrightarrow>
    row_column (rows\<lparr>or_candidate := (or_candidate rows)[x := c], or_semi := (or_semi rows)[x := b]\<rparr>) y
      = (if y = x then (c, b, or_window rows ! x) else row_column rows y)"
  by (auto simp: row_column_def rows_wf_def)

context io_facade
begin

lemma draw_sprite_column_effect:
  assumes m: "fine_bus m" and rows: "rows_wf rows" and x: "x < kScreenWidth"
    and seen: "max 0 (sp_x sprite) \<le> int x" "int x < min (sp_x sprite + uint sprite_end) (int kScreenWidth)"
    and enabled: "\<not> (sp_obj_window sprite \<and> rc_dispcnt control AND kObjWindowEnable = 0)"
  shows "yields (\<lambda>rows'. rows_wf rows' \<and> row_column rows' x = after_sprite io m control scanline (sprite, sprite_end) x (row_column rows x)
      \<and> (\<forall>y. y \<noteq> x \<longrightarrow> row_column rows' y = row_column rows y)) (draw_sprite_column io m control scanline sprite x rows)"
proof -
  obtain p where p: "fetch_sprite_pixel io m sprite (sprite_local_x control sprite x) (sprite_local_y control sprite scanline)
      (character_mapping_1d control) = Some p"
    using fetch_sprite_pixel_yields [OF m] by (metis option.exhaust yields_simps(2))
  have shown: "shown_pixel io m control scanline x (sprite, sprite_end)
      = (case p of Some q \<Rightarrow> if spp_transparent q then None else Some q | None \<Rightarrow> None)"
    using seen enabled p by (auto simp: shown_pixel_def split: option.splits)
  have v: "vec_at (or_window rows) x = Some (or_window rows ! x)" "vec_at (or_candidate rows) x = Some (or_candidate rows ! x)"
    "vec_put (or_window rows) x w = Some ((or_window rows)[x := w])" "vec_put (or_candidate rows) x c = Some ((or_candidate rows)[x := c])"
    "vec_put (or_semi rows) x b = Some ((or_semi rows)[x := b])" for w c b
    using rows x by (simp_all add: rows_wf_def)
  have wf: "rows_wf (rows\<lparr>or_window := (or_window rows)[x := w]\<rparr>)"
    "rows_wf (rows\<lparr>or_candidate := (or_candidate rows)[x := c], or_semi := (or_semi rows)[x := b]\<rparr>)" for w c b
    using rows by (simp_all add: rows_wf_def)
  show ?thesis
    unfolding draw_sprite_column_def v p
    using row_column_def [of rows x]
    by (cases p) (auto simp: rows wf row_column_update [OF x rows] after_sprite_def object_at_def window_at_def shown v)
qed

lemma draw_sprite_effect:
  assumes m: "fine_bus m" and rows: "rows_wf rows"
  shows "yields (\<lambda>rows'. rows_wf rows' \<and> (\<forall>x < kScreenWidth. row_column rows' x = after_sprite io m control scanline a x (row_column rows x)))
    (draw_sprite io m control scanline a rows)"
proof -
  obtain sprite sprite_end where a: "a = (sprite, sprite_end)"
    by force
  define s e where "s = nat (max 0 (sp_x sprite))" and "e = nat (min (sp_x sprite + uint sprite_end) (int kScreenWidth))"
  show ?thesis
  proof (cases "sp_obj_window sprite \<and> rc_dispcnt control AND kObjWindowEnable = 0")
    case True
    then have "shown_pixel io m control scanline x a = None" for x
      by (simp add: shown_pixel_def a)
    then show ?thesis
      using True rows by (simp add: draw_sprite_def a after_sprite_unseen)
  next
    case False
    have bounds: "max 0 (sp_x sprite) \<le> int x" "int x < min (sp_x sprite + uint sprite_end) (int kScreenWidth)" "x < kScreenWidth"
      if "s \<le> x" "x < e" for x
      using that by (auto simp: s_def e_def)
    have loop: "yields (\<lambda>rows'. rows_wf rows' \<and> (\<forall>x. row_column rows' x
        = (if s \<le> x \<and> x < j then after_sprite io m control scanline a x (row_column rows x) else row_column rows x)))
      (foldM (draw_sprite_column io m control scanline sprite) [s..<j] rows)" if "j \<le> e" for j
      using that
    proof (induction j)
      case (Suc j)
      show ?case
      proof (cases "s \<le> j")
        case True
        have step: "yields (\<lambda>rows''. rows_wf rows'' \<and> (\<forall>x. row_column rows'' x
            = (if s \<le> x \<and> x < Suc j then after_sprite io m control scanline a x (row_column rows x) else row_column rows x)))
          (draw_sprite_column io m control scanline sprite j rows')"
          if "rows_wf rows' \<and> (\<forall>x. row_column rows' x
            = (if s \<le> x \<and> x < j then after_sprite io m control scanline a x (row_column rows x) else row_column rows x))" for rows'
          by (rule yields_mono [OF draw_sprite_column_effect [where sprite_end = sprite_end]])
            (use that m bounds [OF True] Suc.prems False True in \<open>auto simp: a less_Suc_eq\<close>)
        have split: "foldM (draw_sprite_column io m control scanline sprite) [s..<Suc j] rows
            = foldM (draw_sprite_column io m control scanline sprite) [s..<j] rows \<bind> draw_sprite_column io m control scanline sprite j"
          using True by (simp add: foldM_append)
        show ?thesis
          unfolding split by (rule yields_bind [OF Suc.IH]) (use Suc.prems step in simp_all)
      qed (use rows in auto)
    qed (use rows in simp)
    have outside: "after_sprite io m control scanline a x (row_column rows x) = row_column rows x" if "\<not> (s \<le> x \<and> x < e)" for x
      using that by (subst after_sprite_unseen) (auto simp: shown_pixel_def a s_def e_def)
    have "draw_sprite io m control scanline a rows = foldM (draw_sprite_column io m control scanline sprite) [s..<e] rows"
      using False by (auto simp: draw_sprite_def a Let_def s_def e_def min_def max_def not_less)
    then show ?thesis
      using loop [of e] outside by (auto elim!: yields_mono)
  qed
qed

lemma rows_hold_step:
  assumes "rows_hold io m control scanline active rows" and "rows_wf rows'"
    and "\<forall>x < kScreenWidth. row_column rows' x = after_sprite io m control scanline a x (row_column rows x)"
  shows "rows_hold io m control scanline (active @ [a]) rows'"
proof -
  have "row_column rows' x = (map_option fst (object_at io m control scanline (active @ [a]) x),
      (case object_at io m control scanline (active @ [a]) x of None \<Rightarrow> False | Some (c, semi) \<Rightarrow> semi),
      window_at io m control scanline (active @ [a]) x)" if x: "x < kScreenWidth" for x
  proof -
    have "row_column rows x = (map_option fst (object_at io m control scanline active x),
        (case object_at io m control scanline active x of None \<Rightarrow> False | Some (c, semi) \<Rightarrow> semi), window_at io m control scanline active x)"
      using assms(1) x by (simp add: rows_hold_def row_column_def)
    moreover have "\<not> window_at io m control scanline [a] x" if "object_at io m control scanline [a] x \<noteq> None"
      using that by (auto simp: object_at_def window_at_def split: if_splits)
    ultimately show ?thesis
      using assms(3) x unfolding object_at_snoc window_at_snoc
      by (auto simp: after_sprite_def split: option.splits)
  qed
  then show ?thesis
    using assms(2) by (simp add: rows_hold_def rows_wf_def row_column_def)
qed

lemma rows_hold_wf: "rows_hold io m control scanline active rows \<Longrightarrow> rows_wf rows"
  by (simp add: rows_hold_def rows_wf_def)

lemma draw_sprites_effect:
  assumes "fine_bus m"
  shows "yields (rows_hold io m control scanline active) (foldM (draw_sprite io m control scanline) active no_obj_rows)"
proof (induction active rule: rev_induct)
  case Nil
  then show ?case
    by (simp add: rows_hold_def no_obj_rows_def object_at_def window_at_def)
next
  case (snoc a active)
  have "yields (rows_hold io m control scanline (active @ [a])) (draw_sprite io m control scanline a rows)"
    if "rows_hold io m control scanline active rows" for rows
    by (rule yields_mono [OF draw_sprite_effect [OF assms rows_hold_wf [OF that]]]) (use rows_hold_step [OF that] in blast)
  then show ?case
    unfolding foldM_append foldM.simps using snoc by (auto intro: yields_bind)
qed

end

section \<open>The layers of a pixel\<close>

text \<open>The opaque candidates at a pixel, from the layers alone.\<close>

definition offered :: "'a option throws \<Rightarrow> 'a option" where
  "offered r = (case r of Some c \<Rightarrow> c | None \<Rightarrow> None)"

definition reference_layers ::
  "'c io_callbacks \<Rightarrow> 'c video_bus \<Rightarrow> ppu_render_control \<Rightarrow> affine_params list \<Rightarrow> pixel_candidate option \<Rightarrow> u16 \<Rightarrow> nat \<Rightarrow> u16 \<Rightarrow> pixel_candidate option list" where
  "reference_layers io m control affine object layer_mask x scanline =
     (let mode = video_mode control in
      map (\<lambda>k. offered (text_candidate io m control mode layer_mask (of_nat x) scanline k)) (if mode \<le> 1 then [0, 1, 2, 3] else [])
      @ map (\<lambda>k. offered (affine_candidate io m control mode affine layer_mask (of_nat x) scanline k)) (if mode = 1 \<or> mode = 2 then [2, 3] else [])
      @ [offered (bitmap_candidate io m control mode layer_mask (of_nat x) scanline)]
      @ [if rc_dispcnt control AND kObjEnable \<noteq> 0 \<and> layer_mask AND push_bit 4 1 \<noteq> 0 then object else None])"

definition opaque :: "'a option list \<Rightarrow> 'a list" where
  "opaque = List.map_filter id"

text \<open>The colour of a pixel: the window mask at the pixel, the two front layers by sorting, and the effect on them.\<close>

definition reference_color ::
  "'c io_callbacks \<Rightarrow> 'c video_bus \<Rightarrow> ppu_render_control \<Rightarrow> u16 \<Rightarrow> affine_params list \<Rightarrow> (sprite_attributes \<times> u16) list \<Rightarrow> nat \<Rightarrow> u16 \<Rightarrow> u16" where
  "reference_color io m control backdrop affine active x scanline =
     (let layer_mask = window_layer_mask control (of_nat x) scanline (window_at io m control scanline active x);
          object = object_at io m control scanline active x;
          candidates = (if layer_mask = 0 then [] else opaque (reference_layers io m control affine (map_option fst object) layer_mask x scanline))
      in normalize_color (fst (apply_color_effect control layer_mask (reference_mix (backdrop_candidate backdrop) candidates)
           (case object of None \<Rightarrow> False | Some (c, semi) \<Rightarrow> semi))))"

definition control_wf :: "ppu_render_control \<Rightarrow> bool" where
  "control_wf control \<longleftrightarrow> length (rc_bg_control control) = 4 \<and> length (rc_bg_scroll_x control) = 4 \<and> length (rc_bg_scroll_y control) = 4
     \<and> length (rc_bg_affine_pa control) = 4 \<and> length (rc_bg_affine_pb control) = 4 \<and> length (rc_bg_affine_pc control) = 4
     \<and> length (rc_bg_affine_pd control) = 4 \<and> length (rc_bg_reference_x control) = 4 \<and> length (rc_bg_reference_y control) = 4"

lemma control_of_timing_wf: "control_wf (ppu_render_control_of p)"
  by (simp add: control_wf_def ppu_render_control_of_def Let_def)

text \<open>What a layer offers: its bit, and a priority below the backdrop's.\<close>

definition offers :: "u8 \<Rightarrow> pixel_candidate option \<Rightarrow> bool" where
  "offers layer_bit r \<longleftrightarrow> (\<forall>c. r = Some c \<longrightarrow> pc_layer_bit c = layer_bit \<and> pc_priority c < 4)"

lemma decode_priority: "bgc_priority (decode_bg_control v) < 4"
  by (simp add: decode_bg_control_def word_less_nat_alt unat_ucast_narrow unat_and_numeral)

lemma text_unavailable: "\<not> text_bg_available_in_mode mode k \<Longrightarrow> text_candidate io m control mode layer_mask x y k = Some None"
  by (simp add: text_candidate_def)

context io_facade
begin

lemma text_candidate_yields:
  assumes "fine_bus m" and "control_wf control" and "k < 4"
  shows "yields (offers (of_nat k)) (text_candidate io m control mode layer_mask x y k)"
proof -
  have "vec_at (decoded_bg control) k = Some (decode_bg_control (rc_bg_control control ! k))"
    "vec_at (rc_bg_scroll_x control) k = Some (rc_bg_scroll_x control ! k)" "vec_at (rc_bg_scroll_y control) k = Some (rc_bg_scroll_y control ! k)"
    using assms(2,3) by (simp_all add: decoded_bg_def control_wf_def)
  then show ?thesis
    unfolding text_candidate_def Let_def
    by (auto simp: offers_def decode_priority intro!: yields_any_bind fetch_text_pixel_yields assms split: option.splits)
qed

lemma affine_candidate_yields:
  assumes "fine_bus m" and "control_wf control" and "length affine = 4" and "k < 4"
  shows "yields (offers (of_nat k)) (affine_candidate io m control mode affine layer_mask x y k)"
proof -
  have "vec_at (decoded_bg control) k = Some (decode_bg_control (rc_bg_control control ! k))" "vec_at affine k = Some (affine ! k)"
    using assms(2-4) by (simp_all add: decoded_bg_def control_wf_def)
  then show ?thesis
    unfolding affine_candidate_def Let_def
    by (auto simp: offers_def decode_priority intro!: yields_any_bind fetch_affine_pixel_yields assms split: option.splits)
qed

lemma bitmap_candidate_yields:
  assumes "fine_bus m"
  shows "yields (offers 2) (bitmap_candidate io m control mode layer_mask x y)"
  unfolding bitmap_candidate_def
  by (auto simp: offers_def yields_map_option intro!: yields_mono [OF fetch_bitmap_pixel_yields [OF assms]])

end

section \<open>Mixing\<close>

definition mix_in :: "pixel_candidate option \<Rightarrow> pixel_mix \<Rightarrow> pixel_mix" where
  "mix_in candidate mix = (case candidate of None \<Rightarrow> mix | Some c \<Rightarrow> snd (consider_candidate c mix))"

lemma mix_in_steps [simp]:
  "fst (mix_background r s) = mix_in r (fst s)" "fst (mix_bitmap r s) = mix_in r (fst s)" "fst (fst (mix_object r semi s)) = mix_in r (fst s)"
  by (auto simp: mix_background_def mix_bitmap_def mix_object_def mix_in_def split: option.splits prod.splits)

lemma fold_mix_in: "fold mix_in rs (mix_all backdrop cs) = mix_all backdrop (cs @ opaque rs)"
proof (induction rs arbitrary: cs)
  case (Cons r rs)
  show ?case
    using Cons.IH [of cs] Cons.IH [of "cs @ [the r]"]
    by (cases r) (simp_all add: mix_in_def opaque_def List.map_filter_def)
qed (simp add: opaque_def List.map_filter_def)

lemma yields_defined: "yields Q r \<Longrightarrow> r \<noteq> None"
  by (cases r) simp_all

lemma foldM_offered:
  assumes "\<And>k. k \<in> set ks \<Longrightarrow> f k \<noteq> None"
  shows "foldM (\<lambda>k s. map_option (\<lambda>c. g c s) (f k)) ks s = Some (fold (\<lambda>k. g (offered (f k))) ks s)"
  using assms
proof (induction ks arbitrary: s)
  case (Cons k ks)
  then obtain r where "f k = Some r"
    by fastforce
  then show ?case
    using Cons by (simp add: offered_def)
qed simp

lemma fold_mix_background: "fst (fold (\<lambda>k. mix_background (f k)) ks s) = fold mix_in (map f ks) (fst s)"
  by (induction ks arbitrary: s) simp_all

lemma mix_best_member: "mix_best (mix_all backdrop cs) \<in> insert backdrop (set cs)"
  by (induction cs rule: rev_induct) (auto simp: consider_candidate_def)

lemma effect_semi:
  "(pc_layer_bit (mix_best mix) = 4 \<longrightarrow> a = b) \<Longrightarrow> apply_color_effect control layer_mask mix a = apply_color_effect control layer_mask mix b"
  by (cases "pc_layer_bit (mix_best mix) = 4") (simp_all add: apply_color_effect_def)

lemma opaque_append: "opaque (xs @ ys) = opaque xs @ opaque ys"
  by (simp add: opaque_def List.map_filter_def)

lemma set_opaque: "c \<in> set (opaque rs) \<longleftrightarrow> Some c \<in> set rs"
  by (induction rs) (auto simp: opaque_def List.map_filter_def split: option.splits)

lemma layer_order_inj: "layer_order c = layer_order d \<Longrightarrow> pc_layer_bit c = pc_layer_bit d"
proof -
  have "(ucast b :: u32) + 1 \<noteq> 0" for b :: u8
    using less_trans [OF unat_u8_less [of b], of 4294967295] by (simp add: word_unat_eq_iff unat_word_ariths unat_ucast_widen)
  moreover have "(ucast b :: u32) = ucast b' \<longleftrightarrow> b = b'" for b b' :: u8
    by (simp add: word_unat_eq_iff unat_ucast_widen)
  ultimately show "layer_order c = layer_order d \<Longrightarrow> pc_layer_bit c = pc_layer_bit d"
    by (auto simp: layer_order_def split: if_splits dest: sym)
qed

lemma rank_layer: "cand_rank c = cand_rank d \<Longrightarrow> pc_layer_bit c = pc_layer_bit d"
  using precedes_rank [of c d] precedes_rank [of d c] layer_order_inj
  by (metis linorder_neq_iff precedes_def)

context io_facade
begin

lemma layer_source:
  assumes m: "fine_bus m" and control: "control_wf control" and affine: "length affine = 4" and object: "offers 4 object"
    and c: "c \<in> set (opaque (reference_layers io m control affine object layer_mask x scanline))"
  shows "pc_priority c < 4
    \<and> (if pc_layer_bit c = 4 then object
       else if text_bg_available_in_mode (video_mode control) (unat (pc_layer_bit c))
       then offered (text_candidate io m control (video_mode control) layer_mask (of_nat x) scanline (unat (pc_layer_bit c)))
       else if affine_bg_available_in_mode (video_mode control) (unat (pc_layer_bit c))
       then offered (affine_candidate io m control (video_mode control) affine layer_mask (of_nat x) scanline (unat (pc_layer_bit c)))
       else offered (bitmap_candidate io m control (video_mode control) layer_mask (of_nat x) scanline)) = Some c"
    (is "?front \<and> ?source")
proof -
  let ?mode = "video_mode control"
  let ?text = "\<lambda>k. text_candidate io m control ?mode layer_mask (of_nat x) scanline k"
  let ?affine = "\<lambda>k. affine_candidate io m control ?mode affine layer_mask (of_nat x) scanline k"
  let ?bitmap = "bitmap_candidate io m control ?mode layer_mask (of_nat x) scanline"
  have bit: "unat (of_nat k :: u8) = k" "(of_nat k :: u8) \<noteq> 4" if "k < 4" for k
    using that by (simp_all add: unat_of_nat word_unat_eq_iff)
  have off: "offers b (offered r)" if "yields (offers b) r" for b r
    using that by (cases r) (simp_all add: offered_def)
  have "Some c \<in> set (reference_layers io m control affine object layer_mask x scanline)"
    using c by (simp add: set_opaque)
  then consider (from_text) k where "k < 4" "offered (?text k) = Some c" | (from_affine) k where "k = 2 \<or> k = 3" "offered (?affine k) = Some c"
    | (from_bitmap) "offered ?bitmap = Some c" | (from_object) "object = Some c"
  proof -
    from \<open>Some c \<in> set (reference_layers io m control affine object layer_mask x scanline)\<close>
    have "(\<exists>k \<in> {0, 1, 2, 3}. Some c = offered (?text k)) \<or> (\<exists>k \<in> {2, 3}. Some c = offered (?affine k)) \<or> Some c = offered ?bitmap \<or> Some c = object"
      unfolding reference_layers_def Let_def set_append set_map Un_iff image_iff by (auto split: if_splits)
    then show thesis
    proof (elim disjE bexE)
      fix k
      assume "k \<in> {0, 1, 2, 3}" "Some c = offered (?text k)"
      then show thesis
        by (intro from_text [of k]) auto
    next
      fix k
      assume "k \<in> {2, 3}" "Some c = offered (?affine k)"
      then show thesis
        by (intro from_affine [of k]) auto
    qed (use from_bitmap from_object in simp_all)
  qed
  then show ?thesis
  proof cases
    case from_text
    from from_text(2) have "text_bg_available_in_mode ?mode k"
      by (rule contrapos_pp) (simp add: text_unavailable offered_def)
    moreover have "offers (of_nat k) (Some c)"
      using off [OF text_candidate_yields [OF m control from_text(1)]] from_text(2) by metis
    ultimately show ?thesis
      using from_text bit [OF from_text(1)] by (simp add: offers_def)
  next
    case from_affine
    then have k: "k < 4"
      by auto
    have "affine_bg_available_in_mode ?mode k"
      using from_affine(2) by (auto simp: offered_def affine_candidate_def split: option.splits bind_splits if_splits)
    moreover from this have "\<not> text_bg_available_in_mode ?mode k"
      by (auto simp: affine_bg_available_in_mode_def text_bg_available_in_mode_def split: if_splits)
    moreover have "offers (of_nat k) (Some c)"
      using off [OF affine_candidate_yields [OF m control assms(3) k]] from_affine(2) by metis
    ultimately show ?thesis
      using from_affine bit [OF k] by (simp add: offers_def)
  next
    case from_bitmap
    have "?mode \<ge> 3"
      using from_bitmap by (auto simp: bitmap_candidate_def offered_def split: if_splits)
    then have "?mode \<noteq> 0" "?mode \<noteq> 1" "?mode \<noteq> 2"
      by (auto simp: word_le_nat_alt)
    moreover have "offers 2 (Some c)"
      using off [OF bitmap_candidate_yields [OF m]] from_bitmap by metis
    ultimately show ?thesis
      using from_bitmap by (simp add: offers_def text_bg_available_in_mode_def affine_bg_available_in_mode_def)
  next
    case from_object
    then show ?thesis
      using assms(4) by (simp add: offers_def)
  qed
qed

lemma layers_sorted:
  fixes x :: nat and scanline layer_mask :: u16
  assumes "fine_bus m" "control_wf control" "length affine = 4" "offers 4 object"
  defines "cs \<equiv> opaque (reference_layers io m control affine object layer_mask x scanline)"
  shows "mix_all (backdrop_candidate backdrop) cs = reference_mix (backdrop_candidate backdrop) cs"
proof (rule mix_all_reference)
  note source = layer_source [OF assms(1-4), where layer_mask = layer_mask and x = x and scanline = scanline, folded cs_def]
  show "\<forall>c \<in> set cs. cand_rank c < cand_rank (backdrop_candidate backdrop)"
    using conjunct1 [OF source] by (fastforce simp: backdrop_candidate_def precedes_rank [symmetric] precedes_def)
  show "inj_on cand_rank (set cs)"
  proof (rule inj_onI)
    fix c d
    assume "c \<in> set cs" "d \<in> set cs" "cand_rank c = cand_rank d"
    then show "c = d"
      using source [of c] source [of d] rank_layer [of c d] by (metis option.inject)
  qed
qed

lemma mix_layers_effect:
  fixes x :: nat and scanline layer_mask :: u16
  assumes m: "fine_bus m" and control: "control_wf control" and affine: "length affine = 4"
    and rows: "rows_wf rows" "x < kScreenWidth" "offers 4 (or_candidate rows ! x)"
  defines "cs \<equiv> (if layer_mask = 0 then [] else opaque (reference_layers io m control affine (or_candidate rows ! x) layer_mask x scanline))"
  shows "yields (\<lambda>r. fst (fst r) = mix_all (backdrop_candidate backdrop) cs
      \<and> (pc_layer_bit (mix_best (fst (fst r))) = 4 \<longrightarrow> snd r = or_semi rows ! x))
    (mix_layers io m control (video_mode control) affine rows layer_mask x scanline (mix_all (backdrop_candidate backdrop) [], counters))"
proof (cases "layer_mask = 0")
  case True
  then show ?thesis
    by (simp add: mix_layers_def cs_def backdrop_candidate_def kBackdropLayerBit_def)
next
  case False
  let ?mode = "video_mode control"
  let ?text = "\<lambda>k. text_candidate io m control ?mode layer_mask (of_nat x) scanline k"
  let ?affine = "\<lambda>k. affine_candidate io m control ?mode affine layer_mask (of_nat x) scanline k"
  let ?bd = "backdrop_candidate backdrop"
  define object where "object = (if rc_dispcnt control AND kObjEnable \<noteq> 0 \<and> layer_mask AND push_bit 4 1 \<noteq> 0 then or_candidate rows ! x else None)"
  define s0 where "s0 = (mix_all ?bd [], counters)"
  define s1 where "s1 = (if ?mode \<le> 1 then fold (\<lambda>k. mix_background (offered (?text k))) [0, 1, 2, 3] s0 else s0)"
  define s2 where "s2 = (if ?mode = 1 \<or> ?mode = 2 then fold (\<lambda>k. mix_background (offered (?affine k))) [2, 3] s1 else s1)"
  obtain bitmap where bitmap: "bitmap_candidate io m control ?mode layer_mask (of_nat x) scanline = Some bitmap"
    using bitmap_candidate_yields [OF m] by (metis option.exhaust yields_simps(2))
  have text_mode: "text_bg_available_in_mode ?mode 0 \<longleftrightarrow> ?mode \<le> 1"
    by (auto simp: text_bg_available_in_mode_def word_le_nat_alt word_unat_eq_iff)
  have texts: "foldM (\<lambda>k s. map_option (\<lambda>c. mix_background c s) (?text k)) [0, 1, 2, 3] s0 = Some (fold (\<lambda>k. mix_background (offered (?text k))) [0, 1, 2, 3] s0)"
    by (rule foldM_offered, rule yields_defined [OF text_candidate_yields [OF m control]]) auto
  have affines: "foldM (\<lambda>k s. map_option (\<lambda>c. mix_background c s) (?affine k)) [2, 3] s1 = Some (fold (\<lambda>k. mix_background (offered (?affine k))) [2, 3] s1)"
    by (rule foldM_offered, rule yields_defined [OF affine_candidate_yields [OF m control affine]]) auto
  have texts_run: "(if ?mode \<le> 1 then foldM (\<lambda>k s. map_option (\<lambda>c. mix_background c s) (?text k)) [0, 1, 2, 3] s0 else Some s0) = Some s1"
    unfolding s1_def texts by simp
  have affines_run: "(if ?mode = 1 \<or> ?mode = 2 then foldM (\<lambda>k s. map_option (\<lambda>c. mix_background c s) (?affine k)) [2, 3] s1 else Some s1) = Some s2"
    unfolding s2_def affines by simp
  have object_read: "obj_candidate control layer_mask rows x = Some object" "vec_at (or_semi rows) x = Some (or_semi rows ! x)"
    using rows by (auto simp: obj_candidate_def object_def rows_wf_def)
  have run: "mix_layers io m control ?mode affine rows layer_mask x scanline s0 = Some (mix_object object (or_semi rows ! x) (mix_bitmap bitmap s2))"
    unfolding mix_layers_def text_mode if_not_P [OF False] texts_run Option.bind.simps affines_run bitmap object_read Let_def ..
  have layers: "reference_layers io m control affine obj layer_mask x scanline
      = (map (\<lambda>k. offered (?text k)) (if ?mode \<le> 1 then [0, 1, 2, 3] else [])
        @ map (\<lambda>k. offered (?affine k)) (if ?mode = 1 \<or> ?mode = 2 then [2, 3] else []) @ [bitmap])
        @ [if rc_dispcnt control AND kObjEnable \<noteq> 0 \<and> layer_mask AND push_bit 4 1 \<noteq> 0 then obj else None]" for obj
    unfolding reference_layers_def Let_def bitmap append_assoc offered_def option.case ..
  let ?pre = "opaque (map (\<lambda>k. offered (?text k)) (if ?mode \<le> 1 then [0, 1, 2, 3] else []) @ map (\<lambda>k. offered (?affine k)) (if ?mode = 1 \<or> ?mode = 2 then [2, 3] else []) @ [bitmap])"
  have "fst s1 = fold mix_in (map (\<lambda>k. offered (?text k)) (if ?mode \<le> 1 then [0, 1, 2, 3] else [])) (mix_all ?bd [])"
    by (simp add: s1_def fold_mix_background s0_def)
  moreover have "fst s2 = fold mix_in (map (\<lambda>k. offered (?affine k)) (if ?mode = 1 \<or> ?mode = 2 then [2, 3] else [])) (fst s1)"
    by (simp add: s2_def fold_mix_background)
  ultimately have "fst (mix_bitmap bitmap s2) = fold mix_in (map (\<lambda>k. offered (?text k)) (if ?mode \<le> 1 then [0, 1, 2, 3] else [])
      @ map (\<lambda>k. offered (?affine k)) (if ?mode = 1 \<or> ?mode = 2 then [2, 3] else []) @ [bitmap]) (mix_all ?bd [])"
    by (simp only: fold_append comp_apply mix_in_steps fold_simps)
  then have pre: "fst (mix_bitmap bitmap s2) = mix_all ?bd ?pre"
    by (simp only: fold_mix_in append_Nil)
  have cs: "cs = ?pre @ opaque [object]"
    unfolding cs_def if_not_P [OF False] layers object_def [symmetric] opaque_append ..
  have mixed: "fst (fst (mix_object object (or_semi rows ! x) (mix_bitmap bitmap s2))) = mix_all ?bd cs"
    using fold_mix_in [of "[object]" ?bd ?pre] unfolding cs mix_in_steps(3) pre by (simp only: fold_simps)
  have "pc_layer_bit (mix_best (mix_all ?bd ?pre)) \<noteq> 4"
  proof -
    have bd: "pc_layer_bit ?bd \<noteq> 4"
      by (simp add: backdrop_candidate_def kBackdropLayerBit_def)
    have no_object: "?pre = opaque (reference_layers io m control affine None layer_mask x scanline)"
      unfolding layers if_cancel opaque_append by (simp add: opaque_def List.map_filter_def)
    have "pc_layer_bit c \<noteq> 4" if "c \<in> set ?pre" for c
      using layer_source [OF m control affine, of None c] that unfolding no_object by (auto simp: offers_def split: if_splits)
    with bd show ?thesis
      using mix_best_member [of ?bd ?pre] by auto
  qed
  then have "pc_layer_bit (mix_best (fst (fst (mix_object object (or_semi rows ! x) (mix_bitmap bitmap s2))))) = 4
      \<longrightarrow> snd (mix_object object (or_semi rows ! x) (mix_bitmap bitmap s2)) = or_semi rows ! x"
    unfolding pre [symmetric] mix_in_steps(3)
    by (auto simp: mix_in_def mix_object_def consider_candidate_def split: option.splits if_splits)
  then show ?thesis
    using mixed unfolding s0_def [symmetric] run by simp
qed

end

end
