(* ===== verification/Ppu_Scanline.thy ===== *)
theory Ppu_Scanline
  imports Ppu_Compose
begin

text \<open>
  A whole scanline: the renderer returns for every scanline number and every control word, leaves the other rows alone, and shows
  at each pixel of its row the colour of the reference of \<open>Ppu_Compose\<close>; the colour effects as arithmetic on channels.
\<close>

section \<open>Admitted sprites and the line's parameters\<close>

definition sprites_ok :: "(sprite_attributes \<times> u16) list \<Rightarrow> bool" where
  "sprites_ok active \<longleftrightarrow> (\<forall>a \<in> set active. sp_priority (fst a) < 4)"

lemma object_at_offers: "sprites_ok active \<Longrightarrow> offers 4 (map_option fst (object_at io m control scanline active x))"
proof -
  have "a \<in> set active" if "find P active = Some a" for P a
    using that by (auto simp: find_Some_iff)
  then show "sprites_ok active \<Longrightarrow> offers 4 (map_option fst (object_at io m control scanline active x))"
    by (fastforce simp: offers_def object_at_def sprites_ok_def split: option.splits)
qed

lemma line_affine_params_yield:
  assumes "control_wf control"
  shows "yields (\<lambda>affine. length affine = 4) (line_affine_params control mode)"
proof -
  have "yields (\<lambda>_. True) (affine_params_of control k)" if "k < 4" for k
    using assms that by (simp add: affine_params_of_def control_wf_def)
  then have "yields (\<lambda>affine. length affine = 4) (affine_params_of control k \<bind> vec_put params k)" if "k < 4" "length params = 4" for k params
    using that by (intro yields_any_bind) simp_all
  then show ?thesis
    unfolding line_affine_params_def by (intro yields_if foldM_yields) auto
qed

section \<open>Rows\<close>

lemma white_line_effect:
  assumes "(unat scanline + 1) * kScreenWidth \<le> length framebuffer" and "n \<le> kScreenWidth"
  shows "yields (\<lambda>framebuffer'. length framebuffer' = length framebuffer \<and> (\<forall>i < length framebuffer. framebuffer' ! i =
      (if unat scanline * kScreenWidth \<le> i \<and> i < unat scanline * kScreenWidth + n then 0x7FFF else framebuffer ! i)))
    (foldM (\<lambda>x framebuffer. vec_put framebuffer (unat scanline * kScreenWidth + x) 0x7FFF) [0..<n] framebuffer)"
  using assms(2)
proof (induction n)
  case (Suc n)
  show ?case
    unfolding upt_Suc_append [OF le0] foldM_append foldM.simps
    by (rule yields_bind [OF Suc.IH]) (use Suc.prems assms(1) in \<open>auto simp: nth_list_update less_Suc_eq\<close>)
qed auto

lemma reference_color_15_bits: "reference_color io m control backdrop affine active x scanline \<le> 0x7FFF"
  unfolding reference_color_def Let_def normalize_color_def kColorMask_def
  by (simp add: word_le_nat_alt unat_and_numeral)

text \<open>The row a scanline ends with.\<close>

definition row_shows :: "u16 \<Rightarrow> (nat \<Rightarrow> u16) \<Rightarrow> u16 list \<Rightarrow> u16 list \<Rightarrow> bool" where
  "row_shows scanline shown framebuffer framebuffer' \<longleftrightarrow>
     length framebuffer' = length framebuffer
     \<and> (\<forall>i < length framebuffer. framebuffer' ! i =
         (if i div kScreenWidth = unat scanline then shown (i mod kScreenWidth) else framebuffer ! i))"

lemma row_showsI:
  assumes "length framebuffer' = length framebuffer \<and> (\<forall>i < length framebuffer. framebuffer' ! i =
      (if unat scanline * kScreenWidth \<le> i \<and> i < unat scanline * kScreenWidth + kScreenWidth
       then shown (i - unat scanline * kScreenWidth) else framebuffer ! i))"
  shows "row_shows scanline shown framebuffer framebuffer'"
proof -
  have "unat scanline * kScreenWidth \<le> i \<and> i < unat scanline * kScreenWidth + kScreenWidth \<longleftrightarrow> i div kScreenWidth = unat scanline"
    "i div kScreenWidth = unat scanline \<Longrightarrow> i - unat scanline * kScreenWidth = i mod kScreenWidth" for i
    by (auto simp: kScreenWidth_def minus_div_mult_eq_mod [symmetric])
  then show ?thesis
    using assms by (simp add: row_shows_def)
qed

lemma place_in_framebuffer:
  "unat scanline < kScreenHeight \<Longrightarrow> length framebuffer = kFramebufferPixels \<Longrightarrow> (unat scanline + 1) * kScreenWidth \<le> length framebuffer"
  by (simp add: kScreenHeight_def kFramebufferPixels_def kScreenWidth_def)

lemma white_line_shows:
  assumes "unat scanline < kScreenHeight" and "length framebuffer = kFramebufferPixels"
  shows "yields (row_shows scanline (\<lambda>_. 0x7FFF) framebuffer) (white_line scanline framebuffer)"
  unfolding white_line_def
  by (rule yields_mono [OF white_line_effect [OF place_in_framebuffer [OF assms] order_refl]]) (rule row_showsI, simp)

context io_facade
begin

lemma read_sprite_priority:
  assumes "fine_bus m"
  shows "yields (\<lambda>r. \<forall>s. r = Some s \<longrightarrow> sp_priority s < 4) (read_sprite io m index)"
proof -
  have p: "(ucast (drop_bit 10 v AND 3 :: u16) :: u8) < 4" for v :: u16
    by (simp add: word_less_nat_alt unat_ucast_narrow unat_and_numeral)
  have "\<forall>s. r = Some s \<longrightarrow> sp_priority s < 4" if "read_sprite io m index = Some r" for r
    using that by (auto simp: read_sprite_def Let_def p split: option.splits bind_splits if_splits prod.splits)
  moreover obtain r where "read_sprite io m index = Some r"
    using read_sprite_yields [OF assms] by (metis option.exhaust yields_simps(2))
  ultimately show ?thesis
    by simp
qed

lemma admit_sprites_yield:
  assumes "fine_bus m"
  shows "sprites_ok active \<Longrightarrow> yields sprites_ok (admit_sprites io m scanline indices remaining active)"
proof (induction indices arbitrary: remaining active)
  case (Cons index indices)
  obtain r where r: "read_sprite io m index = Some r" "\<forall>s. r = Some s \<longrightarrow> sp_priority s < 4"
    using read_sprite_priority [OF assms, of index] by (cases "read_sprite io m index") auto
  show ?case
  proof (cases r)
    case None
    then show ?thesis
      using Cons r(1) by simp
  next
    case (Some s)
    have snoc: "sprites_ok (active @ [(s, w)])" for w
      using Cons.prems r(2) Some by (simp add: sprites_ok_def)
    show ?thesis
      unfolding admit_sprites.simps r(1) Some Option.bind.simps option.case Let_def
      by (intro yields_if Cons.IH snoc Cons.prems; simp add: Cons.prems)
  qed
qed simp

lemma active_sprites_yield: "fine_bus m \<Longrightarrow> yields sprites_ok (active_sprites io m control scanline)"
  unfolding active_sprites_def by (intro yields_if admit_sprites_yield) (simp_all add: sprites_ok_def)

section \<open>Pixels\<close>

lemma render_pixel_effect:
  assumes m: "fine_bus m" and control: "control_wf control" and affine: "length affine = 4" and active: "sprites_ok active"
    and rows: "rows_hold io m control scanline active rows" and x: "x < kScreenWidth"
    and place: "unat scanline * kScreenWidth + x < length framebuffer"
  shows "yields (\<lambda>(framebuffer', counters'). framebuffer' = framebuffer[unat scanline * kScreenWidth + x
      := reference_color io m control backdrop affine active x scanline])
    (render_pixel io m control (video_mode control) backdrop affine rows scanline x (framebuffer, counters))"
proof -
  let ?hit = "window_at io m control scanline active x"
  define layer_mask where "layer_mask = window_layer_mask control (of_nat x) scanline ?hit"
  define counters' where "counters' = (if layer_mask = 0 then counters\<lparr>cnt_window_masked_pixels := cnt_window_masked_pixels counters + 1\<rparr> else counters)"
  have held: "vec_at (or_window rows) x = Some ?hit" "or_candidate rows ! x = map_option fst (object_at io m control scanline active x)"
    "or_semi rows ! x = (case object_at io m control scanline active x of None \<Rightarrow> False | Some (c, semi) \<Rightarrow> semi)"
    using rows x by (simp_all add: rows_hold_def)
  let ?cs = "if layer_mask = 0 then [] else opaque (reference_layers io m control affine (map_option fst (object_at io m control scanline active x)) layer_mask x scanline)"
  have object: "offers 4 (or_candidate rows ! x)"
    unfolding held by (rule object_at_offers [OF active])
  obtain r where r: "mix_layers io m control (video_mode control) affine rows layer_mask x scanline
      (mix_all (backdrop_candidate backdrop) [], counters') = Some r"
    and effect: "fst (fst r) = mix_all (backdrop_candidate backdrop) ?cs" "pc_layer_bit (mix_best (fst (fst r))) = 4 \<longrightarrow> snd r = or_semi rows ! x"
    using mix_layers_effect [OF m control affine rows_hold_wf [OF rows] x object, of backdrop layer_mask scanline counters']
    unfolding held(2) yields_def by (auto simp del: mix_all_simps split: option.splits)
  obtain mix counters'' semi where "r = ((mix, counters''), semi)"
    by (metis prod.exhaust)
  with r effect have run: "mix_layers io m control (video_mode control) affine rows layer_mask x scanline
      (mix_all (backdrop_candidate backdrop) [], counters') = Some ((mix, counters''), semi)"
    and mix: "mix = mix_all (backdrop_candidate backdrop) ?cs" and semi: "pc_layer_bit (mix_best mix) = 4 \<longrightarrow> semi = or_semi rows ! x"
    by simp_all
  have "mix = reference_mix (backdrop_candidate backdrop) ?cs"
    using layers_sorted [OF m control affine object_at_offers [OF active]] mix_all_reference [of "[]" "backdrop_candidate backdrop"]
    unfolding mix by (cases "layer_mask = 0") (simp_all del: mix_all_simps)
  then have "normalize_color (fst (apply_color_effect control layer_mask mix semi)) = reference_color io m control backdrop affine active x scanline"
    using effect_semi [OF semi] unfolding reference_color_def Let_def layer_mask_def [symmetric] held(3) by simp
  then show ?thesis
    using run place held(1) unfolding render_pixel_def mix_all_simps layer_mask_def counters'_def
    by (simp add: Let_def split_beta)
qed

lemma render_row:
  assumes m: "fine_bus m" and control: "control_wf control" and affine: "length affine = 4" and active: "sprites_ok active"
    and rows: "rows_hold io m control scanline active rows" and place: "(unat scanline + 1) * kScreenWidth \<le> length framebuffer"
    and n: "n \<le> kScreenWidth"
  shows "yields (\<lambda>(framebuffer', counters'). length framebuffer' = length framebuffer \<and> (\<forall>i < length framebuffer. framebuffer' ! i =
      (if unat scanline * kScreenWidth \<le> i \<and> i < unat scanline * kScreenWidth + n
       then reference_color io m control backdrop affine active (i - unat scanline * kScreenWidth) scanline else framebuffer ! i)))
    (foldM (render_pixel io m control (video_mode control) backdrop affine rows scanline) [0..<n] (framebuffer, counters))"
  using n
proof (induction n)
  case (Suc n)
  have pixel: "yields (\<lambda>(framebuffer', counters'). framebuffer' = fb[unat scanline * kScreenWidth + n
      := reference_color io m control backdrop affine active n scanline])
    (render_pixel io m control (video_mode control) backdrop affine rows scanline n (fb, c))" if "length fb = length framebuffer" for fb c
    by (rule render_pixel_effect [OF m control affine active rows]) (use Suc.prems place that in auto)
  have step: "yields (\<lambda>(framebuffer', counters'). length framebuffer' = length framebuffer \<and> (\<forall>i < length framebuffer. framebuffer' ! i =
      (if unat scanline * kScreenWidth \<le> i \<and> i < unat scanline * kScreenWidth + Suc n
       then reference_color io m control backdrop affine active (i - unat scanline * kScreenWidth) scanline else framebuffer ! i)))
    (render_pixel io m control (video_mode control) backdrop affine rows scanline n s)"
    if "case s of (fb, c) \<Rightarrow> length fb = length framebuffer \<and> (\<forall>i < length framebuffer. fb ! i =
      (if unat scanline * kScreenWidth \<le> i \<and> i < unat scanline * kScreenWidth + n
       then reference_color io m control backdrop affine active (i - unat scanline * kScreenWidth) scanline else framebuffer ! i))" for s
  proof (cases s)
    case (Pair fb c)
    with that have "length fb = length framebuffer"
      by simp
    then show ?thesis
      unfolding Pair by (rule yields_mono [OF pixel]) (use that Pair in \<open>auto simp: nth_list_update less_Suc_eq\<close>)
  qed
  show ?case
    unfolding upt_Suc_append [OF le0] foldM_append foldM.simps
    using Suc.prems by (intro yields_bind [OF Suc.IH]) (simp, intro yields_bind [OF step], simp_all)
qed auto

lemma read_backdrop_yields: "fine_bus m \<Longrightarrow> yields (\<lambda>_. True) (read_backdrop io m)"
  by (simp add: read_backdrop_def yields_map_option video_reads_yield)

lemma pixels_shown:
  assumes m: "fine_bus m" and control: "control_wf control" and fb: "length framebuffer = kFramebufferPixels" "unat scanline < kScreenHeight"
    and lit: "video_mode control \<le> 5" "rc_dispcnt control AND kForcedBlank = 0"
  shows "\<exists>backdrop active affine stats framebuffer'. read_backdrop io m = Some backdrop \<and> active_sprites io m control scanline = Some active
    \<and> line_affine_params control (video_mode control) = Some affine
    \<and> render_scanline io m control scanline framebuffer = Some (stats, framebuffer')
    \<and> prs_supported_mode stats \<and> \<not> prs_forced_blank stats
    \<and> row_shows scanline (\<lambda>x. reference_color io m control backdrop affine active x scanline) framebuffer framebuffer'"
proof -
  obtain backdrop where backdrop: "read_backdrop io m = Some backdrop"
    using read_backdrop_yields [OF m] by (cases "read_backdrop io m") auto
  obtain active where active: "active_sprites io m control scanline = Some active" "sprites_ok active"
    using active_sprites_yield [OF m, of control scanline] by (cases "active_sprites io m control scanline") auto
  obtain affine where affine: "line_affine_params control (video_mode control) = Some affine" "length affine = 4"
    using line_affine_params_yield [OF control, of "video_mode control"] by (cases "line_affine_params control (video_mode control)") auto
  obtain rows where rows: "foldM (draw_sprite io m control scanline) active no_obj_rows = Some rows" "rows_hold io m control scanline active rows"
    using draw_sprites_effect [OF m, of control scanline active] by (cases "foldM (draw_sprite io m control scanline) active no_obj_rows") auto
  obtain framebuffer' counters where run: "foldM (render_pixel io m control (video_mode control) backdrop affine rows scanline) [0..<kScreenWidth]
      (framebuffer, no_counters) = Some (framebuffer', counters)"
    and shown: "row_shows scanline (\<lambda>x. reference_color io m control backdrop affine active x scanline) framebuffer framebuffer'"
    using render_row [OF m control affine(2) active(2) rows(2) place_in_framebuffer [OF fb(2,1)] order_refl, of backdrop no_counters]
      row_showsI unfolding yields_def by (fastforce split: option.splits)
  show ?thesis
    using backdrop active(1) affine(1) rows(1) run shown lit fb(2)
    by (simp add: render_scanline_def Let_def not_le [symmetric])
qed

lemma scanline_returns:
  assumes m: "fine_bus m" and control: "control_wf control" and fb: "length framebuffer = kFramebufferPixels"
  shows "\<exists>stats framebuffer' shown. render_scanline io m control scanline framebuffer = Some (stats, framebuffer')
    \<and> (\<forall>x. shown x \<le> 0x7FFF) \<and> row_shows scanline shown framebuffer framebuffer'"
proof (cases "unat scanline < kScreenHeight \<and> video_mode control \<le> 5 \<and> rc_dispcnt control AND kForcedBlank = 0")
  case True
  then obtain backdrop active affine stats framebuffer' where "render_scanline io m control scanline framebuffer = Some (stats, framebuffer')"
    "row_shows scanline (\<lambda>x. reference_color io m control backdrop affine active x scanline) framebuffer framebuffer'"
    using pixels_shown [OF m control fb] by blast
  then show ?thesis
    using reference_color_15_bits by (intro exI conjI allI) assumption+
next
  case False
  show ?thesis
  proof (cases "unat scanline < kScreenHeight")
    case True
    then obtain framebuffer' where white: "white_line scanline framebuffer = Some framebuffer'" "row_shows scanline (\<lambda>_. 0x7FFF) framebuffer framebuffer'"
      using white_line_shows [OF True fb] by (cases "white_line scanline framebuffer") auto
    obtain backdrop where "read_backdrop io m = Some backdrop"
      using read_backdrop_yields [OF m] by (cases "read_backdrop io m") auto
    with white True False show ?thesis
      by (cases "video_mode control \<le> 5"; intro exI [of _ "\<lambda>_. 0x7FFF"] exI [of _ framebuffer'] exI)
        (auto simp: render_scanline_def Let_def not_less)
  next
    case beyond: False
    have "i div kScreenWidth \<noteq> unat scanline" if "i < length framebuffer" for i
      using that beyond by (auto simp: fb kFramebufferPixels_def kScreenHeight_def kScreenWidth_def)
    then show ?thesis
      using beyond by (intro exI [of _ "render_stats scanline False False"] exI [of _ framebuffer] exI [of _ "\<lambda>_. 0"])
        (simp add: render_scanline_def row_shows_def not_less)
  qed
qed

end

text \<open>C12. The scanline renderer never indexes outside its arrays: on a well-formed bus behind any facade that meets its contract,
  for every scanline number and every control word, it returns; it leaves the rows of the other scanlines as they were and writes
  15-bit colours to its own.\<close>

theorem render_scanline_safe:
  assumes "io_facade io fine" and "mb_wf b" and "fine c" and "control_wf control" and "length framebuffer = kFramebufferPixels"
  shows "\<exists>stats framebuffer'. render_scanline io (b, c) control scanline framebuffer = Some (stats, framebuffer')
    \<and> length framebuffer' = length framebuffer
    \<and> (\<forall>i < length framebuffer. if i div kScreenWidth = unat scanline then framebuffer' ! i \<le> 0x7FFF else framebuffer' ! i = framebuffer ! i)"
  using io_facade.scanline_returns [OF assms(1) _ assms(4,5), of "(b, c)" scanline] assms(2,3)
  by (auto simp: io_facade.fine_bus_def [OF assms(1)] row_shows_def)

theorem render_scanline_safe_witness:
  "render_scanline no_io_callbacks (new_memory_bus, ()) (ppu_render_control_of ppu_reset) 159 (renderer_clear 0) \<noteq> None"
  using render_scanline_safe [OF no_io.io_facade_axioms new_memory_bus_wf TrueI control_of_timing_wf, of "renderer_clear 0" "()" ppu_reset 159]
  by (auto simp: renderer_clear_def)

text \<open>C11. What a line shows: unless the screen is blanked, every pixel of the row is the colour computed from the layers at that pixel
  alone, where the window mask is looked up at the pixel, the two front layers are the first two of the opaque layers sorted by
  priority and layer order, and the sprite layer is the first opaque sprite in OAM order among those admitted to the line.\<close>

theorem render_scanline_reference:
  assumes "io_facade io fine" and "mb_wf b" and "fine c" and "control_wf control" and "length framebuffer = kFramebufferPixels"
    and "unat scanline < kScreenHeight" and "video_mode control \<le> 5" and "rc_dispcnt control AND kForcedBlank = 0"
  shows "\<exists>backdrop active affine stats framebuffer'.
    read_backdrop io (b, c) = Some backdrop \<and> active_sprites io (b, c) control scanline = Some active
    \<and> line_affine_params control (video_mode control) = Some affine
    \<and> render_scanline io (b, c) control scanline framebuffer = Some (stats, framebuffer')
    \<and> (\<forall>x < kScreenWidth. framebuffer' ! (unat scanline * kScreenWidth + x)
        = reference_color io (b, c) control backdrop affine active x scanline)"
proof -
  have "unat scanline * kScreenWidth + x < length framebuffer" "(unat scanline * kScreenWidth + x) div kScreenWidth = unat scanline"
    "(unat scanline * kScreenWidth + x) mod kScreenWidth = x" if "x < kScreenWidth" for x
    using that assms(5,6) by (simp_all add: kScreenWidth_def kScreenHeight_def kFramebufferPixels_def)
  then show ?thesis
    using io_facade.pixels_shown [OF assms(1) _ assms(4-8), of "(b, c)"] assms(2,3)
    by (fastforce simp: io_facade.fine_bus_def [OF assms(1)] row_shows_def)
qed

theorem render_scanline_reference_witness:
  "\<exists>stats framebuffer' backdrop affine active. render_scanline no_io_callbacks (new_memory_bus, ()) ((ppu_render_control_of ppu_reset)\<lparr>rc_dispcnt := 0x1F01\<rparr>) 10
      (renderer_clear 0) = Some (stats, framebuffer')
    \<and> framebuffer' ! 2410 = reference_color no_io_callbacks (new_memory_bus, ()) ((ppu_render_control_of ppu_reset)\<lparr>rc_dispcnt := 0x1F01\<rparr>)
        backdrop affine active 10 10"
proof -
  let ?control = "(ppu_render_control_of ppu_reset)\<lparr>rc_dispcnt := 0x1F01\<rparr>"
  have "control_wf ?control"
    using control_of_timing_wf [of ppu_reset] by (simp add: control_wf_def)
  moreover have "length (renderer_clear 0) = kFramebufferPixels" "unat (10 :: u16) < kScreenHeight" "video_mode ?control \<le> 5"
    "rc_dispcnt ?control AND kForcedBlank = 0"
    by (simp_all add: renderer_clear_def kScreenHeight_def video_mode_def kVideoModeMask_def kForcedBlank_def)
  moreover have "unat (10 :: u16) * kScreenWidth + 10 = 2410" "10 < kScreenWidth"
    by (simp_all add: kScreenWidth_def)
  ultimately show ?thesis
    using render_scanline_reference [OF no_io.io_facade_axioms new_memory_bus_wf TrueI, of ?control "renderer_clear 0" 10 "()"] by metis
qed

end
