(* ===== verification/Ppu_Effects.thy ===== *)
theory Ppu_Effects
  imports Ppu_Renderer
begin

text \<open>
  The colour effects of the renderer as arithmetic on the three five-bit channels of a colour, and the amount of brightness from which
  the channels no longer stay in their fields.
\<close>

definition channel_of :: "nat \<Rightarrow> u16 \<Rightarrow> nat" where
  "channel_of k color = unat color div 2 ^ (5 * k) mod 32"

lemma channel_less: "channel_of k color < 32"
  by (simp add: channel_of_def)

text \<open>The channel as the code extracts it, and a colour packed from its channels.\<close>

definition channel_word :: "nat \<Rightarrow> u16 \<Rightarrow> u16" where
  "channel_word k color = drop_bit (5 * k) (normalize_color color) AND 0x1F"

definition pack_channels :: "(nat \<Rightarrow> u16) \<Rightarrow> u16" where
  "pack_channels f = f 0 OR push_bit 5 (f 1) OR push_bit 10 (f 2)"

lemma three_cases: "k < 3 \<Longrightarrow> (k = 0 \<Longrightarrow> P) \<Longrightarrow> (k = 1 \<Longrightarrow> P) \<Longrightarrow> (k = 2 \<Longrightarrow> P) \<Longrightarrow> P" for k :: nat
  by linarith

lemma unat_channel: "k < 3 \<Longrightarrow> unat (channel_word k color) = channel_of k color"
proof -
  have m: "unat (w AND 0x1F) = unat w mod 32" for w :: u16
    by (subst unat_and_low_bits [of _ 5]) (simp_all add: mask_eq_exp_minus_1)
  have d: "n mod (a * b) div a = n div a mod b" if "0 < a" for n a b :: nat
    using that by (simp add: mod_mult2_eq)
  have shift: "n mod 32768 mod 32 = n mod 32" "n mod 32768 div 32 mod 32 = n div 32 mod 32" "n mod 32768 div 1024 mod 32 = n div 1024 mod 32" for n :: nat
    using d [of 32 n 1024] d [of 1024 n 32] by (simp_all add: mod_mod_cancel)
  have "unat (channel_word k color) = unat color mod 32768 div 2 ^ (5 * k) mod 32"
    unfolding channel_word_def normalize_color_def kColorMask_def m unat_drop_bit_eq unat_and_numeral
    by (simp only: drop_bit_eq_div)
  then show "k < 3 \<Longrightarrow> unat (channel_word k color) = channel_of k color"
    unfolding channel_of_def by (elim three_cases) (simp_all add: shift)
qed

lemma bits_below_32: "unat (v :: u16) < 32 \<Longrightarrow> bit v n \<Longrightarrow> n < 5"
proof -
  assume "unat v < 32"
  then have "take_bit 5 v = v"
    by (simp add: word_unat_eq_iff unsigned_take_bit_eq take_bit_nat_eq_self)
  then show "bit v n \<Longrightarrow> n < 5"
    by (metis bit_take_bit_iff)
qed

lemma channel_of_pack:
  assumes small: "\<And>j. j < 3 \<Longrightarrow> unat (f j) < 32" and k: "k < 3"
  shows "channel_of k (pack_channels f) = unat (f k)"
proof -
  have bits: "bit (f 0) n \<Longrightarrow> n < 5" "bit (f 1) n \<Longrightarrow> n < 5" "bit (f 2) n \<Longrightarrow> n < 5" for n
    using bits_below_32 [OF small [of 0]] bits_below_32 [OF small [of 1]] bits_below_32 [OF small [of 2]] by simp_all
  have "f 0 AND (push_bit 5 (f 1) OR push_bit 10 (f 2)) = 0" "push_bit 5 (f 1) AND push_bit 10 (f 2) = 0"
    by (auto intro!: bit_word_eqI simp: bit_and_iff bit_or_iff bit_push_bit_iff simp del: One_nat_def dest!: bits)
  then have "pack_channels f = f 0 + 32 * f 1 + 1024 * f 2"
    by (simp add: pack_channels_def disjunctive_add_eq_or [symmetric] or.assoc push_bit_eq_mult)
  then have "unat (pack_channels f) = unat (f 0) + 32 * unat (f 1) + 1024 * unat (f 2)"
    using small [of 0] small [of 1] small [of 2] by (simp add: unat_word_ariths)
  moreover have "(a + 32 * b + 1024 * c) mod 32 = a" "(a + 32 * b + 1024 * c) div 32 mod 32 = b" "(a + 32 * b + 1024 * c) div 1024 mod 32 = c"
    if "a < 32" "b < 32" "c < 32" for a b c :: nat
  proof -
    have eq: "a + 32 * b + 1024 * c = a + 32 * (b + 32 * c)"
      by simp
    have low: "(a + 32 * (b + 32 * c)) mod 32 = a" "(a + 32 * (b + 32 * c)) div 32 = b + 32 * c"
      using that(1) by (simp_all only: mod_mult_self2 div_mult_self2 mod_less div_less)
    have high: "n div 1024 = n div 32 div 32" for n :: nat
      by (simp add: div_mult2_eq [symmetric])
    show "(a + 32 * b + 1024 * c) mod 32 = a" "(a + 32 * b + 1024 * c) div 32 mod 32 = b" "(a + 32 * b + 1024 * c) div 1024 mod 32 = c"
      unfolding eq high low using that(2,3) by simp_all
  qed
  ultimately show ?thesis
    using small [of 0] small [of 1] small [of 2] k by (auto simp: channel_of_def elim!: three_cases)
qed

lemma alpha_blend_channel_unat:
  assumes "unat first < 32" and "unat second < 32"
  shows "unat (alpha_blend_channel first second eva evb) = min 31 ((unat first * unat eva + unat second * unat evb) div 16)"
proof -
  have "unat c * unat e \<le> 31 * 65535" if "unat c < 32" for c e :: u16
    using that unat_u16_less [of e] by (intro mult_le_mono) linarith+
  from this [OF assms(1), of eva] this [OF assms(2), of evb]
  have b: "unat (drop_bit 4 (ucast first * ucast eva + ucast second * ucast evb) :: u32) = (unat first * unat eva + unat second * unat evb) div 16"
    by (simp add: unat_drop_bit_eq drop_bit_eq_div unat_word_ariths unat_ucast_widen)
  show ?thesis
    unfolding alpha_blend_channel_def Let_def by (simp add: word_less_nat_alt b unat_ucast_narrow min_def)
qed

lemma brightness_channel_unat:
  assumes "unat channel < 32" and "unat amount \<le> 16"
  shows "unat (brightness_channel amount increase channel)
    = (if increase then unat channel + (31 - unat channel) * unat amount div 16 else unat channel - unat channel * unat amount div 16)"
proof -
  have m: "(31 - unat channel) * unat amount \<le> (31 - unat channel) * 16" "unat channel * unat amount \<le> unat channel * 16"
    using assms(2) by (simp_all add: mult_le_mono)
  then have less: "(31 - unat channel) * unat amount < 4294967296" "(31 - unat channel) * unat amount div 16 \<le> 31 - unat channel"
    using assms(1) by linarith+
  have "unat (31 - ucast channel :: u32) = 31 - unat channel"
    using assms(1) by (subst unat_sub) (simp_all add: word_le_nat_alt unat_ucast_widen)
  then have "unat (drop_bit 4 ((31 - ucast channel) * ucast amount) :: u32) = (31 - unat channel) * unat amount div 16"
    using less(1) by (simp add: unat_drop_bit_eq drop_bit_eq_div unat_word_ariths unat_ucast_widen)
  then have up: "unat (ucast (ucast channel + drop_bit 4 ((31 - ucast channel) * ucast amount) :: u32) :: u16)
      = unat channel + (31 - unat channel) * unat amount div 16"
    using less(2) assms(1) by (simp add: unat_ucast_narrow unat_word_ariths unat_ucast_widen)
  have "uint channel - uint channel * uint amount div 16 = int (unat channel - unat channel * unat amount div 16)"
    using div_le_mono [OF m(2), of 16] by (simp add: of_nat_diff zdiv_int)
  then have "unat (word_of_int (uint channel - uint channel * uint amount div 16) :: u16) = unat channel - unat channel * unat amount div 16"
    using assms(1) by (simp add: unat_of_nat)
  with up show ?thesis
    by (simp add: brightness_channel_def)
qed

lemma brightness_channel_less:
  assumes "unat channel < 32" and "unat amount \<le> 16"
  shows "unat (brightness_channel amount increase channel) < 32"
proof -
  have "(31 - unat channel) * unat amount div 16 \<le> (31 - unat channel) * 16 div 16"
    by (intro div_le_mono mult_le_mono2 assms(2))
  then show ?thesis
    using assms(1) unfolding brightness_channel_unat [OF assms] by auto
qed

lemma alpha_blend_pack:
  "alpha_blend color below eva evb = pack_channels (\<lambda>k. alpha_blend_channel (channel_word k color) (channel_word k below) eva evb)"
  by (simp add: alpha_blend_def Let_def or.assoc pack_channels_def channel_word_def)

lemma brightness_blend_pack:
  "brightness_blend color amount increase = pack_channels (\<lambda>k. brightness_channel amount increase (channel_word k color))"
  by (simp add: brightness_blend_def Let_def or.assoc pack_channels_def channel_word_def)

text \<open>C38. The colour effects act on the three channels separately: alpha blending gives each channel the weighted sum in sixteenths,
  saturated at 31, for all coefficients; a brightness effect of at most sixteen sixteenths moves each channel that share of the way to
  white or to black.\<close>

theorem color_effects_spec:
  assumes "k < 3" and "unat amount \<le> 16"
  shows "channel_of k (alpha_blend color below eva evb)
      = min 31 ((channel_of k color * unat eva + channel_of k below * unat evb) div 16)
    \<and> channel_of k (brightness_blend color amount True) = channel_of k color + (31 - channel_of k color) * unat amount div 16
    \<and> channel_of k (brightness_blend color amount False) = channel_of k color - channel_of k color * unat amount div 16"
proof -
  have small: "unat (channel_word j v) < 32" if "j < 3" for j v
    unfolding unat_channel [OF that] by (rule channel_less)
  have "channel_of k (alpha_blend color below eva evb) = unat (alpha_blend_channel (channel_word k color) (channel_word k below) eva evb)"
    unfolding alpha_blend_pack by (rule channel_of_pack [OF _ assms(1)]) (simp add: alpha_blend_channel_unat small)
  moreover have "channel_of k (brightness_blend color amount increase) = unat (brightness_channel amount increase (channel_word k color))" for increase
    unfolding brightness_blend_pack by (rule channel_of_pack [OF _ assms(1)]) (rule brightness_channel_less [OF small assms(2)])
  ultimately show ?thesis
    using alpha_blend_channel_unat [OF small small, of k k] brightness_channel_unat [OF small assms(2)] assms(1)
    by (simp add: unat_channel)
qed

theorem color_effects_spec_witness:
  "channel_of 1 (alpha_blend 0x7FFF 0x7FFF 16 16) = 31 \<and> channel_of 1 (brightness_blend 0x03E0 8 False) = 16"
  using color_effects_spec [of 1 8 "0x7FFF" "0x7FFF" 16 16] color_effects_spec [of 1 8 "0x03E0" 0 0 0]
  by (simp add: channel_of_def)

lemma full_channels:
  fixes x :: u16
  assumes "x AND 0x7FE0 = 0x7FE0" and "k = 1 \<or> k = 2"
  shows "channel_of k x = 31"
proof -
  have "bit x n" if "5 \<le> n" "n < 15" for n
  proof -
    have "(0x7FE0 :: u16) = push_bit 5 (mask 10)"
      by (simp add: mask_eq_exp_minus_1 push_bit_eq_mult)
    then have "bit (x AND 0x7FE0) n"
      unfolding assms(1) using that by (simp only: bit_push_bit_iff bit_mask_iff) auto
    then show ?thesis
      by (simp only: bit_and_iff)
  qed
  moreover have "channel_word k x = drop_bit (5 * k) (x AND mask 15) AND mask 5"
    by (simp add: channel_word_def normalize_color_def kColorMask_def mask_eq_exp_minus_1)
  ultimately have "channel_word k x = mask 5"
    using assms(2) by (intro bit_word_eqI) (auto simp: bit_and_iff bit_drop_bit_eq bit_mask_iff)
  then show ?thesis
    using unat_channel [of k x] assms(2) by (auto simp: mask_eq_exp_minus_1)
qed

text \<open>C39. The brightness amount is not limited to sixteen: for the amounts 17 to 31, which the five-bit register field admits, darkening
  a colour of full red drives the red channel below zero, and the wrapped difference sets every bit of green and blue.\<close>

theorem brightness_wraps:
  assumes "16 < unat amount" and "unat amount \<le> 31" and "channel_of 0 color = 31"
  shows "channel_of 1 (brightness_blend color amount False) = 31 \<and> channel_of 2 (brightness_blend color amount False) = 31"
proof -
  have red: "channel_word 0 color = 31"
    using assms(3) unat_channel [of 0 color] by (simp add: word_unat_eq_iff)
  have "\<forall>a \<in> set [17..<32]. (word_of_int (31 - 31 * int a div 16) :: u16) AND 0x7FE0 = 0x7FE0"
    by (simp add: upt_rec)
  moreover have "unat amount \<in> set [17..<32]"
    using assms(1,2) unfolding set_upt by simp
  ultimately have "(word_of_int (31 - 31 * int (unat amount) div 16) :: u16) AND 0x7FE0 = 0x7FE0"
    by (rule bspec)
  then have "brightness_channel amount False 31 AND 0x7FE0 = 0x7FE0"
    by (simp add: brightness_channel_def)
  moreover have "(x OR y) AND m = m" if "x AND m = m" for x y m :: u16
    using that by (auto simp: bit_eq_iff bit_simps)
  ultimately have "brightness_blend color amount False AND 0x7FE0 = 0x7FE0"
    unfolding brightness_blend_pack pack_channels_def red by (simp only: or.assoc)
  then show ?thesis
    by (simp add: full_channels)
qed

theorem brightness_wraps_witness: "channel_of 1 (brightness_blend 0x001F 31 False) = 31"
  using brightness_wraps [of 31 "0x001F"] by (simp add: channel_of_def)

end
