(* ===== verification/Scheduler_State.thy ===== *)
theory Scheduler_State
  imports State_Hash Cpu_State Interrupts
begin

text \<open>
  The state of the scheduler, \<open>src/src/core/core_scheduler.cpp\<close>: the fields that \<open>CoreSchedulerState\<close> lists are all the fields
  the class owns besides its references to the devices, so one record stands for the object and for its save state. Modelled here are
  reset, save and load, the fingerprint with its historical variant, the halt latch, the latency of the interrupt line and the stack of
  pending BIOS work.
\<close>

record hle_irq_frame =
  hif_return_lr :: u32
  hif_saved_registers :: "u32 list option"
  hif_long_timer_return_pending :: bool
  hif_slow_timer0_return_pending :: bool

record hle_work_frame =
  hwf_remaining_cycles :: u64
  hwf_owner_irq_depth :: u32

record core_scheduler_state =
  sch_scheduler_cycles :: u64
  sch_halted :: bool
  sch_last_fetch_address :: "u32 option"
  sch_last_fetch_width_bytes :: "u8 option"
  sch_last_fetch_window :: "u8 option"
  sch_prefetch_buffer_halfwords :: u8
  sch_suppress_next_game_pak_prefetch :: bool
  sch_recover_next_game_pak_data_fetch :: bool
  sch_suppress_next_thumb_prefetch_execute_bubble :: bool
  sch_previous_thumb_internal_load :: bool
  sch_last_waitcnt_control :: "u16 option"
  sch_hle_irq_return_lr :: "u32 option"
  sch_hle_irq_saved_registers :: "u32 list option"
  sch_hle_irq_reentry_dispatch_pending :: bool
  sch_hle_irq_return_latency_pending :: bool
  sch_hle_irq_post_return_latency_armed :: bool
  sch_hle_irq_post_return_dispatch_pending :: bool
  sch_hle_irq_chained_post_return_dispatch_pending :: bool
  sch_hle_irq_chained_post_return_data_dispatch_pending :: bool
  sch_hle_irq_chained_post_return_spaced_data_dispatch_pending :: bool
  sch_hle_irq_long_timer_chained_return_pending :: bool
  sch_hle_irq_slow_timer0_return_pending :: bool
  sch_hle_irq_post_return_chain_active :: bool
  sch_hle_irq_chained_spaced_data_service_count :: u8
  sch_auto_irq_line_high :: bool
  sch_auto_irq_latency_cycles :: u8
  sch_timer_io_access_gap_cycles :: u32
  sch_thumb_misfetch_recovery_count :: u32
  sch_hle_irq_outer_frames :: "hle_irq_frame list"
  sch_hle_work_frames :: "hle_work_frame list"

definition new_scheduler_state :: core_scheduler_state where
  "new_scheduler_state =
     \<lparr>sch_scheduler_cycles = 0, sch_halted = False, sch_last_fetch_address = None, sch_last_fetch_width_bytes = None,
      sch_last_fetch_window = None, sch_prefetch_buffer_halfwords = 0, sch_suppress_next_game_pak_prefetch = False,
      sch_recover_next_game_pak_data_fetch = False, sch_suppress_next_thumb_prefetch_execute_bubble = False,
      sch_previous_thumb_internal_load = False, sch_last_waitcnt_control = None, sch_hle_irq_return_lr = None,
      sch_hle_irq_saved_registers = None, sch_hle_irq_reentry_dispatch_pending = False, sch_hle_irq_return_latency_pending = False,
      sch_hle_irq_post_return_latency_armed = False, sch_hle_irq_post_return_dispatch_pending = False,
      sch_hle_irq_chained_post_return_dispatch_pending = False, sch_hle_irq_chained_post_return_data_dispatch_pending = False,
      sch_hle_irq_chained_post_return_spaced_data_dispatch_pending = False, sch_hle_irq_long_timer_chained_return_pending = False,
      sch_hle_irq_slow_timer0_return_pending = False, sch_hle_irq_post_return_chain_active = False,
      sch_hle_irq_chained_spaced_data_service_count = 0, sch_auto_irq_line_high = False, sch_auto_irq_latency_cycles = 0,
      sch_timer_io_access_gap_cycles = 0, sch_thumb_misfetch_recovery_count = 0, sch_hle_irq_outer_frames = [],
      sch_hle_work_frames = []\<rparr>"

definition kAutoIrqLatencyCycles :: u8 where "kAutoIrqLatencyCycles = 5"

section \<open>Reset and latches\<close>

definition reset_auto_irq_latency :: "core_scheduler_state \<Rightarrow> core_scheduler_state" where
  "reset_auto_irq_latency s =
     s\<lparr>sch_auto_irq_line_high := False, sch_auto_irq_latency_cycles := 0, sch_hle_irq_post_return_latency_armed := False\<rparr>"

definition reset_fetch_timing_sequence :: "core_scheduler_state \<Rightarrow> core_scheduler_state" where
  "reset_fetch_timing_sequence s =
     s\<lparr>sch_last_fetch_address := None, sch_last_fetch_width_bytes := None, sch_last_fetch_window := None,
       sch_prefetch_buffer_halfwords := 0, sch_suppress_next_game_pak_prefetch := False,
       sch_recover_next_game_pak_data_fetch := False\<rparr>"

definition reset_scheduler_cycles :: "core_scheduler_state \<Rightarrow> core_scheduler_state" where
  "reset_scheduler_cycles s =
     (let s = s\<lparr>sch_scheduler_cycles := 0, sch_halted := False, sch_hle_irq_return_lr := None, sch_hle_irq_saved_registers := None,
            sch_hle_irq_outer_frames := [], sch_hle_work_frames := [], sch_hle_irq_reentry_dispatch_pending := False,
            sch_hle_irq_return_latency_pending := False, sch_hle_irq_post_return_latency_armed := False,
            sch_hle_irq_post_return_dispatch_pending := False, sch_hle_irq_chained_post_return_dispatch_pending := False,
            sch_hle_irq_chained_post_return_data_dispatch_pending := False,
            sch_hle_irq_chained_post_return_spaced_data_dispatch_pending := False,
            sch_hle_irq_long_timer_chained_return_pending := False, sch_hle_irq_slow_timer0_return_pending := False,
            sch_hle_irq_post_return_chain_active := False, sch_hle_irq_chained_spaced_data_service_count := 0\<rparr>;
          s = reset_fetch_timing_sequence (reset_auto_irq_latency s)
      in s\<lparr>sch_last_waitcnt_control := None, sch_suppress_next_game_pak_prefetch := False,
           sch_recover_next_game_pak_data_fetch := False, sch_suppress_next_thumb_prefetch_execute_bubble := False,
           sch_previous_thumb_internal_load := False, sch_timer_io_access_gap_cycles := 0, sch_thumb_misfetch_recovery_count := 0\<rparr>)"

text \<open>Reset reaches every field: the state does not depend on what was there before.\<close>

lemma reset_scheduler_cycles_new: "reset_scheduler_cycles s = new_scheduler_state"
  by (cases s) (simp add: reset_scheduler_cycles_def reset_fetch_timing_sequence_def reset_auto_irq_latency_def new_scheduler_state_def Let_def)

definition scheduler_save_state :: "core_scheduler_state \<Rightarrow> core_scheduler_state" where
  "scheduler_save_state s = s"

definition scheduler_load_state :: "core_scheduler_state \<Rightarrow> core_scheduler_state \<Rightarrow> core_scheduler_state" where
  "scheduler_load_state st s = st"

definition halt_until_interrupt :: "core_scheduler_state \<Rightarrow> core_scheduler_state" where
  "halt_until_interrupt s = s\<lparr>sch_halted := True\<rparr>"

definition wake_from_halt_if_irq_pending :: "interrupt_controller \<Rightarrow> core_scheduler_state \<Rightarrow> bool \<times> core_scheduler_state" where
  "wake_from_halt_if_irq_pending ic s =
     (if \<not> sch_halted s \<or> \<not> ic_irq_line_active ic then (False, s) else (True, s\<lparr>sch_halted := False\<rparr>))"

definition update_auto_irq_latency :: "interrupt_controller \<Rightarrow> arm7tdmi \<Rightarrow> u32 \<Rightarrow> core_scheduler_state \<Rightarrow> core_scheduler_state" where
  "update_auto_irq_latency ic cpu elapsed_cycles s =
     (if \<not> (ic_irq_line_active ic \<and> \<not> cpu_irq_disabled cpu) then reset_auto_irq_latency s
      else if \<not> sch_auto_irq_line_high s
      then s\<lparr>sch_auto_irq_line_high := True, sch_auto_irq_latency_cycles := kAutoIrqLatencyCycles\<rparr>
      else if (ucast (sch_auto_irq_latency_cycles s) :: u32) > elapsed_cycles
      then s\<lparr>sch_auto_irq_latency_cycles := ucast (ucast (sch_auto_irq_latency_cycles s) - elapsed_cycles)\<rparr>
      else s\<lparr>sch_auto_irq_latency_cycles := 0\<rparr>)"

definition auto_irq_ready :: "interrupt_controller \<Rightarrow> arm7tdmi \<Rightarrow> core_scheduler_state \<Rightarrow> bool" where
  "auto_irq_ready ic cpu s \<longleftrightarrow>
     ic_irq_line_active ic \<and> \<not> cpu_irq_disabled cpu \<and> sch_auto_irq_line_high s \<and> sch_auto_irq_latency_cycles s = 0"

definition hle_irq_depth :: "core_scheduler_state \<Rightarrow> u32" where
  "hle_irq_depth s = of_nat (length (sch_hle_irq_outer_frames s)) + (if sch_hle_irq_saved_registers s \<noteq> None then 1 else 0)"

definition queue_hle_work :: "u64 \<Rightarrow> core_scheduler_state \<Rightarrow> core_scheduler_state" where
  "queue_hle_work cycles s =
     (if cycles \<noteq> 0
      then s\<lparr>sch_hle_work_frames := sch_hle_work_frames s @ [\<lparr>hwf_remaining_cycles = cycles, hwf_owner_irq_depth = hle_irq_depth s\<rparr>]\<rparr>
      else s)"

section \<open>Fingerprint\<close>

definition hash_optional :: "('a \<Rightarrow> u64 \<Rightarrow> u64) \<Rightarrow> 'a option \<Rightarrow> u64 \<Rightarrow> u64" where
  "hash_optional add v h = (case v of None \<Rightarrow> add_bool False h | Some x \<Rightarrow> add x (add_bool True h))"

definition add_irq_registers :: "bool \<Rightarrow> u32 list \<Rightarrow> u64 \<Rightarrow> u64" where
  "add_irq_registers legacy_irq_registers registers h =
     (if legacy_irq_registers then add_bytes (map ucast registers) h
      else fold add_u32 registers (add_u64 (of_nat (length registers)) h))"

definition hash_irq_frame :: "bool \<Rightarrow> hle_irq_frame \<Rightarrow> u64 \<Rightarrow> u64" where
  "hash_irq_frame legacy_irq_registers frame h =
     add_bool (hif_slow_timer0_return_pending frame) (add_bool (hif_long_timer_return_pending frame)
       (hash_optional (add_irq_registers legacy_irq_registers) (hif_saved_registers frame) (add_u32 (hif_return_lr frame) h)))"

definition hash_work_frame :: "hle_work_frame \<Rightarrow> u64 \<Rightarrow> u64" where
  "hash_work_frame frame h = add_u32 (hwf_owner_irq_depth frame) (add_u64 (hwf_remaining_cycles frame) h)"

definition scheduler_state_hash_impl :: "bool \<Rightarrow> core_scheduler_state \<Rightarrow> u64" where
  "scheduler_state_hash_impl legacy_irq_registers s =
     (let h = add_bool (sch_halted s) (add_u64 (sch_scheduler_cycles s) kOffsetBasis);
          h = hash_optional add_u32 (sch_last_fetch_address s) h;
          h = hash_optional add_u8 (sch_last_fetch_width_bytes s) h;
          h = hash_optional add_u8 (sch_last_fetch_window s) h;
          h = add_u8 (sch_prefetch_buffer_halfwords s) h;
          h = fold add_bool [sch_suppress_next_game_pak_prefetch s, sch_recover_next_game_pak_data_fetch s,
                sch_suppress_next_thumb_prefetch_execute_bubble s, sch_previous_thumb_internal_load s] h;
          h = hash_optional add_u16 (sch_last_waitcnt_control s) h;
          h = hash_optional add_u32 (sch_hle_irq_return_lr s) h;
          h = hash_optional (add_irq_registers legacy_irq_registers) (sch_hle_irq_saved_registers s) h;
          h = fold add_bool [sch_hle_irq_reentry_dispatch_pending s, sch_hle_irq_return_latency_pending s,
                sch_hle_irq_post_return_latency_armed s, sch_hle_irq_post_return_dispatch_pending s,
                sch_hle_irq_chained_post_return_dispatch_pending s, sch_hle_irq_chained_post_return_data_dispatch_pending s,
                sch_hle_irq_chained_post_return_spaced_data_dispatch_pending s, sch_hle_irq_long_timer_chained_return_pending s,
                sch_hle_irq_slow_timer0_return_pending s, sch_hle_irq_post_return_chain_active s] h;
          h = add_u8 (sch_hle_irq_chained_spaced_data_service_count s) h;
          h = add_u8 (sch_auto_irq_latency_cycles s) (add_bool (sch_auto_irq_line_high s) h);
          h = add_u32 (sch_thumb_misfetch_recovery_count s) (add_u32 (sch_timer_io_access_gap_cycles s) h);
          h = (if sch_hle_irq_outer_frames s = [] then h
               else fold (hash_irq_frame legacy_irq_registers) (sch_hle_irq_outer_frames s)
                 (add_u64 (of_nat (length (sch_hle_irq_outer_frames s))) (add_u32 0x4952514E h)))
      in if sch_hle_work_frames s = [] then h
         else fold hash_work_frame (sch_hle_work_frames s)
           (add_u64 (of_nat (length (sch_hle_work_frames s))) (add_u32 0x484C4557 h)))"

definition scheduler_state_hash :: "core_scheduler_state \<Rightarrow> u64" where
  "scheduler_state_hash s = scheduler_state_hash_impl False s"

definition legacy_irq_state_hash :: "core_scheduler_state \<Rightarrow> u64" where
  "legacy_irq_state_hash s = scheduler_state_hash_impl True s"

section \<open>Invariant\<close>

text \<open>
  What the save state format relies on: a nested interrupt frame has an outer one, register banks have 13 entries, and the pending work
  is a stack of unfinished frames, each owned by a deeper interrupt level than the one below it.
\<close>

definition irq_depth :: "core_scheduler_state \<Rightarrow> nat" where
  "irq_depth s = length (sch_hle_irq_outer_frames s) + (if sch_hle_irq_saved_registers s \<noteq> None then 1 else 0)"

definition registers_ok :: "u32 list option \<Rightarrow> bool" where
  "registers_ok r \<longleftrightarrow> (\<forall>rs. r = Some rs \<longrightarrow> length rs = 13)"

definition scheduler_wf :: "core_scheduler_state \<Rightarrow> bool" where
  "scheduler_wf s \<longleftrightarrow> registers_ok (sch_hle_irq_saved_registers s)
     \<and> (\<forall>f \<in> set (sch_hle_irq_outer_frames s). registers_ok (hif_saved_registers f))
     \<and> (sch_hle_irq_outer_frames s \<noteq> [] \<longrightarrow> sch_hle_irq_return_lr s \<noteq> None)
     \<and> length (sch_hle_irq_outer_frames s) < 2 ^ 31 \<and> length (sch_hle_work_frames s) < 2 ^ 32
     \<and> (\<forall>f \<in> set (sch_hle_work_frames s). hwf_remaining_cycles f \<noteq> 0 \<and> unat (hwf_owner_irq_depth f) \<le> irq_depth s)
     \<and> sorted_wrt (<) (map hwf_owner_irq_depth (sch_hle_work_frames s))"

lemma new_scheduler_wf [wf_intros]: "scheduler_wf new_scheduler_state"
  by (simp add: scheduler_wf_def new_scheduler_state_def registers_ok_def)

lemma hle_irq_depth_unat: "scheduler_wf s \<Longrightarrow> unat (hle_irq_depth s) = irq_depth s"
  by (simp add: scheduler_wf_def hle_irq_depth_def irq_depth_def unat_word_ariths unat_of_nat)

lemma latches_wf [wf_intros]:
  "scheduler_wf s \<Longrightarrow> scheduler_wf (halt_until_interrupt s)"
  "scheduler_wf s \<Longrightarrow> scheduler_wf (snd (wake_from_halt_if_irq_pending ic s))"
  "scheduler_wf s \<Longrightarrow> scheduler_wf (update_auto_irq_latency ic cpu elapsed s)"
  "scheduler_wf s \<Longrightarrow> scheduler_wf (reset_fetch_timing_sequence s)"
  by (simp_all add: scheduler_wf_def halt_until_interrupt_def wake_from_halt_if_irq_pending_def update_auto_irq_latency_def
      reset_auto_irq_latency_def reset_fetch_timing_sequence_def irq_depth_def)

text \<open>Work is queued on top of the stack: the invariant asks that no frame of the current level is pending, which is how BIOS calls
  reach the queue (work of the running level is finished first).\<close>

lemma queue_hle_work_wf:
  assumes "scheduler_wf s" and "length (sch_hle_work_frames s) + 1 < 2 ^ 32"
    and "\<forall>f \<in> set (sch_hle_work_frames s). hwf_owner_irq_depth f < hle_irq_depth s"
  shows "scheduler_wf (queue_hle_work cycles s)"
  using assms hle_irq_depth_unat [OF assms(1)]
  by (auto simp: scheduler_wf_def queue_hle_work_def irq_depth_def sorted_wrt_append)

text \<open>The interrupt line is serviced only after its latency: the counter runs from five to zero while the line stays active.\<close>

lemma auto_irq_latency_counts:
  assumes "ic_irq_line_active ic" "\<not> cpu_irq_disabled cpu" "sch_auto_irq_line_high s"
  shows "unat (sch_auto_irq_latency_cycles (update_auto_irq_latency ic cpu elapsed s)) = unat (sch_auto_irq_latency_cycles s) - unat elapsed"
    "auto_irq_ready ic cpu (update_auto_irq_latency ic cpu elapsed s) \<longleftrightarrow> unat (sch_auto_irq_latency_cycles s) \<le> unat elapsed"
proof -
  let ?c = "sch_auto_irq_latency_cycles s"
  have small: "(unat ?c - unat elapsed) mod 256 = unat ?c - unat elapsed"
    by (rule mod_less) (rule le_less_trans [OF diff_le_self unat_u8_less])
  show count: "unat (sch_auto_irq_latency_cycles (update_auto_irq_latency ic cpu elapsed s)) = unat ?c - unat elapsed"
  proof (cases "elapsed < ucast ?c")
    case True
    then have "unat (ucast ?c - elapsed :: u32) = unat ?c - unat elapsed"
      by (subst unat_sub) (simp_all add: word_less_nat_alt word_le_nat_alt unat_ucast_widen)
    then show ?thesis
      using True assms small by (simp add: update_auto_irq_latency_def unat_ucast_narrow)
  next
    case False
    then show ?thesis
      using assms by (simp add: update_auto_irq_latency_def word_less_nat_alt unat_ucast_widen)
  qed
  have "sch_auto_irq_line_high (update_auto_irq_latency ic cpu elapsed s)"
    using assms by (simp add: update_auto_irq_latency_def)
  then show "auto_irq_ready ic cpu (update_auto_irq_latency ic cpu elapsed s) \<longleftrightarrow> unat ?c \<le> unat elapsed"
    using assms count by (auto simp: auto_irq_ready_def word_unat_eq_iff)
qed

end
