(* ===== verification/Core_Session.thy ===== *)
theory Core_Session
  imports Scheduler_State Bios Memory_Safety Io_Facade Cpu_Banks
begin

text \<open>
  The session, \<open>src/src/core/core_session.cpp\<close>: the machine with all its components, its reset and boot configuration, the input
  operations, and save states of the whole machine. The devices and the register facade are the record of \<open>Io_Registers\<close>; the I/O
  callbacks that the session installs in the bus are the parameter of the bus accesses, so the bus itself carries no field for them. The
  step and run operations are the scheduler's and are not part of this theory.
\<close>

record core_session =
  ses_cpu :: arm7tdmi
  ses_memory :: memory_bus
  ses_devices :: devices
  ses_bios :: bios_execution_mode
  ses_scheduler :: core_scheduler_state
  ses_generation :: u64

record core_session_state =
  css_cpu :: arm7tdmi
  css_memory :: memory_bus
  css_interrupts :: interrupt_controller
  css_timers :: timers
  css_dma :: dma_controller
  css_ppu :: ppu_timing
  css_apu :: apu
  css_bios :: bios_execution_mode
  css_keypad :: keypad
  css_waitcnt :: wait_state_control
  css_io :: io_registers_state
  css_scheduler :: core_scheduler_state

definition new_session :: core_session where
  "new_session = \<lparr>ses_cpu = arm_reset, ses_memory = new_memory_bus, ses_devices = reset_devices, ses_bios = bios_reset,
     ses_scheduler = new_scheduler_state, ses_generation = 0\<rparr>"

definition configure_for_game_boot :: "core_session \<Rightarrow> core_session throws" where
  "configure_for_game_boot s = do {
     (_, cpu) \<leftarrow> set_cpsr 0x0000001F (ses_cpu s);
     cpu \<leftarrow> set_register kPc 0x08000000 cpu;
     cpu \<leftarrow> set_register 13 0x03007F00 cpu;
     Some (s\<lparr>ses_bios := bios_set_mode Hle (ses_bios s), ses_cpu := cpu\<rparr>)}"

definition session_reset :: "core_session \<Rightarrow> core_session" where
  "session_reset s =
     s\<lparr>ses_generation := ses_generation s + 1, ses_cpu := arm_reset,
       ses_memory := clear_game_pak_save (clear_game_pak_rom (mb_reset (ses_memory s))),
       ses_devices := io_reset ((ses_devices s)\<lparr>dev_interrupts := ic_reset, dev_timers := timers_reset, dev_dma := dma_reset,
         dev_ppu := ppu_reset, dev_apu := apu_reset, dev_keypad := keypad_reset, dev_waitcnt := wsc_reset\<rparr>),
       ses_bios := bios_reset, ses_scheduler := reset_scheduler_cycles (ses_scheduler s)\<rparr>"

definition poll_keypad :: "devices \<Rightarrow> devices" where
  "poll_keypad d = d\<lparr>dev_interrupts := keypad_poll_interrupt (dev_keypad d) (dev_interrupts d)\<rparr>"

definition press_button :: "keypad_button \<Rightarrow> core_session \<Rightarrow> core_session" where
  "press_button button s =
     s\<lparr>ses_devices := poll_keypad ((ses_devices s)\<lparr>dev_keypad := keypad_press button (dev_keypad (ses_devices s))\<rparr>)\<rparr>"

definition release_button :: "keypad_button \<Rightarrow> core_session \<Rightarrow> core_session" where
  "release_button button s =
     s\<lparr>ses_devices := poll_keypad ((ses_devices s)\<lparr>dev_keypad := keypad_release button (dev_keypad (ses_devices s))\<rparr>)\<rparr>"

definition set_input_mask :: "u16 \<Rightarrow> core_session \<Rightarrow> bool \<times> core_session" where
  "set_input_mask buttons s =
     (let (ok, keypad) = keypad_set_pressed_mask buttons (dev_keypad (ses_devices s)) in
      if \<not> ok then (False, s\<lparr>ses_devices := (ses_devices s)\<lparr>dev_keypad := keypad\<rparr>\<rparr>)
      else (True, s\<lparr>ses_devices := poll_keypad ((ses_devices s)\<lparr>dev_keypad := keypad\<rparr>)\<rparr>))"

definition session_save_state :: "core_session \<Rightarrow> core_session_state" where
  "session_save_state s =
     \<lparr>css_cpu = ses_cpu s, css_memory = ses_memory s, css_interrupts = dev_interrupts (ses_devices s), css_timers = dev_timers (ses_devices s),
      css_dma = dev_dma (ses_devices s), css_ppu = dev_ppu (ses_devices s), css_apu = dev_apu (ses_devices s), css_bios = ses_bios s,
      css_keypad = dev_keypad (ses_devices s), css_waitcnt = dev_waitcnt (ses_devices s), css_io = io_save_state (ses_devices s),
      css_scheduler = scheduler_save_state (ses_scheduler s)\<rparr>"

definition session_load_state :: "core_session_state \<Rightarrow> core_session \<Rightarrow> core_session" where
  "session_load_state st s =
     s\<lparr>ses_generation := ses_generation s + 1, ses_cpu := css_cpu st, ses_memory := css_memory st,
       ses_devices := io_load_state (css_io st) ((ses_devices s)\<lparr>dev_interrupts := css_interrupts st, dev_timers := css_timers st,
         dev_dma := css_dma st, dev_ppu := css_ppu st, dev_apu := css_apu st, dev_keypad := css_keypad st, dev_waitcnt := css_waitcnt st\<rparr>),
       ses_bios := css_bios st, ses_scheduler := scheduler_load_state (css_scheduler st) (ses_scheduler s)\<rparr>"

fun bios_mode_code :: "bios_execution_mode \<Rightarrow> u8" where
  "bios_mode_code No_bios = 0"
| "bios_mode_code Caller_provided_bios = 1"
| "bios_mode_code Hle = 2"

definition session_state_hash :: "core_session \<Rightarrow> u64" where
  "session_state_hash s =
     (let d = ses_devices s;
          h = fold add_u64 [arm_state_hash (ses_cpu s), mb_state_hash (ses_memory s), ic_state_hash (dev_interrupts d),
                timers_state_hash (dev_timers d), dma_state_hash (dev_dma d), ppu_state_hash (dev_ppu d), apu_state_hash (dev_apu d)]
                kOffsetBasis;
          h = add_u8 (bios_mode_code (ses_bios s)) h
      in fold add_u64 [keypad_state_hash (dev_keypad d), wsc_state_hash (dev_waitcnt d), io_state_hash d,
           scheduler_state_hash (ses_scheduler s)] h)"

section \<open>Invariant\<close>

definition wsc_wf :: "wait_state_control \<Rightarrow> bool" where
  "wsc_wf w \<longleftrightarrow> wsc_write_control (wsc_read_control w) w = w"

definition session_wf :: "core_session \<Rightarrow> bool" where
  "session_wf s \<longleftrightarrow> cpu_wf (ses_cpu s) \<and> mb_wf (ses_memory s) \<and> devices_wf (ses_devices s)
     \<and> timers_wf (dev_timers (ses_devices s)) \<and> wsc_wf (dev_waitcnt (ses_devices s)) \<and> scheduler_wf (ses_scheduler s)"

end
