(* ===== verification/Session_Correct.thy ===== *)
theory Session_Correct
  imports Core_Session
begin

text \<open>
  The session operations keep the machine well formed; reset reaches every component; the boot configuration puts the CPU at the entry
  of the cartridge.
\<close>

lemma poll_keypad_wf:
  assumes "devices_wf d" and "keypad_wf k"
  shows "devices_wf (poll_keypad (d\<lparr>dev_keypad := k\<rparr>))" "dev_waitcnt (poll_keypad (d\<lparr>dev_keypad := k\<rparr>)) = dev_waitcnt d"
    "dev_timers (poll_keypad (d\<lparr>dev_keypad := k\<rparr>)) = dev_timers d"
  using assms by (auto simp: poll_keypad_def devices_wf_def sio_wf_def keypad_poll_interrupt_def ic_wf_request)

lemma session_keypad_wf: "session_wf s \<Longrightarrow> keypad_wf (dev_keypad (ses_devices s))"
  by (simp add: session_wf_def devices_wf_def)

lemma session_devices_wf:
  assumes "session_wf s" and "devices_wf d" and "dev_waitcnt d = dev_waitcnt (ses_devices s)" "dev_timers d = dev_timers (ses_devices s)"
  shows "session_wf (s\<lparr>ses_devices := d\<rparr>)"
  using assms by (simp add: session_wf_def)

lemma session_reset_new: "session_reset s = new_session\<lparr>ses_generation := ses_generation s + 1\<rparr>"
proof -
  have "clear_game_pak_save (clear_game_pak_rom (mb_reset b)) = new_memory_bus" for b
    by (cases b) (simp add: new_memory_bus_def clear_game_pak_save_def clear_game_pak_rom_def mb_reset_def mb_soft_reset_def
        reset_flash_protocol_def clear_debug_output_def)
  moreover have "io_reset (d\<lparr>dev_interrupts := ic_reset, dev_timers := timers_reset, dev_dma := dma_reset, dev_ppu := ppu_reset,
      dev_apu := apu_reset, dev_keypad := keypad_reset, dev_waitcnt := wsc_reset\<rparr>) = reset_devices" for d
    by (cases d) (simp add: io_reset_def reset_devices_def)
  ultimately show ?thesis
    by (cases s) (simp add: session_reset_def new_session_def reset_scheduler_cycles_new)
qed

lemma new_session_wf: "session_wf (new_session\<lparr>ses_generation := g\<rparr>)"
proof -
  have "wsc_wf (dev_waitcnt reset_devices)" "timers_wf (dev_timers reset_devices)"
    by (simp_all add: reset_devices_def timers_wf_reset wsc_wf_def wsc_write_control_def wsc_read_control_def wsc_reset_def)
  then show ?thesis
    by (simp add: session_wf_def new_session_def new_scheduler_wf arm_reset_wf new_memory_bus_wf devices_wf_reset)
qed

text \<open>C15. The session: reset gives the state of a new session, whatever happened before, and counts a new generation; the input operations
  keep the machine well formed, and an input mask with a bit that is no button is refused without any effect; the boot configuration
  never throws, keeps the machine well formed and leaves the CPU in system mode in ARM state at the cartridge entry with its stack set up.\<close>

theorem session_operations:
  assumes "session_wf s"
  shows "session_reset s = new_session\<lparr>ses_generation := ses_generation s + 1\<rparr> \<and> session_wf (session_reset s)
    \<and> session_wf (press_button button s) \<and> session_wf (release_button button s) \<and> session_wf (snd (set_input_mask buttons s))
    \<and> (set_input_mask buttons s = (False, s) \<longleftrightarrow> buttons AND NOT kButtonMask \<noteq> 0)
    \<and> (\<exists>s'. configure_for_game_boot s = Some s' \<and> session_wf s' \<and> ses_bios s' = Hle \<and> cpu_mode (ses_cpu s') = mode_system
        \<and> \<not> cpu_thumb_state (ses_cpu s') \<and> cpu_registers (ses_cpu s') ! 15 = 0x08000000 \<and> cpu_registers (ses_cpu s') ! 13 = 0x03007F00)"
proof (intro conjI)
  note wf = assms [unfolded session_wf_def]
  show "session_reset s = new_session\<lparr>ses_generation := ses_generation s + 1\<rparr>"
    by (rule session_reset_new)
  show "session_wf (session_reset s)"
    unfolding session_reset_new by (rule new_session_wf)
  show "session_wf (press_button button s)" "session_wf (release_button button s)"
    unfolding press_button_def release_button_def
    using poll_keypad_wf [of "ses_devices s"] keypad_wf_ops session_keypad_wf [OF assms] wf by (intro session_devices_wf [OF assms]; simp)+
  show "session_wf (snd (set_input_mask buttons s))"
    using poll_keypad_wf [of "ses_devices s"] keypad_wf_ops(2) [OF session_keypad_wf [OF assms], of buttons] wf assms
    by (auto simp: set_input_mask_def Let_def keypad_set_pressed_mask_def intro!: session_devices_wf)
  show "set_input_mask buttons s = (False, s) \<longleftrightarrow> buttons AND NOT kButtonMask \<noteq> 0"
    by (auto simp: set_input_mask_def keypad_set_pressed_mask_def)
  have "decode_cpu_mode 0x1F = Some mode_system"
    by (simp add: decode_cpu_mode_def kModeMask_def mode_defs)
  then obtain c where c: "set_cpsr 0x1F (ses_cpu s) = Some (True, c)" "cpu_wf c" "cpu_mode c = mode_system" "cpsr c = 0x1F"
    using set_cpsr_in [of "ses_cpu s" "0x1F"] wf by auto
  have "\<not> cpu_thumb_state c"
    using cpsr_bits(7) [OF c(2)] c(4) by simp
  with c show "\<exists>s'. configure_for_game_boot s = Some s' \<and> session_wf s' \<and> ses_bios s' = Hle \<and> cpu_mode (ses_cpu s') = mode_system
        \<and> \<not> cpu_thumb_state (ses_cpu s') \<and> cpu_registers (ses_cpu s') ! 15 = 0x08000000 \<and> cpu_registers (ses_cpu s') ! 13 = 0x03007F00"
    using wf by (auto simp: configure_for_game_boot_def set_register_def set_reg_def cpu_wf_def kPc_def bios_set_mode_def session_wf_def)
qed

theorem session_operations_witness:
  "session_wf (press_button Button_a (session_reset new_session)) \<and> (\<exists>s'. configure_for_game_boot new_session = Some s')"
proof -
  have "session_wf new_session"
    using new_session_wf [of 0] by (simp add: new_session_def)
  then show ?thesis
    using session_operations [of new_session Button_a 0] session_operations [of "session_reset new_session" Button_a 0] by blast
qed

end
