(* ===== verification/Codec_Wire.thy ===== *)
theory Codec_Wire
  imports State_Hash
begin

text \<open>
  The wire primitives of \<open>src/src/core/save_state_codec.cpp\<close>. A \<open>write_*\<close> function is the bytes that the code appends to its output
  vector; a \<open>Reader\<close> is the list of bytes that it has not consumed yet (\<open>remaining()\<close> is its length), and a read returns the value and
  the rest, or \<open>None\<close> where the code returns false. The locale \<open>wire_format\<close> is the contract between a writer and its reader; arrays
  and optional values inherit it.
\<close>

type_synonym 'a reader = "u8 list \<Rightarrow> ('a \<times> u8 list) option"

section \<open>Writers\<close>

definition write_u8 :: "u8 \<Rightarrow> u8 list" where
  "write_u8 v = [v]"

definition write_bool :: "bool \<Rightarrow> u8 list" where
  "write_bool v = write_u8 (if v then 1 else 0)"

definition write_u16 :: "u16 \<Rightarrow> u8 list" where
  "write_u16 v = write_u8 (ucast (v AND 0xFF)) @ write_u8 (ucast (drop_bit 8 v AND 0xFF))"

definition write_i16 :: "16 word \<Rightarrow> u8 list" where
  "write_i16 v = write_u16 v"

definition write_i8 :: "8 word \<Rightarrow> u8 list" where
  "write_i8 v = write_u8 v"

definition write_u32 :: "u32 \<Rightarrow> u8 list" where
  "write_u32 v = concat (map (\<lambda>byte. write_u8 (ucast (drop_bit (byte * 8) v AND 0xFF))) [0..<4])"

definition write_u64 :: "u64 \<Rightarrow> u8 list" where
  "write_u64 v = concat (map (\<lambda>byte. write_u8 (ucast (drop_bit (byte * 8) v AND 0xFF))) [0..<8])"

definition write_fixed :: "u8 list \<Rightarrow> u8 list" where
  "write_fixed bytes = bytes"

definition write_blob :: "u8 list \<Rightarrow> u8 list" where
  "write_blob bytes = write_u32 (of_nat (length bytes)) @ write_fixed bytes"

definition write_optional :: "('a \<Rightarrow> u8 list) \<Rightarrow> 'a option \<Rightarrow> u8 list" where
  "write_optional put v = write_bool (v \<noteq> None) @ (case v of Some x \<Rightarrow> put x | None \<Rightarrow> [])"

definition write_optional_u8 :: "u8 option \<Rightarrow> u8 list" where
  "write_optional_u8 v = write_optional write_u8 v"

definition write_optional_u16 :: "u16 option \<Rightarrow> u8 list" where
  "write_optional_u16 v = write_optional write_u16 v"

definition write_optional_u32 :: "u32 option \<Rightarrow> u8 list" where
  "write_optional_u32 v = write_optional write_u32 v"

text \<open>A loop that writes the elements of an array.\<close>

definition write_array :: "('a \<Rightarrow> u8 list) \<Rightarrow> 'a list \<Rightarrow> u8 list" where
  "write_array put vs = concat (map put vs)"

section \<open>The reader\<close>

definition read_u8 :: "u8 reader" where
  "read_u8 r = (case r of [] \<Rightarrow> None | b # rest \<Rightarrow> Some (b, rest))"

definition read_bool :: "bool reader" where
  "read_bool r = do {(raw, r) \<leftarrow> read_u8 r; if raw > 1 then None else Some (raw \<noteq> 0, r)}"

definition read_u16 :: "u16 reader" where
  "read_u16 r = do {(low, r) \<leftarrow> read_u8 r; (high, r) \<leftarrow> read_u8 r; Some (ucast low OR push_bit 8 (ucast high), r)}"

definition read_i16 :: "16 word reader" where
  "read_i16 r = read_u16 r"

definition read_i8 :: "8 word reader" where
  "read_i8 r = read_u8 r"

definition read_u32 :: "u32 reader" where
  "read_u32 r = foldM (\<lambda>byte (v, r). do {(next_byte, r) \<leftarrow> read_u8 r; Some (v OR push_bit (byte * 8) (ucast next_byte), r)}) [0..<4] (0, r)"

definition read_u64 :: "u64 reader" where
  "read_u64 r = foldM (\<lambda>byte (v, r). do {(next_byte, r) \<leftarrow> read_u8 r; Some (v OR push_bit (byte * 8) (ucast next_byte), r)}) [0..<8] (0, r)"

definition read_fixed :: "nat \<Rightarrow> u8 list reader" where
  "read_fixed count r = (if length r < count then None else Some (take count r, drop count r))"

definition read_blob :: "u32 \<Rightarrow> u8 list reader" where
  "read_blob max_size r = do {
     (count, r) \<leftarrow> read_u32 r;
     if count > max_size \<or> length r < unat count then None else Some (take (unat count) r, drop (unat count) r)}"

definition read_optional :: "'a reader \<Rightarrow> 'a option reader" where
  "read_optional get r = do {
     (present, r) \<leftarrow> read_bool r;
     if present then map_option (\<lambda>(x, r). (Some x, r)) (get r) else Some (None, r)}"

definition read_optional_u8 :: "u8 option reader" where
  "read_optional_u8 = read_optional read_u8"

definition read_optional_u16 :: "u16 option reader" where
  "read_optional_u16 = read_optional read_u16"

definition read_optional_u32 :: "u32 option reader" where
  "read_optional_u32 = read_optional read_u32"

primrec read_array :: "nat \<Rightarrow> 'a reader \<Rightarrow> 'a list reader" where
  "read_array 0 get r = Some ([], r)"
| "read_array (Suc n) get r = do {(x, r) \<leftarrow> get r; (xs, r) \<leftarrow> read_array n get r; Some (x # xs, r)}"

section \<open>The contract\<close>

locale wire_format =
  fixes put :: "'a \<Rightarrow> u8 list"
    and get :: "'a reader"
    and ok :: "'a \<Rightarrow> bool"
  assumes get_put: "ok v \<Longrightarrow> get (put v @ rest) = Some (v, rest)"
begin

lemma whole: "ok v \<Longrightarrow> get (put v) = Some (v, [])"
  using get_put [of v "[]"] by simp

lemma array: "list_all ok vs \<Longrightarrow> length vs = n \<Longrightarrow> read_array n get (write_array put vs @ rest) = Some (vs, rest)"
proof (induction vs arbitrary: n)
  case (Cons v vs)
  then show ?case
    by (cases n) (simp_all add: write_array_def get_put)
qed (simp add: write_array_def)

end

lemma read_u8_write: "read_u8 (write_u8 v @ rest) = Some (v, rest)"
  by (simp add: read_u8_def write_u8_def)

lemma read_bool_write: "read_bool (write_bool v @ rest) = Some (v, rest)"
  by (simp add: read_bool_def write_bool_def read_u8_write)

interpretation wire_u8: wire_format write_u8 read_u8 "\<lambda>_. True"
  by unfold_locales (rule read_u8_write)

interpretation wire_bool: wire_format write_bool read_bool "\<lambda>_. True"
  by unfold_locales (rule read_bool_write)

context wire_format
begin

lemma optional: "(\<And>x. v = Some x \<Longrightarrow> ok x) \<Longrightarrow> read_optional get (write_optional put v @ rest) = Some (v, rest)"
  by (cases v) (simp_all add: read_optional_def write_optional_def read_bool_write get_put)

end

text \<open>Words: the bytes of \<open>le_bytes\<close>, put together again.\<close>

lemma join_bytes:
  fixes v :: "'a::len word"
  shows "foldM (\<lambda>byte (w, r). do {(next_byte, r) \<leftarrow> read_u8 r; Some (w OR push_bit (byte * 8) (ucast next_byte), r)}) [0..<n]
      (0, concat (map (\<lambda>byte. write_u8 (ucast (drop_bit (byte * 8) v AND 0xFF))) [0..<n]) @ rest) = Some (take_bit (n * 8) v, rest)"
proof (induction n arbitrary: rest)
  case (Suc n)
  have byte: "ucast (ucast (drop_bit (n * 8) v AND 0xFF) :: u8) = take_bit 8 (drop_bit (n * 8) v)" for v :: "'a word"
    unfolding ucast_and_FF by (rule bit_word_eqI) (auto simp: bit_simps)
  have "take_bit (n * 8) v OR push_bit (n * 8) (take_bit 8 (drop_bit (n * 8) v)) = take_bit (Suc n * 8) v"
    by (rule bit_word_eqI) (auto simp: bit_simps)
  then show ?case
    using Suc [of "write_u8 (ucast (drop_bit (n * 8) v AND 0xFF)) @ rest"] by (simp add: foldM_append read_u8_write byte)
qed simp

lemma take_bit_whole: "take_bit 32 v = v" "take_bit 64 w = w" for v :: u32 and w :: u64
  using take_bit_length_eq [of v] take_bit_length_eq [of w] by simp_all

interpretation wire_u32: wire_format write_u32 read_u32 "\<lambda>_. True"
  by unfold_locales (use join_bytes [where 'a = 32 and n = 4] in \<open>simp add: read_u32_def write_u32_def take_bit_whole\<close>)

interpretation wire_u64: wire_format write_u64 read_u64 "\<lambda>_. True"
  by unfold_locales (use join_bytes [where 'a = 64 and n = 8] in \<open>simp add: read_u64_def write_u64_def take_bit_whole\<close>)

lemma read_u16_write: "read_u16 (write_u16 v @ rest) = Some (v, rest)"
proof -
  have "ucast (ucast v :: u8) OR push_bit 8 (ucast (ucast (drop_bit 8 v) :: u8)) = v"
    by (rule bit_word_eqI) (auto simp: bit_simps)
  then show ?thesis
    by (simp add: read_u16_def write_u16_def read_u8_write ucast_and_FF)
qed

interpretation wire_u16: wire_format write_u16 read_u16 "\<lambda>_. True"
  by unfold_locales (rule read_u16_write)

interpretation wire_i16: wire_format write_i16 read_i16 "\<lambda>_. True"
  by unfold_locales (simp add: read_i16_def write_i16_def read_u16_write)

interpretation wire_i8: wire_format write_i8 read_i8 "\<lambda>_. True"
  by unfold_locales (simp add: read_i8_def write_i8_def read_u8_write)

interpretation wire_fixed: wire_format write_fixed "read_fixed n" "\<lambda>bytes. length bytes = n" for n
  by unfold_locales (auto simp: read_fixed_def write_fixed_def)

interpretation wire_blob: wire_format write_blob "read_blob max_size" "\<lambda>bytes. length bytes \<le> unat max_size" for max_size
proof
  fix bytes rest :: "u8 list"
  assume fits: "length bytes \<le> unat max_size"
  have "unat (of_nat (length bytes) :: u32) = length bytes"
    using le_less_trans [OF fits unat_u32_less] by (simp add: unat_of_nat)
  then show "read_blob max_size (write_blob bytes @ rest) = Some (bytes, rest)"
    using fits by (auto simp: read_blob_def write_blob_def write_fixed_def wire_u32.get_put word_less_nat_alt)
qed

lemmas wire_optionals = write_optional_u8_def write_optional_u16_def write_optional_u32_def
  read_optional_u8_def read_optional_u16_def read_optional_u32_def

lemma read_optional_u_write:
  "read_optional_u8 (write_optional_u8 a @ rest) = Some (a, rest)"
  "read_optional_u16 (write_optional_u16 b @ rest) = Some (b, rest)"
  "read_optional_u32 (write_optional_u32 c @ rest) = Some (c, rest)"
  by (simp_all add: wire_optionals wire_u8.optional wire_u16.optional wire_u32.optional)

lemmas wire_simps = wire_u8.get_put wire_bool.get_put wire_u16.get_put wire_i16.get_put wire_i8.get_put wire_u32.get_put wire_u64.get_put
  read_optional_u_write wire_fixed.get_put wire_blob.get_put wire_u16.array wire_u32.array wire_i8.array list.pred_True

lemma length_writes [simp]:
  "length (write_u8 a) = 1" "length (write_bool x) = 1" "length (write_u16 b) = 2" "length (write_u32 c) = 4" "length (write_u64 d) = 8"
  by (simp_all add: write_u8_def write_bool_def write_u16_def write_u32_def write_u64_def length_concat comp_def sum_list_triv)

end
