(* ===== verification/Save_Codec.thy ===== *)
theory Save_Codec
  imports Codec_Wire Core_Session
begin

text \<open>
  The save state codec, \<open>src/src/core/save_state_codec.cpp\<close>: one writer and one parser per section, and \<open>encode\<close> and
  \<open>decode_into\<close> over the whole session.
\<close>

section \<open>Writers\<close>

definition write_cpu_state :: "arm7tdmi \<Rightarrow> u8 list" where
  "write_cpu_state cpu =
     write_u64 (cpu_elapsed_cycles cpu) @ write_array write_u32 (cpu_registers cpu)
     @ write_bool (cpu_negative cpu) @ write_bool (cpu_zero cpu) @ write_bool (cpu_carry cpu) @ write_bool (cpu_overflow cpu)
     @ write_bool (cpu_irq_disabled cpu) @ write_bool (cpu_fiq_disabled cpu) @ write_bool (cpu_thumb_state cpu)
     @ write_u8 (cpu_mode cpu)
     @ write_array write_u32 (cpu_shared_r8_r12 cpu) @ write_array write_u32 (cpu_fiq_r8_r12 cpu)
     @ write_u32 (cpu_user_sp cpu) @ write_u32 (cpu_user_lr cpu) @ write_u32 (cpu_fiq_sp cpu) @ write_u32 (cpu_fiq_lr cpu)
     @ write_u32 (cpu_irq_sp cpu) @ write_u32 (cpu_irq_lr cpu) @ write_u32 (cpu_supervisor_sp cpu) @ write_u32 (cpu_supervisor_lr cpu)
     @ write_u32 (cpu_abort_sp cpu) @ write_u32 (cpu_abort_lr cpu) @ write_u32 (cpu_undefined_sp cpu) @ write_u32 (cpu_undefined_lr cpu)
     @ write_u32 (cpu_fiq_spsr cpu) @ write_u32 (cpu_supervisor_spsr cpu) @ write_u32 (cpu_abort_spsr cpu)
     @ write_u32 (cpu_irq_spsr cpu) @ write_u32 (cpu_undefined_spsr cpu)"

definition write_memory_state :: "memory_bus_state \<Rightarrow> u8 list" where
  "write_memory_state memory =
     write_fixed (st_ewram memory) @ write_fixed (st_iwram memory) @ write_fixed (st_palette memory) @ write_fixed (st_vram memory)
     @ write_fixed (st_oam memory) @ write_blob (st_game_pak_rom memory) @ write_blob (game_pak_save memory)
     @ write_u8 (save_type_code (game_pak_save_type memory)) @ write_u8 (flash_state_code (flash_command_state memory))
     @ write_bool (flash_id_mode memory) @ write_u8 (flash_bank memory)
     @ write_u32 (st_open_bus_latch memory) @ write_bool (st_open_bus_latch_valid memory)
     @ write_fixed (st_mgba_debug_string memory) @ write_blob (st_debug_output memory)"

definition write_interrupt_state :: "interrupt_controller \<Rightarrow> u8 list" where
  "write_interrupt_state ic = write_u16 (interrupt_enable ic) @ write_u16 (interrupt_flags ic) @ write_bool (ic_master_enabled ic)"

definition write_timer_state :: "timer_state \<Rightarrow> u8 list" where
  "write_timer_state t =
     write_u16 (ts_counter t) @ write_u16 (ts_reload t) @ write_u16 (ts_control t) @ write_u64 (ts_overflow_count t)
     @ write_u32 (ts_enable_delay t) @ write_u16 (ts_last_enable_phase t) @ write_bool (ts_just_enabled t)"

definition write_timers_state :: "timers_state \<Rightarrow> u8 list" where
  "write_timers_state timers = write_u64 (tss_cycle_counter timers) @ write_array write_timer_state (tss_timers timers)"

definition write_dma_channel :: "dma_channel \<Rightarrow> u8 list" where
  "write_dma_channel c =
     write_u32 (dc_source c) @ write_u32 (dc_destination c) @ write_u16 (dc_word_count c) @ write_u16 (dc_control c)
     @ write_u32 (dc_current_source c) @ write_u32 (dc_current_destination c) @ write_u32 (dc_current_count c) @ write_u32 (dc_data_latch c)"

definition write_dma_state :: "dma_state \<Rightarrow> u8 list" where
  "write_dma_state dma = write_array write_dma_channel (dst_channels dma) @ write_bool (dst_immediate_pending dma)"

definition write_ppu_state :: "ppu_timing \<Rightarrow> u8 list" where
  "write_ppu_state ppu =
     write_u16 (ppu_line ppu) @ write_u16 (ppu_line_cycle ppu) @ write_u16 (ppu_dispstat_control ppu)
     @ write_array write_u16 (ppu_lcd_control ppu)"

definition write_fifo_state :: "i8 ring \<Rightarrow> u8 list" where
  "write_fifo_state fifo = write_array write_i8 (rb_samples fifo) @ write_u32 (of_nat (rb_head fifo)) @ write_u32 (of_nat (rb_size fifo))"

definition write_square_state :: "square_channel \<Rightarrow> u8 list" where
  "write_square_state q =
     write_bool (sq_enabled q) @ write_u8 (sq_duty q) @ write_u8 (sq_volume q) @ write_u16 (sq_period_samples q) @ write_u16 (sq_phase q)"

definition write_mixed_sample :: "apu_mixed_sample \<Rightarrow> u8 list" where
  "write_mixed_sample m = write_i16 (ms_left m) @ write_i16 (ms_right m)"

definition write_apu_state :: "apu_state \<Rightarrow> u8 list" where
  "write_apu_state apu =
     write_u16 (as_soundcnt_l apu) @ write_u16 (as_soundcnt_h apu) @ write_u16 (as_soundcnt_x_status apu) @ write_u16 (as_soundbias apu)
     @ write_array (write_array write_u16) (as_wave_ram_banks apu) @ write_bool (as_wave_bank_select apu)
     @ write_array write_fifo_state (as_fifos apu) @ write_array write_i8 (as_direct_sound_latched_samples apu)
     @ write_array write_square_state (as_square_channels apu)
     @ write_bool (wv_enabled (as_wave_channel apu)) @ write_u8 (wv_volume_shift (as_wave_channel apu))
     @ write_u16 (wv_period_samples (as_wave_channel apu)) @ write_u16 (wv_phase (as_wave_channel apu))
     @ write_bool (ns_enabled (as_noise_channel apu)) @ write_u8 (ns_volume (as_noise_channel apu))
     @ write_u16 (ns_period_samples (as_noise_channel apu)) @ write_u16 (ns_phase (as_noise_channel apu))
     @ write_u16 (ns_lfsr (as_noise_channel apu)) @ write_bool (ns_narrow_lfsr (as_noise_channel apu))
     @ write_array write_mixed_sample (as_audio_buffer_samples apu)
     @ write_u32 (of_nat (as_audio_buffer_head apu)) @ write_u32 (of_nat (as_audio_buffer_size apu))
     @ write_u64 (as_frame_step_count apu) @ write_u64 (as_audio_sample_count apu)
     @ write_u32 (as_frame_cycle_remainder apu) @ write_u32 (as_audio_cycle_remainder apu) @ write_u8 (as_frame_step apu)
     @ write_i16 (ms_left (as_last_mixed_sample apu)) @ write_i16 (ms_right (as_last_mixed_sample apu))"

definition write_irq_frame :: "hle_irq_frame \<Rightarrow> u8 list" where
  "write_irq_frame frame =
     write_u32 (hif_return_lr frame) @ write_optional (write_array write_u32) (hif_saved_registers frame)
     @ write_bool (hif_long_timer_return_pending frame) @ write_bool (hif_slow_timer0_return_pending frame)"

definition write_work_frame :: "hle_work_frame \<Rightarrow> u8 list" where
  "write_work_frame frame = write_u64 (hwf_remaining_cycles frame) @ write_u32 (hwf_owner_irq_depth frame)"

definition write_scheduler_state :: "core_scheduler_state \<Rightarrow> u8 list" where
  "write_scheduler_state s =
     write_u64 (sch_scheduler_cycles s) @ write_bool (sch_halted s) @ write_optional_u32 (sch_last_fetch_address s)
     @ write_optional_u8 (sch_last_fetch_width_bytes s) @ write_optional_u8 (sch_last_fetch_window s)
     @ write_u8 (sch_prefetch_buffer_halfwords s) @ write_bool (sch_suppress_next_game_pak_prefetch s)
     @ write_bool (sch_recover_next_game_pak_data_fetch s) @ write_bool (sch_suppress_next_thumb_prefetch_execute_bubble s)
     @ write_bool (sch_previous_thumb_internal_load s) @ write_optional_u16 (sch_last_waitcnt_control s)
     @ write_optional_u32 (sch_hle_irq_return_lr s) @ write_optional (write_array write_u32) (sch_hle_irq_saved_registers s)
     @ write_bool (sch_hle_irq_reentry_dispatch_pending s) @ write_bool (sch_hle_irq_return_latency_pending s)
     @ write_bool (sch_hle_irq_post_return_latency_armed s) @ write_bool (sch_hle_irq_post_return_dispatch_pending s)
     @ write_bool (sch_hle_irq_chained_post_return_dispatch_pending s) @ write_bool (sch_hle_irq_chained_post_return_data_dispatch_pending s)
     @ write_bool (sch_hle_irq_chained_post_return_spaced_data_dispatch_pending s)
     @ write_bool (sch_hle_irq_long_timer_chained_return_pending s) @ write_bool (sch_hle_irq_slow_timer0_return_pending s)
     @ write_bool (sch_hle_irq_post_return_chain_active s) @ write_u8 (sch_hle_irq_chained_spaced_data_service_count s)
     @ write_bool (sch_auto_irq_line_high s) @ write_u8 (sch_auto_irq_latency_cycles s) @ write_u32 (sch_timer_io_access_gap_cycles s)
     @ write_u32 (sch_thumb_misfetch_recovery_count s)
     @ write_u32 (of_nat (length (sch_hle_irq_outer_frames s))) @ write_array write_irq_frame (sch_hle_irq_outer_frames s)
     @ write_u32 (of_nat (length (sch_hle_work_frames s))) @ write_array write_work_frame (sch_hle_work_frames s)"

definition write_io_state :: "io_registers_state \<Rightarrow> u8 list" where
  "write_io_state io = write_array write_u16 (ios_serial io) @ write_bool (ios_sio_transfer_active io) @ write_u32 (ios_sio_transfer_cycles_remaining io)"

section \<open>Parsers\<close>

definition parse_cpu_state :: "arm7tdmi reader" where
  "parse_cpu_state r = do {
     (elapsed_cycles, r) \<leftarrow> read_u64 r;
     (regs, r) \<leftarrow> read_array kRegisterCount read_u32 r;
     (negative, r) \<leftarrow> read_bool r; (zero, r) \<leftarrow> read_bool r; (carry, r) \<leftarrow> read_bool r; (overflow, r) \<leftarrow> read_bool r;
     (irq_disabled, r) \<leftarrow> read_bool r; (fiq_disabled, r) \<leftarrow> read_bool r; (thumb_state, r) \<leftarrow> read_bool r;
     (mode, r) \<leftarrow> read_u8 r;
     (shared_r8_r12, r) \<leftarrow> read_array 5 read_u32 r;
     (fiq_r8_r12, r) \<leftarrow> read_array 5 read_u32 r;
     (user_sp, r) \<leftarrow> read_u32 r; (user_lr, r) \<leftarrow> read_u32 r; (fiq_sp, r) \<leftarrow> read_u32 r; (fiq_lr, r) \<leftarrow> read_u32 r;
     (irq_sp, r) \<leftarrow> read_u32 r; (irq_lr, r) \<leftarrow> read_u32 r; (supervisor_sp, r) \<leftarrow> read_u32 r; (supervisor_lr, r) \<leftarrow> read_u32 r;
     (abort_sp, r) \<leftarrow> read_u32 r; (abort_lr, r) \<leftarrow> read_u32 r; (undefined_sp, r) \<leftarrow> read_u32 r; (undefined_lr, r) \<leftarrow> read_u32 r;
     (fiq_spsr, r) \<leftarrow> read_u32 r; (supervisor_spsr, r) \<leftarrow> read_u32 r; (abort_spsr, r) \<leftarrow> read_u32 r; (irq_spsr, r) \<leftarrow> read_u32 r;
     (undefined_spsr, r) \<leftarrow> read_u32 r;
     Some (\<lparr>cpu_registers = regs, cpu_elapsed_cycles = elapsed_cycles, cpu_negative = negative, cpu_zero = zero, cpu_carry = carry,
       cpu_overflow = overflow, cpu_irq_disabled = irq_disabled, cpu_fiq_disabled = fiq_disabled, cpu_thumb_state = thumb_state,
       cpu_mode = mode, cpu_shared_r8_r12 = shared_r8_r12, cpu_fiq_r8_r12 = fiq_r8_r12, cpu_user_sp = user_sp, cpu_user_lr = user_lr,
       cpu_fiq_sp = fiq_sp, cpu_fiq_lr = fiq_lr, cpu_irq_sp = irq_sp, cpu_irq_lr = irq_lr, cpu_supervisor_sp = supervisor_sp,
       cpu_supervisor_lr = supervisor_lr, cpu_abort_sp = abort_sp, cpu_abort_lr = abort_lr, cpu_undefined_sp = undefined_sp,
       cpu_undefined_lr = undefined_lr, cpu_fiq_spsr = fiq_spsr, cpu_supervisor_spsr = supervisor_spsr, cpu_abort_spsr = abort_spsr,
       cpu_irq_spsr = irq_spsr, cpu_undefined_spsr = undefined_spsr\<rparr>, r)}"

text \<open>\<open>static_cast\<close> of a code that has been checked to be one of the enumeration.\<close>

definition save_type_of_code :: "u8 \<Rightarrow> game_pak_save_type" where
  "save_type_of_code code = (if code = 0 then Save_none else if code = 1 then Sram32k else if code = 2 then Flash64k
     else if code = 3 then Flash128k else if code = 4 then Eeprom512 else Eeprom8k)"

definition flash_state_of_code :: "u8 \<Rightarrow> flash_command_state" where
  "flash_state_of_code code = (if code = 0 then Flash_idle else if code = 1 then Flash_unlock1 else if code = 2 then Flash_unlock2
     else if code = 3 then Flash_program_data else if code = 4 then Flash_erase_unlock1 else if code = 5 then Flash_erase_unlock2
     else if code = 6 then Flash_erase_command else Flash_bank_select)"

definition parse_memory_state :: "memory_bus_state reader" where
  "parse_memory_state r = do {
     (ewram, r) \<leftarrow> read_fixed kEwramSize r; (iwram, r) \<leftarrow> read_fixed kIwramSize r; (palette, r) \<leftarrow> read_fixed kPaletteSize r;
     (vram, r) \<leftarrow> read_fixed kVramSize r; (oam, r) \<leftarrow> read_fixed kOamSize r;
     (rom, r) \<leftarrow> read_blob (of_nat kGamePakRomWindowSize) r; (save, r) \<leftarrow> read_blob (of_nat kFlash128kSize) r;
     (save_type, r) \<leftarrow> read_u8 r; (command_state, r) \<leftarrow> read_u8 r; (id_mode, r) \<leftarrow> read_bool r; (bank, r) \<leftarrow> read_u8 r;
     (open_bus_latch, r) \<leftarrow> read_u32 r; (open_bus_latch_valid, r) \<leftarrow> read_bool r; (debug_string, r) \<leftarrow> read_fixed 256 r;
     if save_type > save_type_code Eeprom8k \<or> command_state > flash_state_code Flash_bank_select \<or> bank > 1 then None
     else do {
       (debug_output, r) \<leftarrow> read_blob 0xFFFFFFFF r;
       Some (\<lparr>game_pak_save = save, game_pak_save_type = save_type_of_code save_type,
         flash_command_state = flash_state_of_code command_state, flash_id_mode = id_mode, flash_bank = bank,
         st_ewram = ewram, st_iwram = iwram, st_palette = palette, st_vram = vram, st_oam = oam, st_game_pak_rom = rom,
         st_mgba_debug_string = debug_string, st_debug_output = debug_output, st_open_bus_latch = open_bus_latch,
         st_open_bus_latch_valid = open_bus_latch_valid\<rparr>, r)}}"

definition parse_interrupt_state :: "interrupt_controller reader" where
  "parse_interrupt_state r = do {
     (enable, r) \<leftarrow> read_u16 r; (flags, r) \<leftarrow> read_u16 r; (master, r) \<leftarrow> read_bool r;
     if enable AND NOT kSupportedMask = 0 \<and> flags AND NOT kSupportedMask = 0
     then Some (\<lparr>interrupt_enable = enable, interrupt_flags = flags, ic_master_enabled = master\<rparr>, r) else None}"

definition parse_timer_state :: "timer_state reader" where
  "parse_timer_state r = do {
     (counter, r) \<leftarrow> read_u16 r; (reload, r) \<leftarrow> read_u16 r; (control, r) \<leftarrow> read_u16 r; (overflow_count, r) \<leftarrow> read_u64 r;
     (enable_delay, r) \<leftarrow> read_u32 r; (phase, r) \<leftarrow> read_u16 r; (just_enabled, r) \<leftarrow> read_bool r;
     Some (\<lparr>ts_counter = counter, ts_reload = reload, ts_control = control, ts_prescaler_remainder = 0, ts_overflow_count = overflow_count,
       ts_enable_delay = enable_delay, ts_last_enable_phase = phase, ts_just_enabled = just_enabled\<rparr>, r)}"

definition parse_timers_state :: "timers_state reader" where
  "parse_timers_state r = do {
     (cycle_counter, r) \<leftarrow> read_u64 r; (timers, r) \<leftarrow> read_array kTimerCount parse_timer_state r;
     Some (\<lparr>tss_timers = timers, tss_cycle_counter = cycle_counter\<rparr>, r)}"

definition parse_dma_channel :: "dma_channel reader" where
  "parse_dma_channel r = do {
     (source, r) \<leftarrow> read_u32 r; (destination, r) \<leftarrow> read_u32 r; (word_count, r) \<leftarrow> read_u16 r; (control, r) \<leftarrow> read_u16 r;
     (current_source, r) \<leftarrow> read_u32 r; (current_destination, r) \<leftarrow> read_u32 r; (current_count, r) \<leftarrow> read_u32 r;
     (data_latch, r) \<leftarrow> read_u32 r;
     Some (\<lparr>dc_source = source, dc_destination = destination, dc_word_count = word_count, dc_control = control,
       dc_current_source = current_source, dc_current_destination = current_destination, dc_current_count = current_count,
       dc_data_latch = data_latch\<rparr>, r)}"

definition parse_dma_state :: "dma_state reader" where
  "parse_dma_state r = do {
     (channels, r) \<leftarrow> read_array kChannelCount parse_dma_channel r; (pending, r) \<leftarrow> read_bool r;
     Some (\<lparr>dst_channels = channels, dst_immediate_pending = pending\<rparr>, r)}"

definition parse_ppu_state :: "ppu_timing reader" where
  "parse_ppu_state r = do {
     (line, r) \<leftarrow> read_u16 r; (line_cycle, r) \<leftarrow> read_u16 r; (dispstat_control, r) \<leftarrow> read_u16 r;
     (lcd_control, r) \<leftarrow> read_array kLcdControlCount read_u16 r;
     if line < kTotalLines \<and> line_cycle < kCyclesPerLine
     then Some (\<lparr>ppu_line = line, ppu_line_cycle = line_cycle, ppu_dispstat_control = dispstat_control, ppu_lcd_control = lcd_control\<rparr>, r)
     else None}"

definition parse_fifo_state :: "i8 ring reader" where
  "parse_fifo_state r = do {
     (samples, r) \<leftarrow> read_array kFifoCapacity read_i8 r; (head, r) \<leftarrow> read_u32 r; (count, r) \<leftarrow> read_u32 r;
     Some (\<lparr>rb_samples = samples, rb_head = unat head, rb_size = unat count\<rparr>, r)}"

definition parse_square_state :: "square_channel reader" where
  "parse_square_state r = do {
     (enabled, r) \<leftarrow> read_bool r; (duty, r) \<leftarrow> read_u8 r; (volume, r) \<leftarrow> read_u8 r; (period_samples, r) \<leftarrow> read_u16 r;
     (phase, r) \<leftarrow> read_u16 r;
     if duty > 3 then None
     else Some (\<lparr>sq_enabled = enabled, sq_duty = duty, sq_volume = volume, sq_period_samples = period_samples, sq_phase = phase\<rparr>, r)}"

definition parse_mixed_sample :: "apu_mixed_sample reader" where
  "parse_mixed_sample r = do {(left, r) \<leftarrow> read_i16 r; (right, r) \<leftarrow> read_i16 r; Some (\<lparr>ms_left = left, ms_right = right\<rparr>, r)}"

definition parse_wave_state :: "wave_channel reader" where
  "parse_wave_state r = do {
     (enabled, r) \<leftarrow> read_bool r; (volume_shift, r) \<leftarrow> read_u8 r; (period_samples, r) \<leftarrow> read_u16 r; (phase, r) \<leftarrow> read_u16 r;
     if volume_shift > 4 then None
     else Some (\<lparr>wv_enabled = enabled, wv_volume_shift = volume_shift, wv_period_samples = period_samples, wv_phase = phase\<rparr>, r)}"

definition parse_noise_state :: "noise_channel reader" where
  "parse_noise_state r = do {
     (enabled, r) \<leftarrow> read_bool r; (volume, r) \<leftarrow> read_u8 r; (period_samples, r) \<leftarrow> read_u16 r; (phase, r) \<leftarrow> read_u16 r;
     (lfsr, r) \<leftarrow> read_u16 r; (narrow_lfsr, r) \<leftarrow> read_bool r;
     Some (\<lparr>ns_enabled = enabled, ns_volume = volume, ns_period_samples = period_samples, ns_phase = phase, ns_lfsr = lfsr,
       ns_narrow_lfsr = narrow_lfsr\<rparr>, r)}"

definition parse_apu_state :: "apu_state reader" where
  "parse_apu_state r = do {
     (soundcnt_l, r) \<leftarrow> read_u16 r; (soundcnt_h, r) \<leftarrow> read_u16 r; (soundcnt_x_status, r) \<leftarrow> read_u16 r; (soundbias, r) \<leftarrow> read_u16 r;
     (banks, r) \<leftarrow> read_array kWaveRamBanks (read_array kWaveRamHalfwords read_u16) r;
     (bank_select, r) \<leftarrow> read_bool r;
     (fifos, r) \<leftarrow> read_array 2 parse_fifo_state r;
     (latched, r) \<leftarrow> read_array 2 read_i8 r;
     (squares, r) \<leftarrow> read_array 2 parse_square_state r;
     (wave, r) \<leftarrow> parse_wave_state r;
     (noise, r) \<leftarrow> parse_noise_state r;
     (samples, r) \<leftarrow> read_array kAudioBufferCapacity parse_mixed_sample r;
     (buffer_head, r) \<leftarrow> read_u32 r; (buffer_size, r) \<leftarrow> read_u32 r;
     (frame_step_count, r) \<leftarrow> read_u64 r; (audio_sample_count, r) \<leftarrow> read_u64 r;
     (frame_cycle_remainder, r) \<leftarrow> read_u32 r; (audio_cycle_remainder, r) \<leftarrow> read_u32 r; (frame_step, r) \<leftarrow> read_u8 r;
     (mixed, r) \<leftarrow> parse_mixed_sample r;
     if frame_step < kFrameSequencerSteps
     then Some (\<lparr>as_soundcnt_l = soundcnt_l, as_soundcnt_h = soundcnt_h, as_soundcnt_x_status = soundcnt_x_status, as_soundbias = soundbias,
       as_wave_ram_banks = banks, as_wave_bank_select = bank_select, as_fifos = fifos, as_direct_sound_latched_samples = latched,
       as_square_channels = squares, as_wave_channel = wave, as_noise_channel = noise, as_audio_buffer_samples = samples,
       as_audio_buffer_head = unat buffer_head, as_audio_buffer_size = unat buffer_size, as_frame_step_count = frame_step_count,
       as_audio_sample_count = audio_sample_count, as_frame_cycle_remainder = frame_cycle_remainder,
       as_audio_cycle_remainder = audio_cycle_remainder, as_frame_step = frame_step, as_last_mixed_sample = mixed\<rparr>, r)
     else None}"

definition parse_irq_frame :: "hle_irq_frame reader" where
  "parse_irq_frame r = do {
     (return_lr, r) \<leftarrow> read_u32 r; (saved, r) \<leftarrow> read_optional (read_array 13 read_u32) r;
     (long_timer, r) \<leftarrow> read_bool r; (slow_timer0, r) \<leftarrow> read_bool r;
     Some (\<lparr>hif_return_lr = return_lr, hif_saved_registers = saved, hif_long_timer_return_pending = long_timer,
       hif_slow_timer0_return_pending = slow_timer0\<rparr>, r)}"

text \<open>The loop over the work frames; the frames read so far decide whether the next one is accepted.\<close>

primrec parse_work_frames :: "nat \<Rightarrow> nat \<Rightarrow> hle_work_frame list \<Rightarrow> hle_work_frame list reader" where
  "parse_work_frames 0 depth frames r = Some (frames, r)"
| "parse_work_frames (Suc n) depth frames r = do {
     (remaining_cycles, r) \<leftarrow> read_u64 r;
     if remaining_cycles = 0 then None
     else do {
       (owner, r) \<leftarrow> read_u32 r;
       if unat owner > depth \<or> (frames \<noteq> [] \<and> owner \<le> hwf_owner_irq_depth (List.last frames)) then None
       else parse_work_frames n depth (frames @ [\<lparr>hwf_remaining_cycles = remaining_cycles, hwf_owner_irq_depth = owner\<rparr>]) r}}"

definition parse_scheduler_state :: "u32 \<Rightarrow> core_scheduler_state reader" where
  "parse_scheduler_state version r = do {
     (scheduler_cycles, r) \<leftarrow> read_u64 r; (is_halted, r) \<leftarrow> read_bool r; (fetch_address, r) \<leftarrow> read_optional_u32 r;
     (fetch_width, r) \<leftarrow> read_optional_u8 r; (fetch_window, r) \<leftarrow> read_optional_u8 r; (prefetch_halfwords, r) \<leftarrow> read_u8 r;
     (suppress_prefetch, r) \<leftarrow> read_bool r; (recover_fetch, r) \<leftarrow> read_bool r; (suppress_bubble, r) \<leftarrow> read_bool r;
     (internal_load, r) \<leftarrow> read_bool r; (waitcnt, r) \<leftarrow> read_optional_u16 r; (return_lr, r) \<leftarrow> read_optional_u32 r;
     (saved, r) \<leftarrow> read_optional (read_array 13 read_u32) r;
     (reentry, r) \<leftarrow> read_bool r; (return_latency, r) \<leftarrow> read_bool r; (post_latency, r) \<leftarrow> read_bool r; (post_dispatch, r) \<leftarrow> read_bool r;
     (chained, r) \<leftarrow> read_bool r; (chained_data, r) \<leftarrow> read_bool r; (chained_spaced, r) \<leftarrow> read_bool r; (long_timer, r) \<leftarrow> read_bool r;
     (slow_timer0, r) \<leftarrow> read_bool r; (chain_active, r) \<leftarrow> read_bool r; (service_count, r) \<leftarrow> read_u8 r;
     (line_high, r) \<leftarrow> read_bool r; (latency, r) \<leftarrow> read_u8 r; (access_gap, r) \<leftarrow> read_u32 r; (misfetch_count, r) \<leftarrow> read_u32 r;
     (outer_frames, r) \<leftarrow> (if version \<ge> 4 then do {
         (count, r) \<leftarrow> read_u32 r;
         if unat count > length r div 7 then None
         else do {
           (frames, r) \<leftarrow> read_array (unat count) parse_irq_frame r;
           if count \<noteq> 0 \<and> return_lr = None then None else Some (frames, r)}}
       else Some ([], r));
     (work_frames, r) \<leftarrow> (if version \<ge> 6 then do {
         (count, r) \<leftarrow> read_u32 r;
         if unat count > length r div 12 then None
         else parse_work_frames (unat count) (length outer_frames + (if saved \<noteq> None then 1 else 0)) [] r}
       else Some ([], r));
     Some (\<lparr>sch_scheduler_cycles = scheduler_cycles, sch_halted = is_halted, sch_last_fetch_address = fetch_address,
       sch_last_fetch_width_bytes = fetch_width, sch_last_fetch_window = fetch_window, sch_prefetch_buffer_halfwords = prefetch_halfwords,
       sch_suppress_next_game_pak_prefetch = suppress_prefetch, sch_recover_next_game_pak_data_fetch = recover_fetch,
       sch_suppress_next_thumb_prefetch_execute_bubble = suppress_bubble, sch_previous_thumb_internal_load = internal_load,
       sch_last_waitcnt_control = waitcnt, sch_hle_irq_return_lr = return_lr, sch_hle_irq_saved_registers = saved,
       sch_hle_irq_reentry_dispatch_pending = reentry, sch_hle_irq_return_latency_pending = return_latency,
       sch_hle_irq_post_return_latency_armed = post_latency, sch_hle_irq_post_return_dispatch_pending = post_dispatch,
       sch_hle_irq_chained_post_return_dispatch_pending = chained, sch_hle_irq_chained_post_return_data_dispatch_pending = chained_data,
       sch_hle_irq_chained_post_return_spaced_data_dispatch_pending = chained_spaced,
       sch_hle_irq_long_timer_chained_return_pending = long_timer, sch_hle_irq_slow_timer0_return_pending = slow_timer0,
       sch_hle_irq_post_return_chain_active = chain_active, sch_hle_irq_chained_spaced_data_service_count = service_count,
       sch_auto_irq_line_high = line_high, sch_auto_irq_latency_cycles = latency, sch_timer_io_access_gap_cycles = access_gap,
       sch_thumb_misfetch_recovery_count = misfetch_count, sch_hle_irq_outer_frames = outer_frames,
       sch_hle_work_frames = work_frames\<rparr>, r)}"

definition parse_io_state :: "io_registers_state reader" where
  "parse_io_state r = do {
     (serial, r) \<leftarrow> read_array 7 read_u16 r; (transfer_active, r) \<leftarrow> read_bool r; (remaining, r) \<leftarrow> read_u32 r;
     Some (\<lparr>ios_serial = serial, ios_sio_transfer_active = transfer_active, ios_sio_transfer_cycles_remaining = remaining\<rparr>, r)}"

section \<open>The whole file\<close>

datatype save_state_decode_status =
  Decode_ok | Decode_too_small | Decode_bad_magic | Decode_unsupported_version | Decode_corrupt_payload | Decode_restore_rejected
| Decode_state_hash_mismatch

record save_state_decode_result =
  sdr_status :: save_state_decode_status
  sdr_version :: u32
  sdr_encoded_state_hash :: u64

definition kSaveStateMagic :: u32 where "kSaveStateMagic = 0x53534247"
definition kSaveStateVersion :: u32 where "kSaveStateVersion = 6"
definition kSaveStateHeaderSize :: nat where "kSaveStateHeaderSize = 16"

definition encode_payload :: "core_session_state \<Rightarrow> u8 list" where
  "encode_payload machine =
     write_cpu_state (arm_save_state (css_cpu machine)) @ write_memory_state (mb_save_state (css_memory machine))
     @ write_interrupt_state (css_interrupts machine) @ write_timers_state (timers_save_state (css_timers machine))
     @ write_dma_state (dma_save_state (css_dma machine)) @ write_ppu_state (ppu_save_state (css_ppu machine))
     @ write_apu_state (apu_save_state (css_apu machine))
     @ write_u16 (pressed_mask (css_keypad machine)) @ write_u16 (keycnt (css_keypad machine))
     @ write_u16 (wsc_read_control (css_waitcnt machine)) @ write_u8 (bios_mode_code (css_bios machine))
     @ write_io_state (css_io machine) @ write_scheduler_state (css_scheduler machine)"

definition encode :: "core_session \<Rightarrow> u8 list" where
  "encode session =
     write_u32 kSaveStateMagic @ write_u32 kSaveStateVersion @ write_u64 (session_state_hash session)
     @ encode_payload (session_save_state session)"

text \<open>What phase 1 parses: the component states, before any component has seen them.\<close>

record parsed_state =
  ps_cpu :: arm7tdmi
  ps_memory :: memory_bus_state
  ps_interrupts :: interrupt_controller
  ps_timers :: timers_state
  ps_dma :: dma_state
  ps_ppu :: ppu_timing
  ps_apu :: apu_state
  ps_pressed_mask :: u16
  ps_keycnt :: u16
  ps_waitcnt :: u16
  ps_bios_mode :: u8
  ps_io :: io_registers_state
  ps_scheduler :: core_scheduler_state

definition parse_payload :: "u32 \<Rightarrow> u8 list \<Rightarrow> parsed_state option" where
  "parse_payload version r = do {
     (cpu, r) \<leftarrow> parse_cpu_state r; (memory, r) \<leftarrow> parse_memory_state r; (interrupts, r) \<leftarrow> parse_interrupt_state r;
     (timers, r) \<leftarrow> parse_timers_state r; (dma, r) \<leftarrow> parse_dma_state r; (ppu, r) \<leftarrow> parse_ppu_state r; (apu, r) \<leftarrow> parse_apu_state r;
     (pressed, r) \<leftarrow> read_u16 r; (keys, r) \<leftarrow> read_u16 r; (waitcnt, r) \<leftarrow> read_u16 r; (bios_mode, r) \<leftarrow> read_u8 r;
     if bios_mode > bios_mode_code Hle then None
     else do {
       (io, r) \<leftarrow> parse_io_state r; (scheduler, r) \<leftarrow> parse_scheduler_state version r;
       if r \<noteq> [] then None
       else Some \<lparr>ps_cpu = cpu, ps_memory = memory, ps_interrupts = interrupts, ps_timers = timers, ps_dma = dma, ps_ppu = ppu,
         ps_apu = apu, ps_pressed_mask = pressed, ps_keycnt = keys, ps_waitcnt = waitcnt, ps_bios_mode = bios_mode, ps_io = io,
         ps_scheduler = scheduler\<rparr>}}"

definition bios_mode_of_code :: "u8 \<Rightarrow> bios_execution_mode" where
  "bios_mode_of_code code = (if code = 0 then No_bios else if code = 1 then Caller_provided_bios else Hle)"

definition restore_interrupts :: "interrupt_controller \<Rightarrow> interrupt_controller" where
  "restore_interrupts ic =
     (let next = ic_write_interrupt_enable (interrupt_enable ic) ic_reset;
          next = fold (\<lambda>source next. if interrupt_flags ic AND interrupt_bit source \<noteq> 0 then ic_request source next else next)
            enum_class.enum next
      in ic_set_master_enabled (ic_master_enabled ic) next)"

text \<open>Phase 2: a scratch machine, built by the loaders of the components; \<open>None\<close> inside when one of them refuses.\<close>

definition restore_snapshot :: "parsed_state \<Rightarrow> core_session_state option throws" where
  "restore_snapshot ps = do {
     let (cpu_ok, cpu) = arm_load_state (ps_cpu ps) arm_reset;
     let (memory_ok, memory) = mb_load_state (ps_memory ps) new_memory_bus;
     let (timers_ok, timers) = timers_load_state (ps_timers ps) timers_reset;
     (dma_ok, dma) \<leftarrow> dma_load_state (ps_dma ps) dma_reset;
     let (ppu_ok, ppu) = ppu_load_state (ps_ppu ps) ppu_reset;
     let (apu_ok, apu) = apu_load_state (ps_apu ps) apu_reset;
     let (keypad_ok, keypad) = keypad_set_pressed_mask (ps_pressed_mask ps) keypad_reset;
     if \<not> cpu_ok \<or> \<not> memory_ok \<or> \<not> timers_ok \<or> \<not> dma_ok \<or> \<not> ppu_ok \<or> \<not> apu_ok \<or> \<not> keypad_ok then Some None
     else Some (Some \<lparr>css_cpu = cpu, css_memory = memory, css_interrupts = restore_interrupts (ps_interrupts ps), css_timers = timers,
       css_dma = dma, css_ppu = ppu, css_apu = apu, css_bios = bios_set_mode (bios_mode_of_code (ps_bios_mode ps)) bios_reset,
       css_keypad = keypad_write_keycnt (ps_keycnt ps) keypad, css_waitcnt = wsc_write_control (ps_waitcnt ps) wsc_reset,
       css_io = ps_io ps, css_scheduler = ps_scheduler ps\<rparr>)}"

definition snapshot_state_hash :: "core_session_state \<Rightarrow> bool \<Rightarrow> u64" where
  "snapshot_state_hash st legacy_word_hashes =
     (let io = io_load_state (css_io st) \<lparr>dev_interrupts = css_interrupts st, dev_timers = css_timers st, dev_dma = css_dma st,
            dev_ppu = css_ppu st, dev_apu = css_apu st, dev_waitcnt = css_waitcnt st, dev_keypad = css_keypad st,
            dev_serial = vec_fill 7 0, dev_sio_active = False, dev_sio_cycles = 0\<rparr>;
          scheduler = scheduler_load_state (css_scheduler st) new_scheduler_state;
          h = fold add_u64 [arm_state_hash (css_cpu st), mb_state_hash (css_memory st), ic_state_hash (css_interrupts st),
                timers_state_hash (css_timers st), dma_state_hash (css_dma st), ppu_state_hash (css_ppu st),
                if legacy_word_hashes then legacy_wave_state_hash (css_apu st) else apu_state_hash (css_apu st)] kOffsetBasis;
          h = add_u8 (bios_mode_code (css_bios st)) h
      in fold add_u64 [keypad_state_hash (css_keypad st), wsc_state_hash (css_waitcnt st), io_state_hash io,
           if legacy_word_hashes then legacy_irq_state_hash scheduler else scheduler_state_hash scheduler] h)"

definition decode_result :: "save_state_decode_status \<Rightarrow> u32 \<Rightarrow> u64 \<Rightarrow> save_state_decode_result" where
  "decode_result status version encoded_hash = \<lparr>sdr_status = status, sdr_version = version, sdr_encoded_state_hash = encoded_hash\<rparr>"

definition decode_payload :: "u32 \<Rightarrow> u64 \<Rightarrow> u8 list \<Rightarrow> core_session \<Rightarrow> (save_state_decode_result \<times> core_session) throws" where
  "decode_payload version encoded_hash r session =
     (case parse_payload version r of
        None \<Rightarrow> Some (decode_result Decode_corrupt_payload version encoded_hash, session)
      | Some ps \<Rightarrow> do {
          snapshot \<leftarrow> restore_snapshot ps;
          Some (case snapshot of
              None \<Rightarrow> (decode_result Decode_restore_rejected version encoded_hash, session)
            | Some next \<Rightarrow>
                if snapshot_state_hash next (version < 5) \<noteq> encoded_hash
                then (decode_result Decode_state_hash_mismatch version encoded_hash, session)
                else (decode_result Decode_ok version encoded_hash, session_load_state next session))})"

definition decode_into :: "u8 list \<Rightarrow> core_session \<Rightarrow> (save_state_decode_result \<times> core_session) throws" where
  "decode_into bytes session =
     (if length bytes < kSaveStateHeaderSize then Some (decode_result Decode_too_small 0 0, session)
      else case read_u32 bytes of
        None \<Rightarrow> Some (decode_result Decode_bad_magic 0 0, session)
      | Some (magic, r) \<Rightarrow>
          if magic \<noteq> kSaveStateMagic then Some (decode_result Decode_bad_magic 0 0, session)
          else (case read_u32 r of
              None \<Rightarrow> Some (decode_result Decode_corrupt_payload 0 0, session)
            | Some (version, r) \<Rightarrow>
                if version \<noteq> 3 \<and> version \<noteq> 4 \<and> version \<noteq> 5 \<and> version \<noteq> kSaveStateVersion
                then Some (decode_result Decode_unsupported_version version 0, session)
                else (case read_u64 r of
                    None \<Rightarrow> Some (decode_result Decode_corrupt_payload version 0, session)
                  | Some (encoded_hash, r) \<Rightarrow> decode_payload version encoded_hash r session)))"

end
