(* ===== verification/Save_Codec_Correct.thy ===== *)
theory Save_Codec_Correct
  imports Save_Codec Dma_Correct
begin

text \<open>
  The save state codec is correct: every section parses back what its writer wrote (the sections interpret the locale \<open>wire_format\<close>), a
  saved session decodes into a session that cannot be told apart from it, and a refused file changes nothing.
\<close>

section \<open>Sections\<close>

definition cpu_shape :: "arm7tdmi \<Rightarrow> bool" where
  "cpu_shape c \<longleftrightarrow> length (cpu_registers c) = 16 \<and> length (cpu_shared_r8_r12 c) = 5 \<and> length (cpu_fiq_r8_r12 c) = 5"

interpretation wire_cpu: wire_format write_cpu_state parse_cpu_state cpu_shape
proof
  fix c rest
  assume "cpu_shape c"
  then show "parse_cpu_state (write_cpu_state c @ rest) = Some (c, rest)"
    by (simp add: parse_cpu_state_def write_cpu_state_def wire_simps cpu_shape_def kRegisterCount_def)
qed

lemma save_type_code_decoded: "save_type_of_code (save_type_code t) = t" "\<not> save_type_code Eeprom8k < save_type_code t"
  by (cases t; simp add: save_type_of_code_def)+

lemma flash_state_code_decoded: "flash_state_of_code (flash_state_code f) = f" "\<not> flash_state_code Flash_bank_select < flash_state_code f"
  by (cases f; simp add: flash_state_of_code_def)+

definition memory_shape :: "memory_bus_state \<Rightarrow> bool" where
  "memory_shape m \<longleftrightarrow> length (st_ewram m) = kEwramSize \<and> length (st_iwram m) = kIwramSize \<and> length (st_palette m) = kPaletteSize
     \<and> length (st_vram m) = kVramSize \<and> length (st_oam m) = kOamSize \<and> length (st_game_pak_rom m) \<le> kGamePakRomWindowSize
     \<and> length (game_pak_save m) \<le> kFlash128kSize \<and> flash_bank m \<le> 1 \<and> length (st_mgba_debug_string m) = 256
     \<and> length (st_debug_output m) < 2 ^ 32"

interpretation wire_memory: wire_format write_memory_state parse_memory_state memory_shape
proof
  fix m rest
  assume "memory_shape m"
  moreover have "unat (of_nat kGamePakRomWindowSize :: u32) = kGamePakRomWindowSize" "unat (of_nat kFlash128kSize :: u32) = kFlash128kSize"
    by (simp_all add: kGamePakRomWindowSize_def kFlash128kSize_def)
  ultimately show "parse_memory_state (write_memory_state m @ rest) = Some (m, rest)"
    by (simp add: parse_memory_state_def write_memory_state_def wire_simps memory_shape_def save_type_code_decoded flash_state_code_decoded
        not_less del: save_type_code.simps flash_state_code.simps)
qed

interpretation wire_interrupts: wire_format write_interrupt_state parse_interrupt_state ic_wf
  by unfold_locales (simp add: parse_interrupt_state_def write_interrupt_state_def wire_simps ic_wf_def)

interpretation wire_timer: wire_format write_timer_state parse_timer_state "\<lambda>t. ts_prescaler_remainder t = 0"
  by unfold_locales (simp add: parse_timer_state_def write_timer_state_def wire_simps)

interpretation wire_timers: wire_format write_timers_state parse_timers_state
  "\<lambda>t. length (tss_timers t) = 4 \<and> list_all (\<lambda>t. ts_prescaler_remainder t = 0) (tss_timers t)"
  by unfold_locales (simp add: parse_timers_state_def write_timers_state_def wire_simps wire_timer.array kTimerCount_def)

interpretation wire_dma_channel: wire_format write_dma_channel parse_dma_channel "\<lambda>_. True"
  by unfold_locales (simp add: parse_dma_channel_def write_dma_channel_def wire_simps)

interpretation wire_dma: wire_format write_dma_state parse_dma_state "\<lambda>d. length (dst_channels d) = 4"
  by unfold_locales (simp add: parse_dma_state_def write_dma_state_def wire_simps wire_dma_channel.array kChannelCount_def)

interpretation wire_ppu: wire_format write_ppu_state parse_ppu_state ppu_wf
  by unfold_locales (simp add: parse_ppu_state_def write_ppu_state_def wire_simps ppu_wf_def)

interpretation wire_fifo: wire_format write_fifo_state parse_fifo_state "ring_wf kFifoCapacity"
  by unfold_locales (simp add: parse_fifo_state_def write_fifo_state_def wire_simps ring_wf_def kFifoCapacity_def unat_of_nat)

interpretation wire_square: wire_format write_square_state parse_square_state "\<lambda>q. sq_duty q \<le> 3"
  by unfold_locales (simp add: parse_square_state_def write_square_state_def wire_simps)

interpretation wire_mixed: wire_format write_mixed_sample parse_mixed_sample "\<lambda>_. True"
  by unfold_locales (simp add: parse_mixed_sample_def write_mixed_sample_def wire_simps)

interpretation wire_bank: wire_format "write_array write_u16" "read_array n read_u16" "\<lambda>bank. length bank = n" for n
  by unfold_locales (simp add: wire_simps)

interpretation wire_saved: wire_format "write_array write_u32" "read_array n read_u32" "\<lambda>rs. length rs = n" for n
  by unfold_locales (simp add: wire_simps)

definition apu_shape :: "apu_state \<Rightarrow> bool" where
  "apu_shape a \<longleftrightarrow> length (as_wave_ram_banks a) = 2 \<and> list_all (\<lambda>bank. length bank = 8) (as_wave_ram_banks a)
     \<and> length (as_fifos a) = 2 \<and> list_all (ring_wf kFifoCapacity) (as_fifos a) \<and> length (as_direct_sound_latched_samples a) = 2
     \<and> length (as_square_channels a) = 2 \<and> list_all (\<lambda>q. sq_duty q \<le> 3) (as_square_channels a) \<and> wv_volume_shift (as_wave_channel a) \<le> 4
     \<and> length (as_audio_buffer_samples a) = kAudioBufferCapacity \<and> as_audio_buffer_head a < kAudioBufferCapacity
     \<and> as_audio_buffer_size a \<le> kAudioBufferCapacity \<and> as_frame_step a < 8"

interpretation wire_apu: wire_format write_apu_state parse_apu_state apu_shape
proof
  fix a rest
  assume shape: "apu_shape a"
  then have "unat (of_nat (as_audio_buffer_head a) :: u32) = as_audio_buffer_head a" "unat (of_nat (as_audio_buffer_size a) :: u32) = as_audio_buffer_size a"
    by (simp_all add: apu_shape_def kAudioBufferCapacity_def unat_of_nat)
  with shape show "parse_apu_state (write_apu_state a @ rest) = Some (a, rest)"
    by (simp add: parse_apu_state_def write_apu_state_def parse_wave_state_def parse_noise_state_def parse_mixed_sample_def wire_simps
        apu_shape_def wire_bank.array wire_fifo.array wire_square.array wire_mixed.array kWaveRamBanks_def kWaveRamHalfwords_def
        kFrameSequencerSteps_def not_less)
qed

interpretation wire_irq_frame: wire_format write_irq_frame parse_irq_frame "\<lambda>f. registers_ok (hif_saved_registers f)"
  by unfold_locales (simp add: parse_irq_frame_def write_irq_frame_def wire_simps wire_saved.optional registers_ok_def)

interpretation wire_io: wire_format write_io_state parse_io_state "\<lambda>io. length (ios_serial io) = 7"
  by unfold_locales (simp add: parse_io_state_def write_io_state_def wire_simps)

lemma length_irq_frames: "7 * length fs \<le> length (write_array write_irq_frame fs)"
proof (induction fs)
  case (Cons f fs)
  have "7 \<le> length (write_irq_frame f)"
    by (simp add: write_irq_frame_def write_optional_def)
  then show ?case
    using Cons by (simp add: write_array_def)
qed simp

lemma length_work_frames: "length (write_array write_work_frame fs) = 12 * length fs"
  by (induction fs) (simp_all add: write_array_def write_work_frame_def)

lemma parse_work_frames_write:
  assumes "\<forall>f \<in> set fs. hwf_remaining_cycles f \<noteq> 0 \<and> unat (hwf_owner_irq_depth f) \<le> depth"
    and "sorted_wrt (<) (map hwf_owner_irq_depth (acc @ fs))"
  shows "parse_work_frames (length fs) depth acc (write_array write_work_frame fs @ rest) = Some (acc @ fs, rest)"
  using assms
proof (induction fs arbitrary: acc)
  case (Cons f fs)
  have "\<not> (acc \<noteq> [] \<and> hwf_owner_irq_depth f \<le> hwf_owner_irq_depth (List.last acc))"
    using Cons.prems(2) by (cases acc rule: rev_cases) (auto simp: sorted_wrt_append not_le)
  then show ?case
    using Cons.IH [of "acc @ [f]"] Cons.prems by (cases f) (simp add: write_array_def write_work_frame_def wire_simps not_less)
qed (simp add: write_array_def)

interpretation wire_scheduler: wire_format write_scheduler_state "parse_scheduler_state kSaveStateVersion" scheduler_wf
proof
  fix s rest
  assume wf: "scheduler_wf s"
  let ?outer = "sch_hle_irq_outer_frames s"
  let ?work = "sch_hle_work_frames s"
  have counts: "unat (of_nat (length ?outer) :: u32) = length ?outer" "unat (of_nat (length ?work) :: u32) = length ?work"
    using wf by (simp_all add: scheduler_wf_def unat_of_nat)
  have outer: "read_array (length ?outer) parse_irq_frame (write_array write_irq_frame ?outer @ r) = Some (?outer, r)" for r
    using wf by (intro wire_irq_frame.array) (simp_all add: scheduler_wf_def list_all_iff)
  have work: "parse_work_frames (length ?work) (irq_depth s) [] (write_array write_work_frame ?work @ r) = Some (?work, r)" for r
    using wf parse_work_frames_write [of ?work "irq_depth s" "[]" r] by (simp add: scheduler_wf_def)
  have enough: "\<not> length (write_array write_irq_frame ?outer @ r) div 7 < length ?outer" "\<not> length (write_array write_work_frame ?work @ r) div 12 < length ?work" for r
    using length_irq_frames [of ?outer] length_work_frames [of ?work] by (simp_all add: not_less div_le_mono less_eq_div_iff_mult_less_eq)
  have nested: "\<not> (of_nat (length ?outer) \<noteq> (0 :: u32) \<and> sch_hle_irq_return_lr s = None)"
    using wf by (auto simp: scheduler_wf_def)
  have saved: "read_optional (read_array 13 read_u32) (write_optional (write_array write_u32) (sch_hle_irq_saved_registers s) @ r)
      = Some (sch_hle_irq_saved_registers s, r)" for r
    using wf by (intro wire_saved.optional) (simp add: scheduler_wf_def registers_ok_def)
  show "parse_scheduler_state kSaveStateVersion (write_scheduler_state s @ rest) = Some (s, rest)"
    unfolding parse_scheduler_state_def write_scheduler_state_def append_assoc
    by (simp add: wire_simps saved counts outer work [unfolded irq_depth_def] enough nested kSaveStateVersion_def split del: if_split del: length_append not_None_eq)
qed

section \<open>The payload\<close>

text \<open>
  A session that can be saved: well formed, its DMA channels in a state that the loader accepts (a transfer that disables its own channel
  may leave another), the pending flag in step with the channels, and a debug log that fits its length field.
\<close>

definition session_restorable :: "core_session \<Rightarrow> bool" where
  "session_restorable s \<longleftrightarrow> session_wf s \<and> dma_wf (dev_dma (ses_devices s)) \<and> dma_pending_ok (dev_dma (ses_devices s))
     \<and> length (mb_debug_output (ses_memory s)) < 2 ^ 32"

text \<open>The bytes do not hold the cycle at which a timer was enabled; the loader puts the current cycle there.\<close>

definition timers_reanchored :: "timers \<Rightarrow> timers" where
  "timers_reanchored ts = \<lparr>tm_timers = map (\<lambda>t. timer_restore (tm_cycle_counter ts) (timer_save t)) (tm_timers ts), tm_cycle_counter = tm_cycle_counter ts\<rparr>"

definition parsed_of :: "core_session \<Rightarrow> parsed_state" where
  "parsed_of s =
     (let d = ses_devices s in
      \<lparr>ps_cpu = ses_cpu s, ps_memory = mb_save_state (ses_memory s), ps_interrupts = dev_interrupts d, ps_timers = timers_save_state (dev_timers d),
       ps_dma = dma_save_state (dev_dma d), ps_ppu = dev_ppu d, ps_apu = apu_save_state (dev_apu d), ps_pressed_mask = pressed_mask (dev_keypad d),
       ps_keycnt = keycnt (dev_keypad d), ps_waitcnt = wsc_read_control (dev_waitcnt d), ps_bios_mode = bios_mode_code (ses_bios s),
       ps_io = io_save_state d, ps_scheduler = ses_scheduler s\<rparr>)"

lemma save_size_bound: "save_size_for_type t \<le> kFlash128kSize"
  by (cases t) (simp_all add: save_size_defs)

lemma state_shapes:
  assumes "session_restorable s"
  shows "cpu_shape (ses_cpu s)" "memory_shape (mb_save_state (ses_memory s))" "ic_wf (dev_interrupts (ses_devices s))"
    "length (tss_timers (timers_save_state (dev_timers (ses_devices s)))) = 4
      \<and> list_all (\<lambda>t. ts_prescaler_remainder t = 0) (tss_timers (timers_save_state (dev_timers (ses_devices s))))"
    "length (dst_channels (dma_save_state (dev_dma (ses_devices s)))) = 4" "ppu_wf (dev_ppu (ses_devices s))"
    "apu_shape (apu_save_state (dev_apu (ses_devices s)))" "length (ios_serial (io_save_state (ses_devices s))) = 7" "scheduler_wf (ses_scheduler s)"
proof -
  have wf: "cpu_wf (ses_cpu s)" "mb_wf (ses_memory s)" "devices_wf (ses_devices s)" "length (mb_debug_output (ses_memory s)) < 2 ^ 32"
    "dma_wf (dev_dma (ses_devices s))" "scheduler_wf (ses_scheduler s)" "timers_wf (dev_timers (ses_devices s))"
    using assms by (simp_all add: session_restorable_def session_wf_def)
  then have dev: "ic_wf (dev_interrupts (ses_devices s))" "timers_wf (dev_timers (ses_devices s))" "ppu_wf (dev_ppu (ses_devices s))"
    "apu_wf (dev_apu (ses_devices s))" "sio_wf (ses_devices s)"
    by (simp_all add: devices_wf_def)
  show "cpu_shape (ses_cpu s)"
    using wf(1) by (simp add: cpu_shape_def cpu_wf_def)
  show "memory_shape (mb_save_state (ses_memory s))"
    using wf(2,4) save_size_bound by (simp add: memory_shape_def mb_wf_def save_wf_def mb_save_state_def)
  show "ic_wf (dev_interrupts (ses_devices s))" "ppu_wf (dev_ppu (ses_devices s))" "scheduler_wf (ses_scheduler s)"
    using dev wf by simp_all
  show "length (tss_timers (timers_save_state (dev_timers (ses_devices s)))) = 4
      \<and> list_all (\<lambda>t. ts_prescaler_remainder t = 0) (tss_timers (timers_save_state (dev_timers (ses_devices s))))"
    using dev(2) by (simp add: timers_wf_def timers_save_state_def timer_save_def list_all_iff)
  show "length (dst_channels (dma_save_state (dev_dma (ses_devices s)))) = 4"
    using wf(5) by (simp add: dma_wf_def dma_save_state_def)
  show "apu_shape (apu_save_state (dev_apu (ses_devices s)))"
    using dev(4) by (auto simp: apu_shape_def apu_wf_def apu_save_state_def ring_wf_def list_all_iff square_wf_def wave_wf_def word_less_nat_alt word_le_nat_alt)
  show "length (ios_serial (io_save_state (ses_devices s))) = 7"
    using dev(5) by (simp add: sio_wf_def io_save_state_def)
qed

lemma parse_encoded:
  assumes "session_restorable s"
  shows "parse_payload kSaveStateVersion (encode_payload (session_save_state s)) = Some (parsed_of s)"
proof -
  have "\<not> bios_mode_code Hle < bios_mode_code m" for m
    by (cases m) simp_all
  then show ?thesis
    unfolding parse_payload_def encode_payload_def session_save_state_def parsed_of_def Let_def
    by (simp add: state_shapes [OF assms] wire_simps wire_cpu.get_put wire_memory.get_put wire_interrupts.get_put wire_timers.get_put
        wire_dma.get_put wire_ppu.get_put wire_apu.get_put wire_io.get_put wire_scheduler.whole arm_save_state_def ppu_save_state_def
        scheduler_save_state_def del: bios_mode_code.simps)
qed

section \<open>The scratch machine\<close>

lemma request_fold_bits:
  "bit (interrupt_flags (fold (\<lambda>source next. if flags AND interrupt_bit source \<noteq> 0 then ic_request source next else next) sources ic)) n
    \<longleftrightarrow> bit (interrupt_flags ic) n \<or> (bit flags n \<and> n \<in> interrupt_source_code ` set sources)"
proof (induction sources arbitrary: ic)
  case (Cons s sources)
  have "bit (interrupt_flags (ic_request s ic)) n \<longleftrightarrow> bit (interrupt_flags ic) n \<or> n = interrupt_source_code s"
    by (auto simp: ic_request_def bit_simps)
  then show ?case
    unfolding fold_simps Cons.IH by auto
qed simp

lemma fold_request_rest:
  "interrupt_enable (fold (\<lambda>source next. if P source then ic_request source next else next) sources ic) = interrupt_enable ic"
  by (induction sources arbitrary: ic) (simp_all add: ic_request_def)

lemma restore_interrupts_same:
  assumes "ic_wf ic"
  shows "restore_interrupts ic = ic"
proof -
  let ?next = "fold (\<lambda>source next. if interrupt_flags ic AND interrupt_bit source \<noteq> 0 then ic_request source next else next)
      enum_class.enum (ic_write_interrupt_enable (interrupt_enable ic) ic_reset)"
  have below: "n < 14" if "bit (interrupt_flags ic) n" for n
    using that assms bit_imp_le_length [OF that] unfolding ic_wf_def by (auto simp: word_eq_bits bit_simps)
  have all_codes: "interrupt_source_code ` UNIV = {..<14}"
    using interrupt_source_code_surj by (auto simp: image_iff)
  have "interrupt_flags ?next = interrupt_flags ic"
    by (rule bit_word_eqI, unfold request_fold_bits enum_UNIV all_codes) (use below in \<open>auto simp: ic_write_interrupt_enable_def ic_reset_def\<close>)
  moreover have "interrupt_enable ?next = interrupt_enable ic"
    using assms unfolding fold_request_rest by (auto simp: ic_wf_def ic_write_interrupt_enable_def word_eq_bits bit_simps)
  ultimately show ?thesis
    by (cases ic) (simp add: restore_interrupts_def Let_def ic_set_master_enabled_def)
qed

lemma cpu_mode_accepted: "cpu_wf c \<Longrightarrow> arm_load_state c c0 = (True, c)"
  by (auto simp: arm_load_state_def cpu_wf_def valid_modes_def decode_cpu_mode_def kModeMask_def mode_defs)

lemma restored_snapshot:
  assumes "session_restorable s"
  shows "restore_snapshot (parsed_of s) = Some (Some ((session_save_state s)\<lparr>css_timers := timers_reanchored (dev_timers (ses_devices s))\<rparr>))"
proof -
  let ?d = "ses_devices s"
  have wf: "cpu_wf (ses_cpu s)" "mb_wf (ses_memory s)" "ic_wf (dev_interrupts ?d)" "timers_wf (dev_timers ?d)" "ppu_wf (dev_ppu ?d)"
    "apu_wf (dev_apu ?d)" "keypad_wf (dev_keypad ?d)" "dma_wf (dev_dma ?d)" "dma_pending_ok (dev_dma ?d)" "wsc_wf (dev_waitcnt ?d)"
    using assms by (simp_all add: session_restorable_def session_wf_def devices_wf_def)
  have keypad: "keypad_set_pressed_mask (pressed_mask (dev_keypad ?d)) keypad_reset = (True, keypad_reset\<lparr>pressed_mask := pressed_mask (dev_keypad ?d)\<rparr>)"
    "keypad_write_keycnt (keycnt (dev_keypad ?d)) (keypad_reset\<lparr>pressed_mask := pressed_mask (dev_keypad ?d)\<rparr>) = dev_keypad ?d"
    using wf(7) by (cases "dev_keypad ?d"; auto simp: keypad_wf_def keypad_set_pressed_mask_def keypad_write_keycnt_def keypad_reset_def word_eq_bits bit_simps)+
  have waitcnt: "wsc_write_control (wsc_read_control (dev_waitcnt ?d)) wsc_reset = dev_waitcnt ?d"
    using wf(10) by (cases "dev_waitcnt ?d") (simp add: wsc_wf_def wsc_write_control_def wsc_reset_def)
  have bios: "bios_set_mode (bios_mode_of_code (bios_mode_code m)) bios_reset = m" for m
    by (cases m) (simp_all add: bios_set_mode_def bios_mode_of_code_def)
  have dma: "dma_load_state (dma_save_state (dev_dma ?d)) dma_reset = Some (True, dev_dma ?d)"
    using dma_save_load_state wf(8,9) by blast
  have memory: "mb_load_state (mb_save_state (ses_memory s)) new_memory_bus = (True, ses_memory s)"
    using mb_save_load_state wf(2) by blast
  have apu: "apu_load_state (apu_save_state (dev_apu ?d)) apu_reset = (True, dev_apu ?d)"
    using apu_save_load_state wf(6) by blast
  have ppu: "ppu_load_state (dev_ppu ?d) ppu_reset = (True, dev_ppu ?d)"
    by (simp add: ppu_load_state_def)
  show ?thesis
    unfolding restore_snapshot_def parsed_of_def session_save_state_def
    by (simp add: Let_def cpu_mode_accepted wf memory timers_load_save dma ppu apu keypad restore_interrupts_same bios waitcnt
        scheduler_save_state_def timers_reanchored_def)
qed

section \<open>Files\<close>

lemma snapshot_hash_is_session_hash: "session_state_hash (session_load_state st s) = snapshot_state_hash st False"
  by (simp add: session_state_hash_def session_load_state_def snapshot_state_hash_def io_state_hash_def io_load_state_def Let_def
      scheduler_load_state_def)

lemma read_array_length: "read_array n get r = Some (xs, r') \<Longrightarrow> length xs = n"
  by (induction n arbitrary: xs r r') (auto split: bind_splits prod.splits)

lemma parsed_channels: "parse_payload version r = Some ps \<Longrightarrow> length (dst_channels (ps_dma ps)) = 4"
  by (auto simp: parse_payload_def parse_dma_state_def kChannelCount_def dest!: read_array_length split: bind_splits prod.splits if_splits)

lemma timers_reanchored_same:
  "timers_save_state (timers_reanchored ts) = timers_save_state ts" "timers_state_hash (timers_reanchored ts) = timers_state_hash ts"
proof -
  show "timers_save_state (timers_reanchored ts) = timers_save_state ts"
    by (simp add: timers_save_state_def timers_reanchored_def timer_save_def timer_restore_def)
  have "timer_hash (timer_restore now (timer_save t)) = timer_hash t" for now t
    by (simp add: timer_hash_def timer_restore_def timer_save_def fun_eq_iff)
  then show "timers_state_hash (timers_reanchored ts) = timers_state_hash ts"
    by (simp add: timers_state_hash_def timers_reanchored_def fold_map comp_def)
qed

lemma reanchored_wf:
  assumes "timers_wf ts"
  shows "timers_wf (timers_reanchored ts)"
proof -
  have "timer_wf now i (timer_restore now (timer_save t))" if "timer_wf now i t" for now i t
    using that by (auto simp: timer_wf_def timer_restore_def timer_save_def timer_enabled_def)
  then show ?thesis
    using assms by (simp add: timers_wf_def timers_reanchored_def)
qed

lemma restored_session:
  fixes g :: u64
  assumes "session_restorable s"
  defines "t' \<equiv> s\<lparr>ses_generation := g, ses_devices := (ses_devices s)\<lparr>dev_timers := timers_reanchored (dev_timers (ses_devices s))\<rparr>\<rparr>"
  shows "session_restorable t'" "session_state_hash t' = session_state_hash s" "encode t' = encode s"
proof -
  show "session_restorable t'"
    using assms reanchored_wf [of "dev_timers (ses_devices s)"] timers_wf_shape
    by (auto simp: session_restorable_def session_wf_def devices_wf_def sio_wf_def)
  show hash: "session_state_hash t' = session_state_hash s"
    by (simp add: t'_def session_state_hash_def timers_reanchored_same io_state_hash_def Let_def)
  show "encode t' = encode s"
    unfolding encode_def hash
    by (simp add: t'_def encode_payload_def session_save_state_def timers_reanchored_same io_save_state_def)
qed

text \<open>C13. A save state file restores the machine: decoding what was encoded from a restorable session into any other session succeeds
  with the current version and the session's fingerprint; the result is the saved session, apart from the generation counter of
  the receiving session and the internal cycle anchors of the timers; it can be saved again, with the same bytes.\<close>

theorem decode_encode:
  assumes "session_restorable s"
  shows "\<exists>t'. decode_into (encode s) t = Some (decode_result Decode_ok kSaveStateVersion (session_state_hash s), t')
    \<and> t' = s\<lparr>ses_generation := ses_generation t + 1,
              ses_devices := (ses_devices s)\<lparr>dev_timers := timers_reanchored (dev_timers (ses_devices s))\<rparr>\<rparr>
    \<and> session_restorable t' \<and> encode t' = encode s"
proof -
  let ?st = "(session_save_state s)\<lparr>css_timers := timers_reanchored (dev_timers (ses_devices s))\<rparr>"
  let ?t = "s\<lparr>ses_generation := ses_generation t + 1, ses_devices := (ses_devices s)\<lparr>dev_timers := timers_reanchored (dev_timers (ses_devices s))\<rparr>\<rparr>"
  have load: "session_load_state ?st t = ?t"
    by (simp add: session_load_state_def session_save_state_def io_load_state_def io_save_state_def scheduler_load_state_def scheduler_save_state_def)
  then have "snapshot_state_hash ?st False = session_state_hash s"
    using snapshot_hash_is_session_hash [of ?st t] restored_session(2) [OF assms] by simp
  moreover have "\<not> length (encode s) < kSaveStateHeaderSize"
    by (simp add: encode_def kSaveStateHeaderSize_def)
  moreover have "\<not> kSaveStateVersion < 5"
    by (simp add: kSaveStateVersion_def)
  ultimately have "decode_into (encode s) t = Some (decode_result Decode_ok kSaveStateVersion (session_state_hash s), ?t)"
    unfolding decode_into_def decode_payload_def
    using parse_encoded [OF assms] restored_snapshot [OF assms] load
    by (simp add: encode_def wire_simps)
  then show ?thesis
    using restored_session [OF assms] by blast
qed

lemma new_session_restorable: "session_restorable new_session"
proof -
  have "mb_debug_output new_memory_bus = []"
    by (simp add: new_memory_bus_def clear_game_pak_save_def mb_reset_def mb_soft_reset_def reset_flash_protocol_def clear_debug_output_def)
  moreover have "dev_dma reset_devices = dma_reset" "timers_wf (dev_timers reset_devices)" "wsc_wf (dev_waitcnt reset_devices)"
    by (simp_all add: reset_devices_def timers_wf_reset wsc_wf_def wsc_write_control_def wsc_read_control_def wsc_reset_def)
  ultimately show ?thesis
    by (simp add: session_restorable_def session_wf_def new_session_def new_scheduler_wf arm_reset_wf new_memory_bus_wf devices_wf_reset dma_wf_reset)
qed

theorem decode_encode_witness:
  "\<exists>t'. decode_into (encode new_session) (press_button Button_a new_session)
      = Some (decode_result Decode_ok kSaveStateVersion (session_state_hash new_session), t')"
  using decode_encode [OF new_session_restorable, of "press_button Button_a new_session"] by blast

text \<open>C14. Untrusted files: for every byte string, decoding returns a result and never throws; unless the result is ok, the session is left
  exactly as it was; and when a file of version 5 or 6 is accepted, the restored session has the fingerprint that the file states.\<close>

theorem decode_into_safe:
  "\<exists>r t'. decode_into bytes t = Some (r, t') \<and> (sdr_status r \<noteq> Decode_ok \<longrightarrow> t' = t)
    \<and> (sdr_status r = Decode_ok \<and> sdr_version r \<ge> 5 \<longrightarrow> session_state_hash t' = sdr_encoded_state_hash r)"
proof -
  have payload: "\<exists>r t'. decode_payload version encoded_hash bytes t = Some (r, t') \<and> (sdr_status r \<noteq> Decode_ok \<longrightarrow> t' = t)
      \<and> (sdr_status r = Decode_ok \<and> sdr_version r \<ge> 5 \<longrightarrow> session_state_hash t' = sdr_encoded_state_hash r)"
    for version encoded_hash bytes
  proof (cases "parse_payload version bytes")
    case (Some ps)
    have "restore_snapshot ps \<noteq> None"
      using dma_load_state_checks [OF parsed_channels [OF Some], of dma_reset] by (simp add: restore_snapshot_def split_beta Let_def)
    then obtain snapshot where "restore_snapshot ps = Some snapshot"
      by blast
    then show ?thesis
      using Some snapshot_hash_is_session_hash
      by (cases snapshot; cases "version < 5") (auto simp: decode_payload_def decode_result_def dest: leD)
  qed (simp add: decode_payload_def decode_result_def)
  show ?thesis
    unfolding decode_into_def using payload by (auto simp: decode_result_def split: option.splits)
qed

theorem decode_into_safe_witness:
  "\<exists>r. decode_into [0, 1, 2] new_session = Some (r, new_session)"
  using decode_into_safe [of "[0, 1, 2]" new_session] by (auto simp: decode_into_def kSaveStateHeaderSize_def)

end
