(* ===== verification/Spec2Isabelle.thy ===== *)
theory Spec2Isabelle
  imports Interrupts Keypad Wait_States Address_Map Ppu_Timing Timers Apu_Correct Memory_Safety Dma_Correct
    Bios Cpu_Banks Cpu_Alu Cpu_Shifter Cpu_Bus_Safety Ppu_Scanline Ppu_Effects Session_Correct Save_Codec_Correct
begin

text \<open>
  Verification library of the emulator core (\<open>src/src/core\<close> and \<open>src/include/gba/core\<close>).

  \<^bold>\<open>The program.\<close> A Game Boy Advance emulator. A CPU interpreter runs against a memory bus; the bus dispatches by address to RAM arrays, to
  the cartridge (ROM and save memory) and, for the I/O region, through callbacks to a register facade that owns no device but forwards to
  the interrupt controller, the timers, the DMA controller, the PPU clock, the audio unit, the wait state control and the keypad. A
  scheduler advances the devices by the cycles the CPU and the DMA controller consume; the DMA controller in turn reads and writes the
  same bus, and so the same devices.

  \<^bold>\<open>Conventions.\<close> Machine integers are words of their width (\<open>u8\<close> to \<open>u64\<close>, wrap-around included); signed arithmetic that the code
  widens is on \<open>int\<close>. \<open>'a throws\<close> is the option type of a computation that may throw: every checked array access (\<open>vec_at\<close>,
  \<open>vec_put\<close>), every explicit exception of the source and every division by zero is a \<open>None\<close>, and \<open>... \<noteq> None\<close> theorems say that the
  code does not throw. A \<open>std::optional\<close> result is an option inside. Objects are records passed and returned; references between objects
  are modelled by passing the record that holds both. Loops are recursive functions with termination proofs; the
  one use of fuel is \<open>multiply_loop\<close>.

  \<^bold>\<open>Theories.\<close>
  \<^item> \<open>Prelude\<close>: collections (\<open>wf_intros\<close>, \<open>word_nat\<close>), checked vectors, words read as numbers, monadic folds.
  \<^item> \<open>State_Hash\<close>: the FNV-1a state hasher (\<open>state_hash.hpp\<close>).
  \<^item> \<open>Interrupts\<close>: IE, IF and IME (\<open>interrupt_controller.cpp\<close>), refined to sets of interrupt sources.
  \<^item> \<open>Keypad\<close>, \<open>Wait_States\<close>: \<open>keypad.cpp\<close> and \<open>wait_state_control.cpp\<close> against the documented register meaning.
  \<^item> \<open>Address_Map\<close>: address classification, mirrors and access timing (the static part of \<open>memory_bus.cpp\<close>).
  \<^item> \<open>Ppu_Timing\<close>: the scanline clock (\<open>ppu_timing.cpp\<close>); the event-skipping loop equals the cycle-by-cycle machine.
  \<^item> \<open>Timers\<close>: the timer block (\<open>timers.cpp\<close>); a tick refines one pass per cycle, with prescalers, cascades and interrupts.
  \<^item> \<open>Cartridge_Save\<close>: SRAM, the flash command protocol and EEPROM (\<open>memory_bus.cpp\<close>).
  \<^item> \<open>Memory_Bus\<close>: the loads and stores with their fast paths, debug ports, ROM, resets and save states; \<open>Memory_Access\<close> proves their
    effect on RAM and states the contract \<open>io_facade\<close> of the I/O callbacks as a locale; \<open>Memory_Safety\<close> proves inside it that no access
    throws.
  \<^item> \<open>Ring_Buffer\<close>: the ring buffer of \<open>apu.cpp\<close> as an implementation of the locale \<open>bounded_queue\<close>.
  \<^item> \<open>Apu\<close> and \<open>Apu_Correct\<close>: the audio unit (\<open>apu.cpp\<close>): Direct Sound, PSG generators, mixer, clock; its FIFOs and its output
    buffer interpret \<open>bounded_queue\<close>.
  \<^item> \<open>Dma_Registers\<close>: the channel registers (\<open>dma_controller.cpp\<close>).
  \<^item> \<open>Io_Registers\<close> and \<open>Io_Facade\<close>: the register facade (\<open>io_registers.cpp\<close>) with all devices in the record \<open>devices\<close>; the facade
    interprets \<open>io_facade\<close>, which gives the safety of the bus with the real registers behind it.
  \<^item> \<open>Dma_Transfer\<close> and \<open>Dma_Correct\<close>: the transfers, over the pair of bus and devices; the channel is read back from the devices in every
    step because a transfer may overwrite its own registers.
  \<^item> \<open>Bios\<close>: the emulated BIOS services (\<open>bios.cpp\<close>), on signed integers with checked overflow.
  \<^item> \<open>Cpu_State\<close>, \<open>Cpu_Decode\<close>, \<open>Thumb_Decode\<close>, \<open>Cpu_Multiply\<close>, \<open>Cpu_Execute\<close>, \<open>Cpu_Memory\<close>, \<open>Cpu_Timing\<close>: the interpreter
    (\<open>arm7tdmi.cpp\<close>): the register file with its banks, the decoders (which throw on words they do not accept), the carry-save
    multiplier, execution without and with the bus, the cycle estimates and the step functions. The bus is the pair of memory and facade
    state, so that instructions run over any facade.
  \<^item> \<open>Cpu_Banks\<close>: one view of the register file per mode, and CPSR, exceptions and save states in terms of it; \<open>Cpu_Alu\<close>: data processing
    against a reference adder; \<open>Cpu_Shifter\<close>: the ARM and Thumb shifters against one reference; \<open>Cpu_Multiply_Correct\<close>: the
    multiplier ends; \<open>Cpu_Safety\<close> and \<open>Cpu_Bus_Safety\<close>: no instruction and no step throws, proved inside the locale \<open>io_facade\<close> and
    obtained for the real registers from its interpretation.
  \<^item> \<open>Ppu_Fetch\<close> and \<open>Ppu_Renderer\<close>: background, bitmap and sprite fetching (\<open>ppu_background.cpp\<close>, \<open>ppu_sprites.cpp\<close>) and the scanline
    renderer (\<open>ppu_renderer.cpp\<close>). \<open>Ppu_Compose\<close>: the two front layers that the renderer keeps while it goes through the layers are the
    first two of a sorted list, and the sprite row is the first opaque sprite in OAM order; \<open>Ppu_Scanline\<close>: whole lines against the
    reference; \<open>Ppu_Effects\<close>: blending and brightness as arithmetic on channels.
  \<^item> \<open>Scheduler_State\<close>: the state of the scheduler (\<open>core_scheduler.cpp\<close>): reset, save and load, fingerprint, the halt latch, the
    interrupt latency and the stack of pending BIOS work. \<open>Core_Session\<close> and \<open>Session_Correct\<close>: the whole machine
    (\<open>core_session.cpp\<close>).
  \<^item> \<open>Codec_Wire\<close>, \<open>Save_Codec\<close> and \<open>Save_Codec_Correct\<close>: the save state file (\<open>save_state_codec.cpp\<close>). The locale \<open>wire_format\<close> is the
    contract of a writer and its reader; every primitive and every section interprets it, and the round trip of the file follows.

  \<^bold>\<open>What the lemmas show.\<close> Each component has an invariant (\<open>ic_wf\<close>, \<open>timers_wf\<close>, \<open>ppu_wf\<close>, \<open>save_wf\<close>, \<open>mb_wf\<close>, \<open>apu_wf\<close>,
  \<open>dma_wf\<close>, \<open>devices_wf\<close>, \<open>machine_wf\<close>, \<open>cpu_wf\<close>) kept by its operations, the functional effect of its operations, and round trips of its save
  states; optimised routines (the event-skipping PPU and audio clocks, the fast paths of the bus) are equal to their reference
  definitions; ticks split (\<open>tick a\<close> then \<open>tick b\<close> is \<open>tick (a + b)\<close>); queues, interrupts and timers refine abstract specifications. Five
  theorems exhibit defects: \<open>zero_period_state_accepted\<close>, \<open>wave_ram_word_store_dropped\<close>, \<open>self_disabled_channel_not_restorable\<close>,
  \<open>cpu_load_state_mode_check\<close>, \<open>brightness_wraps\<close>.

  \<^bold>\<open>Termination.\<close> The loops of the source end because their bounds do: the unit loop of a transfer by the distance of the unit counter to
  the end of its 32-bit range, since the counter stays below the (possibly rewritten) count; the clock loops by the remaining cycles.
  The multiplier consumes eight bits a round and stops when the rest is zero (or all ones); a 33-bit operand needs at most four rounds, so
  the fuel of eight is never used up (\<open>multiply_long_output_returns\<close>).

  \<^bold>\<open>Not modelled.\<close> The stepping of the scheduler: its cycle accounting (fetch and prefetch timing, access stalls, interrupt latencies)
  is fitted to recorded traces, case by case, and has no specification to prove against. The desktop and Android front ends, the tools
  and the tests are host glue: files, threads, audio devices and windows.
\<close>

end
